(* ===== verification/Prelude.thy ===== *)
theory Prelude
  imports Main "HOL-Library.Char_ord" "HOL-Library.List_Lexorder" "HOL-Library.Sublist"
    "HOL-Library.AList"
begin

text \<open>
  Shared vocabulary of the development.

  Go strings are byte sequences, so they are \<^typ>\<open>string\<close> (a list of 8-bit characters), and Go's
  \<^verbatim>\<open><\<close> on strings, which \<^verbatim>\<open>sort.Strings\<close> uses, is the bytewise lexicographic order that
  \<^verbatim>\<open>Char_ord\<close> and \<^verbatim>\<open>List_Lexorder\<close> install.  A Go \<^verbatim>\<open>map[string]T\<close> is an association list
  with distinct keys (\<open>map_inv\<close>): Go iterates it in an unspecified order, and the models that walk
  a map prove that their result does not depend on that order.

  The theory holds the named collections \<open>go_simps\<close> (evaluation of the Go primitives) and
  \<open>effect_simps\<close> (what each stateful operation leaves alone), decimal printing, the string
  primitives of package \<^verbatim>\<open>strings\<close> used by the operator, and sorting and map lemmas.
\<close>

named_theorems go_simps
named_theorems effect_simps

subsection \<open>Decimal printing: the verb d of package fmt\<close>

definition digit :: "nat \<Rightarrow> char" where
  "digit n = char_of (48 + n)"

fun show_nat :: "nat \<Rightarrow> string" where
  "show_nat n = (if n < 10 then [digit n] else show_nat (n div 10) @ [digit (n mod 10)])"

declare show_nat.simps [simp del]

definition show_int :: "int \<Rightarrow> string" where
  "show_int i = (if i < 0 then ''-'' @ show_nat (nat (- i)) else show_nat (nat i))"

fun digits_value :: "string \<Rightarrow> nat" where
  "digits_value s = foldl (\<lambda>acc c. 10 * acc + (of_char c - 48)) 0 s"

lemma of_char_digit: "n < 10 \<Longrightarrow> (of_char (digit n) :: nat) = 48 + n"
  by (simp add: digit_def)

lemma digits_value_show_nat: "digits_value (show_nat n) = n"
proof (induction n rule: show_nat.induct)
  case (1 n)
  show ?case
  proof (cases "n < 10")
    case True
    then show ?thesis by (simp add: show_nat.simps [of n] of_char_digit)
  next
    case False
    with "1.IH" have "foldl (\<lambda>acc c. 10 * acc + (of_char c - 48)) 0 (show_nat (n div 10)) = n div 10"
      by simp
    with False show ?thesis by (simp add: show_nat.simps [of n] of_char_digit)
  qed
qed

lemma show_nat_inject [simp]: "show_nat m = show_nat n \<longleftrightarrow> m = n"
  by (metis digits_value_show_nat)

lemma show_nat_digits: "c \<in> set (show_nat n) \<Longrightarrow> \<exists>d < 10. c = digit d"
proof (induction n rule: show_nat.induct)
  case (1 n)
  have "n mod 10 < 10" by simp
  with 1 show ?case
    by (cases "n < 10") (auto simp: show_nat.simps [of n] simp del: mod_less_divisor)
qed

lemma show_nat_nonempty [simp]: "show_nat n \<noteq> []"
  by (subst show_nat.simps) simp

lemma hash_char_not_digit: "CHR ''#'' \<notin> set (show_nat n)"
proof
  assume "CHR ''#'' \<in> set (show_nat n)"
  then obtain d where d: "d < 10" "CHR ''#'' = digit d"
    using show_nat_digits by blast
  then have "(of_char (CHR ''#'') :: nat) = 48 + d"
    using of_char_digit by metis
  then show False by simp
qed

subsection \<open>Package strings\<close>

abbreviation has_prefix :: "string \<Rightarrow> string \<Rightarrow> bool" where
  "has_prefix s p \<equiv> prefix p s"

fun join :: "string \<Rightarrow> string list \<Rightarrow> string" where
  "join sep [] = []"
| "join sep [x] = x"
| "join sep (x # y # ys) = x @ sep @ join sep (y # ys)"

text \<open>
  The verb q of package fmt (\<^verbatim>\<open>strconv.Quote\<close>) on ASCII text: quotes and backslashes are escaped,
  control characters become their named or two-digit hexadecimal escapes.  Bytes from 0x80 on are
  copied, as Quote does for printable runes; the escapes of non-printable Unicode runes are not
  distinguished.
\<close>

definition hex_digit :: "nat \<Rightarrow> char" where
  "hex_digit n = (if n < 10 then digit n else char_of (87 + n))"

definition quote_char :: "char \<Rightarrow> string" where
  "quote_char c =
     (let n = of_char c :: nat in
      if c = CHR 0x22 then [CHR 0x5C, CHR 0x22]
      else if c = CHR 0x5C then [CHR 0x5C, CHR 0x5C]
      else if n = 7 then [CHR 0x5C, CHR ''a'']
      else if n = 8 then [CHR 0x5C, CHR ''b'']
      else if n = 9 then [CHR 0x5C, CHR ''t'']
      else if n = 10 then [CHR 0x5C, CHR ''n'']
      else if n = 11 then [CHR 0x5C, CHR ''v'']
      else if n = 12 then [CHR 0x5C, CHR ''f'']
      else if n = 13 then [CHR 0x5C, CHR ''r'']
      else if n < 32 \<or> n = 127
        then [CHR 0x5C, CHR ''x'', hex_digit (n div 16), hex_digit (n mod 16)]
      else [c])"

definition quote :: "string \<Rightarrow> string" where
  "quote s = [CHR 0x22] @ concat (map quote_char s) @ [CHR 0x22]"

definition is_upper :: "char \<Rightarrow> bool" where
  "is_upper c \<longleftrightarrow> CHR ''A'' \<le> c \<and> c \<le> CHR ''Z''"

definition is_lower :: "char \<Rightarrow> bool" where
  "is_lower c \<longleftrightarrow> CHR ''a'' \<le> c \<and> c \<le> CHR ''z''"

definition is_digit :: "char \<Rightarrow> bool" where
  "is_digit c \<longleftrightarrow> CHR ''0'' \<le> c \<and> c \<le> CHR ''9''"

definition lower_byte :: "char \<Rightarrow> char" where
  "lower_byte c = (if is_upper c then char_of (of_char c + (32::nat)) else c)"

definition equal_fold_ascii :: "string \<Rightarrow> string \<Rightarrow> bool" where
  "equal_fold_ascii s t \<longleftrightarrow> map lower_byte s = map lower_byte t"

lemma char_le_nat: "(c \<le> d) = ((of_char c :: nat) \<le> of_char d)"
  by (simp add: less_eq_char_def)

lemma char_less_nat: "(c < d) = ((of_char c :: nat) < of_char d)"
  by (simp add: less_char_def)

lemma lower_byte_lower: "is_upper c \<Longrightarrow> is_lower (lower_byte c)"
  by (auto simp: is_upper_def is_lower_def lower_byte_def char_le_nat)

lemma lower_not_upper: "is_lower c \<Longrightarrow> \<not> is_upper c"
  by (auto simp: is_upper_def is_lower_def char_le_nat)

lemma digit_not_upper: "is_digit c \<Longrightarrow> \<not> is_upper c"
  by (auto simp: is_upper_def is_digit_def char_le_nat)

lemma lower_byte_id [simp]: "\<not> is_upper c \<Longrightarrow> lower_byte c = c"
  by (simp add: lower_byte_def)

subsection \<open>Sorted duplicate-free key lists\<close>

definition sorted_set :: "string list \<Rightarrow> string list" where
  "sorted_set xs = sort (remdups xs)"

lemma set_sorted_set [simp]: "set (sorted_set xs) = set xs"
  by (simp add: sorted_set_def)

lemma sorted_sorted_set [simp]: "sorted (sorted_set xs)"
  by (simp add: sorted_set_def)

lemma distinct_sorted_set [simp]: "distinct (sorted_set xs)"
  by (simp add: sorted_set_def)

lemma sorted_set_cong: "set xs = set ys \<Longrightarrow> sorted_set xs = sorted_set ys"
  by (rule sorted_distinct_set_unique) simp_all

lemma sorted_set_Nil_iff [simp]: "sorted_set xs = [] \<longleftrightarrow> xs = []"
  by (metis set_empty set_sorted_set)

lemma sorted_set_list: "sorted_set xs = sorted_list_of_set (set xs)"
  by (simp add: sorted_set_def sorted_list_of_set_sort_remdups)

lemma sorted_set_image: "set xs = A \<Longrightarrow> sorted_set xs = sorted_list_of_set A"
  by (simp add: sorted_set_list)

text \<open>\<^verbatim>\<open>sort.Strings\<close> followed by \<^verbatim>\<open>slices.Compact\<close>.\<close>

lemma compact_sort: "remdups_adj (sort xs) = sorted_set (xs :: string list)"
proof (rule sorted_distinct_set_unique)
  have "sorted ys \<Longrightarrow> distinct (remdups_adj ys)" for ys :: "string list"
    by (induction ys rule: remdups_adj.induct) (auto dest: order_antisym)
  then show "distinct (remdups_adj (sort xs))" by simp
qed (simp_all add: sorted_set_def)

subsection \<open>Go maps as association lists\<close>

type_synonym 'v gomap = "(string \<times> 'v) list"

definition map_inv :: "'v gomap \<Rightarrow> bool" where
  "map_inv m \<longleftrightarrow> distinct (map fst m)"

abbreviation keys :: "'v gomap \<Rightarrow> string list" where
  "keys m \<equiv> map fst m"

definition map_put :: "string \<Rightarrow> 'v \<Rightarrow> 'v gomap \<Rightarrow> 'v gomap" where
  "map_put k v m = AList.update k v m"

definition map_del :: "string \<Rightarrow> 'v gomap \<Rightarrow> 'v gomap" where
  "map_del k m = filter (\<lambda>(k', v). k' \<noteq> k) m"

lemma map_inv_Nil [simp]: "map_inv []"
  by (simp add: map_inv_def)

lemma map_inv_put [simp]: "map_inv m \<Longrightarrow> map_inv (map_put k v m)"
  by (simp add: map_inv_def map_put_def distinct_update)

lemma keys_del: "keys (map_del k m) = filter (\<lambda>k'. k' \<noteq> k) (keys m)"
  by (induction m) (auto simp: map_del_def)

lemma map_inv_del [simp]: "map_inv m \<Longrightarrow> map_inv (map_del k m)"
  by (simp add: map_inv_def keys_del)

lemma map_of_put: "map_of (map_put k v m) = (map_of m)(k \<mapsto> v)"
  by (simp add: map_put_def update_conv')

lemma map_of_del: "map_of (map_del k m) = (map_of m)(k := None)"
  by (induction m) (auto simp: map_del_def fun_eq_iff)

lemma set_keys_put [simp]: "set (keys (map_put k v m)) = insert k (set (keys m))"
  by (metis dom_fun_upd dom_map_of_conv_image_fst list.set_map map_of_put option.distinct(1))

lemma image_fst_put [simp]: "fst ` set (map_put k v m) = insert k (fst ` set m)"
  using set_keys_put [of k v m] by simp

lemma set_keys_del [simp]: "set (keys (map_del k m)) = set (keys m) - {k}"
  by (auto simp: keys_del)

text \<open>Two lists that represent the same map have the same keys, hence the same sorted key list.\<close>

lemma sorted_keys_map_eq:
  "map_of m = map_of m' \<Longrightarrow> sorted_set (keys m) = sorted_set (keys m')"
  by (rule sorted_set_cong) (metis dom_map_of_conv_image_fst list.set_map)

subsection \<open>Canonical forms\<close>

text \<open>
  Several packages project arbitrary input onto a well-formed subset and leave well-formed input
  alone (name normalisation, requeue clamping, name sanitising).  The contract and what follows
  from it are stated once.
\<close>

locale canonical_form =
  fixes canon :: "'a \<Rightarrow> 'a"
    and ok :: "'a \<Rightarrow> bool"
  assumes canon_ok: "ok (canon x)"
    and ok_canon: "ok x \<Longrightarrow> canon x = x"
begin

lemma canon_idem: "canon (canon x) = canon x"
  by (simp add: canon_ok ok_canon)

lemma canon_fix_iff: "canon x = x \<longleftrightarrow> ok x"
  by (metis canon_ok ok_canon)

lemma range_canon: "range canon = {x. ok x}"
  by (auto simp: canon_ok intro: ok_canon [symmetric])

end

end
