(* ===== verification/Json_Value.thy ===== *)
theory Json_Value
  imports Prelude
begin

text \<open>
  JSON values as the operator holds them (\<^verbatim>\<open>map[string]any\<close> trees made by \<^verbatim>\<open>encoding/json\<close>), and
  the helpers of \<^verbatim>\<open>internal/controller/model_controller.go\<close> that work on them: canonical encoding
  for hashing, sorted keys, key-set difference.

  A number is represented by the text \<^verbatim>\<open>encoding/json\<close> prints for it: the operator only copies and
  prints numbers.  An object is an association list whose keys are distinct, since Go maps have one
  value per key; \<open>json_inv\<close> says so at every depth.
\<close>

datatype json =
    JNull
  | JBool bool
  | JNum string
  | JStr string
  | JArr "json list"
  | JObj "(string \<times> json) list"

fun json_inv :: "json \<Rightarrow> bool" and json_inv_list :: "json list \<Rightarrow> bool"
  and json_inv_fields :: "(string \<times> json) list \<Rightarrow> bool" where
  "json_inv (JArr vs) = json_inv_list vs"
| "json_inv (JObj m) = (map_inv m \<and> json_inv_fields m)"
| "json_inv _ = True"
| "json_inv_list [] = True"
| "json_inv_list (v # vs) = (json_inv v \<and> json_inv_list vs)"
| "json_inv_fields [] = True"
| "json_inv_fields ((k, v) # m) = (json_inv v \<and> json_inv_fields m)"

subsection \<open>String encoding of encoding/json\<close>

definition cont_byte :: "char \<Rightarrow> bool" where
  "cont_byte c \<longleftrightarrow> CHR 0x80 \<le> c \<and> c \<le> CHR 0xBF"

definition byte_in :: "char \<Rightarrow> char \<Rightarrow> char \<Rightarrow> bool" where
  "byte_in lo hi c \<longleftrightarrow> lo \<le> c \<and> c \<le> hi"

text \<open>Length in bytes of the UTF-8 sequence at the head of a string; 0 where decoding fails.\<close>

fun utf8_len :: "string \<Rightarrow> nat" where
  "utf8_len [] = 0"
| "utf8_len (a # s) =
     (if a < CHR 0x80 then 1
      else case s of [] \<Rightarrow> 0 | b # s' \<Rightarrow>
        if byte_in (CHR 0xC2) (CHR 0xDF) a then (if cont_byte b then 2 else 0)
        else case s' of [] \<Rightarrow> 0 | c # s'' \<Rightarrow>
          if byte_in (CHR 0xE0) (CHR 0xEF) a then
            (if cont_byte c \<and> cont_byte b \<and> (a = CHR 0xE0 \<longrightarrow> CHR 0xA0 \<le> b)
                \<and> (a = CHR 0xED \<longrightarrow> b \<le> CHR 0x9F) then 3 else 0)
          else case s'' of [] \<Rightarrow> 0 | d # _ \<Rightarrow>
            if byte_in (CHR 0xF0) (CHR 0xF4) a \<and> cont_byte b \<and> cont_byte c \<and> cont_byte d
                \<and> (a = CHR 0xF0 \<longrightarrow> CHR 0x90 \<le> b) \<and> (a = CHR 0xF4 \<longrightarrow> b \<le> CHR 0x8F) then 4 else 0)"

definition u00 :: "nat \<Rightarrow> string" where
  "u00 n = [CHR 0x5C] @ ''u00'' @ [hex_digit (n div 16), hex_digit (n mod 16)]"

definition escape_ascii :: "char \<Rightarrow> string" where
  "escape_ascii c =
     (let n = of_char c :: nat in
      if c = CHR 0x22 then [CHR 0x5C, CHR 0x22]
      else if c = CHR 0x5C then [CHR 0x5C, CHR 0x5C]
      else if n = 8 then [CHR 0x5C, CHR ''b'']
      else if n = 12 then [CHR 0x5C, CHR ''f'']
      else if n = 10 then [CHR 0x5C, CHR ''n'']
      else if n = 13 then [CHR 0x5C, CHR ''r'']
      else if n = 9 then [CHR 0x5C, CHR ''t'']
      else if n < 32 \<or> c = CHR ''<'' \<or> c = CHR ''>'' \<or> c = CHR ''&'' then u00 n
      else [c])"

function escape_string :: "string \<Rightarrow> string" where
  "escape_string s =
     (case s of [] \<Rightarrow> []
      | c # r \<Rightarrow>
        (let n = utf8_len s in
         if n = 0 then [CHR 0x5C] @ ''ufffd'' @ escape_string r
         else if n = 1 then escape_ascii c @ escape_string r
         else if take 3 s = [CHR 0xE2, CHR 0x80, CHR 0xA8] then [CHR 0x5C] @ ''u2028'' @ escape_string (drop 3 s)
         else if take 3 s = [CHR 0xE2, CHR 0x80, CHR 0xA9] then [CHR 0x5C] @ ''u2029'' @ escape_string (drop 3 s)
         else take n s @ escape_string (drop n s)))"
  by pat_completeness auto
termination
  by (relation "measure length") auto

declare escape_string.simps [simp del]

definition marshal_string :: "string \<Rightarrow> string" where
  "marshal_string s = [CHR 0x22] @ escape_string s @ [CHR 0x22]"

subsection \<open>canonicalMarshal, sortedKeys, setDiff\<close>

text \<open>
  \<^verbatim>\<open>canonicalMarshal\<close>: objects print their fields in sorted key order, arrays in index order, every
  other value as \<^verbatim>\<open>json.Marshal\<close> prints it.  The map lookup \<^verbatim>\<open>typed[k]\<close> is a lookup among the
  fields already encoded.
\<close>

fun canonicalMarshal :: "json \<Rightarrow> string"
  and canonical_list :: "json list \<Rightarrow> string list"
  and canonical_fields :: "(string \<times> json) list \<Rightarrow> (string \<times> string) list" where
  "canonicalMarshal (JObj m) =
     (let enc = canonical_fields m
      in ''{'' @ join '','' (map (\<lambda>k. marshal_string k @ '':'' @ the (map_of enc k)) (sort (keys m))) @ ''}'')"
| "canonicalMarshal (JArr vs) = ''['' @ join '','' (canonical_list vs) @ '']''"
| "canonicalMarshal (JStr s) = marshal_string s"
| "canonicalMarshal (JNum n) = n"
| "canonicalMarshal (JBool b) = (if b then ''true'' else ''false'')"
| "canonicalMarshal JNull = ''null''"
| "canonical_list [] = []"
| "canonical_list (v # vs) = canonicalMarshal v # canonical_list vs"
| "canonical_fields [] = []"
| "canonical_fields ((k, v) # m) = (k, canonicalMarshal v) # canonical_fields m"

definition canonicalJSON :: "json \<Rightarrow> string" where
  "canonicalJSON v = canonicalMarshal v"

definition sortedKeys :: "'v gomap \<Rightarrow> string list" where
  "sortedKeys m = (if length m = 0 then [] else sort (keys m))"

definition setDiff :: "string list \<Rightarrow> string list \<Rightarrow> string list" where
  "setDiff a b = filter (\<lambda>k. k \<notin> set b) a"

subsection \<open>Key order does not matter\<close>

text \<open>
  \<open>json_eq\<close> relates two values that denote the same Go value: equal up to the order in which an
  association list happens to hold the fields of an object.
\<close>

inductive json_eq :: "json \<Rightarrow> json \<Rightarrow> bool" where
  eq_refl: "json_eq v v"
| eq_arr: "list_all2 json_eq vs ws \<Longrightarrow> json_eq (JArr vs) (JArr ws)"
| eq_obj: "map_inv m \<Longrightarrow> map_inv m' \<Longrightarrow> set (keys m) = set (keys m') \<Longrightarrow>
     (\<And>k v w. map_of m k = Some v \<Longrightarrow> map_of m' k = Some w \<Longrightarrow> json_eq v w) \<Longrightarrow>
     json_eq (JObj m) (JObj m')"

lemma canonical_list_map: "canonical_list vs = map canonicalMarshal vs"
  by (induction vs) auto

lemma canonical_fields_map: "canonical_fields m = map (\<lambda>(k, v). (k, canonicalMarshal v)) m"
  by (induction m) auto

lemma map_of_canonical_fields: "map_of (canonical_fields m) k = map_option canonicalMarshal (map_of m k)"
  by (simp add: canonical_fields_map map_of_map)

lemma sort_keys_eq:
  fixes m :: "'v gomap" and m' :: "'w gomap"
  assumes "map_inv m" and "map_inv m'" and "set (keys m) = set (keys m')"
  shows "sort (keys m) = sort (keys m')"
  by (rule sorted_distinct_set_unique) (use assms in \<open>simp_all add: map_inv_def\<close>)

lemma canonicalMarshal_json_eq: "json_eq v w \<Longrightarrow> canonicalMarshal v = canonicalMarshal w"
proof (induction rule: json_eq.induct)
  case (eq_refl v)
  show ?case ..
next
  case (eq_arr vs ws)
  then have "canonical_list vs = canonical_list ws"
    by (induction rule: list_all2_induct) auto
  then show ?case by simp
next
  case (eq_obj m m')
  have "the (map_of (canonical_fields m) k) = the (map_of (canonical_fields m') k)"
    if "k \<in> set (keys m)" for k
  proof -
    from that obtain v where v: "map_of m k = Some v"
      by (metis domD dom_map_of_conv_image_fst list.set_map)
    from that eq_obj.hyps(3) obtain w where w: "map_of m' k = Some w"
      by (metis domD dom_map_of_conv_image_fst list.set_map)
    from eq_obj.IH [OF v w] v w show ?thesis
      by (simp add: map_of_canonical_fields)
  qed
  then have "map (\<lambda>k. marshal_string k @ '':'' @ the (map_of (canonical_fields m) k)) (sort (keys m))
      = map (\<lambda>k. marshal_string k @ '':'' @ the (map_of (canonical_fields m') k)) (sort (keys m))"
    by (intro map_cong refl) simp
  moreover have "sort (keys m) = sort (keys m')"
    using eq_obj.hyps by (intro sort_keys_eq) auto
  ultimately show ?case unfolding canonicalMarshal.simps Let_def by metis
qed

lemma setDiff_empty_iff: "setDiff a b = [] \<longleftrightarrow> set a \<subseteq> set b"
  by (auto simp: setDiff_def filter_empty_conv)

lemma set_sortedKeys [simp]: "set (sortedKeys m) = set (keys m)"
  by (simp add: sortedKeys_def)

text \<open>
  The canonical encoding that feeds the rendered hash depends only on the JSON value, not on
  the order in which Go's map iteration produces an object's fields.
\<close>

theorem canonicalJSON_order_independent:
  assumes "json_eq v w"
  shows "canonicalJSON v = canonicalJSON w"
  using assms by (simp add: canonicalJSON_def canonicalMarshal_json_eq)

theorem canonicalJSON_order_independent_witness:
  "canonicalJSON (JObj [(''b'', JNum ''1''), (''a'', JStr ''<x>'')])
   = canonicalJSON (JObj [(''a'', JStr ''<x>''), (''b'', JNum ''1'')])"
proof -
  have "json_eq (JObj [(''b'', JNum ''1''), (''a'', JStr ''<x>'')])
      (JObj [(''a'', JStr ''<x>''), (''b'', JNum ''1'')])"
    by (rule json_eq.eq_obj) (auto simp: map_inv_def intro: json_eq.eq_refl split: if_splits)
  then show ?thesis by (rule canonicalJSON_order_independent)
qed

text \<open>
  Key-shrinkage detection: the persisted keys minus the desired keys are empty exactly when no
  persisted key disappeared, and otherwise list exactly the removed keys.
\<close>

theorem setDiff_sortedKeys:
  "set (setDiff persisted (sortedKeys m)) = set persisted - set (keys m)
   \<and> (setDiff persisted (sortedKeys m) = [] \<longleftrightarrow> set persisted \<subseteq> set (keys m))"
  unfolding setDiff_empty_iff set_sortedKeys by (simp add: setDiff_def set_diff_eq)

end
