(* ===== verification/Kube.thy ===== *)
theory Kube
  imports Prelude
begin

text \<open>
  The Kubernetes vocabulary the operator shares between its controllers: object metadata, status
  conditions, API errors, events, and reconcile results.

  The condition helpers of k8s.io/apimachinery and the finalizer helpers of controller-runtime are
  not part of the repository.  They are the parameter \<open>klib\<close>; what the operator relies on, their
  documented behaviour, is the predicate \<open>klib_laws\<close>, which theorems that need it name as a
  hypothesis.  \<open>klib_std\<close> is one concrete instance, used in witnesses.
\<close>

subsection \<open>Metadata and conditions\<close>

record OwnerReference =
  or_Kind :: string
  or_Name :: string
  or_Controller :: "bool option"

record ObjectMeta =
  Namespace :: string
  Name :: string
  Generation :: int
  DeletionTimestamp :: bool  \<comment> \<open>set or zero; the operator never reads the instant\<close>
  Finalizers :: "string list"
  Annotations :: "string gomap"
  OwnerReferences :: "OwnerReference list"

datatype ConditionStatus = ConditionTrue | ConditionFalse | ConditionUnknown

record Condition =
  Type :: string
  Status :: ConditionStatus
  Reason :: string
  Message :: string
  ObservedGeneration :: int

datatype kube_error = KNotFound | KConflict | KAlreadyExists | KOther string

fun IsNotFoundK :: "kube_error \<Rightarrow> bool" where
  "IsNotFoundK KNotFound = True"
| "IsNotFoundK _ = False"

fun IsConflict :: "kube_error \<Rightarrow> bool" where
  "IsConflict KConflict = True"
| "IsConflict _ = False"

fun IsAlreadyExists :: "kube_error \<Rightarrow> bool" where
  "IsAlreadyExists KAlreadyExists = True"
| "IsAlreadyExists _ = False"

datatype EventType = EventTypeNormal | EventTypeWarning

subsection \<open>The library parameter\<close>

record klib =
  FindStatusCondition :: "Condition list \<Rightarrow> string \<Rightarrow> Condition option"
  SetStatusCondition :: "Condition list \<Rightarrow> Condition \<Rightarrow> Condition list"
  RemoveStatusCondition :: "Condition list \<Rightarrow> string \<Rightarrow> Condition list"
  ContainsFinalizer :: "string list \<Rightarrow> string \<Rightarrow> bool"
  AddFinalizer :: "string list \<Rightarrow> string \<Rightarrow> string list"
  RemoveFinalizer :: "string list \<Rightarrow> string \<Rightarrow> string list"

definition klib_laws :: "klib \<Rightarrow> bool" where
  "klib_laws K \<longleftrightarrow>
     (\<forall>cs c. FindStatusCondition K (SetStatusCondition K cs c) (Type c) = Some c) \<and>
     (\<forall>cs c t. t \<noteq> Type c \<longrightarrow>
        FindStatusCondition K (SetStatusCondition K cs c) t = FindStatusCondition K cs t) \<and>
     (\<forall>cs t. FindStatusCondition K (RemoveStatusCondition K cs t) t = None) \<and>
     (\<forall>cs t t'. t \<noteq> t' \<longrightarrow>
        FindStatusCondition K (RemoveStatusCondition K cs t) t' = FindStatusCondition K cs t') \<and>
     (\<forall>cs t c. FindStatusCondition K cs t = Some c \<longrightarrow> Type c = t) \<and>
     (\<forall>fs f. ContainsFinalizer K fs f \<longleftrightarrow> f \<in> set fs) \<and>
     (\<forall>fs f. set (AddFinalizer K fs f) = insert f (set fs)) \<and>
     (\<forall>fs f. set (RemoveFinalizer K fs f) = set fs - {f})"

lemma klib_lawsD:
  assumes "klib_laws K"
  shows "FindStatusCondition K (SetStatusCondition K cs c) (Type c) = Some c"
    and "t \<noteq> Type c \<Longrightarrow> FindStatusCondition K (SetStatusCondition K cs c) t = FindStatusCondition K cs t"
    and "FindStatusCondition K (RemoveStatusCondition K cs t) t = None"
    and "t \<noteq> t' \<Longrightarrow> FindStatusCondition K (RemoveStatusCondition K cs t) t' = FindStatusCondition K cs t'"
    and "FindStatusCondition K cs t = Some c \<Longrightarrow> Type c = t"
    and "ContainsFinalizer K fs f \<longleftrightarrow> f \<in> set fs"
    and "set (AddFinalizer K fs f) = insert f (set fs)"
    and "set (RemoveFinalizer K fs f) = set fs - {f}"
  using assms unfolding klib_laws_def by (elim conjE; simp)+

definition klib_std :: klib where
  "klib_std = \<lparr>
     FindStatusCondition = (\<lambda>cs t. find (\<lambda>c. Type c = t) cs),
     SetStatusCondition = (\<lambda>cs c. filter (\<lambda>d. Type d \<noteq> Type c) cs @ [c]),
     RemoveStatusCondition = (\<lambda>cs t. filter (\<lambda>d. Type d \<noteq> t) cs),
     ContainsFinalizer = (\<lambda>fs f. f \<in> set fs),
     AddFinalizer = (\<lambda>fs f. if f \<in> set fs then fs else fs @ [f]),
     RemoveFinalizer = (\<lambda>fs f. filter (\<lambda>g. g \<noteq> f) fs)\<rparr>"

lemma find_append: "find P (xs @ ys) = (case find P xs of None \<Rightarrow> find P ys | Some x \<Rightarrow> Some x)"
  by (induction xs) auto

lemma find_filter_neq:
  "t \<noteq> t' \<Longrightarrow> find (\<lambda>c. Type c = t') (filter (\<lambda>d. Type d \<noteq> t) cs) = find (\<lambda>c. Type c = t') cs"
  by (induction cs) auto

lemma find_filter_self: "find (\<lambda>c. Type c = t) (filter (\<lambda>d. Type d \<noteq> t) cs) = None"
  by (auto simp: find_None_iff)

lemma klib_std_laws: "klib_laws klib_std"
proof -
  have "find (\<lambda>c. Type c = t) cs = Some c \<Longrightarrow> Type c = t" for cs c t
    by (auto simp: find_Some_iff)
  then show ?thesis
    by (auto simp: klib_laws_def klib_std_def find_append find_filter_neq find_filter_self
        split: option.splits)
qed

subsection \<open>Reconcile results\<close>

record Result =
  RequeueAfter :: int  \<comment> \<open>a \<^verbatim>\<open>time.Duration\<close> in nanoseconds\<close>
  Requeue :: bool

abbreviation requeue_after :: "int \<Rightarrow> Result" where
  "requeue_after d \<equiv> \<lparr>RequeueAfter = d, Requeue = False\<rparr>"

abbreviation no_requeue :: Result where
  "no_requeue \<equiv> requeue_after 0"

definition second :: int where
  "second = 1000000000"

definition minute :: int where
  "minute = 60 * second"

definition hour :: int where
  "hour = 60 * minute"

lemmas durations = hour_def minute_def second_def

end
