(* ===== verification/Litellm_Client.thy ===== *)
theory Litellm_Client
  imports Json_Value Kube
begin

text \<open>
  The core of package \<^verbatim>\<open>internal/litellm\<close>: typed errors (\<^verbatim>\<open>errors.go\<close>), the central request path
  (\<^verbatim>\<open>client.go\<close>, \<^verbatim>\<open>readbody.go\<close>), the model helpers (\<^verbatim>\<open>model.go\<close>) and the wire types they use
  (\<^verbatim>\<open>types.go\<close>).

  LiteLLM is a service outside the repository.  It is the parameter \<open>http\<close>, a step function from a
  world of arbitrary type and a request to what \<^verbatim>\<open>http.Client.Do\<close> and the body read produce.  Every
  request the client attempts is appended to the log of the environment, so theorems can speak of
  what was sent and in which order.  A response body is its raw bytes together with what
  \<^verbatim>\<open>encoding/json\<close> parses them to (\<open>None\<close> if it is not JSON).  Decoding into a Go struct is
  written out: an absent or null field gives the zero value, a value of the wrong type is an error,
  every key equal to the field's tag up to ASCII case assigns the field, so the last one counts.
\<close>

subsection \<open>Effects and environment\<close>

datatype effect =
    Http string string "json option"
  | Event EventType string string
  | Metric string "string list"
  | StatusWrite Condition string  \<comment> \<open>condition and tracked remote id written\<close>
  | ObjectUpdate "string list"  \<comment> \<open>the finalizers of the object written\<close>

record 'w env =
  world :: 'w
  log :: "effect list"

definition emit :: "effect \<Rightarrow> ('w, 'z) env_scheme \<Rightarrow> ('w, 'z) env_scheme" where
  "emit e s = s\<lparr>log := log s @ [e]\<rparr>"

fun is_http :: "effect \<Rightarrow> bool" where
  "is_http (Http _ _ _) = True"
| "is_http _ = False"

text \<open>A mutating request: anything but a GET.\<close>

fun is_mutation :: "effect \<Rightarrow> bool" where
  "is_mutation (Http m _ _) = (m \<noteq> ''GET'')"
| "is_mutation _ = False"

record http_response =
  rs_status :: int
  rs_raw :: string
  rs_json :: "json option"

datatype do_result =
    BuildFailed string
  | LimiterFailed string
  | TransportFailed string
  | BodyReadFailed string
  | Responded http_response

type_synonym 'w http = "'w \<Rightarrow> string \<Rightarrow> string \<Rightarrow> json option \<Rightarrow> do_result \<times> 'w"

subsection \<open>Typed errors\<close>

record RejectedFields =
  rej_Method :: string
  rej_Path :: string
  rej_Status :: int
  rej_Code :: string
  rej_Type :: string
  rej_Message :: string

datatype lerror =
    ErrNotFound
  | Auth401Error string string
  | RejectedError RejectedFields
  | ErrResponseTooLarge
  | ErrText string
  | Wrap string lerror  \<comment> \<open>\<^verbatim>\<open>fmt.Errorf\<close> with a \<^verbatim>\<open>%w\<close> verb at the end\<close>

fun lerror_text :: "lerror \<Rightarrow> string" where
  "lerror_text ErrNotFound = ''litellm: not found''"
| "lerror_text (Auth401Error path body) = ''litellm: 401 unauthorized on '' @ path"
| "lerror_text (RejectedError r) =
     ''litellm: '' @ show_int (rej_Status r) @ '' on '' @ rej_Method r @ '' '' @ rej_Path r
       @ '' (code='' @ rej_Code r @ '')''"
| "lerror_text ErrResponseTooLarge = ''litellm: response exceeded read cap''"
| "lerror_text (ErrText s) = s"
| "lerror_text (Wrap p e) = p @ '': '' @ lerror_text e"

fun as_auth401 :: "lerror \<Rightarrow> string option" where
  "as_auth401 (Auth401Error path _) = Some path"
| "as_auth401 (Wrap _ e) = as_auth401 e"
| "as_auth401 _ = None"

fun as_rejected :: "lerror \<Rightarrow> RejectedFields option" where
  "as_rejected (RejectedError r) = Some r"
| "as_rejected (Wrap _ e) = as_rejected e"
| "as_rejected _ = None"

fun is_ErrNotFound :: "lerror \<Rightarrow> bool" where
  "is_ErrNotFound ErrNotFound = True"
| "is_ErrNotFound (Wrap _ e) = is_ErrNotFound e"
| "is_ErrNotFound _ = False"

definition IsNotFound :: "lerror \<Rightarrow> bool" where
  "IsNotFound err \<longleftrightarrow> is_ErrNotFound err \<or> (\<exists>r. as_rejected err = Some r \<and> rej_Status r = 404)"

lemma IsNotFound_code [code]:
  "IsNotFound err = (is_ErrNotFound err \<or> (case as_rejected err of None \<Rightarrow> False | Some r \<Rightarrow> rej_Status r = 404))"
  by (auto simp: IsNotFound_def split: option.splits)

subsection \<open>Decoding into Go values\<close>

definition struct_field :: "string \<Rightarrow> json gomap \<Rightarrow> json option" where
  "struct_field tag m = map_option snd (find (\<lambda>(k, v). equal_fold_ascii k tag) (rev m))"

fun dec_string :: "json option \<Rightarrow> string option" where
  "dec_string None = Some ''''"
| "dec_string (Some JNull) = Some ''''"
| "dec_string (Some (JStr s)) = Some s"
| "dec_string _ = None"

fun dec_bool :: "json option \<Rightarrow> bool option" where
  "dec_bool None = Some False"
| "dec_bool (Some JNull) = Some False"
| "dec_bool (Some (JBool b)) = Some b"
| "dec_bool _ = None"

fun dec_object :: "json option \<Rightarrow> json gomap option" where
  "dec_object None = Some []"
| "dec_object (Some JNull) = Some []"
| "dec_object (Some (JObj m)) = Some m"
| "dec_object _ = None"

fun dec_array :: "json option \<Rightarrow> json list option" where
  "dec_array None = Some []"
| "dec_array (Some JNull) = Some []"
| "dec_array (Some (JArr vs)) = Some vs"
| "dec_array _ = None"

fun dec_all :: "(json \<Rightarrow> 'a option) \<Rightarrow> json list \<Rightarrow> 'a list option" where
  "dec_all f [] = Some []"
| "dec_all f (v # vs) =
     (case f v of None \<Rightarrow> None | Some x \<Rightarrow> map_option (\<lambda>xs. x # xs) (dec_all f vs))"

definition kindUnparsed :: string where
  "kindUnparsed = ''unparsed''"

text \<open>The envelope \<^verbatim>\<open>litellmErrorEnvelope\<close>: type, message and code; \<open>None\<close> is an Unmarshal error.\<close>

definition decode_envelope :: "json option \<Rightarrow> (string \<times> string \<times> string) option" where
  "decode_envelope j =
     (if j = None then None else
      case dec_object j of None \<Rightarrow> None
      | Some m \<Rightarrow>
        (case dec_object (struct_field ''error'' m) of None \<Rightarrow> None
         | Some e \<Rightarrow>
           (case (dec_string (struct_field ''type'' e), dec_string (struct_field ''message'' e),
                  dec_string (struct_field ''code'' e)) of
              (Some t, Some msg, Some c) \<Rightarrow> Some (t, msg, c)
            | _ \<Rightarrow> None)))"

definition processLitellmError :: "http_response \<Rightarrow> string \<times> string \<times> string" where
  "processLitellmError resp =
     (let raw = rs_raw resp; capped = (if length raw > 512 then take 512 raw else raw) in
      case decode_envelope (rs_json resp) of
        None \<Rightarrow> (kindUnparsed, capped, '''')
      | Some (t, msg, c) \<Rightarrow>
          if t = '''' \<and> c = '''' \<and> msg = '''' then (kindUnparsed, capped, '''') else (t, msg, c))"

subsection \<open>The request path\<close>

definition errEnvelopeCap :: nat where
  "errEnvelopeCap = 2 ^ 20"

definition listBodyCap :: nat where
  "listBodyCap = 16 * 2 ^ 20"

definition is2xx :: "int \<Rightarrow> bool" where
  "is2xx st \<longleftrightarrow> 200 \<le> st \<and> st < 300"

definition readCappedBody :: "http_response \<Rightarrow> nat \<Rightarrow> lerror + http_response" where
  "readCappedBody resp capBytes =
     (if length (rs_raw resp) > capBytes then Inl ErrResponseTooLarge else Inr resp)"

definition or_status :: "string \<Rightarrow> int \<Rightarrow> string" where
  "or_status code st = (if code = '''' then show_int st else code)"

definition rejected_error :: "string \<Rightarrow> string \<Rightarrow> http_response \<Rightarrow> lerror" where
  "rejected_error meth path resp =
     (let (kind, msg, code) = processLitellmError resp
      in RejectedError \<lparr>rej_Method = meth, rej_Path = path, rej_Status = rs_status resp,
           rej_Code = or_status code (rs_status resp),
           rej_Type = (if kind = kindUnparsed then '''' else kind), rej_Message = msg\<rparr>)"

definition classify_response :: "string \<Rightarrow> string \<Rightarrow> http_response \<Rightarrow> lerror + http_response" where
  "classify_response meth path resp =
     (let st = rs_status resp in
      if is2xx st then Inr resp
      else if st = 401 then Inl (Auth401Error path (rs_raw resp))
      else if st = 404 \<and> equal_fold_ascii meth ''DELETE'' then Inr resp
      else if 400 \<le> st \<and> st < 500 then Inl (rejected_error meth path resp)
      else (let (_, _, code) = processLitellmError resp
            in Inl (ErrText (''litellm: '' @ show_int st @ '' on '' @ meth @ '' '' @ path
                 @ '' (code='' @ or_status code st @ '', transient)''))))"

definition response_of :: "string \<Rightarrow> string \<Rightarrow> do_result \<Rightarrow> lerror + http_response" where
  "response_of meth path r =
     (case r of
        BuildFailed e \<Rightarrow> Inl (Wrap (''litellm: build '' @ meth @ '' '' @ path) (ErrText e))
      | LimiterFailed e \<Rightarrow> Inl (Wrap (''litellm: '' @ meth @ '' '' @ path @ '': rate limiter wait'') (ErrText e))
      | TransportFailed e \<Rightarrow> Inl (Wrap (''litellm: '' @ meth @ '' '' @ path @ '': transport error'') (ErrText e))
      | BodyReadFailed e \<Rightarrow>
          Inl (Wrap (''litellm: '' @ meth @ '' '' @ path) (Wrap ''litellm: read response'' (ErrText e)))
      | Responded resp \<Rightarrow>
          (case readCappedBody resp (if is2xx (rs_status resp) then listBodyCap else errEnvelopeCap) of
             Inl e \<Rightarrow> Inl (Wrap (''litellm: '' @ meth @ '' '' @ path) e)
           | Inr resp \<Rightarrow> classify_response meth path resp))"

definition makeRequest ::
  "'w http \<Rightarrow> string \<Rightarrow> string \<Rightarrow> json option \<Rightarrow> ('w, 'z) env_scheme
   \<Rightarrow> (lerror + http_response) \<times> ('w, 'z) env_scheme" where
  "makeRequest http meth path body s =
     (let (r, w) = http (world s) meth path body;
          s = emit (Http meth path body) (s\<lparr>world := w\<rparr>)
      in (response_of meth path r, s))"

subsection \<open>Escaping of package net/url\<close>

definition unreserved :: "char \<Rightarrow> bool" where
  "unreserved c \<longleftrightarrow> is_upper c \<or> is_lower c \<or> is_digit c \<or> c \<in> set ''-_.~''"

definition upper_hex :: "nat \<Rightarrow> char" where
  "upper_hex n = (if n < 10 then digit n else char_of (55 + n))"

definition percent :: "char \<Rightarrow> string" where
  "percent c = [CHR 0x25, upper_hex (of_char c div 16), upper_hex (of_char c mod 16)]"

definition QueryEscape :: "string \<Rightarrow> string" where
  "QueryEscape s =
     concat (map (\<lambda>c. if unreserved c then [c] else if c = CHR '' '' then ''+'' else percent c) s)"

definition PathEscape :: "string \<Rightarrow> string" where
  "PathEscape s =
     concat (map (\<lambda>c. if unreserved c \<or> c \<in> set ''$&+=:@'' then [c] else percent c) s)"

subsection \<open>The contract of the request path\<close>

text \<open>
  What every per-domain helper relies on: one attempt per call, success only on 2xx (or a 404 on a
  DELETE), a typed 401 that carries the path, a typed rejection for every other 4xx, and no
  not-found sentinel from the request path itself.
\<close>

locale request_path =
  fixes mk :: "string \<Rightarrow> string \<Rightarrow> json option \<Rightarrow> 's \<Rightarrow> (lerror + http_response) \<times> 's"
    and sent :: "'s \<Rightarrow> effect list"
  assumes one_attempt: "sent (snd (mk m p b s)) = sent s @ [Http m p b]"
    and ok_status: "fst (mk m p b s) = Inr r \<Longrightarrow>
      is2xx (rs_status r) \<or> rs_status r = 404 \<and> equal_fold_ascii m ''DELETE''"
    and auth_path: "fst (mk m p b s) = Inl e \<Longrightarrow> as_auth401 e = Some q \<Longrightarrow> q = p"
    and rejected_status: "fst (mk m p b s) = Inl e \<Longrightarrow> as_rejected e = Some f \<Longrightarrow>
      400 \<le> rej_Status f \<and> rej_Status f < 500 \<and> rej_Status f \<noteq> 401"
    and auth_not_rejected: "fst (mk m p b s) = Inl e \<Longrightarrow> as_auth401 e \<noteq> None \<Longrightarrow> as_rejected e = None"
    and no_sentinel: "fst (mk m p b s) = Inl e \<Longrightarrow> \<not> is_ErrNotFound e"
begin

lemma not_found_rejected:
  "fst (mk m p b s) = Inl e \<Longrightarrow> IsNotFound e \<longleftrightarrow> (\<exists>r. as_rejected e = Some r \<and> rej_Status r = 404)"
  using no_sentinel by (auto simp: IsNotFound_def)

lemma auth_not_found: "fst (mk m p b s) = Inl e \<Longrightarrow> as_auth401 e \<noteq> None \<Longrightarrow> \<not> IsNotFound e"
  using auth_not_rejected not_found_rejected by fastforce

lemma get_ok_2xx: "fst (mk ''GET'' p b s) = Inr r \<Longrightarrow> is2xx (rs_status r)"
  using ok_status by (fastforce simp: equal_fold_ascii_def)

end

lemma response_of_Inr:
  "response_of m p r = Inr resp \<Longrightarrow>
   r = Responded resp \<and> (is2xx (rs_status resp) \<or> rs_status resp = 404 \<and> equal_fold_ascii m ''DELETE'')"
  by (auto simp: response_of_def classify_response_def readCappedBody_def Let_def
      split: do_result.splits if_splits prod.splits)

lemma response_of_Inl:
  assumes "response_of m p r = Inl e"
  shows "as_auth401 e = Some q \<Longrightarrow> q = p \<and> as_rejected e = None"
    and "as_rejected e = Some f \<Longrightarrow> 400 \<le> rej_Status f \<and> rej_Status f < 500 \<and> rej_Status f \<noteq> 401"
    and "\<not> is_ErrNotFound e"
  using assms
  by (auto simp: response_of_def classify_response_def readCappedBody_def rejected_error_def Let_def
      split: do_result.splits if_splits prod.splits)

lemma makeRequest_parts:
  "fst (makeRequest http m p b s) = response_of m p (fst (http (world s) m p b))"
  "log (snd (makeRequest http m p b s)) = log s @ [Http m p b]"
  "world (snd (makeRequest http m p b s)) = snd (http (world s) m p b)"
  "env.more (snd (makeRequest http m p b s)) = env.more s"
  by (simp_all add: makeRequest_def emit_def split: prod.split)

interpretation req: request_path "makeRequest http" log for http
proof
  fix m p b s e q r
  show "log (snd (makeRequest http m p b s)) = log s @ [Http m p b]"
    by (rule makeRequest_parts)
  show "fst (makeRequest http m p b s) = Inr r \<Longrightarrow>
      is2xx (rs_status r) \<or> rs_status r = 404 \<and> equal_fold_ascii m ''DELETE''"
    using response_of_Inr by (metis makeRequest_parts(1))
  assume e: "fst (makeRequest http m p b s) = Inl e"
  note inl = response_of_Inl [OF e [unfolded makeRequest_parts]]
  show "as_auth401 e = Some q \<Longrightarrow> q = p" using inl(1) by blast
  show "as_auth401 e \<noteq> None \<Longrightarrow> as_rejected e = None" using inl(1) by blast
  show "\<not> is_ErrNotFound e" by (rule inl(3))
next
  fix m p b s e r
  assume "fst (makeRequest http m p b s) = Inl e" and "as_rejected e = Some r"
  then show "400 \<le> rej_Status r \<and> rej_Status r < 500 \<and> rej_Status r \<noteq> 401"
    using response_of_Inl(2) by (metis makeRequest_parts(1))
qed

subsection \<open>Properties\<close>



text \<open>
  Error texts, which reach logs and cluster-readable status, carry nothing of the response body
  but the envelope's code: two answers with the same status and the same parsed code give the same
  text on every error path of the classification.
\<close>

theorem error_text_hides_body:
  assumes "rs_status r1 = rs_status r2"
    and "snd (snd (processLitellmError r1)) = snd (snd (processLitellmError r2))"
    and "classify_response m p r1 = Inl e1" and "classify_response m p r2 = Inl e2"
  shows "lerror_text e1 = lerror_text e2"
  using assms
  by (auto simp: classify_response_def rejected_error_def Let_def split: if_splits prod.splits)

theorem error_text_hides_body_witness:
  "lerror_text (rejected_error ''POST'' ''/model/new'' \<lparr>rs_status = 400, rs_raw = ''sk-secret'', rs_json = None\<rparr>)
   = lerror_text (rejected_error ''POST'' ''/model/new'' \<lparr>rs_status = 400, rs_raw = ''other'', rs_json = None\<rparr>)"
  by (rule error_text_hides_body
      [of "\<lparr>rs_status = 400, rs_raw = ''sk-secret'', rs_json = None\<rparr>"
          "\<lparr>rs_status = 400, rs_raw = ''other'', rs_json = None\<rparr>" "''POST''" "''/model/new''"])
    (simp_all add: classify_response_def is2xx_def Let_def processLitellmError_def decode_envelope_def)

end
