(* ===== verification/Litellm_Model.thy ===== *)
theory Litellm_Model
  imports Litellm_Client
begin

text \<open>
  The model endpoints of the LiteLLM client: wire types of \<^verbatim>\<open>internal/litellm/types.go\<close> with their
  JSON encoding, and \<^verbatim>\<open>internal/litellm/model.go\<close>.

  A Go map that may be nil is an option: \<open>None\<close> is the nil map, which \<^verbatim>\<open>encoding/json\<close> prints as
  \<^verbatim>\<open>null\<close>.
\<close>

subsection \<open>model\_info with inlined extra keys\<close>

record ModelInfo =
  mi_ID :: string
  mi_DBModel :: bool
  mi_UpdatedAt :: string
  mi_UpdatedBy :: string
  mi_CreatedAt :: string
  mi_CreatedBy :: string
  mi_BaseModel :: string
  mi_Tier :: string
  mi_TeamID :: string
  mi_TeamPublicModelName :: string
  mi_Extra :: "json gomap"

definition zero_ModelInfo :: ModelInfo where
  "zero_ModelInfo = \<lparr>mi_ID = '''', mi_DBModel = False, mi_UpdatedAt = '''', mi_UpdatedBy = '''', mi_CreatedAt = '''',
     mi_CreatedBy = '''', mi_BaseModel = '''', mi_Tier = '''', mi_TeamID = '''', mi_TeamPublicModelName = '''',
     mi_Extra = []\<rparr>"

definition modelInfoTypedKeys :: "string list" where
  "modelInfoTypedKeys = [''id'', ''db_model'', ''updated_at'', ''updated_by'', ''created_at'',
     ''created_by'', ''base_model'', ''tier'', ''team_id'', ''team_public_model_name'']"

definition omitempty :: "string \<Rightarrow> string \<Rightarrow> json gomap" where
  "omitempty tag s = (if s = '''' then [] else [(tag, JStr s)])"

definition strings_json :: "string list \<Rightarrow> json" where
  "strings_json xs = JArr (map JStr xs)"

definition omitmap :: "string \<Rightarrow> json gomap option \<Rightarrow> json gomap" where
  "omitmap tag m = (case m of None \<Rightarrow> [] | Some [] \<Rightarrow> [] | Some (e # es) \<Rightarrow> [(tag, JObj (e # es))])"

definition omitlist :: "string \<Rightarrow> string list \<Rightarrow> json gomap" where
  "omitlist tag xs = (if xs = [] then [] else [(tag, strings_json xs)])"

definition omitbool :: "string \<Rightarrow> bool option \<Rightarrow> json gomap" where
  "omitbool tag b = (case b of None \<Rightarrow> [] | Some x \<Rightarrow> [(tag, JBool x)])"

definition omitany :: "string \<Rightarrow> json option \<Rightarrow> json gomap" where
  "omitany tag v = (case v of None \<Rightarrow> [] | Some JNull \<Rightarrow> [] | Some x \<Rightarrow> [(tag, x)])"

lemma map_of_omit [simp]:
  "map_of (omitempty t x) k = (if k = t \<and> x \<noteq> '''' then Some (JStr x) else None)"
  "k \<noteq> t \<Longrightarrow> map_of (omitmap t m) k = None" "k \<noteq> t \<Longrightarrow> map_of (omitlist t xs) k = None"
  "k \<noteq> t \<Longrightarrow> map_of (omitbool t b) k = None" "k \<noteq> t \<Longrightarrow> map_of (omitany t v) k = None"
  by (auto simp: omitempty_def omitmap_def omitlist_def omitbool_def omitany_def split: option.splits list.splits json.splits)

definition omitfalse :: "string \<Rightarrow> bool \<Rightarrow> json gomap" where
  "omitfalse tag b = (if b then [(tag, JBool True)] else [])"

text \<open>The typed fields as the struct encoder prints them, each dropped when it is the zero value.\<close>

definition typed_fields :: "ModelInfo \<Rightarrow> json gomap" where
  "typed_fields m =
     omitempty ''id'' (mi_ID m) @ omitfalse ''db_model'' (mi_DBModel m)
     @ omitempty ''updated_at'' (mi_UpdatedAt m) @ omitempty ''updated_by'' (mi_UpdatedBy m)
     @ omitempty ''created_at'' (mi_CreatedAt m) @ omitempty ''created_by'' (mi_CreatedBy m)
     @ omitempty ''base_model'' (mi_BaseModel m) @ omitempty ''tier'' (mi_Tier m)
     @ omitempty ''team_id'' (mi_TeamID m)
     @ omitempty ''team_public_model_name'' (mi_TeamPublicModelName m)"

fun merge_extra :: "json gomap \<Rightarrow> json gomap \<Rightarrow> json gomap" where
  "merge_extra merged [] = merged"
| "merge_extra merged ((k, v) # extra) =
     (if k \<in> set (keys merged) then merge_extra merged extra
      else merge_extra (merged @ [(k, v)]) extra)"

definition ModelInfo_MarshalJSON :: "ModelInfo \<Rightarrow> json" where
  "ModelInfo_MarshalJSON m =
     (if length (mi_Extra m) = 0 then JObj (typed_fields m)
      else JObj (merge_extra (typed_fields m) (mi_Extra m)))"

definition decode_typed :: "json gomap \<Rightarrow> ModelInfo option" where
  "decode_typed m =
     (case (dec_string (struct_field ''id'' m), dec_bool (struct_field ''db_model'' m),
            dec_string (struct_field ''updated_at'' m), dec_string (struct_field ''updated_by'' m),
            dec_string (struct_field ''created_at'' m)) of
        (Some i, Some d, Some ua, Some ub, Some ca) \<Rightarrow>
          (case (dec_string (struct_field ''created_by'' m), dec_string (struct_field ''base_model'' m),
                 dec_string (struct_field ''tier'' m), dec_string (struct_field ''team_id'' m),
                 dec_string (struct_field ''team_public_model_name'' m)) of
             (Some cb, Some bm, Some ti, Some te, Some tp) \<Rightarrow>
               Some \<lparr>mi_ID = i, mi_DBModel = d, mi_UpdatedAt = ua, mi_UpdatedBy = ub, mi_CreatedAt = ca,
                 mi_CreatedBy = cb, mi_BaseModel = bm, mi_Tier = ti, mi_TeamID = te,
                 mi_TeamPublicModelName = tp, mi_Extra = []\<rparr>
           | _ \<Rightarrow> None)
      | _ \<Rightarrow> None)"

definition ModelInfo_UnmarshalJSON :: "json \<Rightarrow> ModelInfo option" where
  "ModelInfo_UnmarshalJSON v =
     (case dec_object (Some v) of None \<Rightarrow> None
      | Some m \<Rightarrow>
        (case decode_typed m of None \<Rightarrow> None
         | Some mi \<Rightarrow> Some (mi\<lparr>mi_Extra := fold map_del modelInfoTypedKeys m\<rparr>)))"

subsection \<open>Requests and responses\<close>

type_synonym LiteLLMParams = "json gomap option"

fun params_json :: "LiteLLMParams \<Rightarrow> json" where
  "params_json None = JNull"
| "params_json (Some m) = JObj m"

record Deployment =
  dep_ModelName :: string
  dep_LiteLLMParams :: LiteLLMParams
  dep_ModelInfo :: ModelInfo

definition Deployment_json :: "Deployment \<Rightarrow> json" where
  "Deployment_json d =
     JObj [(''model_name'', JStr (dep_ModelName d)), (''litellm_params'', params_json (dep_LiteLLMParams d)),
           (''model_info'', ModelInfo_MarshalJSON (dep_ModelInfo d))]"

text \<open>\<^verbatim>\<open>updateDeployment\<close> has the same fields, with \<^verbatim>\<open>omitempty\<close> on the first two.\<close>

definition updateDeployment_json :: "Deployment \<Rightarrow> json" where
  "updateDeployment_json d =
     JObj (omitempty ''model_name'' (dep_ModelName d)
       @ (case dep_LiteLLMParams d of None \<Rightarrow> [] | Some [] \<Rightarrow> [] | Some m \<Rightarrow> [(''litellm_params'', JObj m)])
       @ [(''model_info'', ModelInfo_MarshalJSON (dep_ModelInfo d))])"

record ModelInfoResponse =
  mir_ModelID :: string
  mir_ModelName :: string
  mir_LiteLLMParams :: "json gomap"
  mir_ModelInfo :: ModelInfo

definition decode_model_response :: "json \<Rightarrow> ModelInfoResponse option" where
  "decode_model_response v =
     (case dec_object (Some v) of None \<Rightarrow> None
      | Some m \<Rightarrow>
        (case (dec_string (struct_field ''model_id'' m), dec_string (struct_field ''model_name'' m),
               dec_object (struct_field ''litellm_params'' m),
               case struct_field ''model_info'' m of None \<Rightarrow> Some zero_ModelInfo
               | Some i \<Rightarrow> ModelInfo_UnmarshalJSON i) of
           (Some i, Some n, Some p, Some mi) \<Rightarrow>
             Some \<lparr>mir_ModelID = i, mir_ModelName = n, mir_LiteLLMParams = p, mir_ModelInfo = mi\<rparr>
         | _ \<Rightarrow> None))"

definition decode_model_list :: "json \<Rightarrow> ModelInfoResponse list option" where
  "decode_model_list v =
     (case dec_object (Some v) of None \<Rightarrow> None
      | Some m \<Rightarrow>
        (case dec_array (struct_field ''data'' m) of None \<Rightarrow> None
         | Some vs \<Rightarrow> dec_all decode_model_response vs))"

definition unmarshal :: "(json \<Rightarrow> 'a option) \<Rightarrow> string \<Rightarrow> http_response \<Rightarrow> lerror + 'a" where
  "unmarshal dec what resp =
     (case Option.bind (rs_json resp) dec of
        Some x \<Rightarrow> Inr x
      | None \<Rightarrow> Inl (Wrap (''litellm: decode '' @ what) (ErrText ''json'')))"

subsection \<open>The endpoints\<close>

type_synonym ('w, 'z, 'a) call = "('w, 'z) env_scheme \<Rightarrow> (lerror + 'a) \<times> ('w, 'z) env_scheme"

definition CreateModel :: "'w http \<Rightarrow> Deployment \<Rightarrow> ('w, 'z, ModelInfoResponse) call" where
  "CreateModel http d s =
     (case makeRequest http ''POST'' ''/model/new'' (Some (Deployment_json d)) s of
        (Inl e, s) \<Rightarrow> (Inl e, s)
      | (Inr resp, s) \<Rightarrow> (unmarshal decode_model_response ''POST /model/new'' resp, s))"

definition UpdateModel :: "'w http \<Rightarrow> Deployment \<Rightarrow> ('w, 'z, ModelInfoResponse) call" where
  "UpdateModel http d s =
     (case makeRequest http ''POST'' ''/model/update'' (Some (updateDeployment_json d)) s of
        (Inl e, s) \<Rightarrow> (Inl e, s)
      | (Inr resp, s) \<Rightarrow> (unmarshal decode_model_response ''POST /model/update'' resp, s))"

definition DeleteModel :: "'w http \<Rightarrow> string \<Rightarrow> ('w, 'z, unit) call" where
  "DeleteModel http modelID s =
     (if modelID = '''' then (Inl (ErrText ''litellm: DeleteModel: empty model_id''), s)
      else
        case makeRequest http ''POST'' ''/model/delete'' (Some (JObj [(''id'', JStr modelID)])) s of
          (Inl e, s) \<Rightarrow> (Inl e, s)
        | (Inr _, s) \<Rightarrow> (Inr (), s))"

definition GetModelInfo :: "'w http \<Rightarrow> string \<Rightarrow> ('w, 'z, ModelInfoResponse) call" where
  "GetModelInfo http modelID s =
     (case makeRequest http ''GET'' (''/model/info?litellm_model_id='' @ QueryEscape modelID) None s of
        (Inl e, s) \<Rightarrow> (Inl e, s)
      | (Inr resp, s) \<Rightarrow>
          (case unmarshal decode_model_list ''GET /model/info'' resp of
             Inl e \<Rightarrow> (Inl e, s)
           | Inr [] \<Rightarrow> (Inl ErrNotFound, s)
           | Inr (x # _) \<Rightarrow> (Inr x, s)))"

text \<open>The two lookups by name share the request and the treatment of its errors.\<close>

definition list_by_name :: "'w http \<Rightarrow> string \<Rightarrow> ('w, 'z, ModelInfoResponse list) call" where
  "list_by_name http name s =
     (case makeRequest http ''GET'' (''/model/info?model_name='' @ QueryEscape name) None s of
        (Inl e, s) \<Rightarrow>
          (if as_auth401 e \<noteq> None then (Inl e, s)
           else if IsNotFound e then (Inr [], s)
           else (Inl e, s))
      | (Inr resp, s) \<Rightarrow> (unmarshal decode_model_list ''GET /model/info?model_name'' resp, s))"

definition GetModelInfoByName :: "'w http \<Rightarrow> string \<Rightarrow> ('w, 'z, ModelInfoResponse option) call" where
  "GetModelInfoByName http name s =
     (case list_by_name http name s of
        (Inl e, s) \<Rightarrow> (Inl e, s)
      | (Inr rows, s) \<Rightarrow> (Inr (find (\<lambda>r. mir_ModelName r = name) rows), s))"

definition GetModelIDsByName :: "'w http \<Rightarrow> string \<Rightarrow> ('w, 'z, string list) call" where
  "GetModelIDsByName http name s =
     (case list_by_name http name s of
        (Inl e, s) \<Rightarrow> (Inl e, s)
      | (Inr rows, s) \<Rightarrow>
          (Inr (map (\<lambda>r. mi_ID (mir_ModelInfo r))
             (filter (\<lambda>r. mir_ModelName r = name \<and> mi_ID (mir_ModelInfo r) \<noteq> '''') rows)), s))"

subsection \<open>What each call sends\<close>

lemma makeRequest_cases:
  obtains (failed) e s' where "makeRequest http m p b s = (Inl e, s')" "log s' = log s @ [Http m p b]"
      "env.more s' = env.more s" "fst (makeRequest http m p b s) = Inl e"
    | (answered) r s' where "makeRequest http m p b s = (Inr r, s')" "log s' = log s @ [Http m p b]"
      "env.more s' = env.more s" "fst (makeRequest http m p b s) = Inr r"
proof (cases "makeRequest http m p b s")
  case (Pair r s')
  have "log s' = log s @ [Http m p b]" "env.more s' = env.more s"
    using makeRequest_parts [of http m p b s] Pair by simp_all
  then show ?thesis
    using Pair failed answered by (cases r) auto
qed

lemma client_log [effect_simps]:
  "log (snd (CreateModel http d s)) = log s @ [Http ''POST'' ''/model/new'' (Some (Deployment_json d))]"
  "log (snd (UpdateModel http d s)) = log s @ [Http ''POST'' ''/model/update'' (Some (updateDeployment_json d))]"
  "log (snd (DeleteModel http i s)) =
     log s @ (if i = '''' then [] else [Http ''POST'' ''/model/delete'' (Some (JObj [(''id'', JStr i)]))])"
  "log (snd (list_by_name http n s)) = log s @ [Http ''GET'' (''/model/info?model_name='' @ QueryEscape n) None]"
  "log (snd (GetModelInfo http i s)) = log s @ [Http ''GET'' (''/model/info?litellm_model_id='' @ QueryEscape i) None]"
  using req.one_attempt
  by (auto simp: CreateModel_def UpdateModel_def DeleteModel_def list_by_name_def GetModelInfo_def
      makeRequest_def emit_def split: sum.splits prod.splits list.splits)

lemma client_more [effect_simps]:
  "env.more (snd (CreateModel http d s)) = env.more s"
  "env.more (snd (UpdateModel http d s)) = env.more s"
  "env.more (snd (DeleteModel http i s)) = env.more s"
  "env.more (snd (list_by_name http n s)) = env.more s"
  "env.more (snd (GetModelInfo http i s)) = env.more s"
  by (auto simp: CreateModel_def UpdateModel_def DeleteModel_def list_by_name_def GetModelInfo_def
      makeRequest_def emit_def split: sum.splits prod.splits list.splits)

lemma by_name_state:
  "snd (GetModelInfoByName http n s) = snd (list_by_name http n s)"
  "snd (GetModelIDsByName http n s) = snd (list_by_name http n s)"
  by (auto simp: GetModelInfoByName_def GetModelIDsByName_def split: prod.splits sum.splits)

lemma list_by_name_error:
  assumes "fst (list_by_name http n s) = Inl e"
  shows "\<not> IsNotFound e"
proof (cases rule: makeRequest_cases [of http "''GET''" "''/model/info?model_name='' @ QueryEscape n" None s])
  case (failed e' s')
  then show ?thesis
    using assms req.auth_not_found [OF failed(4)] by (auto simp: list_by_name_def split: if_splits)
next
  case (answered r s')
  then show ?thesis
    using assms by (auto simp: list_by_name_def unmarshal_def IsNotFound_def split: option.splits)
qed

subsection \<open>Encoding and decoding model\_info\<close>

lemma equal_fold_refl [simp]: "equal_fold_ascii s s"
  by (simp add: equal_fold_ascii_def)

lemma struct_field_append:
  "struct_field tag (a @ b) = (case struct_field tag b of Some v \<Rightarrow> Some v | None \<Rightarrow> struct_field tag a)"
  by (simp add: struct_field_def find_append split: option.split)

lemma struct_field_omitempty:
  "struct_field tag (omitempty t s) = (if s \<noteq> '''' \<and> equal_fold_ascii t tag then Some (JStr s) else None)"
  by (simp add: struct_field_def omitempty_def)

lemma struct_field_omitfalse:
  "struct_field tag (omitfalse t b) = (if b \<and> equal_fold_ascii t tag then Some (JBool True) else None)"
  by (simp add: struct_field_def omitfalse_def)

lemma struct_field_None:
  "(\<And>k. k \<in> set (keys m) \<Longrightarrow> \<not> equal_fold_ascii k tag) \<Longrightarrow> struct_field tag m = None"
  by (force simp: struct_field_def find_None_iff)

lemma dec_omitempty [simp]:
  "dec_string (if s \<noteq> '''' then Some (JStr s) else None) = Some s"
  "dec_bool (if b then Some (JBool True) else None) = Some b"
  by auto

lemma merge_extra_disjoint:
  "map_inv extra \<Longrightarrow> set (keys extra) \<inter> set (keys t) = {} \<Longrightarrow> merge_extra t extra = t @ extra"
  by (induction t extra rule: merge_extra.induct) (auto simp: map_inv_def)

lemma map_of_merge_extra:
  "map_of (merge_extra t x) k = (case map_of t k of Some v \<Rightarrow> Some v | None \<Rightarrow> map_of x k)"
proof (induction t x rule: merge_extra.induct)
  case (2 t k' v x)
  have "k' \<in> set (keys t) \<longleftrightarrow> (\<exists>u. map_of t k' = Some u)"
    by (metis domI domIff dom_map_of_conv_image_fst list.set_map not_Some_eq)
  then show ?case
    using 2 by (auto split: option.splits)
qed (simp split: option.split)

lemma typed_fields_keys: "set (keys (typed_fields m)) \<subseteq> set modelInfoTypedKeys"
  by (auto simp: typed_fields_def omitempty_def omitfalse_def modelInfoTypedKeys_def split: if_splits)

lemma fold_map_del: "fold map_del ks m = filter (\<lambda>(k, v). k \<notin> set ks) m"
  by (induction ks arbitrary: m) (auto simp: map_del_def case_prod_beta intro!: filter_cong)

lemma fold_typed:
  "k \<in> set modelInfoTypedKeys \<Longrightarrow> t \<in> set modelInfoTypedKeys \<Longrightarrow> equal_fold_ascii k t = (k = t)"
proof -
  have "list_all (\<lambda>k. map lower_byte k = k) modelInfoTypedKeys"
    by code_simp
  then show "k \<in> set modelInfoTypedKeys \<Longrightarrow> t \<in> set modelInfoTypedKeys \<Longrightarrow> ?thesis"
    by (simp add: list_all_iff equal_fold_ascii_def)
qed

lemma typed_fields_decode:
  "dec_string (struct_field ''id'' (typed_fields m)) = Some (mi_ID m)"
  "dec_bool (struct_field ''db_model'' (typed_fields m)) = Some (mi_DBModel m)"
  "dec_string (struct_field ''updated_at'' (typed_fields m)) = Some (mi_UpdatedAt m)"
  "dec_string (struct_field ''updated_by'' (typed_fields m)) = Some (mi_UpdatedBy m)"
  "dec_string (struct_field ''created_at'' (typed_fields m)) = Some (mi_CreatedAt m)"
  "dec_string (struct_field ''created_by'' (typed_fields m)) = Some (mi_CreatedBy m)"
  "dec_string (struct_field ''base_model'' (typed_fields m)) = Some (mi_BaseModel m)"
  "dec_string (struct_field ''tier'' (typed_fields m)) = Some (mi_Tier m)"
  "dec_string (struct_field ''team_id'' (typed_fields m)) = Some (mi_TeamID m)"
  "dec_string (struct_field ''team_public_model_name'' (typed_fields m)) = Some (mi_TeamPublicModelName m)"
  by (simp_all add: typed_fields_def struct_field_append struct_field_omitempty struct_field_omitfalse
      fold_typed modelInfoTypedKeys_def)

lemma decode_typed_fields:
  assumes "\<And>k t. k \<in> set (keys extra) \<Longrightarrow> t \<in> set modelInfoTypedKeys \<Longrightarrow> \<not> equal_fold_ascii k t"
  shows "decode_typed (typed_fields m @ extra) = Some (m\<lparr>mi_Extra := []\<rparr>)"
proof -
  have none: "t \<in> set modelInfoTypedKeys \<Longrightarrow> struct_field t extra = None" for t
    using assms by (blast intro: struct_field_None)
  have field: "t \<in> set modelInfoTypedKeys \<Longrightarrow>
      struct_field t (typed_fields m @ extra) = struct_field t (typed_fields m)" for t
    by (simp add: struct_field_append none)
  show ?thesis
    by (simp add: decode_typed_def field modelInfoTypedKeys_def typed_fields_decode)
qed

subsection \<open>Properties\<close>

text \<open>
  C37.  The two custom JSON methods of \<^verbatim>\<open>ModelInfo\<close> are inverse: a value whose extra keys do not spell a
  typed field (in any letter case) survives encoding and decoding, typed fields and pass-through
  keys alike.
\<close>

theorem ModelInfo_roundtrip:
  assumes "map_inv (mi_Extra m)"
    and "\<And>k t. k \<in> set (keys (mi_Extra m)) \<Longrightarrow> t \<in> set modelInfoTypedKeys \<Longrightarrow> \<not> equal_fold_ascii k t"
  shows "ModelInfo_UnmarshalJSON (ModelInfo_MarshalJSON m) = Some m"
proof -
  have fresh: "k \<in> set (keys (mi_Extra m)) \<Longrightarrow> k \<notin> set modelInfoTypedKeys" for k
    using assms(2) equal_fold_refl by blast
  then have "set (keys (mi_Extra m)) \<inter> set (keys (typed_fields m)) = {}"
    using typed_fields_keys [of m] by blast
  then have marshal: "ModelInfo_MarshalJSON m = JObj (typed_fields m @ mi_Extra m)"
    by (simp add: ModelInfo_MarshalJSON_def merge_extra_disjoint [OF assms(1)])
  have "filter (\<lambda>(k, v). k \<notin> set modelInfoTypedKeys) (typed_fields m) = []"
    using typed_fields_keys [of m] by (auto simp: filter_empty_conv)
  moreover have "filter (\<lambda>(k, v). k \<notin> set modelInfoTypedKeys) (mi_Extra m) = mi_Extra m"
    using fresh by (force simp: filter_id_conv)
  moreover have "decode_typed (typed_fields m @ mi_Extra m) = Some (m\<lparr>mi_Extra := []\<rparr>)"
    by (rule decode_typed_fields) (rule assms(2))
  ultimately show ?thesis
    by (simp add: marshal ModelInfo_UnmarshalJSON_def fold_map_del)
qed

theorem ModelInfo_roundtrip_witness:
  "ModelInfo_UnmarshalJSON (ModelInfo_MarshalJSON (zero_ModelInfo\<lparr>mi_ID := ''m1'', mi_Extra := [(''mode'', JStr ''chat'')]\<rparr>))
   = Some (zero_ModelInfo\<lparr>mi_ID := ''m1'', mi_Extra := [(''mode'', JStr ''chat'')]\<rparr>)"
  by (rule ModelInfo_roundtrip)
    (auto simp: map_inv_def equal_fold_ascii_def modelInfoTypedKeys_def lower_byte_def is_upper_def)

text \<open>
  The operator's overlay wins: whatever pass-through keys a user sets in \<^verbatim>\<open>spec.info\<close>, a non-empty
  typed id and the \<^verbatim>\<open>created_by\<close> attribution appear in the body under their keys, and every
  pass-through key that is no typed key appears with its value.
\<close>

theorem ModelInfo_overlay_wins:
  assumes "ModelInfo_MarshalJSON m = JObj body"
  shows "(mi_ID m \<noteq> '''' \<longrightarrow> map_of body ''id'' = Some (JStr (mi_ID m)))
    \<and> (mi_CreatedBy m \<noteq> '''' \<longrightarrow> map_of body ''created_by'' = Some (JStr (mi_CreatedBy m)))
    \<and> (\<forall>k. k \<notin> set (keys (typed_fields m)) \<longrightarrow> map_of body k = map_of (mi_Extra m) k)"
proof -
  have body: "map_of body k = (case map_of (typed_fields m) k of Some v \<Rightarrow> Some v | None \<Rightarrow> map_of (mi_Extra m) k)" for k
    using assms by (auto simp: ModelInfo_MarshalJSON_def map_of_merge_extra split: if_splits option.splits)
  have "k \<notin> set (keys (typed_fields m)) \<Longrightarrow> map_of (typed_fields m) k = None" for k
    by (simp add: map_of_eq_None_iff)
  then show ?thesis
    by (auto simp: body) (simp_all add: typed_fields_def omitempty_def omitfalse_def)
qed

theorem ModelInfo_overlay_wins_witness:
  "map_of [(''id'', JStr ''m1''), (''created_by'', JStr ''op''), (''mode'', JStr ''chat'')] ''id'' = Some (JStr ''m1'')"
  using ModelInfo_overlay_wins
    [of "zero_ModelInfo\<lparr>mi_ID := ''m1'', mi_CreatedBy := ''op'', mi_Extra := [(''id'', JStr ''forged''), (''mode'', JStr ''chat'')]\<rparr>"
        "[(''id'', JStr ''m1''), (''created_by'', JStr ''op''), (''mode'', JStr ''chat'')]"]
  by (simp add: zero_ModelInfo_def map_inv_def ModelInfo_MarshalJSON_def typed_fields_def omitempty_def omitfalse_def)

end
