(* ===== verification/Rejected_Message.thy ===== *)
theory Rejected_Message
  imports Litellm_Client
begin

text \<open>
  \<^verbatim>\<open>internal/controller/rejected_message.go\<close>: the text of a \<^verbatim>\<open>LiteLLMRejected\<close> condition, which any
  reader of the cluster can see.  The expression \<^verbatim>\<open>secretShapedTokenRE\<close> is written out as a matcher
  over bytes: its alternatives start with different words and none of its greedy runs can overlap
  what follows, so the first alternative whose word fits decides.  Texts are taken as ASCII; under
  \<^verbatim>\<open>(?i)\<close> two further Unicode letters fold to \<^verbatim>\<open>k\<close> and \<^verbatim>\<open>s\<close>, which this matcher does not accept.
\<close>

definition maxRejectedMessageBytes :: nat where
  "maxRejectedMessageBytes = 200"

subsection \<open>Secret-shaped tokens\<close>

definition is_word :: "char \<Rightarrow> bool" where
  "is_word c \<longleftrightarrow> is_upper c \<or> is_lower c \<or> is_digit c \<or> c = CHR ''_''"

definition is_alnum :: "char \<Rightarrow> bool" where
  "is_alnum c \<longleftrightarrow> is_upper c \<or> is_lower c \<or> is_digit c"

definition is_tok :: "char \<Rightarrow> bool" where
  "is_tok c \<longleftrightarrow> is_alnum c \<or> c = CHR ''_'' \<or> c = CHR ''-''"

definition is_tok_dot :: "char \<Rightarrow> bool" where
  "is_tok_dot c \<longleftrightarrow> is_tok c \<or> c = CHR ''.''"

definition is_space :: "char \<Rightarrow> bool" where
  "is_space c \<longleftrightarrow> c \<in> {CHR '' '', CHR 0x09, CHR 0x0A, CHR 0x0C, CHR 0x0D}"

text \<open>The word \<open>w\<close>, in any letter case, at the head of \<open>s\<close>: what follows it.\<close>

definition after_word :: "string \<Rightarrow> string \<Rightarrow> string option" where
  "after_word w s =
     (if length w \<le> length s \<and> equal_fold_ascii (take (length w) s) w then Some (drop (length w) s) else None)"

definition run_atleast :: "nat \<Rightarrow> (char \<Rightarrow> bool) \<Rightarrow> string \<Rightarrow> string option" where
  "run_atleast n P s = (if n \<le> length (takeWhile P s) then Some (dropWhile P s) else None)"

definition run_exactly :: "nat \<Rightarrow> (char \<Rightarrow> bool) \<Rightarrow> string \<Rightarrow> string option" where
  "run_exactly n P s = (if n \<le> length (takeWhile P s) then Some (drop n s) else None)"

fun first_some :: "'a option list \<Rightarrow> 'a option" where
  "first_some [] = None"
| "first_some (None # xs) = first_some xs"
| "first_some (Some x # xs) = Some x"

text \<open>The alternatives at one position; the result is the text after the match.\<close>

definition match_token :: "string \<Rightarrow> string option" where
  "match_token s = first_some [
     Option.bind (after_word ''sk-'' s) (run_atleast 8 is_tok),
     Option.bind (after_word ''xai-'' s) (run_atleast 8 is_tok),
     Option.bind (after_word ''claude-'' s) (run_atleast 8 is_tok),
     Option.bind (after_word ''gsk_'' s) (run_atleast 8 is_tok),
     Option.bind (after_word ''AKIA'' s) (run_exactly 16 is_alnum),
     Option.bind (after_word ''AIzaSy'' s) (run_exactly 33 is_tok),
     Option.bind (after_word ''hf_'' s) (run_atleast 30 is_alnum),
     Option.bind (Option.bind (after_word ''Bearer'' s) (run_atleast 1 is_space)) (run_atleast 8 is_tok_dot),
     Option.bind (Option.bind (after_word ''Authorization:'' s) (run_atleast 0 is_space)) (run_atleast 8 is_tok_dot)]"

lemma run_shorter: "run_atleast n P s = Some r \<Longrightarrow> length r \<le> length s"
    "run_exactly n P s = Some r \<Longrightarrow> length r \<le> length s"
    "after_word w s = Some r \<Longrightarrow> length r = length s - length w \<and> length w \<le> length s"
  by (auto simp: run_atleast_def run_exactly_def after_word_def length_dropWhile_le split: if_splits)

lemma first_some_mem: "first_some xs = Some r \<Longrightarrow> Some r \<in> set xs"
  by (induction xs rule: first_some.induct) auto

lemma match_token_shorter: "match_token s = Some r \<Longrightarrow> length r < length s"
  unfolding match_token_def
  by (drule first_some_mem) (force simp: bind_eq_Some_conv eq_commute [of "Some r"] dest!: run_shorter)

text \<open>
  \<^verbatim>\<open>ReplaceAllString\<close>: leftmost matches, not overlapping; the word boundary at a position is taken
  from the original text, so the scan carries whether the byte before is a word character.
\<close>

function redact_from :: "bool \<Rightarrow> string \<Rightarrow> string" where
  "redact_from prev s =
     (case s of [] \<Rightarrow> []
      | c # r \<Rightarrow>
        (case (if prev \<noteq> is_word c then match_token s else None) of
           Some rest \<Rightarrow> ''[REDACTED]'' @ redact_from (is_word (s ! (length s - length rest - 1))) rest
         | None \<Rightarrow> c # redact_from (is_word c) r))"
  by pat_completeness auto
termination
  by (relation "measure (length \<circ> snd)") (auto split: if_splits dest: match_token_shorter)

declare redact_from.simps [simp del]

definition sanitizeSecretShapedTokens :: "string \<Rightarrow> string" where
  "sanitizeSecretShapedTokens s = redact_from False s"

subsection \<open>Clipping\<close>

definition RuneStart :: "char \<Rightarrow> bool" where
  "RuneStart b \<longleftrightarrow> \<not> (CHR 0x80 \<le> b \<and> b < CHR 0xC0)"

fun clip_cut :: "string \<Rightarrow> nat \<Rightarrow> nat" where
  "clip_cut s 0 = 0"
| "clip_cut s (Suc n) = (if \<not> RuneStart (s ! Suc n) then clip_cut s n else Suc n)"

definition clipMessage :: "string \<Rightarrow> string" where
  "clipMessage s =
     (if length s \<le> maxRejectedMessageBytes then s
      else take (clip_cut s (maxRejectedMessageBytes - 3)) s @ ''...'')"

text \<open>\<open>optIn\<close> is whether the environment variable equals \<^verbatim>\<open>true\<close> up to letter case.\<close>

definition rejectedMessage :: "bool \<Rightarrow> string \<Rightarrow> lerror \<Rightarrow> string \<Rightarrow> string" where
  "rejectedMessage optIn opDesc err errStr =
     (case as_rejected err of
        None \<Rightarrow> clipMessage (''LiteLLM rejected '' @ opDesc @ '': '' @ errStr)
      | Some rej \<Rightarrow>
          (let code = sanitizeSecretShapedTokens (rej_Code rej);
               base = (if rej_Type rej \<noteq> ''''
                 then ''LiteLLM rejected '' @ opDesc @ '': '' @ show_int (rej_Status rej) @ '' (code='' @ code
                        @ '', type='' @ sanitizeSecretShapedTokens (rej_Type rej) @ '')''
                 else ''LiteLLM rejected '' @ opDesc @ '': '' @ show_int (rej_Status rej) @ '' (code='' @ code @ '')'');
               base = (if optIn \<and> rej_Message rej \<noteq> ''''
                 then base @ '': '' @ sanitizeSecretShapedTokens (rej_Message rej) else base)
           in clipMessage base))"

subsection \<open>Properties\<close>

lemma clip_cut_le: "clip_cut s n \<le> n"
  by (induction n) auto

lemma clip_cut_start: "clip_cut s n = 0 \<or> RuneStart (s ! clip_cut s n)"
  by (induction n) auto

lemma clipMessage_length: "length (clipMessage s) \<le> maxRejectedMessageBytes"
  using clip_cut_le [of s "maxRejectedMessageBytes - 3"]
  by (auto simp: clipMessage_def maxRejectedMessageBytes_def)

text \<open>
  What a rejection puts into cluster-readable status: without the opt-in it does not depend on
  the upstream error message, with any setting it is at most 200 bytes, and it never ends inside a
  UTF-8 sequence: either the text is whole, or the byte after the cut starts a rune.
\<close>

theorem rejectedMessage_safe:
  "rejectedMessage False op (RejectedError r) e = rejectedMessage False op (RejectedError (r\<lparr>rej_Message := m\<rparr>)) e
   \<and> length (rejectedMessage optIn op err e) \<le> 200
   \<and> (clipMessage s = s \<or> (\<exists>n. clipMessage s = take n s @ ''...'' \<and> (n = 0 \<or> RuneStart (s ! n))))"
proof (intro conjI)
  show "length (rejectedMessage optIn op err e) \<le> 200"
    using clipMessage_length
    by (auto simp: rejectedMessage_def Let_def maxRejectedMessageBytes_def split: option.split)
  show "clipMessage s = s \<or> (\<exists>n. clipMessage s = take n s @ ''...'' \<and> (n = 0 \<or> RuneStart (s ! n)))"
    using clip_cut_start by (auto simp: clipMessage_def)
qed (simp add: rejectedMessage_def Let_def)


end
