(* ===== verification/Connection.thy ===== *)
theory Connection
  imports Kube
begin

text \<open>
  Package \<^verbatim>\<open>internal/connection\<close>: the snapshot of the LiteLLM connection every reconciler reads, and
  the cache that holds it.

  A Go channel of capacity 1 that carries empty events is the number of events buffered and a closed
  flag; a send on a closed channel panics, and the \<^verbatim>\<open>defer recover\<close> of the sending function turns
  that into an early return.  The channels handed out by \<^verbatim>\<open>Subscribe\<close> are kept in \<open>subs\<close>, in
  order of creation, and \<open>rebuiltSubs\<close> lists the registered ones by index, so that what a
  subscriber holds stays visible after shutdown forgets the registration.

  This theory treats each method as one step (sequential use).  Theory \<^verbatim>\<open>Cache_Race\<close> splits the
  methods at their atomic operations and interleaves them.
\<close>

subsection \<open>Snapshots\<close>

record 'c ConnectionSnapshot =
  snap_Ready :: bool
  snap_Reason :: string
  snap_Client :: "'c option"
  snap_MCPToolPrefixSeparator :: string
  snap_RequeueOnRejectedAfter :: int

definition zero_snapshot :: "'c ConnectionSnapshot" where
  "zero_snapshot = \<lparr>snap_Ready = False, snap_Reason = '''', snap_Client = None,
     snap_MCPToolPrefixSeparator = '''', snap_RequeueOnRejectedAfter = 0\<rparr>"

definition Usable :: "'c ConnectionSnapshot \<Rightarrow> bool" where
  "Usable s \<longleftrightarrow> snap_Ready s \<and> snap_Client s \<noteq> None"

definition DefaultRequeueOnRejectedAfter :: int where
  "DefaultRequeueOnRejectedAfter = 5 * minute"

definition MinRequeueOnRejectedAfter :: int where
  "MinRequeueOnRejectedAfter = 1 * minute"

definition MaxRequeueOnRejectedAfter :: int where
  "MaxRequeueOnRejectedAfter = 1 * hour"

definition clampRequeue :: "int \<Rightarrow> int" where
  "clampRequeue d =
     (if d \<le> 0 then DefaultRequeueOnRejectedAfter
      else if d < MinRequeueOnRejectedAfter then MinRequeueOnRejectedAfter
      else if d > MaxRequeueOnRejectedAfter then MaxRequeueOnRejectedAfter
      else d)"

definition NormalizedRequeueOnRejectedAfter :: "'c ConnectionSnapshot \<Rightarrow> int" where
  "NormalizedRequeueOnRejectedAfter s = clampRequeue (snap_RequeueOnRejectedAfter s)"

lemmas requeue_bounds = DefaultRequeueOnRejectedAfter_def MinRequeueOnRejectedAfter_def
  MaxRequeueOnRejectedAfter_def durations

interpretation requeue: canonical_form clampRequeue
  "\<lambda>d. MinRequeueOnRejectedAfter \<le> d \<and> d \<le> MaxRequeueOnRejectedAfter"
  by unfold_locales (auto simp: clampRequeue_def requeue_bounds)

subsection \<open>The cache\<close>

record chan =
  buffered :: nat
  chan_closed :: bool

definition fresh_chan :: chan where
  "fresh_chan = \<lparr>buffered = 0, chan_closed = False\<rparr>"

definition full_chan :: chan where
  "full_chan = \<lparr>buffered = 1, chan_closed = False\<rparr>"

text \<open>The non-blocking send \<^verbatim>\<open>select { case ch <- ev: default: }\<close>; \<open>None\<close> is the panic.\<close>

definition try_send :: "chan \<Rightarrow> chan option" where
  "try_send ch =
     (if chan_closed ch then None
      else if buffered ch < 1 then Some (ch\<lparr>buffered := buffered ch + 1\<rparr>)
      else Some ch)"

record 'c Cache =
  snapshot :: "'c ConnectionSnapshot option"
  invalidated :: bool
  closed :: bool
  ch :: chan
  subs :: "chan list"
  rebuiltSubs :: "nat list"
  lastReady :: bool

definition NewCache :: "'c Cache" where
  "NewCache = \<lparr>snapshot = None, invalidated = False, closed = False, ch = fresh_chan,
     subs = [], rebuiltSubs = [], lastReady = False\<rparr>"

definition Snapshot :: "'c Cache \<Rightarrow> 'c ConnectionSnapshot" where
  "Snapshot c = (case snapshot c of Some s \<Rightarrow> s | None \<Rightarrow> zero_snapshot)"

fun emit_loop :: "nat list \<Rightarrow> chan list \<Rightarrow> chan list" where
  "emit_loop [] chans = chans"
| "emit_loop (i # is) chans =
     (case try_send (chans ! i) of
        None \<Rightarrow> chans
      | Some ch' \<Rightarrow> emit_loop is (chans[i := ch']))"

definition emitRebuilt :: "'c Cache \<Rightarrow> 'c Cache" where
  "emitRebuilt c = (if closed c then c else c\<lparr>subs := emit_loop (rebuiltSubs c) (subs c)\<rparr>)"

definition Rebuild :: "'c Cache \<Rightarrow> 'c ConnectionSnapshot \<Rightarrow> 'c Cache" where
  "Rebuild c snap =
     (let c = c\<lparr>snapshot := Some snap\<rparr>;
          c = c\<lparr>invalidated := False\<rparr>
      in if snap_Ready snap
         then (let was = lastReady c; c = c\<lparr>lastReady := True\<rparr>
               in if \<not> was then emitRebuilt c else c)
         else c\<lparr>lastReady := False\<rparr>)"

definition placeholder401 :: "'c ConnectionSnapshot option \<Rightarrow> 'c ConnectionSnapshot" where
  "placeholder401 cur =
     zero_snapshot\<lparr>snap_Reason := ''BadMasterKey'',
       snap_Client := (case cur of Some s \<Rightarrow> snap_Client s | None \<Rightarrow> None)\<rparr>"

definition InvalidateOn401 :: "'c Cache \<Rightarrow> 'c Cache" where
  "InvalidateOn401 c =
     (if closed c then c
      else if invalidated c then c
      else
        (let c = c\<lparr>invalidated := True\<rparr>;
             placeholder = placeholder401 (snapshot c);
             c = c\<lparr>lastReady := False\<rparr>;
             c = c\<lparr>snapshot := Some placeholder\<rparr>
         in case try_send (ch c) of None \<Rightarrow> c | Some ch' \<Rightarrow> c\<lparr>ch := ch'\<rparr>))"

definition Subscribe :: "'c Cache \<Rightarrow> nat \<times> 'c Cache" where
  "Subscribe c =
     (let i = length (subs c)
      in (i, c\<lparr>subs := subs c @ [fresh_chan], rebuiltSubs := rebuiltSubs c @ [i]\<rparr>))"

fun close_all :: "nat list \<Rightarrow> chan list \<Rightarrow> chan list" where
  "close_all [] chans = chans"
| "close_all (i # is) chans = close_all is (chans[i := (chans ! i)\<lparr>chan_closed := True\<rparr>])"

text \<open>What \<^verbatim>\<open>Start\<close> does once the manager's context is done.\<close>

definition Start :: "'c Cache \<Rightarrow> 'c Cache" where
  "Start c =
     (let c = c\<lparr>closed := True\<rparr>;
          c = c\<lparr>ch := (ch c)\<lparr>chan_closed := True\<rparr>\<rparr>;
          c = c\<lparr>subs := close_all (rebuiltSubs c) (subs c)\<rparr>
      in c\<lparr>rebuiltSubs := []\<rparr>)"

text \<open>The consumers: the connection controller and the dependents take one buffered event.\<close>

definition recv_probe :: "'c Cache \<Rightarrow> 'c Cache" where
  "recv_probe c = c\<lparr>ch := (ch c)\<lparr>buffered := buffered (ch c) - 1\<rparr>\<rparr>"

definition recv_sub :: "nat \<Rightarrow> 'c Cache \<Rightarrow> 'c Cache" where
  "recv_sub i c = c\<lparr>subs := (subs c)[i := (subs c ! i)\<lparr>buffered := buffered (subs c ! i) - 1\<rparr>]\<rparr>"

subsection \<open>The invariant and the reachable states\<close>

definition cache_inv :: "'c Cache \<Rightarrow> bool" where
  "cache_inv c \<longleftrightarrow>
     buffered (ch c) \<le> 1 \<and> (\<forall>x \<in> set (subs c). buffered x \<le> 1) \<and>
     (lastReady c \<longleftrightarrow> snap_Ready (Snapshot c)) \<and>
     (invalidated c \<longrightarrow> \<not> snap_Ready (Snapshot c)) \<and>
     chan_closed (ch c) = closed c \<and>
     (\<forall>x \<in> set (subs c). chan_closed x \<longrightarrow> closed c) \<and>
     (\<not> closed c \<longrightarrow> rebuiltSubs c = [0..<length (subs c)]) \<and>
     (\<forall>i \<in> set (rebuiltSubs c). i < length (subs c))"

inductive cache_step :: "'c Cache \<Rightarrow> 'c Cache \<Rightarrow> bool" where
  step_rebuild: "cache_step c (Rebuild c s)"
| step_invalidate: "cache_step c (InvalidateOn401 c)"
| step_subscribe: "\<not> closed c \<Longrightarrow> cache_step c (snd (Subscribe c))"
| step_start: "\<not> closed c \<Longrightarrow> cache_step c (Start c)"
| step_recv_probe: "0 < buffered (ch c) \<Longrightarrow> cache_step c (recv_probe c)"
| step_recv_sub: "i < length (subs c) \<Longrightarrow> 0 < buffered (subs c ! i) \<Longrightarrow> cache_step c (recv_sub i c)"

inductive cache_reachable :: "'c Cache \<Rightarrow> bool" where
  reach_new: "cache_reachable NewCache"
| reach_step: "cache_reachable c \<Longrightarrow> cache_step c d \<Longrightarrow> cache_reachable d"

lemmas cache_ops = Rebuild_def InvalidateOn401_def Subscribe_def Start_def recv_probe_def
  recv_sub_def emitRebuilt_def Let_def

lemma try_send_open:
  "\<not> chan_closed x \<Longrightarrow> buffered x \<le> 1 \<Longrightarrow> try_send x = Some (x\<lparr>buffered := 1\<rparr>)"
  by (cases "buffered x") (auto simp: try_send_def)

lemma try_send_bound: "try_send x = Some y \<Longrightarrow> buffered x \<le> 1 \<Longrightarrow> buffered y \<le> 1 \<and> chan_closed y = chan_closed x"
  by (auto simp: try_send_def split: if_splits)

lemma length_emit_loop [simp]: "length (emit_loop is chans) = length chans"
  by (induction "is" chans rule: emit_loop.induct) (auto split: option.splits)

lemma emit_loop_open:
  assumes "\<forall>i \<in> set is. i < length chans" and "\<forall>x \<in> set chans. \<not> chan_closed x \<and> buffered x \<le> 1"
  shows "emit_loop is chans = map (\<lambda>j. if j \<in> set is then (chans ! j)\<lparr>buffered := 1\<rparr> else chans ! j) [0..<length chans]"
  using assms
proof (induction "is" chans rule: emit_loop.induct)
  case (1 chans)
  then show ?case by (simp add: map_nth)
next
  case (2 i "is" chans)
  then have send: "try_send (chans ! i) = Some ((chans ! i)\<lparr>buffered := 1\<rparr>)"
    by (intro try_send_open) auto
  let ?chans = "chans[i := (chans ! i)\<lparr>buffered := 1\<rparr>]"
  have "\<forall>x \<in> set ?chans. \<not> chan_closed x \<and> buffered x \<le> 1"
    using 2 by (auto dest!: set_update_subset_insert [THEN subsetD])
  with 2 send have "emit_loop is ?chans
      = map (\<lambda>j. if j \<in> set is then (?chans ! j)\<lparr>buffered := 1\<rparr> else ?chans ! j) [0..<length chans]"
    by simp
  with send 2 show ?case by (auto simp: nth_list_update)
qed

lemma emit_all:
  assumes "cache_inv c" and "\<not> closed c"
  shows "emit_loop (rebuiltSubs c) (subs c) = map (\<lambda>x. x\<lparr>buffered := 1\<rparr>) (subs c)"
proof -
  have "rebuiltSubs c = [0..<length (subs c)]" "\<forall>x \<in> set (subs c). \<not> chan_closed x \<and> buffered x \<le> 1"
    using assms by (auto simp: cache_inv_def)
  then show ?thesis
    by (auto simp: emit_loop_open intro: nth_equalityI)
qed

lemma set_close_all:
  "x \<in> set (close_all is chans) \<Longrightarrow> \<forall>i \<in> set is. i < length chans \<Longrightarrow> \<exists>y \<in> set chans. buffered x = buffered y"
proof (induction "is" arbitrary: chans)
  case (Cons i "is")
  let ?chans = "chans[i := (chans ! i)\<lparr>chan_closed := True\<rparr>]"
  have "x \<in> set (close_all is ?chans)" and "\<forall>i \<in> set is. i < length ?chans"
    using Cons.prems by simp_all
  then obtain y where "y \<in> set ?chans" "buffered x = buffered y"
    using Cons.IH by blast
  then show ?case
    using Cons.prems by (auto dest!: set_update_subset_insert [THEN subsetD])
qed auto

lemma cache_inv_new: "cache_inv NewCache"
  by (simp add: cache_inv_def NewCache_def fresh_chan_def Snapshot_def zero_snapshot_def)

lemma cache_inv_rebuild: "cache_inv c \<Longrightarrow> cache_inv (Rebuild c s)"
  using emit_all [of c]
  by (auto simp: cache_inv_def Rebuild_def emitRebuilt_def Let_def Snapshot_def)

lemma cache_inv_invalidate: "cache_inv c \<Longrightarrow> cache_inv (InvalidateOn401 c)"
  by (auto simp: cache_inv_def InvalidateOn401_def Let_def Snapshot_def placeholder401_def
      zero_snapshot_def try_send_def split: option.splits)

lemma cache_inv_subscribe: "cache_inv c \<Longrightarrow> \<not> closed c \<Longrightarrow> cache_inv (snd (Subscribe c))"
  by (auto simp: cache_inv_def Subscribe_def Let_def Snapshot_def fresh_chan_def)

lemma cache_inv_start: "cache_inv c \<Longrightarrow> cache_inv (Start c)"
  by (auto simp: cache_inv_def Start_def Let_def Snapshot_def dest: set_close_all)

lemma cache_inv_recv:
  "cache_inv c \<Longrightarrow> cache_inv (recv_probe c)"
  "cache_inv c \<Longrightarrow> i < length (subs c) \<Longrightarrow> cache_inv (recv_sub i c)"
  by (auto simp: cache_inv_def recv_probe_def recv_sub_def Snapshot_def
      dest!: set_update_subset_insert [THEN subsetD])

lemma cache_step_inv: "cache_step c d \<Longrightarrow> cache_inv c \<Longrightarrow> cache_inv d"
  by (induction rule: cache_step.induct)
    (auto intro: cache_inv_rebuild cache_inv_invalidate cache_inv_subscribe cache_inv_start cache_inv_recv)

lemma cache_reachable_inv: "cache_reachable c \<Longrightarrow> cache_inv c"
  by (induction rule: cache_reachable.induct) (auto intro: cache_inv_new cache_step_inv)

subsection \<open>The interface the reconcilers rely on\<close>

text \<open>
  \<^verbatim>\<open>connection.ConnectionCache\<close> as a contract: what a reader sees after a rebuild and after an
  invalidation, and that invalidating again changes nothing.
\<close>

locale connection_cache =
  fixes snap :: "'s \<Rightarrow> 'c ConnectionSnapshot"
    and inval :: "'s \<Rightarrow> 's"
    and rebuild :: "'s \<Rightarrow> 'c ConnectionSnapshot \<Rightarrow> 's"
    and inv :: "'s \<Rightarrow> bool"
    and live :: "'s \<Rightarrow> bool"
  assumes inv_inval: "inv c \<Longrightarrow> inv (inval c)"
    and inv_rebuild: "inv c \<Longrightarrow> inv (rebuild c s)"
    and live_inval: "live (inval c) = live c"
    and live_rebuild: "live (rebuild c s) = live c"
    and snap_rebuild: "snap (rebuild c s) = s"
    and inval_not_ready: "inv c \<Longrightarrow> live c \<Longrightarrow> \<not> snap_Ready (snap (inval c))"
    and inval_client: "snap_Client (snap (inval c)) = snap_Client (snap c)"
    and inval_idem: "inval (inval c) = inval c"
begin

lemma inval_not_usable: "inv c \<Longrightarrow> live c \<Longrightarrow> \<not> Usable (snap (inval c))"
  by (simp add: Usable_def inval_not_ready)

lemma inval_storm: "0 < n \<Longrightarrow> (inval ^^ n) c = inval c"
proof (induction n)
  case (Suc n)
  then show ?case by (cases n) (simp_all add: inval_idem)
qed simp

lemma rebuild_after_inval: "snap (rebuild (inval c) s) = s"
  by (rule snap_rebuild)

end

lemma InvalidateOn401_idem: "InvalidateOn401 (InvalidateOn401 c) = InvalidateOn401 c"
  by (auto simp: InvalidateOn401_def Let_def split: option.splits)

interpretation cache: connection_cache Snapshot InvalidateOn401 Rebuild cache_inv "\<lambda>c. \<not> closed c"
proof
  fix c :: "'c Cache" and s
  show "snap_Client (Snapshot (InvalidateOn401 c)) = snap_Client (Snapshot c)"
    by (auto simp: InvalidateOn401_def Let_def Snapshot_def placeholder401_def zero_snapshot_def
        split: option.splits)
  show "cache_inv c \<Longrightarrow> \<not> closed c \<Longrightarrow> \<not> snap_Ready (Snapshot (InvalidateOn401 c))"
    by (auto simp: InvalidateOn401_def Let_def Snapshot_def placeholder401_def zero_snapshot_def
        cache_inv_def split: option.splits)
  show "InvalidateOn401 (InvalidateOn401 c) = InvalidateOn401 c"
    by (rule InvalidateOn401_idem)
  show "cache_inv c \<Longrightarrow> cache_inv (InvalidateOn401 c)" "cache_inv c \<Longrightarrow> cache_inv (Rebuild c s)"
    by (simp_all add: cache_inv_rebuild cache_inv_invalidate)
qed (auto simp: Rebuild_def InvalidateOn401_def emitRebuilt_def Let_def Snapshot_def split: option.splits)

subsection \<open>Properties\<close>


definition example_snapshot :: "nat ConnectionSnapshot" where
  "example_snapshot = \<lparr>snap_Ready = True, snap_Reason = ''Synced'', snap_Client = Some 7,
     snap_MCPToolPrefixSeparator = ''.'', snap_RequeueOnRejectedAfter = 5 * minute\<rparr>"

definition example_cache :: "nat Cache" where
  "example_cache = InvalidateOn401 (Rebuild (snd (Subscribe NewCache)) example_snapshot)"

lemma example_cache_reachable: "cache_reachable example_cache"
proof -
  have "cache_reachable (snd (Subscribe (NewCache :: nat Cache)))"
    by (rule reach_step [OF reach_new]) (rule step_subscribe, simp add: NewCache_def)
  then have "cache_reachable (Rebuild (snd (Subscribe NewCache)) example_snapshot)"
    by (rule reach_step) (rule step_rebuild)
  then show ?thesis
    unfolding example_cache_def by (rule reach_step) (rule step_invalidate)
qed


text \<open>
  A storm of any number of 401s between two rebuilds has the effect of one: it flips the
  snapshot to not ready under the reason \<^verbatim>\<open>BadMasterKey\<close>, keeps the client, and leaves exactly one
  probe event pending.
\<close>

theorem InvalidateOn401_storm:
  assumes "cache_reachable c" and "\<not> closed c" and "\<not> invalidated c" and "0 < n"
  shows "(InvalidateOn401 ^^ n) c = InvalidateOn401 c
    \<and> \<not> Usable (Snapshot (InvalidateOn401 c)) \<and> snap_Reason (Snapshot (InvalidateOn401 c)) = ''BadMasterKey''
    \<and> snap_Client (Snapshot (InvalidateOn401 c)) = snap_Client (Snapshot c)
    \<and> buffered (ch (InvalidateOn401 c)) = 1"
proof -
  have inv: "cache_inv c" by (rule cache_reachable_inv [OF assms(1)])
  have "snap_Reason (Snapshot (InvalidateOn401 c)) = ''BadMasterKey''" "buffered (ch (InvalidateOn401 c)) = 1"
    using assms(2,3) inv
    by (auto simp: InvalidateOn401_def Let_def Snapshot_def placeholder401_def cache_inv_def try_send_def)
  then show ?thesis
    using cache.inval_storm [OF assms(4), of c] cache.inval_not_usable [OF inv assms(2)]
      cache.inval_client [of c] by blast
qed

theorem InvalidateOn401_storm_witness:
  "(InvalidateOn401 ^^ 26) (NewCache :: nat Cache) = InvalidateOn401 NewCache
   \<and> buffered (ch (InvalidateOn401 (NewCache :: nat Cache))) = 1"
proof -
  have "cache_reachable (NewCache :: nat Cache)" "\<not> closed (NewCache :: nat Cache)"
    "\<not> invalidated (NewCache :: nat Cache)" "0 < (26 :: nat)"
    by (simp_all add: reach_new) (simp_all add: NewCache_def)
  from InvalidateOn401_storm [OF this] show ?thesis by blast
qed

text \<open>
  A rebuild that makes the connection ready when it was not wakes every subscriber: each ends
  with exactly one pending event.  A rebuild from ready to ready, or to not ready, sends nothing.
\<close>

theorem Rebuild_wakes_on_edge:
  assumes "cache_reachable c" and "\<not> closed c"
  shows "(snap_Ready s \<and> \<not> snap_Ready (Snapshot c) \<longrightarrow>
            map buffered (subs (Rebuild c s)) = replicate (length (subs c)) 1)
    \<and> (\<not> (snap_Ready s \<and> \<not> snap_Ready (Snapshot c)) \<longrightarrow> subs (Rebuild c s) = subs c)"
proof -
  have inv: "cache_inv c" by (rule cache_reachable_inv [OF assms(1)])
  then have "lastReady c \<longleftrightarrow> snap_Ready (Snapshot c)" by (simp add: cache_inv_def)
  then show ?thesis
    using emit_all [OF inv assms(2)] assms(2)
    by (auto simp: Rebuild_def emitRebuilt_def Let_def comp_def map_replicate_const)
qed

theorem Rebuild_wakes_on_edge_witness:
  "map buffered (subs (Rebuild (snd (Subscribe (NewCache :: nat Cache))) example_snapshot)) = [1]"
proof -
  let ?c = "snd (Subscribe (NewCache :: nat Cache))"
  have reach: "cache_reachable ?c"
    by (rule reach_step [OF reach_new]) (rule step_subscribe, simp add: NewCache_def)
  have "\<not> closed ?c" "snap_Ready example_snapshot" "\<not> snap_Ready (Snapshot ?c)" "length (subs ?c) = 1"
    by (simp_all add: NewCache_def Subscribe_def Let_def example_snapshot_def Snapshot_def zero_snapshot_def)
  then show ?thesis using Rebuild_wakes_on_edge [OF reach, of example_snapshot] by simp
qed

text \<open>
  The requeue cadence used on every deterministic rejection lies between one minute and one
  hour whatever the connection spec says, and a value in that range is used as it is.
\<close>

theorem NormalizedRequeue_bounds:
  "1 * minute \<le> NormalizedRequeueOnRejectedAfter s \<and> NormalizedRequeueOnRejectedAfter s \<le> 1 * hour
   \<and> (NormalizedRequeueOnRejectedAfter s = snap_RequeueOnRejectedAfter s
        \<longleftrightarrow> 1 * minute \<le> snap_RequeueOnRejectedAfter s \<and> snap_RequeueOnRejectedAfter s \<le> 1 * hour)"
  using requeue.canon_ok [of "snap_RequeueOnRejectedAfter s"]
    requeue.canon_fix_iff [of "snap_RequeueOnRejectedAfter s"]
  by (simp add: NormalizedRequeueOnRejectedAfter_def MinRequeueOnRejectedAfter_def MaxRequeueOnRejectedAfter_def)

end
