(* ===== verification/Churn_Guard.thy ===== *)
theory Churn_Guard
  imports Kube
begin

text \<open>
  The recreate circuit breaker of \<^verbatim>\<open>internal/controller/churn_guard.go\<close>: a per-object sliding-window
  counter of CREATE calls.  Instants are integers in nanoseconds; the injected clock is the argument
  \<open>now\<close> of each operation.  \<open>None\<close> is the nil receiver.
\<close>

subsection \<open>The limit\<close>

definition DefaultRecreateLimitPerMin :: int where
  "DefaultRecreateLimitPerMin = 10"

definition churnWindow :: int where
  "churnWindow = minute"

fun parse_digits :: "int \<Rightarrow> string \<Rightarrow> int option" where
  "parse_digits acc [] = Some acc"
| "parse_digits acc (c # cs) =
     (if is_digit c then parse_digits (10 * acc + int (of_char c - 48)) cs else None)"

text \<open>\<^verbatim>\<open>strconv.Atoi\<close> on a 64-bit platform: an optional sign, at least one digit, an error out of range.\<close>

definition Atoi :: "string \<Rightarrow> int option" where
  "Atoi raw =
     (let (neg, ds) = (case raw of [] \<Rightarrow> (False, [])
        | c # cs \<Rightarrow> if c = CHR ''-'' then (True, cs) else if c = CHR ''+'' then (False, cs) else (False, raw))
      in if ds = [] then None
         else case parse_digits 0 ds of None \<Rightarrow> None
              | Some n \<Rightarrow> let v = (if neg then - n else n)
                         in if - (2 ^ 63) \<le> v \<and> v < 2 ^ 63 then Some v else None)"

definition ResolveRecreateLimitPerMin :: "string \<Rightarrow> int" where
  "ResolveRecreateLimitPerMin raw =
     (if raw = '''' then DefaultRecreateLimitPerMin
      else case Atoi raw of
             None \<Rightarrow> DefaultRecreateLimitPerMin
           | Some n \<Rightarrow> if n \<le> 0 then DefaultRecreateLimitPerMin else n)"

subsection \<open>The guard\<close>

type_synonym NamespacedName = "string \<times> string"

record churnGuard =
  events :: "NamespacedName \<Rightarrow> int list option"

definition newChurnGuard :: "churnGuard option" where
  "newChurnGuard = Some \<lparr>events = (\<lambda>_. None)\<rparr>"

definition events_of :: "churnGuard \<Rightarrow> NamespacedName \<Rightarrow> int list" where
  "events_of g key = (case events g key of None \<Rightarrow> [] | Some ev \<Rightarrow> ev)"

definition pruneLocked :: "NamespacedName \<Rightarrow> int \<Rightarrow> churnGuard \<Rightarrow> nat \<times> churnGuard" where
  "pruneLocked key cutoff g =
     (let keep = filter (\<lambda>t. t > cutoff) (events_of g key)
      in if length keep = 0 then (0, g\<lparr>events := (events g)(key := None)\<rparr>)
         else (length keep, g\<lparr>events := (events g)(key := Some keep)\<rparr>))"

definition Count :: "NamespacedName \<Rightarrow> int \<Rightarrow> churnGuard option \<Rightarrow> nat \<times> churnGuard option" where
  "Count key now r =
     (case r of None \<Rightarrow> (0, None)
      | Some g \<Rightarrow> let (n, g) = pruneLocked key (now - churnWindow) g in (n, Some g))"

definition Record :: "NamespacedName \<Rightarrow> int \<Rightarrow> churnGuard option \<Rightarrow> nat \<times> churnGuard option" where
  "Record key now r =
     (case r of None \<Rightarrow> (0, None)
      | Some g \<Rightarrow>
          let (_, g) = pruneLocked key (now - churnWindow) g;
              g = g\<lparr>events := (events g)(key := Some (events_of g key @ [now]))\<rparr>
          in (length (events_of g key), Some g))"

definition Forget :: "NamespacedName \<Rightarrow> churnGuard option \<Rightarrow> churnGuard option" where
  "Forget key r = map_option (\<lambda>g. g\<lparr>events := (events g)(key := None)\<rparr>) r"

subsection \<open>The window contract\<close>

text \<open>
  What the reconciler relies on, stated against the full history of recreates since the last
  \<^verbatim>\<open>Forget\<close>: the guard forgets old events, but at every later instant it counts the same.
\<close>

definition in_window :: "int \<Rightarrow> int list \<Rightarrow> int list" where
  "in_window now ts = filter (\<lambda>t. t > now - churnWindow) ts"

definition tracks :: "churnGuard option \<Rightarrow> (NamespacedName \<Rightarrow> int list) \<Rightarrow> int \<Rightarrow> bool" where
  "tracks r h now \<longleftrightarrow> (\<exists>g. r = Some g \<and> (\<forall>k. in_window now (events_of g k) = in_window now (h k)))"

locale sliding_window =
  fixes count :: "'k \<Rightarrow> int \<Rightarrow> 'g \<Rightarrow> nat \<times> 'g"
    and note_event :: "'k \<Rightarrow> int \<Rightarrow> 'g \<Rightarrow> nat \<times> 'g"
    and drop_key :: "'k \<Rightarrow> 'g \<Rightarrow> 'g"
    and agrees :: "'g \<Rightarrow> ('k \<Rightarrow> int list) \<Rightarrow> int \<Rightarrow> bool"
  assumes count_exact: "agrees g h now \<Longrightarrow> now \<le> t \<Longrightarrow> fst (count k t g) = length (in_window t (h k))"
    and count_agrees: "agrees g h now \<Longrightarrow> now \<le> t \<Longrightarrow> agrees (snd (count k t g)) h t"
    and note_agrees: "agrees g h now \<Longrightarrow> now \<le> t \<Longrightarrow> agrees (snd (note_event k t g)) (h(k := h k @ [t])) t"
    and drop_agrees: "agrees g h now \<Longrightarrow> agrees (drop_key k g) (h(k := [])) now"
begin

lemma note_below_limit:
  assumes "agrees g h t" "t \<le> t'" "count k t' g = (n, g')" "n < lim" "t' \<le> t''"
  shows "agrees (snd (note_event k t'' g')) (h(k := h k @ [t''])) t'' \<and> length (in_window t'' (h k)) < lim"
proof
  have "agrees g' h t'" and n: "n = length (in_window t' (h k))"
    using assms count_agrees [of g h t t' k] count_exact [of g h t t' k] by auto
  then show "agrees (snd (note_event k t'' g')) (h(k := h k @ [t''])) t''"
    using assms(5) note_agrees by blast
  have "length (in_window t'' ts) \<le> length (in_window t' ts)" for ts
    using assms(5) unfolding in_window_def by (induction ts) auto
  then show "length (in_window t'' (h k)) < lim"
    using n assms(4) by (metis order.strict_trans1)
qed

end

text \<open>Newest first: each event came when its window held at most \<open>lim\<close> events, itself included.\<close>

fun paced :: "nat \<Rightarrow> int list \<Rightarrow> bool" where
  "paced lim [] = True"
| "paced lim (t # rest) = (paced lim rest \<and> length (in_window t (t # rest)) \<le> lim \<and> (\<forall>u \<in> set rest. u \<le> t))"

lemma paced_bound: "paced lim ts \<Longrightarrow> length (filter (\<lambda>u. T - churnWindow < u \<and> u \<le> T) ts) \<le> lim"
proof (induction ts)
  case (Cons t rest)
  let ?in = "\<lambda>u. T - churnWindow < u \<and> u \<le> T"
  show ?case
  proof (cases "?in t")
    case True
    have "length (filter ?in (t # rest)) \<le> length (in_window t (t # rest))"
      using True unfolding in_window_def by (induction rest) auto
    then show ?thesis using Cons by simp
  qed (use Cons in auto)
qed simp

lemma in_window_idem: "t \<le> t' \<Longrightarrow> in_window t' (in_window t ts) = in_window t' ts"
  unfolding in_window_def by (induction ts) auto

lemma events_of_prune:
  "events_of (snd (pruneLocked key (t - churnWindow) g)) k =
     (if k = key then in_window t (events_of g key) else events_of g k)"
  "fst (pruneLocked key (t - churnWindow) g) = length (in_window t (events_of g key))"
  by (auto simp: pruneLocked_def events_of_def in_window_def Let_def)

lemma tracks_later: "tracks r h now \<Longrightarrow> now \<le> t \<Longrightarrow> tracks r h t"
  unfolding tracks_def by (metis in_window_idem)

lemma Record_events:
  "\<exists>g'. snd (Record key t (Some g)) = Some g' \<and>
     events_of g' k = (if k = key then in_window t (events_of g key) @ [t] else events_of g k)"
proof -
  obtain n g' where p: "pruneLocked key (t - churnWindow) g = (n, g')" by fastforce
  then have "events_of g' j = (if j = key then in_window t (events_of g key) else events_of g j)" for j
    using events_of_prune(1) [of key t g j] by simp
  then show ?thesis
    by (simp add: Record_def Let_def p) (simp add: events_of_def)
qed

interpretation window: sliding_window Count Record Forget tracks
proof
  fix r h now t k
  assume r: "tracks r h now" and le: "now \<le> t"
  then obtain g where g: "r = Some g" "\<And>k. in_window t (events_of g k) = in_window t (h k)"
    using tracks_later [OF r le] by (auto simp: tracks_def)
  show "fst (Count k t r) = length (in_window t (h k))"
    using g events_of_prune(2) [of k t g] by (auto simp: Count_def split: prod.splits)
  show "tracks (snd (Count k t r)) h t"
    using g events_of_prune(1) [of k t g]
    by (auto simp: tracks_def Count_def in_window_idem split: prod.splits)
  obtain g' where g': "snd (Record k t (Some g)) = Some g'"
    using Record_events by blast
  have "events_of g' j = (if j = k then in_window t (events_of g k) @ [t] else events_of g j)" for j
    using Record_events [of k t g j] g' by auto
  then show "tracks (snd (Record k t r)) (h(k := h k @ [t])) t"
    using g g' by (auto simp: tracks_def in_window_def)
next
  fix r h now k
  assume "tracks r h now"
  then show "tracks (Forget k r) (h(k := [])) now"
    by (auto simp: tracks_def Forget_def events_of_def in_window_def)
qed

lemma tracks_new: "tracks newChurnGuard (\<lambda>_. []) t"
  by (simp add: tracks_def newChurnGuard_def events_of_def)

subsection \<open>Guarded runs\<close>

text \<open>
  Runs of a reconciler that checks the limit before each CREATE and records the CREATE afterwards.
  The third argument is the history of the run: the CREATEs of each object since it was last
  forgotten.  Reconciles of one object never overlap, so nothing touches its counter between the
  check and the record.
\<close>

inductive guarded_run :: "nat \<Rightarrow> churnGuard option \<Rightarrow> (NamespacedName \<Rightarrow> int list) \<Rightarrow> int \<Rightarrow> bool" for lim where
  start: "guarded_run lim newChurnGuard (\<lambda>_. []) t"
| throttled: "guarded_run lim g h t \<Longrightarrow> t \<le> t' \<Longrightarrow> guarded_run lim (snd (Count k t' g)) h t'"
| recreate: "guarded_run lim g h t \<Longrightarrow> t \<le> t' \<Longrightarrow> Count k t' g = (n, g') \<Longrightarrow> n < lim \<Longrightarrow> t' \<le> t'' \<Longrightarrow>
    guarded_run lim (snd (Record k t'' g')) (h(k := h k @ [t''])) t''"
| steady: "guarded_run lim g h t \<Longrightarrow> guarded_run lim (Forget k g) (h(k := [])) t"

lemma guarded_run_paced:
  "guarded_run lim g h now \<Longrightarrow> tracks g h now \<and> (\<forall>k. paced lim (rev (h k)) \<and> (\<forall>u \<in> set (h k). u \<le> now))"
proof (induction rule: guarded_run.induct)
  case (throttled g h t t' k)
  then show ?case using window.count_agrees by fastforce
next
  case (recreate g h t t' k n g' t'')
  have "tracks (snd (Record k t'' g')) (h(k := h k @ [t''])) t''" "length (in_window t'' (rev (h k))) < lim"
    using window.note_below_limit [of g h t t' k n g' lim t''] recreate
    by (simp_all add: in_window_def rev_filter [symmetric])
  then show ?case
    using recreate by (force simp: in_window_def churnWindow_def durations)
next
  case (steady g h t k)
  then show ?case using window.drop_agrees [of g h t k] by (auto simp: fun_upd_def)
qed (simp add: tracks_new)

subsection \<open>Properties\<close>

text \<open>
  C11.  The breaker bounds the recreate storm: in any run of a reconciler that issues a CREATE for an
  object only while \<^verbatim>\<open>Count\<close> is below the limit and records it, interleaved with the same for other
  objects, no 60-second span contains more than the limit of CREATEs of one object since the object
  was last forgotten.
\<close>

theorem recreate_rate_bound:
  assumes "guarded_run lim g h now"
  shows "length (filter (\<lambda>u. T - churnWindow < u \<and> u \<le> T) (h key)) \<le> lim"
  using paced_bound [of lim "rev (h key)" T] guarded_run_paced [OF assms] by (simp add: rev_filter [symmetric])

theorem recreate_rate_bound_witness:
  "length (filter (\<lambda>u. 5 - churnWindow < u \<and> u \<le> 5) (((\<lambda>_. [])((''ns'', ''m'') := [] @ [3 :: int])) (''ns'', ''m''))) \<le> 1"
proof -
  have "Count (''ns'', ''m'') 2 newChurnGuard = (0, newChurnGuard)"
    by (simp add: Count_def newChurnGuard_def pruneLocked_def events_of_def fun_upd_idem)
  then have "guarded_run 1 (snd (Record (''ns'', ''m'') 3 newChurnGuard)) ((\<lambda>_. [])((''ns'', ''m'') := [] @ [3])) 3"
    using guarded_run.recreate [OF guarded_run.start, of 1 2 "(''ns'', ''m'')" 0 newChurnGuard 1 3] by simp
  then show ?thesis by (rule recreate_rate_bound)
qed

text \<open>
  No setting disables the breaker: the resolved limit is positive for every value of the
  environment variable, and it is the configured number exactly when that is a positive 64-bit
  decimal.
\<close>

theorem ResolveRecreateLimit_positive:
  "0 < ResolveRecreateLimitPerMin raw \<and>
   (0 < n \<and> n \<noteq> DefaultRecreateLimitPerMin \<longrightarrow> (ResolveRecreateLimitPerMin raw = n \<longleftrightarrow> Atoi raw = Some n))"
  by (auto simp: ResolveRecreateLimitPerMin_def DefaultRecreateLimitPerMin_def Atoi_def split: option.splits)

theorem ResolveRecreateLimit_positive_witness:
  "ResolveRecreateLimitPerMin ''25'' = 25"
proof -
  have "Atoi ''25'' = Some 25" by code_simp
  then show ?thesis
    using ResolveRecreateLimit_positive [of "''25''" 25] by (simp add: DefaultRecreateLimitPerMin_def)
qed

end
