(* ===== verification/Deletion_Policy.thy ===== *)
theory Deletion_Policy
  imports Kube
begin

text \<open>
  Package \<^verbatim>\<open>internal/controller/deletionpolicy\<close>: the effective deletion policy of a finalized object,
  from its owner references, the break-glass annotation and the spec field.
\<close>

datatype Policy = Orphan | Delete

definition AnnotationOverride :: string where
  "AnnotationOverride = ''litellm.ackstorm.ai/deletion-policy-override''"

definition discoveryOwnerKinds :: "string list" where
  "discoveryOwnerKinds = [''LiteLLMModelDiscovery'', ''LiteLLMMCPServerDiscovery'']"

definition parse :: "string \<Rightarrow> Policy option" where
  "parse s = (if s = ''Orphan'' then Some Orphan else if s = ''Delete'' then Some Delete else None)"

fun isDiscoveryOwned :: "OwnerReference list \<Rightarrow> bool" where
  "isDiscoveryOwned [] = False"
| "isDiscoveryOwned (ref # refs) =
     (if or_Controller ref = None \<or> or_Controller ref = Some False then isDiscoveryOwned refs
      else if or_Kind ref \<in> set discoveryOwnerKinds then True
      else isDiscoveryOwned refs)"

definition Resolve :: "ObjectMeta \<Rightarrow> string \<Rightarrow> Policy" where
  "Resolve obj specPolicy =
     (if isDiscoveryOwned (OwnerReferences obj) then Orphan
      else
        (case Option.bind (map_of (Annotations obj) AnnotationOverride) parse of
           Some p \<Rightarrow> p
         | None \<Rightarrow> (case parse specPolicy of Some p \<Rightarrow> p | None \<Rightarrow> Orphan)))"

lemma isDiscoveryOwned_iff:
  "isDiscoveryOwned refs \<longleftrightarrow>
     (\<exists>ref \<in> set refs. or_Controller ref = Some True \<and> or_Kind ref \<in> set discoveryOwnerKinds)"
  by (induction refs) (auto simp: split: option.splits)

lemma parse_Delete_iff [simp]: "parse s = Some Delete \<longleftrightarrow> s = ''Delete''"
  by (simp add: parse_def)

text \<open>
  The only way to the blocking policy \<^verbatim>\<open>Delete\<close>: the object is not a discovery-owned child, and
  either the annotation says \<^verbatim>\<open>Delete\<close>, or the annotation is absent or unknown and the spec says
  \<^verbatim>\<open>Delete\<close>.  Everything else resolves to \<^verbatim>\<open>Orphan\<close>.
\<close>

theorem Resolve_Delete_iff:
  "Resolve obj specPolicy = Delete \<longleftrightarrow>
     \<not> isDiscoveryOwned (OwnerReferences obj) \<and>
     (map_of (Annotations obj) AnnotationOverride = Some ''Delete''
      \<or> (map_of (Annotations obj) AnnotationOverride \<noteq> Some ''Orphan'' \<and> specPolicy = ''Delete''))"
  by (cases "map_of (Annotations obj) AnnotationOverride")
    (auto simp: Resolve_def parse_def split: option.splits if_splits)

text \<open>
  A child controlled by a discovery object always resolves to \<^verbatim>\<open>Orphan\<close>, whatever its spec and
  annotations say, so vanish detection is never blocked.
\<close>

theorem Resolve_discovery_child:
  assumes "ref \<in> set (OwnerReferences obj)" and "or_Controller ref = Some True"
    and "or_Kind ref \<in> {''LiteLLMModelDiscovery'', ''LiteLLMMCPServerDiscovery''}"
  shows "Resolve obj specPolicy = Orphan"
  using assms by (auto simp: Resolve_def isDiscoveryOwned_iff discoveryOwnerKinds_def)

definition example_child :: ObjectMeta where
  "example_child = \<lparr>Namespace = ''ns'', Name = ''m'', Generation = 1, DeletionTimestamp = True, Finalizers = [],
     Annotations = [(AnnotationOverride, ''Delete'')],
     OwnerReferences = [\<lparr>or_Kind = ''LiteLLMModelDiscovery'', or_Name = ''d'', or_Controller = Some True\<rparr>]\<rparr>"

theorem Resolve_discovery_child_witness:
  "Resolve example_child ''Delete'' = Orphan \<and> Resolve (example_child\<lparr>OwnerReferences := []\<rparr>) ''Orphan'' = Delete"
proof -
  have "Resolve example_child ''Delete'' = Orphan"
    by (rule Resolve_discovery_child
        [of "\<lparr>or_Kind = ''LiteLLMModelDiscovery'', or_Name = ''d'', or_Controller = Some True\<rparr>"])
      (simp_all add: example_child_def)
  moreover have "Resolve (example_child\<lparr>OwnerReferences := []\<rparr>) ''Orphan'' = Delete"
    by code_simp
  ultimately show ?thesis ..
qed

end
