(* ===== verification/Shared_Helpers.thy ===== *)
theory Shared_Helpers
  imports Litellm_Model Rejected_Message Connection Churn_Guard Deletion_Policy
begin

text \<open>
  The helpers the reconcilers share: \<^verbatim>\<open>shared_helpers.go\<close>, \<^verbatim>\<open>vanish_probe.go\<close>, \<^verbatim>\<open>secret_resolve.go\<close>,
  \<^verbatim>\<open>writestatus_helpers.go\<close>, \<^verbatim>\<open>status_log.go\<close> of \<^verbatim>\<open>internal/controller\<close>, and the two metric helpers of
  \<^verbatim>\<open>internal/metrics\<close> they call.

  A reconcile is a function on the state \<open>rstate\<close>: the world (the Kubernetes API, LiteLLM and the
  clock, of arbitrary type), the log of effects, the connection cache and the churn guard.  The
  Kubernetes client is a parameter, a record of step functions on the world.  The client inside a
  connection snapshot is the LiteLLM transport itself, so a call through a snapshot goes to the
  server that snapshot was built for.  Log lines are not modelled.
\<close>

subsection \<open>State, results and control flow\<close>

record 'w rstate = "'w env" +
  r_cache :: "'w http Cache"
  r_churn :: "churnGuard option"

record ('w, 'o) kclient =
  kc_get :: "'w \<Rightarrow> NamespacedName \<Rightarrow> (kube_error + 'o) \<times> 'w"
  kc_update :: "'w \<Rightarrow> 'o \<Rightarrow> kube_error option \<times> 'w"
  kc_status_update :: "'w \<Rightarrow> 'o \<Rightarrow> (kube_error + 'o) \<times> 'w"

datatype rerror = KubeErr kube_error | LlmErr lerror | TextErr string | GoPanic string | WrapErr string rerror

type_synonym verdict = "rerror + Result"

text \<open>A step of a reconcile either returns from the handler or goes on with a value.\<close>

datatype 'a flow = Return verdict | Next 'a

definition andThen ::
  "('s \<Rightarrow> 'a flow \<times> 's) \<Rightarrow> ('a \<Rightarrow> 's \<Rightarrow> 'b flow \<times> 's) \<Rightarrow> 's \<Rightarrow> 'b flow \<times> 's" where
  "andThen m f s = (case m s of (Return r, s) \<Rightarrow> (Return r, s) | (Next a, s) \<Rightarrow> f a s)"

abbreviation done_ok :: "'a flow" where
  "done_ok \<equiv> Return (Inr no_requeue)"

definition set_world :: "'w \<Rightarrow> 'w rstate \<Rightarrow> 'w rstate" where
  "set_world w s = s\<lparr>world := w\<rparr>"

subsection \<open>What a run of steps appended to the log\<close>

definition emits :: "(effect \<Rightarrow> bool) \<Rightarrow> 'w rstate \<Rightarrow> 'w rstate \<Rightarrow> bool" where
  "emits P s s' \<longleftrightarrow> (\<exists>xs. log s' = log s @ xs \<and> list_all P xs)"

lemma emits_refl [intro!, simp]: "emits P s s"
  by (simp add: emits_def)

lemma emits_trans [trans]: "emits P s s1 \<Longrightarrow> emits P s1 s2 \<Longrightarrow> emits P s s2"
  unfolding emits_def by (metis append.assoc list_all_append)

lemma emits_mono: "emits P s s' \<Longrightarrow> (\<And>e. P e \<Longrightarrow> Q e) \<Longrightarrow> emits Q s s'"
  unfolding emits_def by (metis list_all_iff)

lemma emits_emit [simp]: "emits P s (emit e s) \<longleftrightarrow> P e"
  by (simp add: emits_def emit_def)

lemma emits_world [simp]: "emits P s (set_world w s)" "emits P s (s\<lparr>world := w\<rparr>)"
  "emits P s (s\<lparr>r_cache := c\<rparr>)" "emits P s (s\<lparr>r_churn := g\<rparr>)"
  by (simp_all add: emits_def set_world_def)

lemma emits_same_log: "log s' = log s \<Longrightarrow> emits P s s'"
  by (simp add: emits_def)

lemma emits_snoc: "log s' = log s @ xs \<Longrightarrow> list_all P xs \<Longrightarrow> emits P s s'"
  by (auto simp: emits_def)

lemma emits_then_emit: "emits P s s' \<Longrightarrow> P e \<Longrightarrow> emits P s (emit e s')"
  by (erule emits_trans) simp

lemma emits_set_world: "emits P s s' \<Longrightarrow> emits P s (set_world w s')"
  by (erule emits_trans) simp

lemma makeRequest_http:
  fixes s :: "'w rstate"
  shows "emits is_http s (snd (makeRequest http m p b s))"
  by (simp add: emits_def makeRequest_parts)

lemma emits_andThen:
  assumes "emits P s (snd (m s))"
    and "\<And>a s1. m s = (Next a, s1) \<Longrightarrow> emits P s1 (snd (f a s1))"
  shows "emits P s (snd (andThen m f s))"
proof (cases "m s")
  case (Pair x s1)
  then show ?thesis
    using assms by (cases x) (auto simp: andThen_def intro: emits_trans)
qed

text \<open>A step after a call: the call is permitted, and so is each continuation.\<close>

lemma after_call:
  assumes "emits P s (snd c)" and "\<And>e s1. c = (Inl e, s1) \<Longrightarrow> emits P s1 (snd (f e s1))"
    and "\<And>x s1. c = (Inr x, s1) \<Longrightarrow> emits P s1 (snd (g x s1))"
  shows "emits P s (snd (case c of (Inl e, s) \<Rightarrow> f e s | (Inr x, s) \<Rightarrow> g x s))"
proof (cases c)
  case (Pair r s1)
  then show ?thesis using assms by (cases r) (auto intro: emits_trans)
qed

subsection \<open>The identity stamped into LiteLLM\<close>

text \<open>\<^verbatim>\<open>internal/identity\<close>; the version is set at link time.\<close>

definition Operator :: "string \<Rightarrow> string" where
  "Operator version = ''alitellm-operator/'' @ version"

subsection \<open>Small helpers\<close>

definition conditionTypeReady :: string where "conditionTypeReady = ''Ready''"
definition reasonSynced :: string where "reasonSynced = ''Synced''"
definition reasonConnecting :: string where "reasonConnecting = ''Connecting''"
definition reasonAbsent :: string where "reasonAbsent = ''Absent''"
definition reasonSecretNotFound :: string where "reasonSecretNotFound = ''SecretNotFound''"
definition reasonLiteLLMUnavailable :: string where "reasonLiteLLMUnavailable = ''LiteLLMUnavailable''"

definition rejectedStatus :: "lerror \<Rightarrow> int" where
  "rejectedStatus err = (case as_rejected err of Some r \<Rightarrow> rej_Status r | None \<Rightarrow> 0)"

definition is4xxStatus :: "lerror \<Rightarrow> bool" where
  "is4xxStatus err = (let s = rejectedStatus err in s \<ge> 400 \<and> s < 500)"

definition buildReadyCondition :: "int \<Rightarrow> ConditionStatus \<Rightarrow> string \<Rightarrow> string \<Rightarrow> Condition" where
  "buildReadyCondition gen status reason msg =
     \<lparr>Type = conditionTypeReady, Status = status, Reason = reason, Message = msg, ObservedGeneration = gen\<rparr>"

definition ReasonToReconcileResult :: "string \<Rightarrow> string" where
  "ReasonToReconcileResult reason =
     (if reason = ''LiteLLMRejected'' then ''rejected''
      else if reason \<in> {''LiteLLMUnavailable'', ''BadMasterKey'', ''Connecting'', ''Unreachable''} then ''transient_error''
      else if reason = ''SecretNotFound'' then ''secret_missing''
      else if reason = ''InvalidConfig'' then ''invalid_config''
      else ''synced'')"

definition recordReconcileMetric :: "string \<Rightarrow> string \<Rightarrow> string \<Rightarrow> 'w rstate \<Rightarrow> 'w rstate" where
  "recordReconcileMetric kind ns reason =
     emit (Metric ''LitellmOperatorReconcileTotal'' [kind, ns, ReasonToReconcileResult reason])"

definition reconcile_total :: "string \<Rightarrow> string \<Rightarrow> 'w rstate \<Rightarrow> 'w rstate" where
  "reconcile_total kind result = emit (Metric ''ReconcileTotal'' [kind, result])"

definition statusReadyUnchanged ::
  "klib \<Rightarrow> Condition list \<Rightarrow> int \<Rightarrow> int \<Rightarrow> ConditionStatus \<Rightarrow> string \<Rightarrow> string \<Rightarrow> bool" where
  "statusReadyUnchanged K conds observedGen gen status reason msg =
     (if observedGen \<noteq> gen then False
      else case FindStatusCondition K conds conditionTypeReady of
             None \<Rightarrow> False
           | Some cur \<Rightarrow> Status cur = status \<and> Reason cur = reason \<and> Message cur = msg)"

text \<open>The key of the deletion-blocked gauge and its inverse \<^verbatim>\<open>strings.SplitN(k, NUL, 3)\<close>.\<close>

definition makeDeletionBlockedKey :: "string \<Rightarrow> string \<Rightarrow> string \<Rightarrow> string" where
  "makeDeletionBlockedKey kind ns name = kind @ [CHR 0x00] @ ns @ [CHR 0x00] @ name"

definition split_nul :: "string \<Rightarrow> string \<times> string" where
  "split_nul k = (takeWhile (\<lambda>c. c \<noteq> CHR 0x00) k, drop 1 (dropWhile (\<lambda>c. c \<noteq> CHR 0x00) k))"

definition splitDeletionBlockedKey :: "string \<Rightarrow> string \<times> string \<times> string" where
  "splitDeletionBlockedKey k =
     (let (a, r) = split_nul k; (b, c) = split_nul r in (a, b, c))"

definition DeletionBlocked_Record :: "string \<Rightarrow> string \<Rightarrow> string \<Rightarrow> 'w rstate \<Rightarrow> 'w rstate" where
  "DeletionBlocked_Record kind ns name =
     emit (Metric ''DeletionBlocked.Record'' [makeDeletionBlockedKey kind ns name])"

definition DeletionBlocked_Forget :: "string \<Rightarrow> string \<Rightarrow> string \<Rightarrow> 'w rstate \<Rightarrow> 'w rstate" where
  "DeletionBlocked_Forget kind ns name =
     emit (Metric ''DeletionBlocked.Forget'' [makeDeletionBlockedKey kind ns name])"

subsection \<open>Deletion without acknowledgement\<close>

definition newAckMissingFn ::
  "string \<Rightarrow> string \<Rightarrow> string \<Rightarrow> Policy \<Rightarrow> string \<Rightarrow> bool \<Rightarrow> 'w rstate \<Rightarrow> rerror option \<times> 'w rstate" where
  "newAckMissingFn kind namespace name policy reason permanent s =
     (if policy = Delete then
        (let s = DeletionBlocked_Record kind namespace name s;
             s = emit (Event EventTypeWarning ''LiteLLMDeleteBlocked''
               (''deletionPolicy=Delete and LiteLLM ack missing ('' @ reason @ ''); finalizer retained'')) s
         in (Some (TextErr (''delete blocked: '' @ reason)), s))
      else if \<not> permanent then
        (let s = DeletionBlocked_Record kind namespace name s;
             s = emit (Event EventTypeNormal ''LiteLLMDeleteDeferred''
               (''LiteLLM delete deferred until LiteLLM is reachable ('' @ reason @ ''); finalizer retained'')) s
         in (Some (TextErr (''delete deferred: '' @ reason)), s))
      else
        (let s = emit (Metric ''DeletionOrphanedTotal'' [kind]) s;
             s = emit (Event EventTypeNormal ''LiteLLMDeleteOrphaned''
               (''deletionPolicy=Orphan and LiteLLM ack missing ('' @ reason
                @ ''); finalizer removed; entry may persist'')) s
         in (None, s)))"

definition ackUnavailable :: "'c ConnectionSnapshot \<Rightarrow> string \<times> bool" where
  "ackUnavailable snap =
     (''LiteLLM unavailable (reason '' @ quote (snap_Reason snap) @ '')'', snap_Reason snap = reasonAbsent)"

subsection \<open>Classification of mutation errors\<close>

type_synonym 'w status_writer = "ConditionStatus \<Rightarrow> string \<Rightarrow> string \<Rightarrow> 'w rstate \<Rightarrow> kube_error option \<times> 'w rstate"

definition invalidate_cache :: "'w rstate \<Rightarrow> 'w rstate" where
  "invalidate_cache s = s\<lparr>r_cache := InvalidateOn401 (r_cache s)\<rparr>"

text \<open>\<open>optIn\<close> is the environment switch read by \<^verbatim>\<open>rejectedMessage\<close>; a failed status write is only logged.\<close>

definition classifyMutationError ::
  "bool \<Rightarrow> lerror \<Rightarrow> string \<Rightarrow> string \<Rightarrow> 'w status_writer \<Rightarrow> int \<Rightarrow> 'w rstate \<Rightarrow> verdict \<times> 'w rstate" where
  "classifyMutationError optIn err opDesc kind writeStatusFn requeueAfter s =
     (if as_auth401 err \<noteq> None then
        (let s = invalidate_cache s;
             msg = ''401 from LiteLLM on '' @ opDesc @ ''; cache invalidated, re-probe enqueued'';
             (_, s) = writeStatusFn ConditionFalse reasonLiteLLMUnavailable msg s;
             s = reconcile_total kind ''success'' s
         in (Inr no_requeue, s))
      else if is4xxStatus err then
        (let msg = rejectedMessage optIn opDesc err (lerror_text err);
             (_, s) = writeStatusFn ConditionFalse ''LiteLLMRejected'' msg s;
             s = reconcile_total kind ''success'' s
         in (Inr (requeue_after requeueAfter), s))
      else (Inl (LlmErr err), reconcile_total kind ''error'' s))"

definition requeue_rejected :: "'c ConnectionSnapshot \<Rightarrow> Result" where
  "requeue_rejected snap = (requeue_after (NormalizedRequeueOnRejectedAfter snap))"

subsection \<open>Secrets\<close>

record SecretSubstitution =
  As :: string
  SecretRef_Name :: string
  SecretRef_Key :: string

fun first_dup :: "string list \<Rightarrow> string list \<Rightarrow> string option" where
  "first_dup seen [] = None"
| "first_dup seen (a # rest) = (if a \<in> set seen then Some a else first_dup (a # seen) rest)"

definition checkDuplicateSecretAs :: "SecretSubstitution list \<Rightarrow> string \<Rightarrow> string" where
  "checkDuplicateSecretAs secrets phrase =
     (case first_dup [] (map As secrets) of
        Some a \<Rightarrow> ''spec.secrets[]: duplicate as value '' @ quote a @ '' ('' @ phrase @ '')''
      | None \<Rightarrow> '''')"

definition secretRefNames :: "SecretSubstitution list \<Rightarrow> string list" where
  "secretRefNames secrets = map SecretRef_Name secrets"

datatype secret_result = SecretsResolved "string gomap" | SecretMissing string | SecretGetFailed kube_error

type_synonym 'w secret_getter = "'w \<Rightarrow> NamespacedName \<Rightarrow> (kube_error + string gomap) \<times> 'w"

fun resolve_secrets_from ::
  "'w secret_getter \<Rightarrow> string \<Rightarrow> SecretSubstitution list \<Rightarrow> string gomap \<Rightarrow> 'w \<Rightarrow> secret_result \<times> 'w" where
  "resolve_secrets_from getSecret ns [] out w = (SecretsResolved out, w)"
| "resolve_secrets_from getSecret ns (entry # rest) out w =
     (let miss = ns @ ''/'' @ SecretRef_Name entry @ '':'' @ SecretRef_Key entry @ '' not found'' in
      case getSecret w (ns, SecretRef_Name entry) of
        (Inl e, w) \<Rightarrow> (if IsNotFoundK e then (SecretMissing miss, w) else (SecretGetFailed e, w))
      | (Inr data, w) \<Rightarrow>
          (case map_of data (SecretRef_Key entry) of
             None \<Rightarrow> (SecretMissing miss, w)
           | Some val \<Rightarrow> resolve_secrets_from getSecret ns rest (map_put (As entry) val out) w))"

definition resolveSecretMap ::
  "'w secret_getter \<Rightarrow> string \<Rightarrow> SecretSubstitution list \<Rightarrow> 'w rstate \<Rightarrow> secret_result \<times> 'w rstate" where
  "resolveSecretMap getSecret ns secrets s =
     (let (r, w) = resolve_secrets_from getSecret ns secrets [] (world s) in (r, set_world w s))"

subsection \<open>Status writes with conflict retry\<close>

definition keepPersistedID :: "string \<Rightarrow> string \<Rightarrow> string" where
  "keepPersistedID want got = (if want = '''' then got else want)"

text \<open>
  One attempt reads the object afresh, applies the change and writes the status.  What the closure
  \<^verbatim>\<open>apply\<close> keeps between attempts is the value threaded through.  \<open>retries\<close> is the number of further
  attempts \<^verbatim>\<open>retry.RetryOnConflict\<close> makes after a conflict.
\<close>

definition status_attempt ::
  "('w, 'o) kclient \<Rightarrow> NamespacedName \<Rightarrow> ('o \<Rightarrow> effect) \<Rightarrow> ('a \<Rightarrow> 'o \<Rightarrow> 'o \<times> 'a) \<Rightarrow> 'a \<Rightarrow> 'w rstate
   \<Rightarrow> (kube_error + 'o) \<times> 'a \<times> 'w rstate" where
  "status_attempt K key eff upd a s =
     (case kc_get K (world s) key of
        (Inl e, w) \<Rightarrow> (Inl e, a, set_world w s)
      | (Inr f, w) \<Rightarrow>
          (let (f, a) = upd a f;
               s = emit (eff f) (set_world w s);
               (r, w) = kc_status_update K (world s) f
           in (r, a, set_world w s)))"

fun writeStatusWithRetry ::
  "nat \<Rightarrow> ('w, 'o) kclient \<Rightarrow> NamespacedName \<Rightarrow> ('o \<Rightarrow> effect) \<Rightarrow> ('a \<Rightarrow> 'o \<Rightarrow> 'o \<times> 'a) \<Rightarrow> 'a \<Rightarrow> 'w rstate
   \<Rightarrow> (kube_error + 'o) \<times> 'w rstate" where
  "writeStatusWithRetry 0 K key eff upd a s =
     (case status_attempt K key eff upd a s of (r, _, s) \<Rightarrow> (r, s))"
| "writeStatusWithRetry (Suc n) K key eff upd a s =
     (case status_attempt K key eff upd a s of
        (Inl e, a, s) \<Rightarrow> (if IsConflict e then writeStatusWithRetry n K key eff upd a s else (Inl e, s))
      | (Inr f, _, s) \<Rightarrow> (Inr f, s))"

subsection \<open>Names, and the vanish probe\<close>

fun resolveNames :: "string list \<Rightarrow> string gomap \<Rightarrow> string list \<times> string list" where
  "resolveNames [] ids = ([], [])"
| "resolveNames (name # names) ids =
     (let (resolved, missing) = resolveNames names ids
      in case map_of ids name of
           None \<Rightarrow> (resolved, name # missing)
         | Some i \<Rightarrow> (i # resolved, missing))"

text \<open>\<open>'c\<close> is what the lookup closure captures for its caller.\<close>

definition probeVanishedResourceID ::
  "string \<Rightarrow> ('w rstate \<Rightarrow> (lerror + string) \<times> 'c \<times> 'w rstate) \<Rightarrow> string \<Rightarrow> 'w rstate
   \<Rightarrow> (lerror + bool) \<times> 'c \<times> 'w rstate" where
  "probeVanishedResourceID lastID lookup resourceKind s =
     (case lookup s of
        (Inl e, c, s) \<Rightarrow>
          (if as_auth401 e \<noteq> None then (Inr False, c, invalidate_cache s)
           else if IsNotFound e then (Inr True, c, s)
           else (Inl (Wrap (''vanish-probe '' @ resourceKind) e), c, s))
      | (Inr resolvedID, c, s) \<Rightarrow>
          (if resolvedID = '''' then (Inr True, c, s)
           else if resolvedID \<noteq> lastID then (Inr True, c, s)
           else (Inr False, c, s)))"

subsection \<open>Facts for the reconcilers\<close>

lemma andThen_simps [simp]:
  "m s = (Return r, s1) \<Longrightarrow> andThen m f s = (Return r, s1)"
  "m s = (Next a, s1) \<Longrightarrow> andThen m f s = f a s1"
  by (simp_all add: andThen_def)

lemma ackMissing_None_iff:
  "fst (newAckMissingFn kind ns name policy reason permanent s) = None \<longleftrightarrow> policy = Orphan \<and> permanent"
  by (cases policy) (auto simp: newAckMissingFn_def Let_def)

lemma ackMissing_emits:
  "emits (\<lambda>e. \<not> is_http e \<and> (\<forall>fs. e \<noteq> ObjectUpdate fs)) s (snd (newAckMissingFn kind ns name policy reason permanent s))"
  by (auto simp: newAckMissingFn_def DeletionBlocked_Record_def Let_def intro!: emits_then_emit)

text \<open>What the retried writes show, \<open>I\<close> being kept of the value the attempts share.\<close>

lemma status_attempt_emits:
  assumes "I a" and "\<And>a w f w'. I a \<Longrightarrow> kc_get K w key = (Inr f, w') \<Longrightarrow> P (eff (fst (upd a f))) \<and> I (snd (upd a f))"
  shows "emits P s (snd (snd (status_attempt K key eff upd a s))) \<and> I (fst (snd (status_attempt K key eff upd a s)))"
  using assms
  by (cases "kc_get K (world s) key")
    (auto simp: status_attempt_def Let_def case_prod_beta split: sum.splits intro!: emits_set_world emits_then_emit)

lemma writeStatusWithRetry_emits_inv:
  assumes step: "\<And>a w f w'. I a \<Longrightarrow> kc_get K w key = (Inr f, w') \<Longrightarrow> P (eff (fst (upd a f))) \<and> I (snd (upd a f))"
  shows "I a \<Longrightarrow> emits P s (snd (writeStatusWithRetry n K key eff upd a s))"
proof (induction n arbitrary: a s)
  case 0
  then show ?case
    using status_attempt_emits [of I a K key P eff upd s] step by (auto split: prod.splits)
next
  case (Suc n)
  obtain r a1 s1 where at: "status_attempt K key eff upd a s = (r, a1, s1)"
    by (metis prod_cases3)
  then have "emits P s s1 \<and> I a1"
    using status_attempt_emits [of I a K key P eff upd s] Suc.prems step by simp
  then show ?case
    using Suc.IH [where s = s1 and a = a1] at by (auto split: sum.splits intro: emits_trans)
qed

lemma writeStatusWithRetry_emits:
  "(\<And>a w f w'. kc_get K w key = (Inr f, w') \<Longrightarrow> P (eff (fst (upd a f)))) \<Longrightarrow>
   emits P s (snd (writeStatusWithRetry n K key eff upd a s))"
  by (rule writeStatusWithRetry_emits_inv [where I = "\<lambda>_. True"]) simp_all

lemma status_attempt_same:
  "r_churn (snd (snd (status_attempt K key eff upd a s))) = r_churn s"
  "r_cache (snd (snd (status_attempt K key eff upd a s))) = r_cache s"
  by (auto simp: status_attempt_def set_world_def emit_def Let_def split: prod.splits sum.splits)

lemma writeStatusWithRetry_same:
  "r_churn (snd (writeStatusWithRetry n K key eff upd a s)) = r_churn s
   \<and> r_cache (snd (writeStatusWithRetry n K key eff upd a s)) = r_cache s"
proof (induction n arbitrary: a s)
  case 0
  then show ?case
    using status_attempt_same [of K key eff upd a s] by (auto split: prod.splits)
next
  case (Suc n)
  then show ?case
    using status_attempt_same [of K key eff upd a s] by (auto split: prod.splits sum.splits)
qed

lemma first_dup_None: "first_dup seen xs = None \<longleftrightarrow> distinct xs \<and> set xs \<inter> set seen = {}"
  by (induction seen xs rule: first_dup.induct) auto

lemma split_nul_append: "CHR 0x00 \<notin> set a \<Longrightarrow> split_nul (a @ CHR 0x00 # r) = (a, r)"
  by (induction a) (auto simp: split_nul_def)

lemma resolve_secrets_keeps:
  "resolve_secrets_from g ns es out w = (SecretsResolved m, w') \<Longrightarrow> k \<notin> As ` set es \<Longrightarrow> map_of m k = map_of out k"
  by (induction g ns es out w arbitrary: m w' rule: resolve_secrets_from.induct)
    (auto simp: map_of_put Let_def split: prod.splits sum.splits option.splits if_splits)

lemma resolve_secrets_dom:
  "resolve_secrets_from g ns es out w = (SecretsResolved m, w') \<Longrightarrow>
   set (keys m) = set (keys out) \<union> As ` set es"
  by (induction g ns es out w arbitrary: m w' rule: resolve_secrets_from.induct)
    (auto simp: Let_def split: prod.splits sum.splits option.splits if_splits)

lemma resolve_secrets_values:
  assumes "\<And>w k. snd (getSecret w k) = w"
  shows "resolve_secrets_from getSecret ns es out w = (SecretsResolved m, w') \<Longrightarrow> distinct (map As es) \<Longrightarrow>
    \<forall>e \<in> set es. \<exists>data. fst (getSecret w (ns, SecretRef_Name e)) = Inr data \<and>
      map_of data (SecretRef_Key e) \<noteq> None \<and> map_of m (As e) = map_of data (SecretRef_Key e)"
proof (induction es arbitrary: out)
  case (Cons e es)
  have fixed: "getSecret w k = (x, w') \<Longrightarrow> w' = w" for w k x w' using assms [of w k] by simp
  from Cons.prems obtain data val where d: "getSecret w (ns, SecretRef_Name e) = (Inr data, w)"
    "map_of data (SecretRef_Key e) = Some val"
    "resolve_secrets_from getSecret ns es (map_put (As e) val out) w = (SecretsResolved m, w')"
    by (auto simp: Let_def dest: fixed split: prod.splits sum.splits option.splits if_splits)
  then have "map_of m (As e) = Some val"
    using Cons.prems(2) resolve_secrets_keeps [OF d(3), of "As e"] by (simp add: map_of_put)
  then show ?case using Cons.IH [OF d(3)] Cons.prems(2) d by auto
qed simp

subsection \<open>Reports and setbacks\<close>

text \<open>Effects visible in the cluster only.\<close>

fun is_report :: "effect \<Rightarrow> bool" where
  "is_report (StatusWrite _ _) = True"
| "is_report (Event _ _ _) = True"
| "is_report (Metric _ _) = True"
| "is_report _ = False"

lemma report_no_http: "is_report e \<Longrightarrow> \<not> is_http e"
  by (cases e) auto

lemma emits_reports: "emits is_report s s' \<Longrightarrow> (\<And>e. is_report e \<Longrightarrow> P e) \<Longrightarrow> emits P s s'"
  by (rule emits_mono)

text \<open>A setback: a report that does not claim the object is ready.\<close>

fun is_setback :: "effect \<Rightarrow> bool" where
  "is_setback (StatusWrite c _) = (Status c = ConditionFalse)"
| "is_setback (Event _ _ _) = True"
| "is_setback (Metric _ _) = True"
| "is_setback _ = False"

lemma setback_emits: "emits is_setback s s' \<Longrightarrow> emits is_report s s'"
  by (erule emits_mono) (rename_tac e, case_tac e, simp_all)

lemma invalidate_cache_emits: "emits P s (invalidate_cache s)"
  by (simp add: invalidate_cache_def)

lemma classifyMutationError_setback:
  assumes "\<And>r m s. emits is_setback s (snd (ws ConditionFalse r m s))"
  shows "emits is_setback s (snd (classifyMutationError optIn err op kind ws rq s))"
  using assms
  by (auto simp: classifyMutationError_def reconcile_total_def Let_def case_prod_beta
      intro!: emits_then_emit intro: emits_trans [OF invalidate_cache_emits])

text \<open>A write of an object without the finalizer: the release of a deleted object.\<close>

fun releases :: "string \<Rightarrow> effect \<Rightarrow> bool" where
  "releases f (ObjectUpdate fs) = (f \<notin> set fs)"
| "releases f _ = False"

lemma setback_no_release: "is_setback e \<Longrightarrow> \<not> releases f e"
  by (cases e) auto

lemma new_effects_mem:
  "emits (\<lambda>e. \<not> P e) s s' \<Longrightarrow> e \<in> set (drop (length (log s)) (log s')) \<Longrightarrow> \<not> P e"
  by (auto simp: emits_def list_all_iff)

fun claims_ready :: "effect \<Rightarrow> bool" where
  "claims_ready (StatusWrite c _) = (Status c = ConditionTrue)"
| "claims_ready _ = False"

lemma setback_not_ready: "is_setback e \<Longrightarrow> \<not> claims_ready e"
  by (cases e) auto

lemma report_no_release: "is_report e \<Longrightarrow> \<not> releases f e"
  by (cases e) auto

subsection \<open>Properties\<close>

text \<open>
  Deletion without an acknowledgement, for every policy and cause: the caller may remove the
  finalizer exactly when the policy is \<^verbatim>\<open>Orphan\<close> and no retry could ever succeed; in every other case
  it gets an error, and the object is marked as blocked.
\<close>

theorem newAckMissingFn_table:
  "(fst (newAckMissingFn kind ns name policy reason permanent s) = None \<longleftrightarrow> policy = Orphan \<and> permanent) \<and>
   (Metric ''DeletionBlocked.Record'' [makeDeletionBlockedKey kind ns name]
      \<in> set (drop (length (log s)) (log (snd (newAckMissingFn kind ns name policy reason permanent s))))
    \<longleftrightarrow> fst (newAckMissingFn kind ns name policy reason permanent s) \<noteq> None)"
  by (cases policy) (auto simp: newAckMissingFn_def DeletionBlocked_Record_def emit_def Let_def)

text \<open>
  The three ways a failed mutation ends.  A 401 invalidates the connection cache and ends
  without error and without a timer, so a bad key causes no retry storm; any other 4xx ends without
  error, leaves the cache alone and asks for the given requeue; every other error is returned
  unchanged for backoff, and then neither the cache nor the status is touched.
\<close>

theorem classifyMutationError_branches:
  "classifyMutationError optIn err op kind ws rq s = (v, s') \<Longrightarrow>
   (case v of
      Inl e \<Rightarrow> e = LlmErr err \<and> as_auth401 err = None \<and> \<not> is4xxStatus err
               \<and> s' = reconcile_total kind ''error'' s
    | Inr r \<Rightarrow>
        if as_auth401 err \<noteq> None
        then RequeueAfter r = 0 \<and>
          s' = reconcile_total kind ''success''
             (snd (ws ConditionFalse reasonLiteLLMUnavailable
               (''401 from LiteLLM on '' @ op @ ''; cache invalidated, re-probe enqueued'') (invalidate_cache s)))
        else is4xxStatus err \<and> RequeueAfter r = rq \<and>
          s' = reconcile_total kind ''success''
             (snd (ws ConditionFalse ''LiteLLMRejected'' (rejectedMessage optIn op err (lerror_text err)) s)))"
  by (auto simp: classifyMutationError_def Let_def split: if_splits prod.splits)

definition example_rejected :: lerror where
  "example_rejected = RejectedError \<lparr>rej_Method = ''POST'', rej_Path = ''/model/new'', rej_Status = 400,
     rej_Code = ''400'', rej_Type = '''', rej_Message = ''bad''\<rparr>"

definition example_state :: "unit rstate" where
  "example_state = \<lparr>world = (), log = [], r_cache = NewCache, r_churn = None\<rparr>"

theorem classifyMutationError_branches_witness:
  "\<exists>s'. classifyMutationError False example_rejected ''op'' ''k'' (\<lambda>_ _ _ s. (None, s)) 7 example_state
     = (Inr (requeue_after 7), s') \<and> s' = reconcile_total ''k'' ''success'' example_state"
proof -
  have run: "classifyMutationError False example_rejected ''op'' ''k'' (\<lambda>_ _ _ s. (None, s)) 7 example_state
      = (Inr (requeue_after 7), reconcile_total ''k'' ''success'' example_state)"
    by (simp add: classifyMutationError_def example_rejected_def is4xxStatus_def rejectedStatus_def)
  show ?thesis
    using classifyMutationError_branches [OF run] run
    by (simp add: example_rejected_def is4xxStatus_def rejectedStatus_def)
qed

text \<open>
  Name resolution reports what it cannot resolve: the resolved ids are exactly the images of
  the names that have an id, in the order of the spec, the missing names are exactly the others, in
  order, and nothing is dropped.
\<close>

theorem resolveNames_partition:
  "resolveNames names ids =
     (map (\<lambda>n. the (map_of ids n)) (filter (\<lambda>n. map_of ids n \<noteq> None) names),
      filter (\<lambda>n. map_of ids n = None) names)"
  by (induction names ids rule: resolveNames.induct) (auto simp: Let_def split: option.splits)

text \<open>
  If the duplicate check passes and every Secret is found, the substitution map has exactly the
  declared placeholder names, and each maps to the value under its own key of its own Secret as the
  API returned it (for an API whose reads return the same data).
\<close>

theorem resolveSecretMap_complete:
  assumes "\<And>w k. snd (getSecret w k) = w"
    and "checkDuplicateSecretAs es phrase = ''''"
    and "resolveSecretMap getSecret ns es s = (SecretsResolved m, s')"
  shows "set (keys m) = As ` set es \<and>
    (\<forall>e \<in> set es. \<exists>data. fst (getSecret (world s) (ns, SecretRef_Name e)) = Inr data \<and>
       map_of data (SecretRef_Key e) \<noteq> None \<and> map_of m (As e) = map_of data (SecretRef_Key e))"
proof -
  have "distinct (map As es)"
    using assms(2) by (auto simp: checkDuplicateSecretAs_def first_dup_None split: option.splits)
  moreover obtain w' where run: "resolve_secrets_from getSecret ns es [] (world s) = (SecretsResolved m, w')"
    using assms(3) by (auto simp: resolveSecretMap_def split: prod.splits)
  ultimately show ?thesis
    using resolve_secrets_values [OF assms(1) run] resolve_secrets_dom [OF run] by simp
qed

definition example_secrets :: "SecretSubstitution list" where
  "example_secrets = [\<lparr>As = ''KEY'', SecretRef_Name = ''s'', SecretRef_Key = ''k''\<rparr>]"

theorem resolveSecretMap_complete_witness:
  "set (keys [(''KEY'', ''v'')]) = As ` set example_secrets"
  using resolveSecretMap_complete [of "\<lambda>w k. (Inr [(''k'', ''v'')], w)" example_secrets "''''" "''ns''" example_state
      "[(''KEY'', ''v'')]" example_state]
  by (simp add: example_secrets_def example_state_def checkDuplicateSecretAs_def resolveSecretMap_def map_put_def
      set_world_def)

text \<open>
  The gauge key of a blocked deletion identifies its object: for kinds and namespaces without
  NUL bytes, splitting a key returns the triple it was made from.
\<close>

theorem DeletionBlockedKey_roundtrip:
  assumes "CHR 0x00 \<notin> set kind" and "CHR 0x00 \<notin> set ns"
  shows "splitDeletionBlockedKey (makeDeletionBlockedKey kind ns name) = (kind, ns, name)"
  using assms by (simp add: splitDeletionBlockedKey_def makeDeletionBlockedKey_def split_nul_append)

theorem DeletionBlockedKey_roundtrip_witness:
  "splitDeletionBlockedKey (makeDeletionBlockedKey ''LiteLLMModel'' ''prod'' ''gpt'') = (''LiteLLMModel'', ''prod'', ''gpt'')"
  by (rule DeletionBlockedKey_roundtrip) simp_all

end
