(* ===== verification/Conflict.thy ===== *)
theory Conflict
  imports Kube
begin

text \<open>
  Package \<^verbatim>\<open>internal/controller/conflict\<close>: which of several objects that claim the same LiteLLM
  entry owns it, and the condition the others carry.

  \<^verbatim>\<open>sort.Slice\<close> is not stable, so among objects with equal keys the Go code may return any; objects
  of one kind have distinct \<^verbatim>\<open>namespace/name\<close> keys, and the theorems say what holds then.
\<close>

locale tie_break =
  fixes key :: "'a \<Rightarrow> 'k::linorder"
    and pick :: "'a list \<Rightarrow> 'a option"
  assumes pick_Nil: "pick [] = None"
    and pick_max: "xs \<noteq> [] \<Longrightarrow> \<exists>w. pick xs = Some w \<and> w \<in> set xs \<and> (\<forall>x \<in> set xs. key x \<le> key w)"
begin

lemma pick_Some: "pick xs = Some w \<Longrightarrow> w \<in> set xs \<and> (\<forall>x \<in> set xs. key x \<le> key w)"
  by (metis pick_Nil pick_max option.distinct(1) option.inject)

lemma pick_unique:
  assumes "inj_on key (set xs)" and "w \<in> set xs" and "\<And>x. x \<in> set xs \<Longrightarrow> key x \<le> key w"
  shows "pick xs = Some w"
proof -
  from assms(2) have "xs \<noteq> []" by auto
  then obtain v where v: "pick xs = Some v" "v \<in> set xs" "\<forall>x \<in> set xs. key x \<le> key v"
    using pick_max by blast
  then have "key v = key w" using assms(2,3) by (simp add: order_antisym)
  with v assms(1,2) show ?thesis by (simp add: inj_on_def)
qed

lemma pick_set_cong:
  assumes "inj_on key (set xs)" and "set xs = set ys"
  shows "pick xs = pick ys"
proof (cases "xs = []")
  case True
  with assms(2) show ?thesis by simp
next
  case False
  then obtain w where w: "pick xs = Some w" "w \<in> set xs" "\<forall>x \<in> set xs. key x \<le> key w"
    using pick_max by blast
  then have "pick ys = Some w"
    using assms by (intro pick_unique) auto
  with w show ?thesis by simp
qed

lemma single_winner:
  assumes "inj_on key (set xs)" and "xs \<noteq> []"
  shows "\<exists>!x. x \<in> set xs \<and> (\<exists>w. pick xs = Some w \<and> key x = key w)"
proof -
  obtain w where w: "pick xs = Some w" "w \<in> set xs"
    using assms(2) pick_max by blast
  show ?thesis
    using assms(1) w by (intro ex1I [of _ w]) (auto simp: inj_on_def)
qed

end

definition Key :: "ObjectMeta \<Rightarrow> string" where
  "Key o1 = Namespace o1 @ ''/'' @ Name o1"

definition ResolveWinner :: "ObjectMeta list \<Rightarrow> ObjectMeta option" where
  "ResolveWinner candidates =
     (if length candidates = 0 then None else Some (last (sort_key Key candidates)))"

definition IsLoser :: "ObjectMeta \<Rightarrow> ObjectMeta option \<Rightarrow> bool" where
  "IsLoser self winner = (case winner of None \<Rightarrow> False | Some w \<Rightarrow> Key self \<noteq> Key w)"

definition ConditionReasonConflict :: string where
  "ConditionReasonConflict = ''Conflict''"

definition NewLoserCondition :: "int \<Rightarrow> string \<Rightarrow> Condition" where
  "NewLoserCondition generation winnerKey =
     \<lparr>Type = ''Ready'', Status = ConditionFalse, Reason = ConditionReasonConflict,
      Message = ''superseded by '' @ winnerKey, ObservedGeneration = generation\<rparr>"

definition ApplyLoserCondition :: "klib \<Rightarrow> Condition list \<Rightarrow> int \<Rightarrow> string \<Rightarrow> Condition list" where
  "ApplyLoserCondition K conds generation winnerKey =
     SetStatusCondition K conds (NewLoserCondition generation winnerKey)"

definition ClearLoserCondition :: "klib \<Rightarrow> Condition list \<Rightarrow> Condition list" where
  "ClearLoserCondition K conds =
     (case FindStatusCondition K conds ''Ready'' of
        Some c \<Rightarrow> if Reason c = ConditionReasonConflict then RemoveStatusCondition K conds ''Ready'' else conds
      | None \<Rightarrow> conds)"

lemma last_sort_key:
  assumes "xs \<noteq> []"
  shows "last (sort_key f xs) \<in> set xs" and "x \<in> set xs \<Longrightarrow> f x \<le> f (last (sort_key f xs))"
proof -
  have ne: "sort_key f xs \<noteq> []" using assms by (metis set_empty set_sort)
  then show "last (sort_key f xs) \<in> set xs" by (metis last_in_set set_sort)
  have srt: "sorted (map f (sort_key f xs))" by simp
  assume "x \<in> set xs"
  then obtain i where "i < length (sort_key f xs)" "sort_key f xs ! i = x"
    by (metis in_set_conv_nth set_sort)
  then show "f x \<le> f (last (sort_key f xs))"
    using srt ne by (auto simp: last_conv_nth sorted_iff_nth_mono)
qed

interpretation winner: tie_break Key ResolveWinner
  by unfold_locales (auto simp: ResolveWinner_def last_sort_key)

subsection \<open>Properties\<close>

text \<open>
  Among objects with distinct keys exactly one is not a loser against the resolved winner, it
  is the one with the greatest \<^verbatim>\<open>namespace/name\<close>, and the verdict does not depend on the order in
  which the API server listed the candidates.
\<close>

theorem ResolveWinner_single_owner:
  assumes "inj_on Key (set candidates)" and "candidates \<noteq> []"
  shows "(\<exists>!x. x \<in> set candidates \<and> \<not> IsLoser x (ResolveWinner candidates))
    \<and> (\<exists>w \<in> set candidates. ResolveWinner candidates = Some w \<and> (\<forall>x \<in> set candidates. Key x \<le> Key w))
    \<and> (\<forall>listing. set listing = set candidates \<longrightarrow> ResolveWinner listing = ResolveWinner candidates)"
proof -
  obtain w where w: "ResolveWinner candidates = Some w" "w \<in> set candidates"
      "\<forall>x \<in> set candidates. Key x \<le> Key w"
    using winner.pick_max [OF assms(2)] by blast
  then have "\<exists>!x. x \<in> set candidates \<and> \<not> IsLoser x (ResolveWinner candidates)"
    using winner.single_winner [OF assms] by (simp add: IsLoser_def)
  moreover have "ResolveWinner listing = ResolveWinner candidates" if "set listing = set candidates" for listing
    using winner.pick_set_cong [OF assms(1) that [symmetric]] by (rule sym)
  ultimately show ?thesis using w by blast
qed

definition example_meta :: "string \<Rightarrow> string \<Rightarrow> ObjectMeta" where
  "example_meta ns n = \<lparr>Namespace = ns, Name = n, Generation = 1, DeletionTimestamp = False,
     Finalizers = [], Annotations = [], OwnerReferences = []\<rparr>"

theorem ResolveWinner_single_owner_witness:
  "ResolveWinner [example_meta ''b'' ''y'', example_meta ''a'' ''z'', example_meta ''b'' ''x'']
     = Some (example_meta ''b'' ''y'')
   \<and> (\<exists>!x. x \<in> set [example_meta ''b'' ''y'', example_meta ''a'' ''z'']
        \<and> \<not> IsLoser x (ResolveWinner [example_meta ''b'' ''y'', example_meta ''a'' ''z'']))"
proof -
  let ?cs = "[example_meta ''b'' ''y'', example_meta ''a'' ''z'']"
  have "inj_on Key (set ?cs)" and "?cs \<noteq> []"
    by (simp_all add: inj_on_def Key_def example_meta_def)
  note conjunct1 [OF ResolveWinner_single_owner [OF this]]
  moreover have "ResolveWinner [example_meta ''b'' ''y'', example_meta ''a'' ''z'', example_meta ''b'' ''x'']
     = Some (example_meta ''b'' ''y'')"
    by code_simp
  ultimately show ?thesis by (intro conjI)
qed

text \<open>
  Clearing after applying removes the loser condition and nothing else; clearing leaves a Ready
  condition with any other reason untouched.
\<close>

theorem ClearLoserCondition_exact:
  assumes "klib_laws K"
  shows "FindStatusCondition K (ClearLoserCondition K (ApplyLoserCondition K conds g w)) ''Ready'' = None
    \<and> (t \<noteq> ''Ready'' \<longrightarrow>
        FindStatusCondition K (ClearLoserCondition K (ApplyLoserCondition K conds g w)) t
        = FindStatusCondition K conds t)
    \<and> ((\<forall>c. FindStatusCondition K conds ''Ready'' = Some c \<longrightarrow> Reason c \<noteq> ''Conflict'') \<longrightarrow>
        ClearLoserCondition K conds = conds)"
proof -
  let ?c = "NewLoserCondition g w"
  have set_ready: "FindStatusCondition K (SetStatusCondition K conds ?c) ''Ready'' = Some ?c"
    using klib_lawsD(1) [OF assms, of conds ?c] by (simp add: NewLoserCondition_def)
  have "t \<noteq> ''Ready'' \<Longrightarrow> FindStatusCondition K (SetStatusCondition K conds ?c) t = FindStatusCondition K conds t"
    using klib_lawsD(2) [OF assms, of t ?c conds] by (simp add: NewLoserCondition_def)
  moreover have "ClearLoserCondition K (SetStatusCondition K conds ?c)
      = RemoveStatusCondition K (SetStatusCondition K conds ?c) ''Ready''"
    by (simp add: ClearLoserCondition_def set_ready) (simp add: NewLoserCondition_def)
  moreover have "ClearLoserCondition K conds = conds"
    if "\<forall>c. FindStatusCondition K conds ''Ready'' = Some c \<longrightarrow> Reason c \<noteq> ''Conflict''"
    using that by (simp add: ClearLoserCondition_def ConditionReasonConflict_def split: option.split)
  ultimately show ?thesis
    by (simp add: ApplyLoserCondition_def klib_lawsD(3) [OF assms] klib_lawsD(4) [OF assms])
qed

theorem ClearLoserCondition_exact_witness:
  "FindStatusCondition klib_std (ClearLoserCondition klib_std (ApplyLoserCondition klib_std [] 3 ''ns/b'')) ''Ready'' = None"
  using ClearLoserCondition_exact [OF klib_std_laws, of "[]" 3 "''ns/b''"] by blast

end
