(* ===== verification/Model_Group_Budget.thy ===== *)
theory Model_Group_Budget
  imports Shared_Helpers Conflict Litellm_Model "HOL-Library.Product_Lexorder"
begin

text \<open>
  Model-group budgets: the three client calls of \<^verbatim>\<open>internal/litellm/modelgroupbudget.go\<close> and the
  handler of \<^verbatim>\<open>internal/controller/modelgroupbudget_controller.go\<close>, which projects one object per
  tag onto \<^verbatim>\<open>/access_group/{tag}/budget\<close>.

  A budget amount is a float that the operator only copies and compares; it is the text
  \<^verbatim>\<open>encoding/json\<close> prints for it, so two amounts are equal when their texts are, or when both are a
  zero.  The creation timestamp is an integer.
\<close>

subsection \<open>Data\<close>

record ModelGroupBudgetSpec =
  bs_ModelGroup :: string
  bs_Limit :: "string option"
  bs_SoftLimit :: "string option"
  bs_Period :: string
  bs_DeletionPolicy :: string

record LiteLLMModelGroupBudget =
  mb_Meta :: ObjectMeta
  mb_CreationTimestamp :: int
  mb_Spec :: ModelGroupBudgetSpec
  mb_ObservedGeneration :: int
  mb_Conditions :: "Condition list"

record ModelGroupBudget =
  gb_BudgetID :: string
  gb_MaxBudget :: "string option"
  gb_SoftBudget :: "string option"
  gb_BudgetDuration :: "string option"

record ModelGroupBudgetRequest =
  gr_MaxBudget :: "string option"
  gr_SoftBudget :: "string option"
  gr_BudgetDuration :: string

subsection \<open>Client calls\<close>

definition modelGroupBudgetPath :: "string \<Rightarrow> lerror + string" where
  "modelGroupBudgetPath tag =
     (if tag = '''' then Inl (ErrText ''litellm: empty model access group'')
      else Inr (''/access_group/'' @ PathEscape tag @ ''/budget''))"

fun dec_num_ptr :: "json option \<Rightarrow> string option option" where
  "dec_num_ptr None = Some None"
| "dec_num_ptr (Some JNull) = Some None"
| "dec_num_ptr (Some (JNum t)) = Some (Some t)"
| "dec_num_ptr _ = None"

fun dec_string_ptr :: "json option \<Rightarrow> string option option" where
  "dec_string_ptr None = Some None"
| "dec_string_ptr (Some JNull) = Some None"
| "dec_string_ptr (Some (JStr t)) = Some (Some t)"
| "dec_string_ptr _ = None"

definition decode_budget :: "json gomap \<Rightarrow> ModelGroupBudget option" where
  "decode_budget m =
     (case (dec_string (struct_field ''budget_id'' m), dec_num_ptr (struct_field ''max_budget'' m),
            dec_num_ptr (struct_field ''soft_budget'' m), dec_string_ptr (struct_field ''budget_duration'' m)) of
        (Some i, Some a, Some b, Some d) \<Rightarrow>
          Some \<lparr>gb_BudgetID = i, gb_MaxBudget = a, gb_SoftBudget = b, gb_BudgetDuration = d\<rparr>
      | _ \<Rightarrow> None)"

text \<open>The body \<^verbatim>\<open>{"budget": ...}\<close>; an absent or null budget is the nil pointer.\<close>

definition decode_budget_body :: "json \<Rightarrow> ModelGroupBudget option option" where
  "decode_budget_body v =
     (case dec_object (Some v) of
        None \<Rightarrow> None
      | Some m \<Rightarrow>
          (case struct_field ''budget'' m of
             None \<Rightarrow> Some None
           | Some JNull \<Rightarrow> Some None
           | Some (JObj b) \<Rightarrow> map_option Some (decode_budget b)
           | Some _ \<Rightarrow> None))"

definition GetModelGroupBudget :: "'w http \<Rightarrow> string \<Rightarrow> ('w, 'z, ModelGroupBudget option) call" where
  "GetModelGroupBudget http tag s =
     (case modelGroupBudgetPath tag of
        Inl e \<Rightarrow> (Inl e, s)
      | Inr path \<Rightarrow>
          (case makeRequest http ''GET'' path None s of
             (Inl e, s) \<Rightarrow> (Inl e, s)
           | (Inr raw, s) \<Rightarrow> (unmarshal decode_budget_body (''GET '' @ path) raw, s)))"

definition request_json :: "ModelGroupBudgetRequest \<Rightarrow> json" where
  "request_json r = JObj
     ((case gr_MaxBudget r of Some a \<Rightarrow> [(''max_budget'', JNum a)] | None \<Rightarrow> [])
      @ (case gr_SoftBudget r of Some a \<Rightarrow> [(''soft_budget'', JNum a)] | None \<Rightarrow> [])
      @ (if gr_BudgetDuration r = '''' then [] else [(''budget_duration'', JStr (gr_BudgetDuration r))]))"

definition PutModelGroupBudget :: "'w http \<Rightarrow> string \<Rightarrow> ModelGroupBudgetRequest \<Rightarrow> ('w, 'z, unit) call" where
  "PutModelGroupBudget http tag r s =
     (case modelGroupBudgetPath tag of
        Inl e \<Rightarrow> (Inl e, s)
      | Inr path \<Rightarrow>
          (case makeRequest http ''PUT'' path (Some (request_json r)) s of
             (Inl e, s) \<Rightarrow> (Inl e, s)
           | (Inr _, s) \<Rightarrow> (Inr (), s)))"

definition DeleteModelGroupBudget :: "'w http \<Rightarrow> string \<Rightarrow> ('w, 'z, unit) call" where
  "DeleteModelGroupBudget http tag s =
     (case modelGroupBudgetPath tag of
        Inl e \<Rightarrow> (Inl e, s)
      | Inr path \<Rightarrow>
          (case makeRequest http ''DELETE'' path None s of
             (Inl e, s) \<Rightarrow> (Inl e, s)
           | (Inr _, s) \<Rightarrow> (Inr (), s)))"

subsection \<open>Comparison of spec and remote budget\<close>

definition float_eq :: "string \<Rightarrow> string \<Rightarrow> bool" where
  "float_eq a b \<longleftrightarrow> a = b \<or> {a, b} \<subseteq> {''0'', ''-0''}"

definition floatPtrEqual :: "string option \<Rightarrow> string option \<Rightarrow> bool" where
  "floatPtrEqual a b =
     (case (a, b) of (None, None) \<Rightarrow> True | (Some x, Some y) \<Rightarrow> float_eq x y | _ \<Rightarrow> False)"

definition derefString :: "string option \<Rightarrow> string" where
  "derefString p = (case p of None \<Rightarrow> '''' | Some x \<Rightarrow> x)"

definition budgetMatches :: "ModelGroupBudgetSpec \<Rightarrow> ModelGroupBudget option \<Rightarrow> bool" where
  "budgetMatches sp got =
     (case got of
        None \<Rightarrow> False
      | Some g \<Rightarrow> floatPtrEqual (bs_Limit sp) (gb_MaxBudget g) \<and> floatPtrEqual (bs_SoftLimit sp) (gb_SoftBudget g)
          \<and> bs_Period sp = derefString (gb_BudgetDuration g))"

definition budgetNeedsClear :: "ModelGroupBudgetSpec \<Rightarrow> ModelGroupBudget option \<Rightarrow> bool" where
  "budgetNeedsClear sp got =
     (case got of
        None \<Rightarrow> False
      | Some g \<Rightarrow> (bs_Limit sp = None \<and> gb_MaxBudget g \<noteq> None) \<or> (bs_SoftLimit sp = None \<and> gb_SoftBudget g \<noteq> None)
          \<or> (bs_Period sp = '''' \<and> derefString (gb_BudgetDuration g) \<noteq> ''''))"

definition budgetRequest :: "ModelGroupBudgetSpec \<Rightarrow> ModelGroupBudgetRequest" where
  "budgetRequest sp = \<lparr>gr_MaxBudget = bs_Limit sp, gr_SoftBudget = bs_SoftLimit sp, gr_BudgetDuration = bs_Period sp\<rparr>"

subsection \<open>The handler\<close>

definition modelGroupBudgetFinalizer :: string where
  "modelGroupBudgetFinalizer = ''modelgroupbudgets.litellm.ackstorm.ai/finalizer''"

definition modelGroupBudgetKind :: string where
  "modelGroupBudgetKind = ''LiteLLMModelGroupBudget''"

definition reasonModelGroupNotFound :: string where "reasonModelGroupNotFound = ''ModelGroupNotFound''"
definition reasonDuplicateModelGroup :: string where "reasonDuplicateModelGroup = ''DuplicateModelGroup''"

text \<open>\<open>br_peers\<close> lists the objects of a namespace with the given tag, through the field index.\<close>

record 'w ModelGroupBudgetReconciler =
  br_kube :: "('w, LiteLLMModelGroupBudget) kclient"
  br_peers :: "'w \<Rightarrow> string \<Rightarrow> string \<Rightarrow> (kube_error + LiteLLMModelGroupBudget list) \<times> 'w"
  br_lib :: klib
  br_retries :: nat
  br_includeBody :: bool

definition older :: "LiteLLMModelGroupBudget \<Rightarrow> LiteLLMModelGroupBudget \<Rightarrow> bool" where
  "older p b \<longleftrightarrow> mb_CreationTimestamp p < mb_CreationTimestamp b
     \<or> (mb_CreationTimestamp p = mb_CreationTimestamp b \<and> Name (mb_Meta p) < Name (mb_Meta b))"

definition owns :: "LiteLLMModelGroupBudget list \<Rightarrow> LiteLLMModelGroupBudget \<Rightarrow> bool" where
  "owns peers b = list_all (\<lambda>p. \<not> older p b) peers"

definition isOwner ::
  "'w ModelGroupBudgetReconciler \<Rightarrow> LiteLLMModelGroupBudget \<Rightarrow> 'w rstate \<Rightarrow> (kube_error + bool) \<times> 'w rstate" where
  "isOwner R b s =
     (case br_peers R (world s) (Namespace (mb_Meta b)) (bs_ModelGroup (mb_Spec b)) of
        (Inl e, w) \<Rightarrow> (Inl e, set_world w s)
      | (Inr peers, w) \<Rightarrow> (Inr (owns peers b), set_world w s))"

definition budget_status :: "klib \<Rightarrow> Condition \<Rightarrow> int \<Rightarrow> LiteLLMModelGroupBudget \<Rightarrow> LiteLLMModelGroupBudget" where
  "budget_status K cond gen f =
     f\<lparr>mb_Conditions := SetStatusCondition K (mb_Conditions f) cond, mb_ObservedGeneration := gen\<rparr>"

definition budget_writeStatus ::
  "'w ModelGroupBudgetReconciler \<Rightarrow> LiteLLMModelGroupBudget \<Rightarrow> 'w status_writer" where
  "budget_writeStatus R b status reason msg s =
     (let gen = Generation (mb_Meta b);
          cond = buildReadyCondition gen status reason msg;
          (r, s) = writeStatusWithRetry (br_retries R) (br_kube R) (Namespace (mb_Meta b), Name (mb_Meta b))
             (\<lambda>f. StatusWrite cond '''') (\<lambda>_ f. (budget_status (br_lib R) cond gen f, ())) () s;
          s = recordReconcileMetric modelGroupBudgetKind (Namespace (mb_Meta b)) reason s
      in (case r of Inl e \<Rightarrow> Some e | Inr _ \<Rightarrow> None, s))"

definition setReady ::
  "'w ModelGroupBudgetReconciler \<Rightarrow> LiteLLMModelGroupBudget \<Rightarrow> 'w status_writer" where
  "setReady R b status reason msg s =
     (if (case FindStatusCondition (br_lib R) (mb_Conditions b) conditionTypeReady of
            None \<Rightarrow> False
          | Some c \<Rightarrow> Status c = status \<and> Reason c = reason \<and> Message c = msg
              \<and> mb_ObservedGeneration b = Generation (mb_Meta b))
      then (None, s)
      else
        case budget_writeStatus R b status reason msg s of
          (Some e, s) \<Rightarrow> (if IsConflict e then None else Some e, s)
        | (None, s) \<Rightarrow> (None, s))"

text \<open>The pair \<^verbatim>\<open>(ctrl.Result{}, err)\<close>.\<close>

definition kube_verdict :: "kube_error option \<Rightarrow> verdict" where
  "kube_verdict e = (case e of None \<Rightarrow> Inr no_requeue | Some e \<Rightarrow> Inl (KubeErr e))"

definition budget_update ::
  "'w ModelGroupBudgetReconciler \<Rightarrow> LiteLLMModelGroupBudget \<Rightarrow> string list \<Rightarrow> 'w rstate \<Rightarrow> verdict \<times> 'w rstate" where
  "budget_update R b fs s =
     (let b = b\<lparr>mb_Meta := (mb_Meta b)\<lparr>Finalizers := fs\<rparr>\<rparr>;
          s = emit (ObjectUpdate fs) s;
          (err, w) = kc_update (br_kube R) (world s) b
      in (kube_verdict err, set_world w s))"

definition budget_ack_missing ::
  "LiteLLMModelGroupBudget \<Rightarrow> string \<Rightarrow> bool \<Rightarrow> 'w rstate \<Rightarrow> rerror option \<times> 'w rstate" where
  "budget_ack_missing b reason permanent s =
     newAckMissingFn modelGroupBudgetKind (Namespace (mb_Meta b)) (Name (mb_Meta b))
       (Resolve (mb_Meta b) (bs_DeletionPolicy (mb_Spec b))) reason permanent s"

definition release_budget :: "LiteLLMModelGroupBudget \<Rightarrow> 'w rstate \<Rightarrow> rerror option \<times> 'w rstate" where
  "release_budget b s =
     (let snap = Snapshot (r_cache s) in
      case (snap_Ready snap, snap_Client snap) of
        (True, Some client) \<Rightarrow>
          (case DeleteModelGroupBudget client (bs_ModelGroup (mb_Spec b)) s of
             (Inl err, s) \<Rightarrow>
               (if as_auth401 err \<noteq> None then budget_ack_missing b ''401 on DeleteModelGroupBudget'' False s
                else if is4xxStatus err
                then budget_ack_missing b (''4xx on DeleteModelGroupBudget: '' @ lerror_text err) True s
                else (Some (LlmErr err), s))
           | (Inr _, s) \<Rightarrow> (None, s))
      | _ \<Rightarrow> (let (reason, permanent) = ackUnavailable snap in budget_ack_missing b reason permanent s))"

definition budget_finalize ::
  "'w ModelGroupBudgetReconciler \<Rightarrow> LiteLLMModelGroupBudget \<Rightarrow> bool \<Rightarrow> 'w rstate \<Rightarrow> verdict \<times> 'w rstate" where
  "budget_finalize R b owner s =
     (if \<not> ContainsFinalizer (br_lib R) (Finalizers (mb_Meta b)) modelGroupBudgetFinalizer then (Inr no_requeue, s)
      else
        case (if owner then release_budget b s else (None, s)) of
          (Some e, s) \<Rightarrow> (Inl e, s)
        | (None, s) \<Rightarrow>
            (let s = DeletionBlocked_Forget modelGroupBudgetKind (Namespace (mb_Meta b)) (Name (mb_Meta b)) s
             in budget_update R b (RemoveFinalizer (br_lib R) (Finalizers (mb_Meta b)) modelGroupBudgetFinalizer) s))"

text \<open>GET, compare, clear if needed, PUT.\<close>

definition sync_budget :: "'w http \<Rightarrow> ModelGroupBudgetSpec \<Rightarrow> ('w, 'z, unit) call" where
  "sync_budget client sp s =
     (case GetModelGroupBudget client (bs_ModelGroup sp) s of
        (Inl e, s) \<Rightarrow> (Inl e, s)
      | (Inr got, s) \<Rightarrow>
          (if budgetMatches sp got then (Inr (), s)
           else
             case (if budgetNeedsClear sp got then DeleteModelGroupBudget client (bs_ModelGroup sp) s else (Inr (), s)) of
               (Inl e, s) \<Rightarrow> (Inl e, s)
             | (Inr _, s) \<Rightarrow> PutModelGroupBudget client (bs_ModelGroup sp) (budgetRequest sp) s))"

definition budget_sync_step ::
  "'w ModelGroupBudgetReconciler \<Rightarrow> LiteLLMModelGroupBudget \<Rightarrow> 'w http ConnectionSnapshot \<Rightarrow> 'w http
   \<Rightarrow> 'w rstate \<Rightarrow> verdict \<times> 'w rstate" where
  "budget_sync_step R b snap client s =
     (case sync_budget client (mb_Spec b) s of
        (Inl err, s) \<Rightarrow>
          (if IsNotFound err then
             (let (e, s) = setReady R b ConditionFalse reasonModelGroupNotFound
                    (''no LiteLLM model carries access group '' @ quote (bs_ModelGroup (mb_Spec b))) s
              in (kube_verdict e, s))
           else classifyMutationError (br_includeBody R) err ''/access_group/{group}/budget'' modelGroupBudgetKind
                  (budget_writeStatus R b) (NormalizedRequeueOnRejectedAfter snap) s)
      | (Inr _, s) \<Rightarrow>
          (let (e, s) = setReady R b ConditionTrue reasonSynced ''budget applied'' s in (kube_verdict e, s)))"

definition budget_live ::
  "'w ModelGroupBudgetReconciler \<Rightarrow> LiteLLMModelGroupBudget \<Rightarrow> bool \<Rightarrow> 'w rstate \<Rightarrow> verdict \<times> 'w rstate" where
  "budget_live R b owner s =
     (if \<not> ContainsFinalizer (br_lib R) (Finalizers (mb_Meta b)) modelGroupBudgetFinalizer
      then budget_update R b (AddFinalizer (br_lib R) (Finalizers (mb_Meta b)) modelGroupBudgetFinalizer) s
      else if \<not> owner then
        (let (e, s) = setReady R b ConditionFalse reasonDuplicateModelGroup
               (''modelGroup '' @ quote (bs_ModelGroup (mb_Spec b))
                @ '' is already budgeted by an older LiteLLMModelGroupBudget'') s
         in (kube_verdict e, s))
      else
        let snap = Snapshot (r_cache s) in
        case (snap_Ready snap, snap_Client snap) of
          (True, Some client) \<Rightarrow> budget_sync_step R b snap client s
        | _ \<Rightarrow>
            (let reason = (if snap_Reason snap = '''' then reasonConnecting else snap_Reason snap);
                 (e, s) = setReady R b ConditionFalse reasonLiteLLMUnavailable
                   (''LiteLLMConnection/default not Ready (reason: '' @ reason @ '')'') s
             in (kube_verdict e, s)))"

definition budget_Reconcile ::
  "'w ModelGroupBudgetReconciler \<Rightarrow> NamespacedName \<Rightarrow> 'w rstate \<Rightarrow> verdict \<times> 'w rstate" where
  "budget_Reconcile R key s =
     (case kc_get (br_kube R) (world s) key of
        (Inl e, w) \<Rightarrow> (if IsNotFoundK e then Inr no_requeue else Inl (KubeErr e), set_world w s)
      | (Inr b, w) \<Rightarrow>
          (case isOwner R b (set_world w s) of
             (Inl e, s) \<Rightarrow> (Inl (KubeErr e), s)
           | (Inr owner, s) \<Rightarrow>
               (if DeletionTimestamp (mb_Meta b) then budget_finalize R b owner s else budget_live R b owner s)))"

subsection \<open>Watch mappers\<close>

definition budget_key :: "LiteLLMModelGroupBudget \<Rightarrow> NamespacedName" where
  "budget_key b = (Namespace (mb_Meta b), Name (mb_Meta b))"

definition IndexModelGroupBudgetGroup :: "LiteLLMModelGroupBudget \<Rightarrow> string list" where
  "IndexModelGroupBudgetGroup b = [bs_ModelGroup (mb_Spec b)]"

definition budgetToPeers ::
  "'w ModelGroupBudgetReconciler \<Rightarrow> LiteLLMModelGroupBudget \<Rightarrow> 'w rstate \<Rightarrow> NamespacedName list \<times> 'w rstate" where
  "budgetToPeers R b s =
     (case br_peers R (world s) (Namespace (mb_Meta b)) (bs_ModelGroup (mb_Spec b)) of
        (Inl _, w) \<Rightarrow> ([], set_world w s)
      | (Inr peers, w) \<Rightarrow>
          (map budget_key (filter (\<lambda>p. Name (mb_Meta p) \<noteq> Name (mb_Meta b)) peers), set_world w s))"

definition waiting :: "klib \<Rightarrow> LiteLLMModelGroupBudget \<Rightarrow> bool" where
  "waiting K b = (case FindStatusCondition K (mb_Conditions b) conditionTypeReady of
      None \<Rightarrow> False | Some c \<Rightarrow> Reason c = reasonModelGroupNotFound)"

definition modelToWaitingBudgets :: "klib \<Rightarrow> kube_error + LiteLLMModelGroupBudget list \<Rightarrow> NamespacedName list" where
  "modelToWaitingBudgets K listed =
     (case listed of Inl _ \<Rightarrow> [] | Inr budgets \<Rightarrow> map budget_key (filter (waiting K) budgets))"

subsection \<open>Ownership\<close>

definition rank :: "LiteLLMModelGroupBudget \<Rightarrow> int \<times> string" where
  "rank b = (mb_CreationTimestamp b, Name (mb_Meta b))"

lemma older_rank: "older p b \<longleftrightarrow> rank p < rank b"
  by (auto simp: older_def rank_def)

lemma owns_iff: "owns peers b \<longleftrightarrow> (\<forall>p \<in> set peers. rank b \<le> rank p)"
  by (auto simp: owns_def older_rank list_all_iff not_less)

lemma owner_exists:
  assumes "peers \<noteq> []"
  shows "\<exists>b \<in> set peers. owns peers b"
proof -
  have "Min (rank ` set peers) \<in> rank ` set peers" using assms by (intro Min_in) auto
  then obtain b where "b \<in> set peers" "rank b = Min (rank ` set peers)" by auto
  then show ?thesis by (intro bexI [of _ b]) (auto simp: owns_iff)
qed

subsection \<open>Effects\<close>

lemma budget_calls_log:
  "log (snd (GetModelGroupBudget http g s)) = log s @ (if g = '''' then [] else [Http ''GET'' (''/access_group/'' @ PathEscape g @ ''/budget'') None])"
  "log (snd (DeleteModelGroupBudget http g s)) = log s @ (if g = '''' then [] else [Http ''DELETE'' (''/access_group/'' @ PathEscape g @ ''/budget'') None])"
  "log (snd (PutModelGroupBudget http g r s)) = log s @ (if g = '''' then [] else [Http ''PUT'' (''/access_group/'' @ PathEscape g @ ''/budget'') (Some (request_json r))])"
  using req.one_attempt
  by (auto simp: GetModelGroupBudget_def DeleteModelGroupBudget_def PutModelGroupBudget_def modelGroupBudgetPath_def
      makeRequest_def emit_def split: sum.splits prod.splits)

lemma budget_writeStatus_emits:
  assumes "P (StatusWrite (buildReadyCondition (Generation (mb_Meta b)) status reason msg) '''')"
    and "\<And>n l. P (Metric n l)"
  shows "emits P s (snd (budget_writeStatus R b status reason msg s))"
  using assms
  by (auto simp: budget_writeStatus_def recordReconcileMetric_def Let_def case_prod_beta
      intro!: emits_then_emit writeStatusWithRetry_emits)

lemma setReady_emits:
  assumes "P (StatusWrite (buildReadyCondition (Generation (mb_Meta b)) status reason msg) '''')"
    and "\<And>n l. P (Metric n l)"
  shows "emits P s (snd (setReady R b status reason msg s))"
  using budget_writeStatus_emits [OF assms, of s R]
  by (auto simp: setReady_def split: prod.splits option.splits)

lemma setReady_reports: "emits is_report s (snd (setReady R b status reason msg s))"
  by (rule setReady_emits) simp_all

lemma isOwner_emits: "isOwner R b s = (r, s') \<Longrightarrow> emits P s s'"
  by (auto simp: isOwner_def split: prod.splits sum.splits)

lemma budget_update_log: "log (snd (budget_update R b fs s)) = log s @ [ObjectUpdate fs]"
  by (simp add: budget_update_def emit_def set_world_def Let_def case_prod_beta)

lemma budget_ack_reports: "emits is_report s (snd (budget_ack_missing b reason permanent s))"
  by (auto simp: budget_ack_missing_def newAckMissingFn_def DeletionBlocked_Record_def Let_def intro!: emits_then_emit)

lemma budget_ack_None:
  "fst (budget_ack_missing b reason permanent s) = None \<longleftrightarrow>
     Resolve (mb_Meta b) (bs_DeletionPolicy (mb_Spec b)) = Orphan \<and> permanent"
  by (simp add: budget_ack_missing_def ackMissing_None_iff)

lemma budget_calls_emit:
  fixes s :: "'w rstate"
  assumes "\<And>m p j. P (Http m p j)"
  shows "emits P s (snd (GetModelGroupBudget http g s))" and "emits P s (snd (DeleteModelGroupBudget http g s))"
    and "emits P s (snd (PutModelGroupBudget http g r s))"
  using assms by (auto simp: emits_def budget_calls_log)

lemma release_budget_emits:
  assumes "\<And>m p j. P (Http m p j)" and "\<And>e. is_report e \<Longrightarrow> P e"
  shows "emits P s (snd (release_budget b s))"
proof -
  have ack: "emits P s1 (snd (budget_ack_missing b m p s1))" for m p and s1 :: "'a rstate"
    by (rule emits_reports [OF budget_ack_reports]) (rule assms)
  have del: "emits P s (snd (DeleteModelGroupBudget client g s))" for client g
    by (rule budget_calls_emit) (rule assms)
  show ?thesis
  proof (cases "\<exists>client. snap_Ready (Snapshot (r_cache s)) \<and> snap_Client (Snapshot (r_cache s)) = Some client")
    case True
    then obtain client where c: "snap_Ready (Snapshot (r_cache s))" "snap_Client (Snapshot (r_cache s)) = Some client"
      by blast
    obtain r s1 where d: "DeleteModelGroupBudget client (bs_ModelGroup (mb_Spec b)) s = (r, s1)" by fastforce
    then have e: "emits P s s1" using del [of client "bs_ModelGroup (mb_Spec b)"] by simp
    have "emits P s (snd (budget_ack_missing b m p s1))" for m p using emits_trans [OF e ack] .
    with e show ?thesis by (auto simp: release_budget_def c d split: sum.splits)
  qed (auto simp: release_budget_def Let_def ackUnavailable_def ack split: bool.splits option.splits)
qed

subsection \<open>Properties\<close>

text \<open>
  One owner per tag: among the objects that name one tag, whatever order the API lists them in,
  exactly one passes the ownership test, the oldest with ties broken by name; and when an object of the
  tag is created or deleted every other one is re-driven, so ownership moves at once.
\<close>

theorem budget_single_owner:
  assumes "inj_on (\<lambda>b. Name (mb_Meta b)) (set peers)" and "peers \<noteq> []"
  shows "(\<exists>!b. b \<in> set peers \<and> owns peers b) \<and>
    (\<forall>listing b. set listing = set peers \<longrightarrow> owns listing b = owns peers b) \<and>
    (\<forall>R s w b p. br_peers R (world s) (Namespace (mb_Meta b)) (bs_ModelGroup (mb_Spec b)) = (Inr peers, w) \<and>
       p \<in> set peers \<and> p \<noteq> b \<and> b \<in> set peers \<longrightarrow>
       budget_key p \<in> set (fst (budgetToPeers R b s)))"
proof -
  have "\<exists>!b. b \<in> set peers \<and> owns peers b"
  proof -
    obtain b where b: "b \<in> set peers" "owns peers b" using owner_exists [OF assms(2)] by blast
    have "c = b" if "c \<in> set peers" "owns peers c" for c
    proof -
      have "rank c = rank b" using that b by (auto simp: owns_iff intro: order_antisym)
      then show ?thesis using assms(1) that(1) b(1) by (auto simp: rank_def dest: inj_onD)
    qed
    with b show ?thesis by blast
  qed
  moreover have "budget_key p \<in> set (fst (budgetToPeers R b s))"
    if "br_peers R (world s) (Namespace (mb_Meta b)) (bs_ModelGroup (mb_Spec b)) = (Inr peers, w)"
      "p \<in> set peers" "p \<noteq> b" "b \<in> set peers" for R s w b p
    using that assms(1) by (auto simp: budgetToPeers_def dest: inj_onD)
  ultimately show ?thesis by (auto simp: owns_iff)
qed

definition example_budget :: "string \<Rightarrow> int \<Rightarrow> LiteLLMModelGroupBudget" where
  "example_budget n t = \<lparr>mb_Meta = \<lparr>Namespace = ''ns'', Name = n, Generation = 1, DeletionTimestamp = False,
       Finalizers = [modelGroupBudgetFinalizer], Annotations = [], OwnerReferences = []\<rparr>,
     mb_CreationTimestamp = t,
     mb_Spec = \<lparr>bs_ModelGroup = ''free'', bs_Limit = Some ''10'', bs_SoftLimit = None, bs_Period = ''30d'', bs_DeletionPolicy = ''''\<rparr>,
     mb_ObservedGeneration = 1, mb_Conditions = []\<rparr>"

theorem budget_single_owner_witness:
  "\<exists>!b. b \<in> set [example_budget ''a'' 5, example_budget ''b'' 3] \<and> owns [example_budget ''a'' 5, example_budget ''b'' 3] b"
proof -
  have "inj_on (\<lambda>b. Name (mb_Meta b)) (set [example_budget ''a'' 5, example_budget ''b'' 3])"
    by (simp add: example_budget_def)
  from budget_single_owner [OF this, THEN conjunct1] show ?thesis by simp
qed

text \<open>
  A duplicate never touches LiteLLM: a reconcile of an object that is not the owner of its tag
  sends no request, deleting or not, so it can never wipe the owner's budget; and its deletion is
  never held up by LiteLLM.
\<close>

theorem budget_duplicate_inert:
  assumes "kc_get (br_kube R) (world s) key = (Inr b, w)"
    and "br_peers R w (Namespace (mb_Meta b)) (bs_ModelGroup (mb_Spec b)) = (Inr peers, w')"
    and "p \<in> set peers" and "older p b" and "klib_laws (br_lib R)"
  shows "emits (\<lambda>e. \<not> is_http e) s (snd (budget_Reconcile R key s)) \<and>
    (if DeletionTimestamp (mb_Meta b) \<and> modelGroupBudgetFinalizer \<in> set (Finalizers (mb_Meta b))
     then \<exists>fs. ObjectUpdate fs \<in> set (log (snd (budget_Reconcile R key s))) \<and> modelGroupBudgetFinalizer \<notin> set fs
     else True)"
proof -
  note K = klib_lawsD(6,8) [OF assms(5)]
  let ?s = "set_world w' (set_world w s)"
  have "\<not> owns peers b" using assms(3,4) by (auto simp: owns_def list_all_iff)
  then have own: "isOwner R b (set_world w s) = (Inr False, ?s)"
    using assms(2) by (simp add: isOwner_def set_world_def)
  have quiet: "emits (\<lambda>e. \<not> is_http e) s' (snd (setReady R b st r m s'))" for st r m s'
    by (rule emits_reports [OF setReady_reports]) (rule report_no_http)
  have upd: "emits (\<lambda>e. \<not> is_http e) s' (snd (budget_update R b fs s'))" for fs s'
    by (simp add: emits_def budget_update_log)
  have "emits (\<lambda>e. \<not> is_http e) s ?s" by (rule emits_trans) (rule emits_world)+
  moreover have "emits (\<lambda>e. \<not> is_http e) ?s (snd (budget_Reconcile R key s))"
    using quiet upd emits_trans [OF _ upd] assms(1) own
    by (auto simp: budget_Reconcile_def budget_finalize_def budget_live_def DeletionBlocked_Forget_def Let_def case_prod_beta)
  ultimately have "emits (\<lambda>e. \<not> is_http e) s (snd (budget_Reconcile R key s))" by (rule emits_trans)
  then show ?thesis
    using assms(1) own K
    by (auto simp: budget_Reconcile_def budget_finalize_def budget_update_log Let_def)
qed

definition example_budget_R :: "LiteLLMModelGroupBudget \<Rightarrow> LiteLLMModelGroupBudget list \<Rightarrow> unit ModelGroupBudgetReconciler" where
  "example_budget_R b peers = \<lparr>
     br_kube = \<lparr>kc_get = (\<lambda>w k. (Inr b, w)), kc_update = (\<lambda>w o'. (None, w)), kc_status_update = (\<lambda>w o'. (Inr o', w))\<rparr>,
     br_peers = (\<lambda>w ns g. (Inr peers, w)), br_lib = klib_std, br_retries = 4, br_includeBody = False\<rparr>"

theorem budget_duplicate_inert_witness:
  "emits (\<lambda>e. \<not> is_http e) example_state (snd (budget_Reconcile
     (example_budget_R (example_budget ''a'' 5) [example_budget ''a'' 5, example_budget ''b'' 3]) (''ns'', ''a'') example_state))"
  using budget_duplicate_inert
    [of "example_budget_R (example_budget ''a'' 5) [example_budget ''a'' 5, example_budget ''b'' 3]" example_state "(''ns'', ''a'')"
      "example_budget ''a'' 5" "()" "[example_budget ''a'' 5, example_budget ''b'' 3]" "()" "example_budget ''b'' 3"]
  by (simp add: example_budget_R_def older_def example_budget_def klib_std_laws)

subsection \<open>Convergence against LiteLLM's budget store\<close>

text \<open>
  What the handler relies on (documented in \<^verbatim>\<open>references/litellm-model-group-budget-api.md\<close>): GET returns
  the stored budget of the tag, DELETE clears it, PUT merges the fields it carries into it and keeps
  the others.  \<open>stored\<close> reads the stored budget from the world.
\<close>

definition merge_budget :: "ModelGroupBudgetRequest \<Rightarrow> ModelGroupBudget option \<Rightarrow> ModelGroupBudget" where
  "merge_budget r cur =
     (let g = (case cur of Some g \<Rightarrow> g
          | None \<Rightarrow> \<lparr>gb_BudgetID = '''', gb_MaxBudget = None, gb_SoftBudget = None, gb_BudgetDuration = None\<rparr>)
      in g\<lparr>gb_MaxBudget := (case gr_MaxBudget r of None \<Rightarrow> gb_MaxBudget g | v \<Rightarrow> v),
           gb_SoftBudget := (case gr_SoftBudget r of None \<Rightarrow> gb_SoftBudget g | v \<Rightarrow> v),
           gb_BudgetDuration := (if gr_BudgetDuration r = '''' then gb_BudgetDuration g else Some (gr_BudgetDuration r))\<rparr>)"

definition accepted :: "do_result \<Rightarrow> (json option \<Rightarrow> bool) \<Rightarrow> bool" where
  "accepted d P = (case d of Responded r \<Rightarrow> is2xx (rs_status r) \<and> length (rs_raw r) \<le> listBodyCap \<and> P (rs_json r) | _ \<Rightarrow> False)"

definition budget_path :: "string \<Rightarrow> string" where
  "budget_path tag = ''/access_group/'' @ PathEscape tag @ ''/budget''"

definition budget_server :: "'w http \<Rightarrow> string \<Rightarrow> ('w \<Rightarrow> ModelGroupBudget option) \<Rightarrow> bool" where
  "budget_server http tag stored \<longleftrightarrow>
     (\<forall>w. accepted (fst (http w ''GET'' (budget_path tag) None)) (\<lambda>j. Option.bind j decode_budget_body = Some (stored w))
        \<and> stored (snd (http w ''GET'' (budget_path tag) None)) = stored w) \<and>
     (\<forall>w. accepted (fst (http w ''DELETE'' (budget_path tag) None)) (\<lambda>_. True)
        \<and> stored (snd (http w ''DELETE'' (budget_path tag) None)) = None) \<and>
     (\<forall>w r. accepted (fst (http w ''PUT'' (budget_path tag) (Some (request_json r)))) (\<lambda>_. True)
        \<and> stored (snd (http w ''PUT'' (budget_path tag) (Some (request_json r)))) = Some (merge_budget r (stored w)))"

lemma accepted_response:
  "accepted d P \<Longrightarrow> \<exists>r. response_of m p d = Inr r \<and> P (rs_json r)"
  by (cases d) (auto simp: accepted_def response_of_def readCappedBody_def classify_response_def)

lemma makeRequest_accepted:
  assumes "accepted (fst (http (world s) m p b)) P"
  shows "\<exists>r s'. makeRequest http m p b s = (Inr r, s') \<and> P (rs_json r) \<and> world s' = snd (http (world s) m p b)"
  using accepted_response [OF assms, of m p] makeRequest_parts(1,3) [of http m p b s]
  by (cases "makeRequest http m p b s") auto

lemma budget_calls_served:
  assumes "budget_server http tag stored" and "tag \<noteq> ''''"
  shows "\<exists>s'. GetModelGroupBudget http tag s = (Inr (stored (world s)), s') \<and> stored (world s') = stored (world s)"
    and "\<exists>s'. DeleteModelGroupBudget http tag s = (Inr (), s') \<and> stored (world s') = None"
    and "\<exists>s'. PutModelGroupBudget http tag r s = (Inr (), s') \<and> stored (world s') = Some (merge_budget r (stored (world s)))"
proof -
  let ?p = "budget_path tag" and ?w = "world s"
  have path: "modelGroupBudgetPath tag = Inr ?p" using assms(2) by (simp add: modelGroupBudgetPath_def budget_path_def)
  have srv: "accepted (fst (http ?w ''GET'' ?p None)) (\<lambda>j. Option.bind j decode_budget_body = Some (stored ?w))"
    "stored (snd (http ?w ''GET'' ?p None)) = stored ?w"
    "accepted (fst (http ?w ''DELETE'' ?p None)) (\<lambda>_. True)" "stored (snd (http ?w ''DELETE'' ?p None)) = None"
    "accepted (fst (http ?w ''PUT'' ?p (Some (request_json r)))) (\<lambda>_. True)"
    "stored (snd (http ?w ''PUT'' ?p (Some (request_json r)))) = Some (merge_budget r (stored ?w))"
    using assms(1) by (simp_all add: budget_server_def)
  show "\<exists>s'. GetModelGroupBudget http tag s = (Inr (stored (world s)), s') \<and> stored (world s') = stored (world s)"
    using makeRequest_accepted [of http s "''GET''" ?p None, OF srv(1)] srv(2) by (auto simp: GetModelGroupBudget_def path unmarshal_def)
  show "\<exists>s'. DeleteModelGroupBudget http tag s = (Inr (), s') \<and> stored (world s') = None"
    using makeRequest_accepted [of http s "''DELETE''" ?p None, OF srv(3)] srv(4) by (auto simp: DeleteModelGroupBudget_def path)
  show "\<exists>s'. PutModelGroupBudget http tag r s = (Inr (), s') \<and> stored (world s') = Some (merge_budget r (stored (world s)))"
    using makeRequest_accepted [of http s "''PUT''" ?p "Some (request_json r)", OF srv(5)] srv(6) by (auto simp: PutModelGroupBudget_def path)
qed

lemma floatPtrEqual_refl: "floatPtrEqual a a"
  by (cases a) (simp_all add: floatPtrEqual_def float_eq_def)

text \<open>The clear-before-put rule: merging the request into what is left always gives the spec.\<close>

lemma merge_matches:
  assumes "\<not> budgetNeedsClear sp got"
  shows "budgetMatches sp (Some (merge_budget (budgetRequest sp) got))"
proof -
  have "floatPtrEqual (bs_Limit sp) (case bs_Limit sp of None \<Rightarrow> gb_MaxBudget g | v \<Rightarrow> v)"
      "floatPtrEqual (bs_SoftLimit sp) (case bs_SoftLimit sp of None \<Rightarrow> gb_SoftBudget g | v \<Rightarrow> v)"
    if "got = Some g \<or> got = None \<and> gb_MaxBudget g = None \<and> gb_SoftBudget g = None" for g
    using that assms floatPtrEqual_refl by (auto simp: budgetNeedsClear_def floatPtrEqual_def float_eq_def split: option.splits)
  then show ?thesis
    using assms
    by (cases got) (auto simp: budgetMatches_def merge_budget_def budgetRequest_def budgetNeedsClear_def derefString_def
        floatPtrEqual_def float_eq_def split: option.splits)
qed


definition opt_json :: "('a \<Rightarrow> json) \<Rightarrow> 'a option \<Rightarrow> json" where
  "opt_json f v = (case v of None \<Rightarrow> JNull | Some x \<Rightarrow> f x)"

definition budget_json :: "ModelGroupBudget option \<Rightarrow> json" where
  "budget_json g = opt_json (\<lambda>g. JObj [(''budget_id'', JStr (gb_BudgetID g)), (''max_budget'', opt_json JNum (gb_MaxBudget g)),
     (''soft_budget'', opt_json JNum (gb_SoftBudget g)), (''budget_duration'', opt_json JStr (gb_BudgetDuration g))]) g"

fun request_of_json :: "json option \<Rightarrow> ModelGroupBudgetRequest" where
  "request_of_json (Some (JObj m)) =
     \<lparr>gr_MaxBudget = (case map_of m ''max_budget'' of Some (JNum a) \<Rightarrow> Some a | _ \<Rightarrow> None),
      gr_SoftBudget = (case map_of m ''soft_budget'' of Some (JNum a) \<Rightarrow> Some a | _ \<Rightarrow> None),
      gr_BudgetDuration = (case map_of m ''budget_duration'' of Some (JStr a) \<Rightarrow> a | _ \<Rightarrow> '''')\<rparr>"
| "request_of_json _ = \<lparr>gr_MaxBudget = None, gr_SoftBudget = None, gr_BudgetDuration = ''''\<rparr>"

definition example_budget_server :: "ModelGroupBudget option http" where
  "example_budget_server w m p b =
     (Responded \<lparr>rs_status = 200, rs_raw = '''', rs_json = Some (JObj [(''budget'', budget_json w)])\<rparr>,
      if m = ''DELETE'' then None else if m = ''PUT'' then Some (merge_budget (request_of_json b) w) else w)"

lemma request_json_back: "request_of_json (Some (request_json r)) = r"
  by (cases r) (auto simp: request_json_def split: option.splits)

lemma budget_json_back: "decode_budget_body (JObj [(''budget'', budget_json g)]) = Some g"
  by (cases g) (auto simp: decode_budget_body_def decode_budget_def budget_json_def opt_json_def struct_field_def
      equal_fold_ascii_def lower_byte_def is_upper_def split: option.splits)


definition may_release_budget :: "LiteLLMModelGroupBudget \<Rightarrow> 'w rstate \<Rightarrow> bool" where
  "may_release_budget b s =
     (let snap = Snapshot (r_cache s); orphan = (Resolve (mb_Meta b) (bs_DeletionPolicy (mb_Spec b)) = Orphan) in
      if Usable snap then
        (case fst (DeleteModelGroupBudget (the (snap_Client snap)) (bs_ModelGroup (mb_Spec b)) s) of
           Inr _ \<Rightarrow> True
         | Inl e \<Rightarrow> as_auth401 e = None \<and> is4xxStatus e \<and> orphan)
      else snap_Reason snap = reasonAbsent \<and> orphan)"

lemma release_budget_None: "fst (release_budget b s) = None \<longleftrightarrow> may_release_budget b s"
proof (cases "\<exists>client. snap_Ready (Snapshot (r_cache s)) \<and> snap_Client (Snapshot (r_cache s)) = Some client")
  case True
  then obtain client where c: "snap_Ready (Snapshot (r_cache s))" "snap_Client (Snapshot (r_cache s)) = Some client" by blast
  obtain r s1 where d: "DeleteModelGroupBudget client (bs_ModelGroup (mb_Spec b)) s = (r, s1)" by fastforce
  show ?thesis by (auto simp: release_budget_def may_release_budget_def Usable_def c d budget_ack_None split: sum.splits)
next
  case False
  then show ?thesis
    by (cases "snap_Ready (Snapshot (r_cache s))"; cases "snap_Client (Snapshot (r_cache s))")
      (auto simp: release_budget_def may_release_budget_def Usable_def Let_def ackUnavailable_def budget_ack_None)
qed

lemma budget_cache_kept:
  fixes s :: "'w rstate"
  shows "r_cache (snd (DeleteModelGroupBudget http g s)) = r_cache s"
    and "r_cache (snd (budget_ack_missing b m p s)) = r_cache s"
  by (auto simp: DeleteModelGroupBudget_def makeRequest_def emit_def budget_ack_missing_def newAckMissingFn_def
      DeletionBlocked_Record_def Let_def split: sum.splits prod.splits)

lemma release_budget_cache: "r_cache (snd (release_budget b s)) = r_cache s"
proof -
  have d: "DeleteModelGroupBudget client g s = (r, s1) \<Longrightarrow> r_cache s1 = r_cache s" for client g r s1
    using budget_cache_kept(1) [of client g s] by simp
  show ?thesis
    by (auto simp: release_budget_def Let_def ackUnavailable_def budget_cache_kept d
        split: bool.splits option.splits sum.splits prod.splits)
qed

text \<open>
  When an owner's finalizer goes: with a usable connection exactly when the delete was confirmed
  or was a deterministic rejection under the policy \<^verbatim>\<open>Orphan\<close>; without one exactly when the connection
  object is absent and the policy is \<^verbatim>\<open>Orphan\<close>.  A 401 never releases it and never invalidates the cache.
\<close>

theorem budget_finalizer_released_iff:
  assumes "kc_get (br_kube R) (world s) key = (Inr b, w)" and "isOwner R b (set_world w s) = (Inr True, s1)"
    and "DeletionTimestamp (mb_Meta b)" and "klib_laws (br_lib R)"
    and "modelGroupBudgetFinalizer \<in> set (Finalizers (mb_Meta b))"
  shows "((\<exists>fs. ObjectUpdate fs \<in> set (drop (length (log s)) (log (snd (budget_Reconcile R key s)))) \<and>
        modelGroupBudgetFinalizer \<notin> set fs) \<longleftrightarrow> may_release_budget b s1) \<and>
    r_cache (snd (budget_Reconcile R key s)) = r_cache s1"
proof -
  note K = klib_lawsD(6,8) [OF assms(4)]
  obtain e s2 where r: "release_budget b s1 = (e, s2)" by fastforce
  have l1: "log s1 = log s" using assms(2) by (auto simp: isOwner_def set_world_def split: prod.splits sum.splits)
  have "emits (\<lambda>e. \<forall>fs. e \<noteq> ObjectUpdate fs) s1 (snd (release_budget b s1))"
    by (rule release_budget_emits) auto
  then obtain xs where xs: "log s2 = log s @ xs" "list_all (\<lambda>e. \<forall>fs. e \<noteq> ObjectUpdate fs) xs"
    using r l1 by (auto simp: emits_def)
  have may: "may_release_budget b s1 \<longleftrightarrow> e = None" using release_budget_None [of b s1] r by auto
  have cache: "r_cache s2 = r_cache s1" using release_budget_cache [of b s1] r by simp
  show ?thesis
    using assms(1-3,5) K r xs may cache
    by (cases e) (auto simp: budget_Reconcile_def budget_finalize_def budget_update_log DeletionBlocked_Forget_def emit_def
        list_all_iff Let_def budget_update_def set_world_def split: prod.splits)
qed

theorem budget_finalizer_released_iff_witness:
  "\<exists>fs. ObjectUpdate fs \<in> set (drop 0 (log (snd (budget_Reconcile
       (example_budget_R ((example_budget ''a'' 5)\<lparr>mb_Meta := (mb_Meta (example_budget ''a'' 5))\<lparr>DeletionTimestamp := True\<rparr>\<rparr>) [])
       (''ns'', ''a'') (example_state\<lparr>r_cache := Rebuild NewCache (zero_snapshot\<lparr>snap_Reason := ''Absent''\<rparr>)\<rparr>)))))
     \<and> modelGroupBudgetFinalizer \<notin> set fs"
proof -
  let ?b = "(example_budget ''a'' 5)\<lparr>mb_Meta := (mb_Meta (example_budget ''a'' 5))\<lparr>DeletionTimestamp := True\<rparr>\<rparr>"
  let ?s = "example_state\<lparr>r_cache := Rebuild NewCache (zero_snapshot\<lparr>snap_Reason := ''Absent''\<rparr>)\<rparr>"
  have "may_release_budget ?b ?s"
    by (simp add: may_release_budget_def Usable_def zero_snapshot_def example_budget_def Resolve_def parse_def
        Snapshot_def Rebuild_def NewCache_def reasonAbsent_def Let_def)
  then show ?thesis
    using budget_finalizer_released_iff [of "example_budget_R ?b []" ?s "(''ns'', ''a'')" ?b "()" ?s]
    by (simp add: example_budget_R_def klib_std_laws isOwner_def owns_def set_world_def example_budget_def example_state_def)
qed

end
