(* ===== verification/Normalize.thy ===== *)
theory Normalize
  imports Prelude
begin

text \<open>
  Package \<^verbatim>\<open>internal/normalize\<close>: the five-step pipeline that turns a provider's raw model id into
  a Kubernetes name segment, and the DNS-1123 validation of the result.

  The four regular expressions of the package are constants, so each is the character predicate or
  the scanning function it denotes.  Strings are byte sequences.  \<^verbatim>\<open>strings.ToLower\<close> is given by
  the part of it the pipeline can observe: the ASCII letters, and the two non-ASCII runes whose
  lower case is an ASCII letter (U+0130, bytes C4 B0, and U+212A, bytes E2 84 AA).  Every other
  non-ASCII rune lowers to a non-ASCII rune, all of whose bytes step 3 turns into dashes and step 4
  collapses into one, so leaving its bytes alone gives the same final string.

  \<^verbatim>\<open>validation.IsDNS1123Subdomain\<close> belongs to k8s.io/apimachinery and is the parameter
  \<open>isDNS1123Subdomain\<close> of \<open>DNS1123Subdomain\<close>.
\<close>

subsection \<open>The pipeline\<close>

definition lower_alnum :: "char \<Rightarrow> bool" where
  "lower_alnum c \<longleftrightarrow> is_lower c \<or> is_digit c"

definition dash :: char where
  "dash = CHR ''-''"

fun ToLower :: "string \<Rightarrow> string" where
  "ToLower [] = []"
| "ToLower (c # s) =
     (if c = CHR 0xC4 \<and> take 1 s = [CHR 0xB0] then CHR ''i'' # ToLower (drop 1 s)
      else if c = CHR 0xE2 \<and> take 2 s = [CHR 0x84, CHR 0xAA] then CHR ''k'' # ToLower (drop 2 s)
      else lower_byte c # ToLower s)"

definition dashCharsRe :: "char \<Rightarrow> bool" where
  "dashCharsRe c \<longleftrightarrow> c \<in> set ''/:_ ''"

definition invalidCharsRe :: "char \<Rightarrow> bool" where
  "invalidCharsRe c \<longleftrightarrow> \<not> (lower_alnum c \<or> c = CHR ''.'' \<or> c = dash)"

definition replace_class :: "(char \<Rightarrow> bool) \<Rightarrow> string \<Rightarrow> string" where
  "replace_class p s = map (\<lambda>c. if p c then dash else c) s"

fun collapse_dashes :: "string \<Rightarrow> string" where
  "collapse_dashes [] = []"
| "collapse_dashes [c] = [c]"
| "collapse_dashes (c # d # s) =
     (if c = dash \<and> d = dash then collapse_dashes (d # s) else c # collapse_dashes (d # s))"

definition trim_non_alnum :: "string \<Rightarrow> string" where
  "trim_non_alnum s =
     rev (dropWhile (\<lambda>c. \<not> lower_alnum c) (rev (dropWhile (\<lambda>c. \<not> lower_alnum c) s)))"

definition Normalize :: "string \<Rightarrow> string" where
  "Normalize rawID =
     (let s = ToLower rawID;
          s = replace_class dashCharsRe s;
          s = replace_class invalidCharsRe s;
          s = collapse_dashes s
      in trim_non_alnum s)"

definition DNS1123Subdomain :: "(string \<Rightarrow> string list) \<Rightarrow> string \<Rightarrow> string option" where
  "DNS1123Subdomain isDNS1123Subdomain name =
     (let errs = isDNS1123Subdomain name
      in if length errs = 0 then None
         else Some (''invalid DNS-1123 subdomain '' @ quote name @ '': '' @ join ''; '' errs))"

subsection \<open>The normal form and the steps that reach it\<close>

definition normal_name :: "string \<Rightarrow> bool" where
  "normal_name s \<longleftrightarrow>
     (\<forall>c \<in> set s. \<not> invalidCharsRe c) \<and>
     successively (\<lambda>c d. \<not> (c = dash \<and> d = dash)) s \<and>
     (s \<noteq> [] \<longrightarrow> lower_alnum (hd s) \<and> lower_alnum (last s))"

lemma lower_alnum_valid [simp]: "lower_alnum c \<Longrightarrow> \<not> invalidCharsRe c"
  by (simp add: invalidCharsRe_def)

lemma dash_not_alnum [simp]: "\<not> lower_alnum dash"
  by (simp add: lower_alnum_def dash_def is_lower_def is_digit_def char_le_nat)

lemma dash_valid [simp]: "\<not> invalidCharsRe dash"
  by (simp add: invalidCharsRe_def)

lemma valid_not_upper:
  assumes "\<not> invalidCharsRe c"
  shows "\<not> is_upper c" and "c \<noteq> CHR 0xC4" and "c \<noteq> CHR 0xE2" and "\<not> dashCharsRe c"
  using assms
  by (auto simp: invalidCharsRe_def lower_alnum_def dash_def is_lower_def is_digit_def is_upper_def
      dashCharsRe_def char_le_nat)

lemma ToLower_valid: "\<forall>c \<in> set s. \<not> invalidCharsRe c \<Longrightarrow> ToLower s = s"
  by (induction s) (auto simp: valid_not_upper)

lemma replace_class_id: "\<forall>c \<in> set s. \<not> p c \<Longrightarrow> replace_class p s = s"
  by (induction s) (auto simp: replace_class_def)

lemma replace_invalid_valid: "c \<in> set (replace_class invalidCharsRe s) \<Longrightarrow> \<not> invalidCharsRe c"
  by (auto simp: replace_class_def)

lemma set_collapse_dashes: "set (collapse_dashes s) = set s"
  by (induction s rule: collapse_dashes.induct) auto

lemma hd_collapse_dashes: "hd (collapse_dashes s) = hd s"
  by (induction s rule: collapse_dashes.induct) auto

lemma collapse_dashes_Nil [simp]: "collapse_dashes s = [] \<longleftrightarrow> s = []"
  by (induction s rule: collapse_dashes.induct) auto

lemma collapse_successively:
  "successively (\<lambda>c d. \<not> (c = dash \<and> d = dash)) (collapse_dashes s)"
proof (induction s rule: collapse_dashes.induct)
  case (3 c d s)
  have "hd (collapse_dashes (d # s)) = d"
    by (simp add: hd_collapse_dashes)
  with 3 show ?case by (auto simp: successively_Cons)
qed auto

lemma collapse_id:
  "successively (\<lambda>c d. \<not> (c = dash \<and> d = dash)) s \<Longrightarrow> collapse_dashes s = s"
  by (induction s rule: collapse_dashes.induct) auto

lemma trim_split:
  obtains u v where "s = u @ trim_non_alnum s @ v"
    and "\<forall>c \<in> set u. \<not> lower_alnum c" and "\<forall>c \<in> set v. \<not> lower_alnum c"
proof -
  let ?p = "\<lambda>c. \<not> lower_alnum c"
  let ?m = "dropWhile ?p s"
  have "s = takeWhile ?p s @ ?m" by simp
  moreover have "?m = trim_non_alnum s @ rev (takeWhile ?p (rev ?m))"
    unfolding trim_non_alnum_def
    by (metis rev_append rev_rev_ident takeWhile_dropWhile_id)
  ultimately have "s = takeWhile ?p s @ trim_non_alnum s @ rev (takeWhile ?p (rev ?m))"
    by metis
  then show ?thesis
    by (rule that) (auto dest: set_takeWhileD)
qed

lemma set_trim_subset: "set (trim_non_alnum s) \<subseteq> set s"
  by (rule trim_split [of s]) (metis set_append Un_upper1 Un_upper2 subset_trans)

lemma trim_successively: "successively P s \<Longrightarrow> successively P (trim_non_alnum s)"
  by (rule trim_split [of s]) (metis successively_append_iff)

lemma trim_ends:
  assumes "trim_non_alnum s \<noteq> []"
  shows "lower_alnum (hd (trim_non_alnum s))" and "lower_alnum (last (trim_non_alnum s))"
proof -
  let ?p = "\<lambda>c. \<not> lower_alnum c"
  let ?m = "dropWhile ?p s"
  have ne: "dropWhile ?p (rev ?m) \<noteq> []"
    using assms by (simp add: trim_non_alnum_def)
  then show "lower_alnum (last (trim_non_alnum s))"
    using hd_dropWhile [OF ne] by (simp add: trim_non_alnum_def last_rev)
  have m: "?m \<noteq> []" using ne by (metis dropWhile.simps(1) rev.simps(1))
  have eq: "?m = trim_non_alnum s @ rev (takeWhile ?p (rev ?m))"
    unfolding trim_non_alnum_def
    by (metis rev_append rev_rev_ident takeWhile_dropWhile_id)
  have "hd (trim_non_alnum s) = hd ?m"
    using assms by (subst eq) simp
  then show "lower_alnum (hd (trim_non_alnum s))"
    using hd_dropWhile [OF m] by simp
qed

lemma trim_id:
  assumes "s \<noteq> [] \<longrightarrow> lower_alnum (hd s) \<and> lower_alnum (last s)"
  shows "trim_non_alnum s = s"
proof (cases "s = []")
  case True
  then show ?thesis by (simp add: trim_non_alnum_def)
next
  case False
  with assms have "dropWhile (\<lambda>c. \<not> lower_alnum c) s = s"
    by (cases s) auto
  moreover from False assms have "dropWhile (\<lambda>c. \<not> lower_alnum c) (rev s) = rev s"
    by (cases s rule: rev_cases) auto
  ultimately show ?thesis by (simp add: trim_non_alnum_def)
qed

lemma Normalize_normal: "normal_name (Normalize rawID)"
proof -
  let ?r = "replace_class invalidCharsRe (replace_class dashCharsRe (ToLower rawID))"
  have "c \<in> set (trim_non_alnum (collapse_dashes ?r)) \<Longrightarrow> \<not> invalidCharsRe c" for c
    using set_trim_subset replace_invalid_valid by (metis set_collapse_dashes subsetD)
  moreover have "successively (\<lambda>c d. \<not> (c = dash \<and> d = dash)) (trim_non_alnum (collapse_dashes ?r))"
    by (rule trim_successively) (rule collapse_successively)
  ultimately show ?thesis
    using trim_ends unfolding Normalize_def Let_def normal_name_def by blast
qed

lemma Normalize_fix: "normal_name s \<Longrightarrow> Normalize s = s"
  by (simp add: Normalize_def Let_def normal_name_def ToLower_valid replace_class_id valid_not_upper
      collapse_id trim_id)

interpretation norm: canonical_form Normalize normal_name
  by unfold_locales (simp_all add: Normalize_normal Normalize_fix)

lemma filter_replace_class:
  assumes "\<And>c. p c \<Longrightarrow> \<not> lower_alnum c"
  shows "filter lower_alnum (replace_class p s) = filter lower_alnum s"
  using assms by (induction s) (auto simp: replace_class_def)

lemma filter_collapse: "filter lower_alnum (collapse_dashes s) = filter lower_alnum s"
  by (induction s rule: collapse_dashes.induct) auto

lemma filter_trim: "filter lower_alnum (trim_non_alnum s) = filter lower_alnum s"
proof (rule trim_split [of s])
  fix u v
  assume s: "s = u @ trim_non_alnum s @ v"
    and u: "\<forall>c \<in> set u. \<not> lower_alnum c" and v: "\<forall>c \<in> set v. \<not> lower_alnum c"
  have "filter lower_alnum s = filter lower_alnum u @ filter lower_alnum (trim_non_alnum s) @ filter lower_alnum v"
    by (metis filter_append s)
  with u v show ?thesis by simp
qed

lemma Normalize_content:
  "filter lower_alnum (Normalize rawID) = filter lower_alnum (ToLower rawID)"
proof -
  have "dashCharsRe c \<Longrightarrow> \<not> lower_alnum c" for c
    using valid_not_upper(4) lower_alnum_valid by blast
  moreover have "invalidCharsRe c \<Longrightarrow> \<not> lower_alnum c" for c
    using lower_alnum_valid by blast
  ultimately show ?thesis
    by (simp add: Normalize_def Let_def filter_trim filter_collapse filter_replace_class)
qed

subsection \<open>Properties\<close>

text \<open>
  \<^verbatim>\<open>Normalize\<close> leaves a string alone exactly when it is already a normal name: only lower-case
  alphanumerics, dots and dashes, no two adjacent dashes, alphanumeric first and last characters.
  Its output always is one, so it is idempotent and its range is the set of normal names.
\<close>

theorem Normalize_canonical:
  "normal_name (Normalize rawID) \<and> (Normalize rawID = rawID \<longleftrightarrow> normal_name rawID)
   \<and> Normalize (Normalize rawID) = Normalize rawID"
  by (simp add: norm.canon_ok norm.canon_fix_iff norm.canon_idem)

text \<open>
  \<^verbatim>\<open>Normalize\<close> keeps every lower-case alphanumeric of the lowered id, in order, and nothing
  else but dots and dashes; hence it is empty exactly when the id has no alphanumeric at all.
\<close>

theorem Normalize_keeps_content:
  "filter lower_alnum (Normalize rawID) = filter lower_alnum (ToLower rawID)
   \<and> (Normalize rawID = [] \<longleftrightarrow> filter lower_alnum (ToLower rawID) = [])"
proof -
  have "Normalize rawID = [] \<longleftrightarrow> filter lower_alnum (Normalize rawID) = []"
    using Normalize_normal [of rawID] by (cases "Normalize rawID") (auto simp: normal_name_def)
  then show ?thesis by (simp add: Normalize_content)
qed

text \<open>
  The documented behaviour of \<^verbatim>\<open>validation.IsDNS1123Subdomain\<close>: no messages exactly for non-empty
  names of at most 253 characters made of dot-separated labels, each of lower-case alphanumerics
  and dashes with alphanumeric ends.
\<close>

definition dns1123 :: "string \<Rightarrow> bool" where
  "dns1123 s \<longleftrightarrow>
     s \<noteq> [] \<and> length s \<le> 253 \<and> (\<forall>c \<in> set s. \<not> invalidCharsRe c) \<and>
     lower_alnum (hd s) \<and> lower_alnum (last s) \<and>
     successively (\<lambda>c d. (c = CHR ''.'' \<longrightarrow> lower_alnum d) \<and> (d = CHR ''.'' \<longrightarrow> lower_alnum c)) s"

text \<open>
  Under that behaviour, a normalised id is accepted by \<^verbatim>\<open>DNS1123Subdomain\<close> exactly when it is
  non-empty, at most 253 characters long and has no dot next to another dot or to a dash; the
  validation step is what catches the remaining cases.
\<close>

theorem Normalize_dns:
  assumes valid: "\<And>n. (v n = []) = dns1123 n"
  shows "DNS1123Subdomain v (Normalize rawID) = None \<longleftrightarrow>
    Normalize rawID \<noteq> [] \<and> length (Normalize rawID) \<le> 253 \<and>
    successively (\<lambda>c d. (c = CHR ''.'' \<longrightarrow> lower_alnum d) \<and> (d = CHR ''.'' \<longrightarrow> lower_alnum c))
      (Normalize rawID)"
  using Normalize_normal [of rawID]
  by (auto simp: DNS1123Subdomain_def valid dns1123_def normal_name_def Let_def)

theorem Normalize_dns_witness:
  "DNS1123Subdomain (\<lambda>n. if dns1123 n then [] else [''bad'']) (Normalize ''Org/Model:v1.5'') = None
   \<and> DNS1123Subdomain (\<lambda>n. if dns1123 n then [] else [''bad'']) (Normalize ''a.-b'') \<noteq> None"
proof -
  let ?v = "\<lambda>n. if dns1123 n then [] else [''bad'']"
  have v: "\<And>n. (?v n = []) = dns1123 n" by simp
  have a: "Normalize ''Org/Model:v1.5'' = ''org-model-v1.5''" by code_simp
  have b: "Normalize ''a.-b'' = ''a.-b''" by code_simp
  have "DNS1123Subdomain ?v (Normalize ''Org/Model:v1.5'') = None"
    by (subst Normalize_dns [OF v]) (simp add: a lower_alnum_def is_lower_def is_digit_def char_le_nat)
  moreover have "DNS1123Subdomain ?v (Normalize ''a.-b'') \<noteq> None"
    by (subst Normalize_dns [OF v]) (simp add: b lower_alnum_def is_lower_def is_digit_def char_le_nat)
  ultimately show ?thesis by blast
qed

end
