(* ===== verification/Filters.thy ===== *)
theory Filters
  imports Prelude
begin

text \<open>
  Package \<^verbatim>\<open>internal/filters\<close>: the include/exclude filters of a model discovery.

  Patterns are user input and \<^verbatim>\<open>regexp.Compile\<close> is a parameter \<open>compile\<close>: it gives the compile
  diagnostic, or the match predicate of the compiled expression.  Everything proved holds for every
  such parameter.  Errors are values of \<open>filter_error\<close>, one constructor per error type of the
  package.
\<close>

type_synonym matcher = "string \<Rightarrow> bool"
type_synonym compiler = "string \<Rightarrow> string + matcher"

type_synonym UnmatchedPattern = "nat \<times> string"

datatype filter_error =
    UpstreamInvalidError "UnmatchedPattern list"
  | InvalidConfigError string nat string string

record ModelDiscoveryFilters =
  Include :: "string list"
  Exclude :: "string list"

definition unmatched_text :: "UnmatchedPattern \<Rightarrow> string" where
  "unmatched_text p =
     ''filters.include['' @ show_nat (fst p) @ ''] ('' @ snd p @ '') matched no upstream models''"

fun Error :: "filter_error \<Rightarrow> string" where
  "Error (UpstreamInvalidError ps) =
     (if length ps = 0 then ''filters: include matched no upstream models''
      else join ''; '' (map unmatched_text ps))"
| "Error (InvalidConfigError location index pat err) =
     ''filters.'' @ location @ ''['' @ show_nat index @ '']: invalid regex: '' @ err"

subsection \<open>Compilation and matching\<close>

fun compile_from :: "compiler \<Rightarrow> string \<Rightarrow> nat \<Rightarrow> string list \<Rightarrow> filter_error + matcher list" where
  "compile_from compile location i [] = Inr []"
| "compile_from compile location i (pat # pats) =
     (case compile (''^'' @ pat) of
        Inl err \<Rightarrow> Inl (InvalidConfigError location i pat err)
      | Inr re \<Rightarrow>
          (case compile_from compile location (Suc i) pats of
             Inl e \<Rightarrow> Inl e | Inr res \<Rightarrow> Inr (re # res)))"

definition compileAnchored :: "compiler \<Rightarrow> string list \<Rightarrow> string \<Rightarrow> filter_error + matcher list" where
  "compileAnchored compile patterns location =
     (if length patterns = 0 then Inr [] else compile_from compile location 0 patterns)"

fun matchesAny :: "string list \<Rightarrow> matcher list \<Rightarrow> bool" where
  "matchesAny forms [] = False"
| "matchesAny forms (re # res) = (if list_ex re forms then True else matchesAny forms res)"

fun matchAnyAndTrack :: "string list \<Rightarrow> matcher list \<Rightarrow> bool list \<Rightarrow> bool \<times> bool list" where
  "matchAnyAndTrack forms (re # res) (hit # hits) =
     (let (found, hits') = matchAnyAndTrack forms res hits
      in if list_ex re forms then (True, True # hits') else (found, hit # hits'))"
| "matchAnyAndTrack forms _ hits = (False, hits)"

text \<open>The loop over the candidates of the include step: indices kept and per-pattern hits.\<close>

fun include_loop :: "matcher list \<Rightarrow> nat \<Rightarrow> string list list \<Rightarrow> bool list \<Rightarrow> nat list \<times> bool list" where
  "include_loop res i [] matched = ([], matched)"
| "include_loop res i (forms # rest) matched =
     (let (found, matched) = matchAnyAndTrack forms res matched;
          (kept, matched) = include_loop res (Suc i) rest matched
      in (if found then i # kept else kept, matched))"

fun unmatched_from :: "nat \<Rightarrow> bool list \<Rightarrow> string list \<Rightarrow> UnmatchedPattern list" where
  "unmatched_from i (hit # hits) (pat # pats) =
     (if hit then unmatched_from (Suc i) hits pats else (i, pat) # unmatched_from (Suc i) hits pats)"
| "unmatched_from i _ _ = []"

definition candidate_forms :: "(string \<Rightarrow> string list) option \<Rightarrow> string \<Rightarrow> string list" where
  "candidate_forms aliases cid = [cid] @ (case aliases of None \<Rightarrow> [] | Some f \<Rightarrow> f cid)"

definition exclude_step :: "string list \<Rightarrow> string list list \<Rightarrow> matcher list \<Rightarrow> nat list \<Rightarrow> string list" where
  "exclude_step candidates forms excludeRes kept =
     map (\<lambda>i. candidates ! i)
       (filter (\<lambda>i. length excludeRes = 0 \<or> \<not> matchesAny (forms ! i) excludeRes) kept)"

definition ApplyWithAliases ::
  "compiler \<Rightarrow> string list \<Rightarrow> (string \<Rightarrow> string list) option \<Rightarrow> ModelDiscoveryFilters option
   \<Rightarrow> filter_error + string list" where
  "ApplyWithAliases compile candidates aliases f =
     (case f of None \<Rightarrow> Inr candidates
      | Some f \<Rightarrow>
        (let forms = map (candidate_forms aliases) candidates in
         case compileAnchored compile (Include f) ''include'' of Inl e \<Rightarrow> Inl e
         | Inr includeRes \<Rightarrow>
           (case compileAnchored compile (Exclude f) ''exclude'' of Inl e \<Rightarrow> Inl e
            | Inr excludeRes \<Rightarrow>
              (if length includeRes = 0
               then Inr (exclude_step candidates forms excludeRes [0..<length candidates])
               else let (kept, matched) = include_loop includeRes 0 forms (replicate (length includeRes) False);
                        unmatched = unmatched_from 0 matched (Include f)
                    in if length unmatched > 0 then Inl (UpstreamInvalidError unmatched)
                       else Inr (exclude_step candidates forms excludeRes kept)))))"

definition Apply :: "compiler \<Rightarrow> string list \<Rightarrow> ModelDiscoveryFilters option \<Rightarrow> filter_error + string list" where
  "Apply compile candidates f = ApplyWithAliases compile candidates None f"

subsection \<open>What the loops compute\<close>

definition hits_of :: "matcher list \<Rightarrow> string list list \<Rightarrow> bool list" where
  "hits_of res formss = map (\<lambda>re. list_ex (list_ex re) formss) res"

lemma matchesAny_iff: "matchesAny forms res \<longleftrightarrow> (\<exists>re \<in> set res. \<exists>s \<in> set forms. re s)"
  by (induction res) (auto simp: list_ex_iff)

lemma matchAnyAndTrack_spec:
  "length hits = length res \<Longrightarrow>
   matchAnyAndTrack forms res hits =
     (matchesAny forms res, map2 (\<lambda>re h. list_ex re forms \<or> h) res hits)"
  by (induction forms res hits rule: matchAnyAndTrack.induct) auto

lemma include_loop_spec:
  "length matched = length res \<Longrightarrow>
   include_loop res i formss matched =
     (map (\<lambda>j. i + j) (filter (\<lambda>j. matchesAny (formss ! j) res) [0..<length formss]),
      map2 (\<lambda>h h'. h \<or> h') (hits_of res formss) matched)"
proof (induction formss arbitrary: i matched)
  case Nil
  then show ?case
    by (auto simp: hits_of_def intro!: nth_equalityI)
next
  case (Cons forms rest)
  let ?hit = "map2 (\<lambda>re h. list_ex re forms \<or> h) res matched"
  have len: "length ?hit = length res" using Cons.prems by simp
  have hits: "map2 (\<or>) (hits_of res rest) ?hit = map2 (\<or>) (hits_of res (forms # rest)) matched"
    using Cons.prems by (intro nth_equalityI) (auto simp: hits_of_def)
  have idx: "filter (\<lambda>j. matchesAny ((forms # rest) ! j) res) [0..<Suc (length rest)]
    = (if matchesAny forms res then [0] else [])
      @ map Suc (filter (\<lambda>j. matchesAny (rest ! j) res) [0..<length rest])"
    by (simp add: upt_conv_Cons map_Suc_upt [symmetric] filter_map comp_def del: upt_Suc)
  show ?case
    using Cons.IH [OF len, of "Suc i"] Cons.prems
    by (simp add: matchAnyAndTrack_spec hits idx comp_def del: upt_Suc)
qed

lemma unmatched_from_spec:
  "length hits = length pats \<Longrightarrow>
   unmatched_from i hits pats = map (\<lambda>j. (i + j, pats ! j)) (filter (\<lambda>j. \<not> hits ! j) [0..<length pats])"
proof (induction i hits pats rule: unmatched_from.induct)
  case (1 i hit hits pat pats)
  have "filter (\<lambda>j. \<not> (hit # hits) ! j) [0..<length (pat # pats)]
    = (if hit then [] else [0]) @ map Suc (filter (\<lambda>j. \<not> hits ! j) [0..<length pats])"
    by (simp add: upt_conv_Cons map_Suc_upt [symmetric] filter_map comp_def del: upt_Suc)
  with 1 show ?case by (simp add: comp_def del: upt_Suc)
qed auto

lemma compile_from_Inr:
  "compile_from compile loc i pats = Inr res \<Longrightarrow>
   length res = length pats \<and> (\<forall>j < length pats. compile (''^'' @ pats ! j) = Inr (res ! j))"
proof (induction compile loc i pats arbitrary: res rule: compile_from.induct)
  case (2 compile location i pat pats)
  then show ?case
    by (auto split: sum.splits simp: nth_Cons split: nat.splits)
qed auto

lemma compile_from_Inl:
  "compile_from compile loc i pats = Inl e \<Longrightarrow>
   \<exists>j err. j < length pats \<and> compile (''^'' @ pats ! j) = Inl err
     \<and> e = InvalidConfigError loc (i + j) (pats ! j) err
     \<and> (\<forall>j' < j. \<exists>re. compile (''^'' @ pats ! j') = Inr re)"
proof (induction compile loc i pats arbitrary: e rule: compile_from.induct)
  case (2 compile location i pat pats)
  show ?case
  proof (cases "compile (''^'' @ pat)")
    case (Inl err)
    with 2 show ?thesis by (intro exI [of _ 0]) auto
  next
    case (Inr re)
    with 2 obtain e' where "compile_from compile location (Suc i) pats = Inl e'" "e = e'"
      by (auto split: sum.splits)
    with 2(1) [OF Inr] obtain j err where
      "j < length pats" "compile (''^'' @ pats ! j) = Inl err"
      "e = InvalidConfigError location (Suc i + j) (pats ! j) err"
      "\<forall>j' < j. \<exists>re. compile (''^'' @ pats ! j') = Inr re"
      by blast
    with Inr show ?thesis
      by (intro exI [of _ "Suc j"]) (auto simp: nth_Cons split: nat.splits)
  qed
qed auto

lemma compileAnchored_eq: "compileAnchored compile pats loc = compile_from compile loc 0 pats"
  by (cases pats) (simp_all add: compileAnchored_def)

lemma map_filter_nth: "map (\<lambda>i. xs ! i) (filter (\<lambda>i. P (xs ! i)) [0..<length xs]) = filter P xs"
proof -
  have "filter P (map ((!) xs) [0..<length xs]) = map ((!) xs) (filter (P \<circ> (!) xs) [0..<length xs])"
    by (rule filter_map)
  then show ?thesis by (simp add: map_nth comp_def)
qed

definition kept_by :: "matcher list \<Rightarrow> matcher list \<Rightarrow> string list \<Rightarrow> bool" where
  "kept_by inc exc forms \<longleftrightarrow> (inc = [] \<or> matchesAny forms inc) \<and> \<not> matchesAny forms exc"

lemma exclude_step_spec:
  "exclude_step candidates (map g candidates) exc
     (filter (\<lambda>i. P (map g candidates ! i)) [0..<length candidates])
   = filter (\<lambda>cid. P (g cid) \<and> \<not> matchesAny (g cid) exc) candidates"
proof -
  have "filter (\<lambda>i. length exc = 0 \<or> \<not> matchesAny (map g candidates ! i) exc)
      (filter (\<lambda>i. P (map g candidates ! i)) [0..<length candidates])
    = filter (\<lambda>i. P (g (candidates ! i)) \<and> \<not> matchesAny (g (candidates ! i)) exc) [0..<length candidates]"
    unfolding filter_filter by (intro filter_cong refl) (auto simp: matchesAny_iff)
  then show ?thesis
    by (simp only: exclude_step_def map_filter_nth [of candidates "\<lambda>cid. P (g cid) \<and> \<not> matchesAny (g cid) exc"])
qed

lemma unmatched_include:
  assumes "length pats = length res"
  shows "unmatched_from 0 (snd (include_loop res 0 formss (replicate (length res) False))) pats
    = map (\<lambda>j. (j, pats ! j)) (filter (\<lambda>j. \<not> list_ex (list_ex (res ! j)) formss) [0..<length pats])"
proof -
  have "snd (include_loop res 0 formss (replicate (length res) False)) = hits_of res formss"
    by (subst include_loop_spec) (auto simp: hits_of_def intro: nth_equalityI)
  moreover have "filter (\<lambda>j. \<not> hits_of res formss ! j) [0..<length pats]
    = filter (\<lambda>j. \<not> list_ex (list_ex (res ! j)) formss) [0..<length pats]"
    using assms by (intro filter_cong refl) (simp add: hits_of_def)
  ultimately show ?thesis
    using assms by (simp add: unmatched_from_spec hits_of_def)
qed

subsection \<open>Properties\<close>

text \<open>
  C39.  With well-formed patterns the filter succeeds exactly when every include pattern matches some
  form (raw id or alias) of some candidate, and then returns, in input order, the candidates some
  form of which matches an include pattern (all of them when there is none) and no form of which
  matches an exclude pattern.
\<close>

theorem ApplyWithAliases_result:
  assumes inc: "compileAnchored compile (Include f) ''include'' = Inr inc"
    and exc: "compileAnchored compile (Exclude f) ''exclude'' = Inr exc"
  shows "ApplyWithAliases compile candidates aliases (Some f) =
    (let unmatched = filter (\<lambda>j. \<not> (\<exists>cid \<in> set candidates. \<exists>s \<in> set (candidate_forms aliases cid). (inc ! j) s))
                       [0..<length (Include f)]
     in if unmatched \<noteq> [] then Inl (UpstreamInvalidError (map (\<lambda>j. (j, Include f ! j)) unmatched))
        else Inr (filter (\<lambda>cid. kept_by inc exc (candidate_forms aliases cid)) candidates))"
proof -
  let ?forms = "map (candidate_forms aliases) candidates"
  have len: "length (Include f) = length inc"
    using inc compile_from_Inr by (auto simp: compileAnchored_eq)
  have um: "unmatched_from 0 (snd (include_loop inc 0 ?forms (replicate (length inc) False))) (Include f)
    = map (\<lambda>j. (j, Include f ! j))
        (filter (\<lambda>j. \<not> (\<exists>cid \<in> set candidates. \<exists>s \<in> set (candidate_forms aliases cid). (inc ! j) s))
          [0..<length (Include f)])"
    by (simp add: unmatched_include [OF len] list_ex_iff)
  have all: "exclude_step candidates ?forms exc [0..<length candidates]
    = filter (\<lambda>cid. \<not> matchesAny (candidate_forms aliases cid) exc) candidates"
    using exclude_step_spec [of candidates "candidate_forms aliases" exc "\<lambda>_. True"] by simp
  have some: "exclude_step candidates ?forms exc
      (fst (include_loop inc 0 ?forms (replicate (length inc) False)))
    = filter (\<lambda>cid. matchesAny (candidate_forms aliases cid) inc \<and> \<not> matchesAny (candidate_forms aliases cid) exc) candidates"
    using exclude_step_spec [of candidates "candidate_forms aliases" exc "\<lambda>fs. matchesAny fs inc"]
    by (subst include_loop_spec) (simp_all add: map_idI)
  show ?thesis
  proof (cases "inc = []")
    case True
    with len show ?thesis
      unfolding ApplyWithAliases_def option.case Let_def inc exc sum.case all
      by (simp add: kept_by_def)
  next
    case False
    with um some show ?thesis
      by (auto simp: ApplyWithAliases_def inc exc kept_by_def Let_def split: prod.splits)
  qed
qed

theorem ApplyWithAliases_result_witness:
  "ApplyWithAliases (\<lambda>p. Inr (\<lambda>s. prefix (tl p) s)) [''gpt-4'', ''~anthropic/x'', ''gpt-3''] (Some (\<lambda>cid. [''p.'' @ tl cid]))
     (Some \<lparr>Include = [''gpt'', ''p.anthropic''], Exclude = [''gpt-3'']\<rparr>) = Inr [''gpt-4'', ''~anthropic/x'']
   \<and> ApplyWithAliases (\<lambda>p. Inr (\<lambda>s. prefix (tl p) s)) [''gpt-4''] None
     (Some \<lparr>Include = [''gpt'', ''claude''], Exclude = []\<rparr>) = Inl (UpstreamInvalidError [(1, ''claude'')])"
proof -
  let ?c = "\<lambda>p. Inr (\<lambda>s. prefix (tl p) s)"
  let ?f = "\<lparr>Include = [''gpt'', ''p.anthropic''], Exclude = [''gpt-3'']\<rparr>"
  let ?g = "\<lparr>Include = [''gpt'', ''claude''], Exclude = []\<rparr>"
  have a: "compileAnchored ?c (Include ?f) ''include'' = Inr [prefix ''gpt'', prefix ''p.anthropic'']"
    and b: "compileAnchored ?c (Exclude ?f) ''exclude'' = Inr [prefix ''gpt-3'']"
    and c: "compileAnchored ?c (Include ?g) ''include'' = Inr [prefix ''gpt'', prefix ''claude'']"
    and d: "compileAnchored ?c (Exclude ?g) ''exclude'' = Inr []"
    by (simp_all add: compileAnchored_def)
  show ?thesis
    unfolding ApplyWithAliases_result [OF a b] ApplyWithAliases_result [OF c d]
    by (simp add: candidate_forms_def kept_by_def upt_rec)
qed

text \<open>
  A pattern that does not compile aborts the refresh: the error names the first offending
  pattern, the include patterns are compiled before the exclude patterns, and no candidate is
  returned whatever the candidates are.
\<close>

theorem ApplyWithAliases_compile_error:
  assumes "compileAnchored compile (Include f) ''include'' = Inl e
     \<or> (\<exists>inc. compileAnchored compile (Include f) ''include'' = Inr inc)
        \<and> compileAnchored compile (Exclude f) ''exclude'' = Inl e"
  shows "ApplyWithAliases compile candidates aliases (Some f) = Inl e
   \<and> (\<exists>loc pats j err. (loc, pats) \<in> {(''include'', Include f), (''exclude'', Exclude f)}
        \<and> j < length pats \<and> compile (''^'' @ pats ! j) = Inl err
        \<and> (\<forall>j' < j. \<exists>re. compile (''^'' @ pats ! j') = Inr re)
        \<and> e = InvalidConfigError loc j (pats ! j) err)"
proof -
  have eq: "ApplyWithAliases compile candidates aliases (Some f) = Inl e"
    using assms by (auto simp: ApplyWithAliases_def)
  consider (inc) "compile_from compile ''include'' 0 (Include f) = Inl e"
    | (exc) "compile_from compile ''exclude'' 0 (Exclude f) = Inl e"
    using assms by (auto simp: compileAnchored_eq)
  then show ?thesis
  proof cases
    case inc
    from compile_from_Inl [OF inc] show ?thesis using eq by (simp add: ex_disj_distrib) blast
  next
    case exc
    from compile_from_Inl [OF exc] show ?thesis using eq by (simp add: ex_disj_distrib) blast
  qed
qed

theorem ApplyWithAliases_compile_error_witness:
  "ApplyWithAliases (\<lambda>p. if p = ''^('' then Inl ''missing closing )'' else Inr (\<lambda>_. True)) [''m''] None
     (Some \<lparr>Include = [''a''], Exclude = [''b'', ''('']\<rparr>)
   = Inl (InvalidConfigError ''exclude'' 1 ''('' ''missing closing )'')"
proof -
  let ?c = "\<lambda>p. if p = ''^('' then Inl ''missing closing )'' else Inr (\<lambda>_. True)"
  let ?f = "\<lparr>Include = [''a''], Exclude = [''b'', ''('']\<rparr>"
  have "(\<exists>inc. compileAnchored ?c (Include ?f) ''include'' = Inr inc)
      \<and> compileAnchored ?c (Exclude ?f) ''exclude'' = Inl (InvalidConfigError ''exclude'' 1 ''('' ''missing closing )'')"
    by (simp add: compileAnchored_def)
  then show ?thesis
    using ApplyWithAliases_compile_error by blast
qed

end
