(* ===== verification/Cache_Race.thy ===== *)
theory Cache_Race
  imports Connection
begin

text \<open>
  The connection cache under interleaving (\<^verbatim>\<open>internal/connection/cache.go\<close>).

  Any number of reconciler goroutines may be inside \<^verbatim>\<open>InvalidateOn401\<close> at once; one goroutine, the
  connection controller's worker, receives probe events and calls \<^verbatim>\<open>Rebuild\<close>.  Each atomic operation
  of the two methods is one step (\<^verbatim>\<open>closed.Load\<close>, \<^verbatim>\<open>invalidated.CompareAndSwap\<close>,
  \<^verbatim>\<open>snapshot.Load\<close>, \<^verbatim>\<open>lastReady.Store\<close>, \<^verbatim>\<open>snapshot.Store\<close>, the channel send, and the four of
  \<^verbatim>\<open>Rebuild\<close> with \<^verbatim>\<open>emitRebuilt\<close>'s fan-out as the last), and the steps of different goroutines
  interleave freely.  \<open>probing\<close> is a ghost flag: the worker has taken a probe event and has not yet
  reset the storm gate.  Shutdown is outside this theory.
\<close>

datatype 'c inv_pc =
    Idle
  | Load_closed
  | Cas_gate
  | Load_snapshot
  | Store_lastReady "'c ConnectionSnapshot"
  | Store_snapshot "'c ConnectionSnapshot"
  | Send_event

datatype 'c reb_pc =
    RIdle
  | RStore_snapshot "'c ConnectionSnapshot"
  | RReset_gate "'c ConnectionSnapshot"
  | RSwap_lastReady "'c ConnectionSnapshot"
  | REmit

record 'c race =
  shared :: "'c Cache"
  pcs :: "nat \<Rightarrow> 'c inv_pc"
  worker :: "'c reb_pc"
  probing :: bool

definition race_init :: "nat \<Rightarrow> 'c race" where
  "race_init n = \<lparr>shared = NewCache\<lparr>subs := replicate n fresh_chan, rebuiltSubs := [0..<n]\<rparr>,
     pcs = (\<lambda>_. Idle), worker = RIdle, probing = False\<rparr>"

abbreviation goto :: "nat \<Rightarrow> 'c inv_pc \<Rightarrow> 'c race \<Rightarrow> 'c race" where
  "goto i p s \<equiv> s\<lparr>pcs := (pcs s)(i := p)\<rparr>"

inductive race_step :: "'c race \<Rightarrow> 'c race \<Rightarrow> bool" where
  inv_call: "pcs s i = Idle \<Longrightarrow> race_step s (goto i Load_closed s)"
| inv_closed: "pcs s i = Load_closed \<Longrightarrow>
     race_step s (goto i (if closed (shared s) then Idle else Cas_gate) s)"
| inv_cas_lost: "pcs s i = Cas_gate \<Longrightarrow> invalidated (shared s) \<Longrightarrow> race_step s (goto i Idle s)"
| inv_cas_won: "pcs s i = Cas_gate \<Longrightarrow> \<not> invalidated (shared s) \<Longrightarrow>
     race_step s (goto i Load_snapshot (s\<lparr>shared := (shared s)\<lparr>invalidated := True\<rparr>\<rparr>))"
| inv_load: "pcs s i = Load_snapshot \<Longrightarrow>
     race_step s (goto i (Store_lastReady (placeholder401 (snapshot (shared s)))) s)"
| inv_last: "pcs s i = Store_lastReady p \<Longrightarrow>
     race_step s (goto i (Store_snapshot p) (s\<lparr>shared := (shared s)\<lparr>lastReady := False\<rparr>\<rparr>))"
| inv_store: "pcs s i = Store_snapshot p \<Longrightarrow>
     race_step s (goto i Send_event (s\<lparr>shared := (shared s)\<lparr>snapshot := Some p\<rparr>\<rparr>))"
| inv_send: "pcs s i = Send_event \<Longrightarrow>
     race_step s (goto i Idle
       (s\<lparr>shared := (case try_send (ch (shared s)) of
                        None \<Rightarrow> shared s | Some ch' \<Rightarrow> (shared s)\<lparr>ch := ch'\<rparr>)\<rparr>))"
| wrk_recv: "worker s = RIdle \<Longrightarrow> 0 < buffered (ch (shared s)) \<Longrightarrow>
     race_step s (s\<lparr>shared := recv_probe (shared s), probing := True\<rparr>)"
| wrk_call: "worker s = RIdle \<Longrightarrow> race_step s (s\<lparr>worker := RStore_snapshot snap\<rparr>)"
| wrk_store: "worker s = RStore_snapshot snap \<Longrightarrow>
     race_step s (s\<lparr>shared := (shared s)\<lparr>snapshot := Some snap\<rparr>, worker := RReset_gate snap\<rparr>)"
| wrk_reset: "worker s = RReset_gate snap \<Longrightarrow>
     race_step s (s\<lparr>shared := (shared s)\<lparr>invalidated := False\<rparr>, worker := RSwap_lastReady snap, probing := False\<rparr>)"
| wrk_swap: "worker s = RSwap_lastReady snap \<Longrightarrow>
     race_step s (s\<lparr>shared := (shared s)\<lparr>lastReady := snap_Ready snap\<rparr>,
       worker := (if snap_Ready snap \<and> \<not> lastReady (shared s) then REmit else RIdle)\<rparr>)"
| wrk_emit: "worker s = REmit \<Longrightarrow>
     race_step s (s\<lparr>shared := emitRebuilt (shared s), worker := RIdle\<rparr>)"

inductive race_reachable :: "nat \<Rightarrow> 'c race \<Rightarrow> bool" for n where
  race_start: "race_reachable n (race_init n)"
| race_next: "race_reachable n s \<Longrightarrow> race_step s t \<Longrightarrow> race_reachable n t"

definition in_flight :: "'c inv_pc \<Rightarrow> bool" where
  "in_flight p \<longleftrightarrow> (case p of Load_snapshot \<Rightarrow> True | Store_lastReady _ \<Rightarrow> True | Store_snapshot _ \<Rightarrow> True
      | Send_event \<Rightarrow> True | _ \<Rightarrow> False)"

definition gate_inv :: "'c race \<Rightarrow> bool" where
  "gate_inv s \<longleftrightarrow>
     \<not> closed (shared s) \<and> \<not> chan_closed (ch (shared s)) \<and> buffered (ch (shared s)) \<le> 1 \<and>
     (invalidated (shared s) \<longrightarrow>
        buffered (ch (shared s)) = 1 \<or> probing s \<or> (\<exists>i. in_flight (pcs s i)))"

lemma in_flight_simps [simp]:
  "\<not> in_flight Idle" "\<not> in_flight Load_closed" "\<not> in_flight Cas_gate" "in_flight Load_snapshot"
  "in_flight (Store_lastReady p)" "in_flight (Store_snapshot p)" "in_flight Send_event"
  by (simp_all add: in_flight_def)

lemma in_flight_upd:
  "in_flight p \<Longrightarrow> \<exists>j. in_flight ((f(i := p)) j)"
  "\<not> in_flight (f i) \<Longrightarrow> \<exists>j. in_flight (f j) \<Longrightarrow> \<exists>j. in_flight ((f(i := p)) j)"
  by (auto intro: exI [of _ i])

lemma race_init_inv: "gate_inv (race_init n)"
  by (simp add: gate_inv_def race_init_def NewCache_def fresh_chan_def)

lemma race_step_inv: "race_step s t \<Longrightarrow> gate_inv s \<Longrightarrow> gate_inv t"
proof (induction rule: race_step.induct)
  case (inv_send s i)
  then show ?case
    by (simp add: gate_inv_def try_send_open)
next
  case (wrk_recv s)
  then show ?case by (auto simp: gate_inv_def recv_probe_def)
next
  case (wrk_emit s)
  then show ?case by (simp add: gate_inv_def emitRebuilt_def)
qed (auto simp: gate_inv_def, (metis in_flight_simps)+)

lemma race_reachable_inv: "race_reachable n s \<Longrightarrow> gate_inv s"
  by (induction rule: race_reachable.induct) (auto intro: race_init_inv race_step_inv)

text \<open>
  Whatever the interleaving, the storm gate never stays raised with nobody going to lower it:
  while it is raised a probe event is pending, or the worker has taken one and not yet rebuilt, or
  some goroutine is still on its way to send one.  And at most one event is ever pending.
\<close>

theorem gate_never_stuck:
  assumes "race_reachable n s"
  shows "buffered (ch (shared s)) \<le> 1
    \<and> (invalidated (shared s) \<longrightarrow>
         buffered (ch (shared s)) = 1 \<or> probing s \<or> (\<exists>i. in_flight (pcs s i)))"
  using race_reachable_inv [OF assms] by (simp add: gate_inv_def)

subsection \<open>A lost wake-up\<close>

text \<open>
  \<^verbatim>\<open>InvalidateOn401\<close> stores \<^verbatim>\<open>lastReady=false\<close> before it stores the placeholder snapshot.  A whole
  \<^verbatim>\<open>Rebuild\<close> of a ready connection fits between the two stores: afterwards the snapshot is not ready
  but \<^verbatim>\<open>lastReady\<close> is true, so the next ready rebuild is taken for steady state.
\<close>

abbreviation ready_snap :: "nat ConnectionSnapshot" where
  "ready_snap \<equiv> example_snapshot"

definition after_invalidate_store :: "nat race" where
  "after_invalidate_store = \<lparr>shared = NewCache\<lparr>subs := [full_chan], rebuiltSubs := [0],
       snapshot := Some (placeholder401 None), invalidated := False, lastReady := True, ch := full_chan\<rparr>,
     pcs = (\<lambda>_. Idle), worker = RIdle, probing = False\<rparr>"

lemma race_run_prefix:
  "race_reachable 1
     (\<lparr>shared = NewCache\<lparr>subs := [fresh_chan], rebuiltSubs := [0], invalidated := True\<rparr>,
       pcs = (\<lambda>_. Idle)(0 := Store_snapshot (placeholder401 None)), worker = RIdle, probing = False\<rparr> :: nat race)"
proof -
  let ?c = "NewCache\<lparr>subs := [fresh_chan], rebuiltSubs := [0]\<rparr> :: nat Cache"
  let ?s = "\<lambda>c p. \<lparr>shared = c, pcs = (\<lambda>_. Idle)(0 := p), worker = RIdle, probing = False\<rparr> :: nat race"
  have "race_reachable 1 (?s ?c Idle)"
    using race_start [of 1] by (simp add: race_init_def fun_upd_idem)
  then have "race_reachable 1 (?s ?c Load_closed)"
    by (rule race_next) (use inv_call [of "?s ?c Idle" 0] in simp)
  then have "race_reachable 1 (?s ?c Cas_gate)"
    by (rule race_next) (use inv_closed [of "?s ?c Load_closed" 0] in \<open>simp add: NewCache_def\<close>)
  then have "race_reachable 1 (?s (?c\<lparr>invalidated := True\<rparr>) Load_snapshot)"
    by (rule race_next) (use inv_cas_won [of "?s ?c Cas_gate" 0] in \<open>simp add: NewCache_def\<close>)
  then have "race_reachable 1 (?s (?c\<lparr>invalidated := True\<rparr>) (Store_lastReady (placeholder401 None)))"
    by (rule race_next)
      (use inv_load [of "?s (?c\<lparr>invalidated := True\<rparr>) Load_snapshot" 0] in \<open>simp add: NewCache_def\<close>)
  then show ?thesis
    by (rule race_next)
      (use inv_last [of "?s (?c\<lparr>invalidated := True\<rparr>) (Store_lastReady (placeholder401 None))" 0 "placeholder401 None"]
        in \<open>simp add: NewCache_def\<close>)
qed

lemma race_run_rebuild:
  "race_reachable 1
     (\<lparr>shared = NewCache\<lparr>subs := [full_chan], rebuiltSubs := [0],
         snapshot := Some ready_snap, lastReady := True\<rparr>,
       pcs = (\<lambda>_. Idle)(0 := Store_snapshot (placeholder401 None)), worker = RIdle, probing = False\<rparr> :: nat race)"
proof -
  let ?p = "(\<lambda>_. Idle)(0 := Store_snapshot (placeholder401 None)) :: nat \<Rightarrow> nat inv_pc"
  let ?s = "\<lambda>c w. \<lparr>shared = c, pcs = ?p, worker = w, probing = False\<rparr> :: nat race"
  let ?c = "NewCache\<lparr>subs := [fresh_chan], rebuiltSubs := [0]\<rparr> :: nat Cache"
  let ?r = "?c\<lparr>snapshot := Some ready_snap\<rparr>"
  have "race_reachable 1 (?s (?c\<lparr>invalidated := True\<rparr>) (RStore_snapshot ready_snap))"
    by (rule race_next [OF race_run_prefix])
      (use wrk_call [of "?s (?c\<lparr>invalidated := True\<rparr>) RIdle" ready_snap] in simp)
  then have "race_reachable 1 (?s (?r\<lparr>invalidated := True\<rparr>) (RReset_gate ready_snap))"
    by (rule race_next)
      (use wrk_store [of "?s (?c\<lparr>invalidated := True\<rparr>) (RStore_snapshot ready_snap)" ready_snap] in
        \<open>simp add: NewCache_def\<close>)
  then have "race_reachable 1 (?s ?r (RSwap_lastReady ready_snap))"
    by (rule race_next)
      (use wrk_reset [of "?s (?r\<lparr>invalidated := True\<rparr>) (RReset_gate ready_snap)" ready_snap] in
        \<open>simp add: NewCache_def\<close>)
  then have "race_reachable 1 (?s (?r\<lparr>lastReady := True\<rparr>) REmit)"
    by (rule race_next)
      (use wrk_swap [of "?s ?r (RSwap_lastReady ready_snap)" ready_snap] in
        \<open>simp add: NewCache_def example_snapshot_def\<close>)
  then show ?thesis
    by (rule race_next)
      (use wrk_emit [of "?s (?r\<lparr>lastReady := True\<rparr>) REmit"] in
        \<open>simp add: NewCache_def emitRebuilt_def try_send_def fresh_chan_def full_chan_def\<close>)
qed

lemma race_run_end: "race_reachable 1 after_invalidate_store"
proof -
  let ?s = "\<lambda>c p. \<lparr>shared = c, pcs = (\<lambda>_. Idle)(0 := p), worker = RIdle, probing = False\<rparr> :: nat race"
  let ?r = "NewCache\<lparr>subs := [full_chan], rebuiltSubs := [0],
         snapshot := Some ready_snap, lastReady := True\<rparr> :: nat Cache"
  have "race_reachable 1 (?s (?r\<lparr>snapshot := Some (placeholder401 None)\<rparr>) Send_event)"
    by (rule race_next [OF race_run_rebuild])
      (use inv_store [of "?s ?r (Store_snapshot (placeholder401 None))" 0 "placeholder401 None"] in simp)
  then show ?thesis
    unfolding after_invalidate_store_def
    by (rule race_next)
      (use inv_send [of "?s (?r\<lparr>snapshot := Some (placeholder401 None)\<rparr>) Send_event" 0] in
        \<open>simp add: NewCache_def try_send_def fresh_chan_def full_chan_def fun_upd_idem\<close>)
qed


theorem gate_never_stuck_witness:
  "race_reachable 1 after_invalidate_store \<and> buffered (ch (shared after_invalidate_store)) \<le> 1"
  using race_run_end gate_never_stuck [OF race_run_end] by blast

end
