(* ===== verification/List_Cache.thy ===== *)
theory List_Cache
  imports Prelude "HOL-Library.Word"
begin

text \<open>
  The LIST cache of \<^verbatim>\<open>internal/litellm/list_cache.go\<close>: a time-bounded memo of \<^verbatim>\<open>GET /v1/mcp/server\<close> and
  \<^verbatim>\<open>GET /v1/agents\<close> shared by all reconcilers, with one upstream fetch in flight and an epoch that
  keeps a snapshot taken before an invalidation out of the cache.  The code for the two endpoints is
  the same text with other field names, so one model over the type \<open>'r\<close> of a LIST outcome (entries
  and error) serves both.

  The operations below are the critical sections of the code.  A goroutine's position between them
  is a \<open>pc\<close>; \<open>lc_step\<close> interleaves any number of goroutines, of panicking leaders and cancelled
  waiters, and of mutations, each of which changes the server first and invalidates the cache in a
  later step.  Three ghost counters state what freshness means: \<open>ver\<close> counts the changes of the
  server, \<open>acked\<close> is the latest version whose invalidation has run, \<open>invals\<close> counts invalidations.
  The epoch is a \<^verbatim>\<open>uint64\<close>; it is kept at its width, and freshness is claimed until it has wrapped.
\<close>

subsection \<open>The store\<close>

record 'r listCacheEntry =
  e_value :: 'r
  e_fetched :: int
  e_seen :: nat  \<comment> \<open>ghost: the server version the snapshot shows\<close>

record 'r listCacheStore =
  ttl :: int
  entry :: "'r listCacheEntry option"
  inflight :: "nat option"
  epoch :: "64 word"

datatype 'r branch = Hit "'r listCacheEntry" | Follow nat | Lead nat "64 word"

definition follow_or_lead :: "nat \<Rightarrow> 'r listCacheStore \<Rightarrow> 'r branch \<times> 'r listCacheStore" where
  "follow_or_lead ch st =
     (case inflight st of
        Some c \<Rightarrow> (Follow c, st)
      | None \<Rightarrow> (Lead ch (epoch st), st\<lparr>inflight := Some ch\<rparr>))"

text \<open>The first critical section; \<open>ch\<close> is the channel \<^verbatim>\<open>make(chan struct{})\<close> would return.\<close>

definition CachedList_enter :: "int \<Rightarrow> nat \<Rightarrow> 'r listCacheStore \<Rightarrow> 'r branch \<times> 'r listCacheStore" where
  "CachedList_enter now ch st =
     (case entry st of
        Some e \<Rightarrow> if now - e_fetched e < ttl st then (Hit e, st) else follow_or_lead ch st
      | None \<Rightarrow> follow_or_lead ch st)"

definition CachedList_store :: "int \<Rightarrow> 64 word \<Rightarrow> 'r \<Rightarrow> nat \<Rightarrow> 'r listCacheStore \<Rightarrow> 'r listCacheStore" where
  "CachedList_store now startEpoch r v st =
     (if epoch st = startEpoch
      then st\<lparr>entry := Some \<lparr>e_value = r, e_fetched = now, e_seen = v\<rparr>\<rparr>
      else st)"

text \<open>The deferred function first clears the marker; closing the channel is a separate step.\<close>

definition CachedList_release :: "'r listCacheStore \<Rightarrow> 'r listCacheStore" where
  "CachedList_release st = st\<lparr>inflight := None\<rparr>"

definition invalidateCache :: "'r listCacheStore \<Rightarrow> 'r listCacheStore" where
  "invalidateCache st = st\<lparr>entry := None, epoch := epoch st + 1\<rparr>"

subsection \<open>Goroutines\<close>

datatype 'r outcome = Returned 'r | Cancelled | Panicked

datatype 'r pc =
    Idle
  | Waiting nat
  | Woken
  | Fetching nat "64 word" nat
  | Fetched nat "64 word" nat 'r nat
  | Clearing nat "'r outcome"
  | Closing nat "'r outcome"
  | DirectFetch
  | Mutated nat
  | Finished "'r outcome"

record 'r system =
  store :: "'r listCacheStore"
  clock :: int
  next_ch :: nat
  is_closed :: "nat \<Rightarrow> bool"
  procs :: "nat \<Rightarrow> 'r pc"
  ver :: nat
  acked :: nat
  invals :: nat

abbreviation at_pc :: "'r system \<Rightarrow> nat \<Rightarrow> 'r pc \<Rightarrow> 'r system" where
  "at_pc s p c \<equiv> s\<lparr>procs := (procs s)(p := c)\<rparr>"

inductive lc_step :: "nat \<Rightarrow> 'r system \<Rightarrow> 'r system \<Rightarrow> bool" where
  hit: "procs s p = Idle \<Longrightarrow> CachedList_enter (clock s) (next_ch s) (store s) = (Hit e, st) \<Longrightarrow>
    lc_step p s (at_pc s p (Finished (Returned (e_value e))))"
| follow: "procs s p = Idle \<Longrightarrow> CachedList_enter (clock s) (next_ch s) (store s) = (Follow c, st) \<Longrightarrow>
    lc_step p s (at_pc s p (Waiting c))"
| lead: "procs s p = Idle \<Longrightarrow> CachedList_enter (clock s) (next_ch s) (store s) = (Lead c se, st) \<Longrightarrow>
    lc_step p s (at_pc (s\<lparr>store := st, next_ch := Suc (next_ch s)\<rparr>) p (Fetching c se (invals s)))"
| wake: "procs s p = Waiting c \<Longrightarrow> is_closed s c \<Longrightarrow> lc_step p s (at_pc s p Woken)"
| cancel: "procs s p = Waiting c \<Longrightarrow> lc_step p s (at_pc s p (Finished Cancelled))"
| reread_some: "procs s p = Woken \<Longrightarrow> entry (store s) = Some e \<Longrightarrow>
    lc_step p s (at_pc s p (Finished (Returned (e_value e))))"
| reread_none: "procs s p = Woken \<Longrightarrow> entry (store s) = None \<Longrightarrow> lc_step p s (at_pc s p DirectFetch)"
| direct: "procs s p = DirectFetch \<Longrightarrow> lc_step p s (at_pc s p (Finished (Returned r)))"
| fetch: "procs s p = Fetching c se n \<Longrightarrow> lc_step p s (at_pc s p (Fetched c se n r (ver s)))"
| panic: "procs s p = Fetching c se n \<Longrightarrow> lc_step p s (at_pc s p (Clearing c Panicked))"
| store: "procs s p = Fetched c se n r v \<Longrightarrow>
    lc_step p s (at_pc (s\<lparr>store := CachedList_store (clock s) se r v (store s)\<rparr>) p (Clearing c (Returned r)))"
| clear: "procs s p = Clearing c out \<Longrightarrow>
    lc_step p s (at_pc (s\<lparr>store := CachedList_release (store s)\<rparr>) p (Closing c out))"
| close: "procs s p = Closing c out \<Longrightarrow>
    lc_step p s (at_pc (s\<lparr>is_closed := (is_closed s)(c := True)\<rparr>) p (Finished out))"
| mutate: "procs s p = Idle \<Longrightarrow> lc_step p s (at_pc (s\<lparr>ver := Suc (ver s)\<rparr>) p (Mutated (Suc (ver s))))"
| invalidate: "procs s p = Mutated v \<Longrightarrow>
    lc_step p s (at_pc (s\<lparr>store := invalidateCache (store s), acked := max (acked s) v,
      invals := Suc (invals s)\<rparr>) p (Finished Cancelled))"
| again: "procs s p = Finished out \<Longrightarrow> lc_step p s (at_pc s p Idle)"
| tick: "0 \<le> d \<Longrightarrow> lc_step p s (s\<lparr>clock := clock s + d\<rparr>)"

definition lc_init :: "int \<Rightarrow> 'r system" where
  "lc_init t = \<lparr>store = \<lparr>ttl = t, entry = None, inflight = None, epoch = 0\<rparr>, clock = 0, next_ch = 0,
     is_closed = (\<lambda>_. False), procs = (\<lambda>_. Idle), ver = 0, acked = 0, invals = 0\<rparr>"

inductive lc_reachable :: "int \<Rightarrow> 'r system \<Rightarrow> bool" for t where
  init: "lc_reachable t (lc_init t)"
| step: "lc_reachable t s \<Longrightarrow> lc_step p s s' \<Longrightarrow> lc_reachable t s'"

inductive_cases lc_stepE: "lc_step p s s'"

subsection \<open>One leader per channel, and no waiter without one\<close>

fun leads :: "'r pc \<Rightarrow> nat option" where
  "leads (Fetching c _ _) = Some c"
| "leads (Fetched c _ _ _ _) = Some c"
| "leads (Clearing c _) = Some c"
| "leads (Closing c _) = Some c"
| "leads _ = None"

fun holds_marker :: "'r pc \<Rightarrow> bool" where
  "holds_marker (Fetching _ _ _) = True"
| "holds_marker (Fetched _ _ _ _ _) = True"
| "holds_marker (Clearing _ _) = True"
| "holds_marker _ = False"

definition flight_inv :: "'r system \<Rightarrow> bool" where
  "flight_inv s \<longleftrightarrow>
     (\<forall>p c. leads (procs s p) = Some c \<longrightarrow> c < next_ch s \<and> \<not> is_closed s c) \<and>
     (\<forall>p c. leads (procs s p) = Some c \<and> holds_marker (procs s p) \<longrightarrow> inflight (store s) = Some c) \<and>
     (\<forall>p q c. leads (procs s p) = Some c \<and> leads (procs s q) = Some c \<longrightarrow> p = q) \<and>
     (\<forall>c. inflight (store s) = Some c \<longrightarrow> (\<exists>p. leads (procs s p) = Some c \<and> holds_marker (procs s p))) \<and>
     (\<forall>p c. procs s p = Waiting c \<longrightarrow> is_closed s c \<or> (\<exists>q. leads (procs s q) = Some c)) \<and>
     (\<forall>c. is_closed s c \<longrightarrow> c < next_ch s)"

lemma flight_invD:
  assumes "flight_inv s"
  shows "leads (procs s p) = Some c \<Longrightarrow> c < next_ch s"
    and "leads (procs s p) = Some c \<Longrightarrow> \<not> is_closed s c"
    and "leads (procs s p) = Some c \<Longrightarrow> holds_marker (procs s p) \<Longrightarrow> inflight (store s) = Some c"
    and "leads (procs s p) = Some c \<Longrightarrow> leads (procs s q) = Some c \<Longrightarrow> p = q"
    and "inflight (store s) = Some c \<Longrightarrow> \<exists>p. leads (procs s p) = Some c \<and> holds_marker (procs s p)"
    and "procs s p = Waiting c \<Longrightarrow> is_closed s c \<or> (\<exists>q. leads (procs s q) = Some c)"
    and "is_closed s c \<Longrightarrow> c < next_ch s"
  using assms unfolding flight_inv_def by blast+

lemma flight_invI:
  assumes "\<And>p c. leads (procs s p) = Some c \<Longrightarrow> c < next_ch s \<and> \<not> is_closed s c"
    and "\<And>p c. leads (procs s p) = Some c \<Longrightarrow> holds_marker (procs s p) \<Longrightarrow> inflight (store s) = Some c"
    and "\<And>p q c. leads (procs s p) = Some c \<Longrightarrow> leads (procs s q) = Some c \<Longrightarrow> p = q"
    and "\<And>c. inflight (store s) = Some c \<Longrightarrow> \<exists>p. leads (procs s p) = Some c \<and> holds_marker (procs s p)"
    and "\<And>p c. procs s p = Waiting c \<Longrightarrow> \<not> is_closed s c \<Longrightarrow> \<exists>q. leads (procs s q) = Some c"
    and "\<And>c. is_closed s c \<Longrightarrow> c < next_ch s"
  shows "flight_inv s"
  unfolding flight_inv_def using assms by blast

lemma enter_cases:
  assumes "CachedList_enter now ch st = (b, st')"
  shows "b = Hit e \<Longrightarrow> entry st = Some e \<and> st' = st"
    and "b = Follow c \<Longrightarrow> inflight st = Some c \<and> st' = st"
    and "b = Lead c se \<Longrightarrow> inflight st = None \<and> c = ch \<and> se = epoch st \<and> st' = st\<lparr>inflight := Some ch\<rparr>"
  using assms by (auto simp: CachedList_enter_def follow_or_lead_def split: option.splits if_splits)

lemmas store_defs = CachedList_store_def CachedList_release_def invalidateCache_def

lemma flight_inv_init: "flight_inv (lc_init t)"
  by (simp add: flight_inv_def lc_init_def)

text \<open>A step that changes neither channels nor leadership keeps the invariant.\<close>

lemma flight_inv_quiet:
  assumes inv: "flight_inv s" and s': "s' = at_pc s1 p c"
    and s1: "inflight (store s1) = inflight (store s)" "next_ch s1 = next_ch s" "is_closed s1 = is_closed s"
      "procs s1 = procs s"
    and same: "leads c = leads (procs s p)" "holds_marker c = holds_marker (procs s p)"
    and wait: "\<And>x. c = Waiting x \<Longrightarrow> procs s p = c \<or> inflight (store s) = Some x"
  shows "flight_inv s'"
proof (rule flight_invI)
  have l: "leads (procs s' q) = leads (procs s q)" for q using s' s1 same by simp
  have h: "holds_marker (procs s' q) = holds_marker (procs s q)" for q using s' s1 same by simp
  have w: "procs s' q = Waiting x \<Longrightarrow> procs s q = Waiting x \<or> inflight (store s) = Some x" for q x
    using s' s1 wait by (cases "q = p") auto
  have st: "inflight (store s') = inflight (store s)" "next_ch s' = next_ch s" "is_closed s' = is_closed s"
    using s' s1 by simp_all
  note D = flight_invD [OF inv]
  show "leads (procs s' q) = Some c \<Longrightarrow> c < next_ch s' \<and> \<not> is_closed s' c" for q c
    using D(1,2) [of q c] by (simp add: l st)
  show "leads (procs s' q) = Some c \<Longrightarrow> holds_marker (procs s' q) \<Longrightarrow> inflight (store s') = Some c" for q c
    using D(3) by (simp add: l h st)
  show "leads (procs s' q) = Some c \<Longrightarrow> leads (procs s' q') = Some c \<Longrightarrow> q = q'" for q q' c
    using D(4) by (simp add: l)
  show "inflight (store s') = Some c \<Longrightarrow> \<exists>q. leads (procs s' q) = Some c \<and> holds_marker (procs s' q)" for c
    using D(5) by (simp add: l h st)
  show "procs s' q = Waiting c \<Longrightarrow> \<not> is_closed s' c \<Longrightarrow> \<exists>q. leads (procs s' q) = Some c" for q c
    using D(5) [of c] D(6) [of q c] w [of q c] by (auto simp: l st)
  show "is_closed s' c \<Longrightarrow> c < next_ch s'" for c
    using D(7) by (simp add: st)
qed

lemma flight_inv_lead:
  assumes inv: "flight_inv s" and p: "procs s p = Idle" and free: "inflight (store s) = None"
    and s': "s' = at_pc (s\<lparr>store := (store s)\<lparr>inflight := Some (next_ch s)\<rparr>, next_ch := Suc (next_ch s)\<rparr>) p
      (Fetching (next_ch s) se n)"
  shows "flight_inv s'"
proof (rule flight_invI)
  have l: "leads (procs s' q) = (if q = p then Some (next_ch s) else leads (procs s q))" for q
    by (simp add: s')
  note D = flight_invD [OF inv]
  show "leads (procs s' q) = Some c \<Longrightarrow> c < next_ch s' \<and> \<not> is_closed s' c" for q c
    using D(1,2) [of q c] D(7) [of "next_ch s"] by (auto simp: l s' split: if_splits)
  show "leads (procs s' q) = Some c \<Longrightarrow> holds_marker (procs s' q) \<Longrightarrow> inflight (store s') = Some c" for q c
    using D(3) [of q c] free by (auto simp: l s' split: if_splits)
  show "leads (procs s' q) = Some c \<Longrightarrow> leads (procs s' q') = Some c \<Longrightarrow> q = q'" for q q' c
    using D(1) [of q c] D(1) [of q' c] D(4) [of q c q'] by (auto simp: l split: if_splits)
  show "inflight (store s') = Some c \<Longrightarrow> \<exists>q. leads (procs s' q) = Some c \<and> holds_marker (procs s' q)" for c
    by (rule exI [of _ p]) (simp add: s')
  show "\<exists>q'. leads (procs s' q') = Some c" if "procs s' q = Waiting c" "\<not> is_closed s' c" for q c
  proof -
    have "procs s q = Waiting c" "\<not> is_closed s c" using that by (auto simp: s' split: if_splits)
    then obtain q' where "leads (procs s q') = Some c" using D(6) by blast
    then show ?thesis using p by (intro exI [of _ q']) (auto simp: l)
  qed
  show "is_closed s' c \<Longrightarrow> c < next_ch s'" for c
    using D(7) [of c] by (simp add: s')
qed

text \<open>The two halves of the deferred function: drop the marker, then close the channel.\<close>

lemma flight_inv_clear:
  assumes inv: "flight_inv s" and p: "procs s p = Clearing x out"
    and s': "s' = at_pc (s\<lparr>store := CachedList_release (store s)\<rparr>) p (Closing x out)"
  shows "flight_inv s'"
proof (rule flight_invI)
  have l: "leads (procs s' q) = leads (procs s q)" for q
    using p by (simp add: s')
  have st: "next_ch s' = next_ch s" "is_closed s' = is_closed s"
    by (simp_all add: s')
  note D = flight_invD [OF inv]
  show "leads (procs s' q) = Some c \<Longrightarrow> c < next_ch s' \<and> \<not> is_closed s' c" for q c
    using D(1,2) [of q c] by (simp add: l st)
  show "inflight (store s') = Some c"
    if "leads (procs s' q) = Some c" "holds_marker (procs s' q)" for q c
  proof -
    have "leads (procs s p) = Some x" "inflight (store s) = Some x"
      using D(3) [of p x] p by simp_all
    moreover have "inflight (store s) = Some c" "q \<noteq> p"
      using that D(3) [of q c] by (auto simp: l s' split: if_splits)
    ultimately show ?thesis
      using D(4) [of q x p] that by (simp add: l)
  qed
  show "leads (procs s' q) = Some c \<Longrightarrow> leads (procs s' q') = Some c \<Longrightarrow> q = q'" for q q' c
    using D(4) by (simp add: l)
  show "inflight (store s') = Some c \<Longrightarrow> \<exists>q. leads (procs s' q) = Some c \<and> holds_marker (procs s' q)" for c
    by (simp add: s' CachedList_release_def)
  show "procs s' q = Waiting c \<Longrightarrow> \<not> is_closed s' c \<Longrightarrow> \<exists>q. leads (procs s' q) = Some c" for q c
    using D(6) [of q c] p unfolding l by (auto simp: s' split: if_splits)
  show "is_closed s' c \<Longrightarrow> c < next_ch s'" for c
    using D(7) [of c] by (simp add: s')
qed

lemma flight_inv_close:
  assumes inv: "flight_inv s" and p: "procs s p = Closing x out"
    and s': "s' = at_pc (s\<lparr>is_closed := (is_closed s)(x := True)\<rparr>) p (Finished out)"
  shows "flight_inv s'"
proof (rule flight_invI)
  have l: "leads (procs s' q) = (if q = p then None else leads (procs s q))" for q
    by (simp add: s')
  note D = flight_invD [OF inv]
  have x: "leads (procs s p) = Some x" using p by simp
  have other: "leads (procs s q) = Some c \<Longrightarrow> q \<noteq> p \<Longrightarrow> c \<noteq> x" for q c
    using D(4) x by blast
  have holder: "inflight (store s) = Some c \<Longrightarrow> \<exists>q. q \<noteq> p \<and> leads (procs s q) = Some c \<and> holds_marker (procs s q)" for c
    using D(5) [of c] p by (metis holds_marker.simps(7))
  show "leads (procs s' q) = Some c \<Longrightarrow> c < next_ch s' \<and> \<not> is_closed s' c" for q c
    using D(1,2) [of q c] other [of q c] by (auto simp: l s' split: if_splits)
  show "leads (procs s' q) = Some c \<Longrightarrow> holds_marker (procs s' q) \<Longrightarrow> inflight (store s') = Some c" for q c
    using D(3) [of q c] by (auto simp: l s' split: if_splits)
  show "leads (procs s' q) = Some c \<Longrightarrow> leads (procs s' q') = Some c \<Longrightarrow> q = q'" for q q' c
    using D(4) [of q c q'] by (auto simp: l split: if_splits)
  show "\<exists>q'. leads (procs s' q') = Some c" if "procs s' q = Waiting c" "\<not> is_closed s' c" for q c
  proof -
    have "procs s q = Waiting c" "\<not> is_closed s c" "c \<noteq> x" using that by (auto simp: s' split: if_splits)
    then obtain q' where "leads (procs s q') = Some c" using D(6) by blast
    then show ?thesis using x \<open>c \<noteq> x\<close> by (intro exI [of _ q']) (auto simp: l)
  qed
  show "is_closed s' c \<Longrightarrow> c < next_ch s'" for c
    using D(7) [of c] D(1) [OF x] by (auto simp: s' split: if_splits)
  show "inflight (store s') = Some c \<Longrightarrow> \<exists>q. leads (procs s' q) = Some c \<and> holds_marker (procs s' q)" for c
    using holder [of c] by (auto simp: s')
qed

lemma flight_inv_step:
  assumes "lc_step p s s'" and inv: "flight_inv s"
  shows "flight_inv s'"
  using assms(1)
proof (cases rule: lc_step.cases)
  case (follow c st)
  then show ?thesis using enter_cases(2) by (intro flight_inv_quiet [OF inv follow(1)]) fastforce+
next
  case (lead c se st)
  then show ?thesis using enter_cases(3) [OF lead(3)] by (intro flight_inv_lead [OF inv]) auto
next
  case (clear c out) then show ?thesis by (intro flight_inv_clear [OF inv])
next
  case (close c out) then show ?thesis by (intro flight_inv_close [OF inv])
next
  case (tick d)
  then have "s' = at_pc (s\<lparr>clock := clock s + d\<rparr>) p (procs s p)" by simp
  then show ?thesis by (rule flight_inv_quiet [OF inv]) auto
qed (erule flight_inv_quiet [OF inv]; simp add: store_defs)+

lemma flight_inv_reachable: "lc_reachable t s \<Longrightarrow> flight_inv s"
  by (induction rule: lc_reachable.induct) (blast intro: flight_inv_init flight_inv_step)+

subsection \<open>Epochs keep stale snapshots out\<close>

definition epoch_inv :: "'r system \<Rightarrow> bool" where
  "epoch_inv s \<longleftrightarrow> acked s \<le> ver s \<and> epoch (store s) = of_nat (invals s) \<and>
     (\<forall>p v. procs s p = Mutated v \<longrightarrow> v \<le> ver s) \<and>
     (\<forall>p c se n. procs s p = Fetching c se n \<longrightarrow> se = of_nat n \<and> n \<le> invals s) \<and>
     (\<forall>p c se n r v. procs s p = Fetched c se n r v \<longrightarrow>
        se = of_nat n \<and> n \<le> invals s \<and> (n = invals s \<longrightarrow> acked s \<le> v)) \<and>
     (invals s < 2 ^ 64 \<longrightarrow> (\<forall>e. entry (store s) = Some e \<longrightarrow> acked s \<le> e_seen e))"

lemma epoch_inj: "m < 2 ^ 64 \<Longrightarrow> n < 2 ^ 64 \<Longrightarrow> (of_nat m :: 64 word) = of_nat n \<Longrightarrow> m = n"
  by (drule arg_cong [of _ _ unat]) (simp add: unat_of_nat)

lemma epoch_inv_init: "epoch_inv (lc_init t)"
  by (simp add: epoch_inv_def lc_init_def)

lemma epoch_invD:
  assumes "epoch_inv s"
  shows "acked s \<le> ver s" and "epoch (store s) = of_nat (invals s)"
    and "procs s p = Mutated v \<Longrightarrow> v \<le> ver s"
    and "procs s p = Fetching c se n \<Longrightarrow> se = of_nat n \<and> n \<le> invals s"
    and "procs s p = Fetched c se n r v \<Longrightarrow> se = of_nat n \<and> n \<le> invals s \<and> (n = invals s \<longrightarrow> acked s \<le> v)"
    and "invals s < 2 ^ 64 \<Longrightarrow> entry (store s) = Some e \<Longrightarrow> acked s \<le> e_seen e"
  using assms unfolding epoch_inv_def by blast+

lemma epoch_invI:
  assumes "acked s \<le> ver s" and "epoch (store s) = of_nat (invals s)"
    and "\<And>p v. procs s p = Mutated v \<Longrightarrow> v \<le> ver s"
    and "\<And>p c se n. procs s p = Fetching c se n \<Longrightarrow> se = of_nat n \<and> n \<le> invals s"
    and "\<And>p c se n r v. procs s p = Fetched c se n r v \<Longrightarrow>
      se = of_nat n \<and> n \<le> invals s \<and> (n = invals s \<longrightarrow> acked s \<le> v)"
    and "\<And>e. invals s < 2 ^ 64 \<Longrightarrow> entry (store s) = Some e \<Longrightarrow> acked s \<le> e_seen e"
  shows "epoch_inv s"
  unfolding epoch_inv_def using assms by blast

text \<open>The store: an unchanged epoch means no invalidation since the fetch began.\<close>

lemma epoch_inv_store:
  assumes inv: "epoch_inv s" and p: "procs s p = Fetched c se n r v"
    and s': "s' = at_pc (s\<lparr>store := CachedList_store now se r v (store s)\<rparr>) p (Clearing c out)"
  shows "epoch_inv s'"
proof (rule epoch_invI)
  note D = epoch_invD [OF inv]
  have fresh: "acked s \<le> v" if "epoch (store s) = se" "invals s < 2 ^ 64"
  proof -
    have "n = invals s"
      by (rule epoch_inj) (use D(2) D(5) [OF p] that in auto)
    then show ?thesis using D(5) [OF p] by simp
  qed
  show "acked s' \<le> e_seen e" if "invals s' < 2 ^ 64" "entry (store s') = Some e" for e
    using that fresh D(6) by (auto simp: s' CachedList_store_def split: if_splits)
  show "procs s' q = Fetching c' se' n' \<Longrightarrow> se' = of_nat n' \<and> n' \<le> invals s'" for q c' se' n'
    using D(4) [of q] by (auto simp: s' split: if_splits)
  show "procs s' q = Fetched c' se' n' r' v' \<Longrightarrow>
      se' = of_nat n' \<and> n' \<le> invals s' \<and> (n' = invals s' \<longrightarrow> acked s' \<le> v')" for q c' se' n' r' v'
    using D(5) [of q] by (auto simp: s' split: if_splits)
  show "procs s' q = Mutated v' \<Longrightarrow> v' \<le> ver s'" for q v'
    using D(3) [of q] by (auto simp: s' split: if_splits)
qed (use epoch_invD(1,2) [OF inv] in \<open>auto simp: s' CachedList_store_def\<close>)

lemma epoch_inv_invalidate:
  assumes inv: "epoch_inv s" and p: "procs s p = Mutated v"
    and s': "s' = at_pc (s\<lparr>store := invalidateCache (store s), acked := max (acked s) v,
      invals := Suc (invals s)\<rparr>) p (Finished out)"
  shows "epoch_inv s'"
proof (rule epoch_invI)
  note D = epoch_invD [OF inv]
  show "procs s' q = Fetching c se n \<Longrightarrow> se = of_nat n \<and> n \<le> invals s'" for q c se n
    using D(4) [of q c se n] by (auto simp: s' split: if_splits)
  show "procs s' q = Fetched c se n r v' \<Longrightarrow>
      se = of_nat n \<and> n \<le> invals s' \<and> (n = invals s' \<longrightarrow> acked s' \<le> v')" for q c se n r v'
    using D(5) [of q c se n r v'] by (auto simp: s' split: if_splits)
  show "procs s' q = Mutated v' \<Longrightarrow> v' \<le> ver s'" for q v'
    using D(3) [of q v'] by (auto simp: s' split: if_splits)
  show "acked s' \<le> ver s'" using D(1) D(3) [OF p] by (simp add: s')
  show "epoch (store s') = of_nat (invals s')" using D(2) by (simp add: s' invalidateCache_def)
qed (simp add: s' invalidateCache_def)

lemma epoch_inv_quiet:
  assumes inv: "epoch_inv s" and s': "s' = at_pc s1 p c"
    and s1: "entry (store s1) = entry (store s)" "epoch (store s1) = epoch (store s)" "procs s1 = procs s"
      "acked s1 = acked s" "invals s1 = invals s" "ver s \<le> ver s1"
    and m: "\<And>v. c = Mutated v \<Longrightarrow> procs s p = c \<or> v \<le> ver s1"
    and f: "\<And>x se n. c = Fetching x se n \<Longrightarrow> procs s p = c \<or> se = of_nat n \<and> n = invals s"
    and g: "\<And>x se n r v. c = Fetched x se n r v \<Longrightarrow> procs s p = c \<or> procs s p = Fetching x se n \<and> v = ver s"
  shows "epoch_inv s'"
proof (rule epoch_invI)
  note D = epoch_invD [OF inv]
  show "procs s' q = Mutated v \<Longrightarrow> v \<le> ver s'" for q v
    using D(3) [of q v] m [of v] s1 by (auto simp: s' split: if_splits)
  show "procs s' q = Fetching x se n \<Longrightarrow> se = of_nat n \<and> n \<le> invals s'" for q x se n
    using D(4) [of q x se n] f [of x se n] s1 by (auto simp: s' split: if_splits)
  show "procs s' q = Fetched x se n r v \<Longrightarrow>
      se = of_nat n \<and> n \<le> invals s' \<and> (n = invals s' \<longrightarrow> acked s' \<le> v)" for q x se n r v
    using D(1) D(5) [of q x se n r v] D(4) [of p x se n] g [of x se n r v] s1 by (auto simp: s' split: if_splits)
qed (use epoch_invD [OF inv] s1 in \<open>auto simp: s'\<close>)

lemma epoch_inv_step:
  assumes "lc_step p s s'" and inv: "epoch_inv s"
  shows "epoch_inv s'"
  using assms(1)
proof (cases rule: lc_step.cases)
  case (lead c se st)
  then show ?thesis
    using enter_cases(3) [OF lead(3)] epoch_invD(2) [OF inv] by (intro epoch_inv_quiet [OF inv lead(1)]) auto
next
  case (store c se n r v) then show ?thesis by (intro epoch_inv_store [OF inv])
next
  case (invalidate v) then show ?thesis by (intro epoch_inv_invalidate [OF inv])
next
  case (tick d)
  then have "s' = at_pc (s\<lparr>clock := clock s + d\<rparr>) p (procs s p)" by simp
  then show ?thesis by (rule epoch_inv_quiet [OF inv]) auto
qed (erule epoch_inv_quiet [OF inv]; simp add: store_defs)+

lemma epoch_inv_reachable: "lc_reachable t s \<Longrightarrow> epoch_inv s"
  by (induction rule: lc_reachable.induct) (blast intro: epoch_inv_init epoch_inv_step)+

subsection \<open>The leader's way out\<close>

definition will_close :: "nat \<Rightarrow> nat \<Rightarrow> nat \<Rightarrow> 'r system \<Rightarrow> bool" where
  "will_close q p c s \<longleftrightarrow> (\<exists>s'. (lc_step q)\<^sup>*\<^sup>* s s' \<and> is_closed s' c \<and> procs s' p = procs s p)"

lemma will_close_now: "is_closed s c \<Longrightarrow> will_close q p c s"
  by (auto simp: will_close_def)

lemma will_close_step:
  "lc_step q s s1 \<Longrightarrow> procs s1 p = procs s p \<Longrightarrow> will_close q p c s1 \<Longrightarrow> will_close q p c s"
  unfolding will_close_def by (metis converse_rtranclp_into_rtranclp)

lemma close_path: "procs s q = Closing c out \<Longrightarrow> q \<noteq> p \<Longrightarrow> will_close q p c s"
  by (rule will_close_step [OF lc_step.close]) (auto intro: will_close_now)

lemma clear_path: "procs s q = Clearing c out \<Longrightarrow> q \<noteq> p \<Longrightarrow> will_close q p c s"
  by (rule will_close_step [OF lc_step.clear]) (auto intro: close_path)

lemma store_path: "procs s q = Fetched c se n r v \<Longrightarrow> q \<noteq> p \<Longrightarrow> will_close q p c s"
  by (rule will_close_step [OF lc_step.store]) (auto intro: clear_path)

lemma fetch_path: "procs s q = Fetching c se n \<Longrightarrow> q \<noteq> p \<Longrightarrow> will_close q p c s"
  by (rule will_close_step [OF lc_step.fetch]) (auto intro: store_path)

lemma leader_closes: "leads (procs s q) = Some c \<Longrightarrow> q \<noteq> p \<Longrightarrow> will_close q p c s"
  by (cases "procs s q") (auto intro: close_path clear_path store_path fetch_path)

text \<open>A run in which goroutine 0 leads and goroutine 1 waits for it, for the witnesses.\<close>

definition example_wait :: "nat system" where
  "example_wait = at_pc (at_pc ((lc_init 30)\<lparr>store := (store (lc_init 30))\<lparr>inflight := Some 0\<rparr>, next_ch := 1\<rparr>) 0
     (Fetching 0 0 0)) 1 (Waiting 0)"

definition example_hit :: "nat system" where
  "example_hit = at_pc (at_pc (example_wait\<lparr>store := CachedList_store 0 0 7 0 (store example_wait)\<rparr>) 0
     (Clearing 0 (Returned 7))) 1 (Waiting 0)"

lemma example_wait_reachable: "lc_reachable 30 example_wait"
proof -
  let ?s1 = "at_pc ((lc_init 30 :: nat system)\<lparr>store := (store (lc_init 30))\<lparr>inflight := Some 0\<rparr>, next_ch := 1\<rparr>) 0 (Fetching 0 0 0)"
  have "lc_step 0 (lc_init 30) ?s1"
    using lc_step.lead [of "lc_init 30 :: nat system" 0 0 0 "(store (lc_init 30))\<lparr>inflight := Some 0\<rparr>"]
    by (simp add: lc_init_def CachedList_enter_def follow_or_lead_def)
  then have "lc_reachable 30 ?s1"
    by (rule lc_reachable.step [OF lc_reachable.init])
  moreover have "lc_step 1 ?s1 example_wait"
    using lc_step.follow [of ?s1 1 0 "store ?s1"]
    by (simp add: lc_init_def CachedList_enter_def follow_or_lead_def example_wait_def)
  ultimately show ?thesis by (rule lc_reachable.step)
qed

lemma example_hit_reachable: "lc_reachable 30 example_hit"
proof -
  let ?s1 = "at_pc example_wait 0 (Fetched 0 0 0 7 0)"
  have w: "procs example_wait 0 = Fetching 0 0 0" "ver example_wait = 0" "clock example_wait = 0"
    "procs example_wait 1 = Waiting 0"
    by (simp_all add: example_wait_def lc_init_def)
  have "lc_step 0 example_wait ?s1"
    using lc_step.fetch [OF w(1), of 7] w by simp
  then have "lc_reachable 30 ?s1"
    by (rule lc_reachable.step [OF example_wait_reachable])
  moreover have "lc_step 0 ?s1 (at_pc (?s1\<lparr>store := CachedList_store 0 0 7 0 (store ?s1)\<rparr>) 0 (Clearing 0 (Returned 7)))"
    using lc_step.store [of ?s1 0 0 0 0 7 0] w by simp
  moreover have "at_pc (?s1\<lparr>store := CachedList_store 0 0 7 0 (store ?s1)\<rparr>) 0 (Clearing 0 (Returned 7)) = example_hit"
    using w by (auto simp: example_hit_def fun_eq_iff intro!: arg_cong [where f = "\<lambda>f. system.procs_update (\<lambda>_. f) _"])
  ultimately show ?thesis by (metis lc_reachable.step)
qed

subsection \<open>Properties\<close>

text \<open>
  C5.  A cached read never hides the operator's own writes: in every interleaving, and as long as
  the 64-bit epoch has not wrapped, the entry a read takes from the cache, on a hit or after waiting
  for another caller's fetch, shows every change of the server whose invalidation has run.  A
  snapshot fetched before a mutation and stored after its invalidation would break this.
\<close>

theorem cached_read_sees_own_writes:
  assumes "lc_reachable t s" and "invals s < 2 ^ 64"
    and "CachedList_enter (clock s) (next_ch s) (store s) = (Hit e, st) \<or> procs s p = Woken \<and> entry (store s) = Some e"
  shows "acked s \<le> e_seen e"
  using assms enter_cases(1) epoch_invD(6) [OF epoch_inv_reachable] by metis

theorem cached_read_sees_own_writes_witness:
  "acked example_hit \<le> e_seen \<lparr>e_value = 7 :: nat, e_fetched = 0, e_seen = 0\<rparr>"
  by (rule cached_read_sees_own_writes [OF example_hit_reachable, where p = 0 and st = "store example_hit"])
    (simp_all add: example_hit_def example_wait_def lc_init_def CachedList_enter_def CachedList_store_def)

text \<open>
  At most one fetch per endpoint is in flight for the cache, and nobody waits for ever: the
  goroutine between setting and clearing the in-flight marker is unique, and for every waiter there
  is a goroutine that, running alone, closes the channel the waiter blocks on, whether its fetch
  returns or panics and whatever else invalidates the cache meanwhile.
\<close>

theorem single_flight_no_stranded_waiter:
  assumes "lc_reachable t s"
  shows "(holds_marker (procs s q) \<and> holds_marker (procs s q') \<longrightarrow> q = q') \<and>
    (procs s p = Waiting c \<longrightarrow>
      (\<exists>q s'. (lc_step q)\<^sup>*\<^sup>* s s' \<and> is_closed s' c \<and> procs s' p = Waiting c))"
proof
  note D = flight_invD [OF flight_inv_reachable [OF assms]]
  have "holds_marker x \<Longrightarrow> \<exists>c. leads x = Some c" for x :: "'a pc" by (cases x) auto
  then show "holds_marker (procs s q) \<and> holds_marker (procs s q') \<longrightarrow> q = q'"
    using D(3,4) by (metis option.inject)
  show "procs s p = Waiting c \<longrightarrow> (\<exists>q s'. (lc_step q)\<^sup>*\<^sup>* s s' \<and> is_closed s' c \<and> procs s' p = Waiting c)"
  proof
    assume w: "procs s p = Waiting c"
    then consider "is_closed s c" | q where "leads (procs s q) = Some c" "q \<noteq> p"
      using D(6) [of p c] by fastforce
    then show "\<exists>q s'. (lc_step q)\<^sup>*\<^sup>* s s' \<and> is_closed s' c \<and> procs s' p = Waiting c"
      using leader_closes [of s _ c p] will_close_now [of s c] w unfolding will_close_def by cases metis+
  qed
qed

theorem single_flight_no_stranded_waiter_witness:
  "\<exists>q s'. (lc_step q)\<^sup>*\<^sup>* example_wait s' \<and> is_closed s' 0 \<and> procs s' 1 = Waiting 0"
  using single_flight_no_stranded_waiter [OF example_wait_reachable, of 0 0 1 0]
  by (simp add: example_wait_def lc_init_def)

end
