(* ===== verification/Substitution.thy ===== *)
theory Substitution
  imports Json_Value
begin

text \<open>
  Package \<^verbatim>\<open>internal/substitution\<close>: replacement of \<^verbatim>\<open>{{NAME}}\<close> placeholders in the string leaves
  of a JSON body.

  The Go code writes the replaced values back into the caller's maps and slices and accumulates two
  sets, the names resolved and the names missing.  The model returns the new value together with
  the two accumulations as lists, in walking order; \<^verbatim>\<open>toSortedSlice\<close> sorts them and removes
  duplicates.  \<open>match_placeholder\<close> is the constant regular expression \<^verbatim>\<open>placeholderRe\<close> tried at one
  position; the scan from left to right without overlap is \<^verbatim>\<open>ReplaceAllStringFunc\<close>.
\<close>

subsection \<open>The walk\<close>

definition name_start :: "char \<Rightarrow> bool" where
  "name_start c \<longleftrightarrow> is_upper c \<or> c = CHR ''_''"

definition name_char :: "char \<Rightarrow> bool" where
  "name_char c \<longleftrightarrow> is_upper c \<or> is_digit c \<or> c = CHR ''_''"

definition match_placeholder :: "string \<Rightarrow> (string \<times> string) option" where
  "match_placeholder s =
     (if take 2 s = ''{{'' then
        (let name = takeWhile name_char (drop 2 s); rest = dropWhile name_char (drop 2 s)
         in if name \<noteq> [] \<and> name_start (hd name) \<and> take 2 rest = ''}}''
            then Some (name, drop 2 rest) else None)
      else None)"

lemma match_placeholder_shorter [simp]:
  assumes "match_placeholder s = Some (name, rest)"
  shows "length rest < length s"
proof -
  let ?d = "dropWhile name_char (drop 2 s)"
  from assms have r: "rest = drop 2 ?d" and s: "take 2 s = ''{{''"
    by (auto simp: match_placeholder_def Let_def split: if_splits)
  have "length ?d \<le> length (drop 2 s)" by (rule length_dropWhile_le)
  moreover have "s \<noteq> []" using s by auto
  ultimately show ?thesis using r s by (cases s) auto
qed

function substituteString :: "string gomap \<Rightarrow> string \<Rightarrow> string \<times> string list \<times> string list" where
  "substituteString secrets s =
     (case match_placeholder s of
        Some (name, rest) \<Rightarrow>
          (let (out, refSet, missSet) = substituteString secrets rest
           in case map_of secrets name of
                Some val \<Rightarrow> (val @ out, name # refSet, missSet)
              | None \<Rightarrow> (''{{'' @ name @ ''}}'' @ out, refSet, name # missSet))
      | None \<Rightarrow>
          (case s of [] \<Rightarrow> ([], [], [])
           | c # r \<Rightarrow> (let (out, refSet, missSet) = substituteString secrets r
                       in (c # out, refSet, missSet))))"
  by pat_completeness auto
termination
  by (relation "measure (\<lambda>(_, s). length s)") auto

declare substituteString.simps [simp del]

fun walk :: "string gomap \<Rightarrow> json \<Rightarrow> json \<times> string list \<times> string list"
  and walk_elems :: "string gomap \<Rightarrow> json list \<Rightarrow> json list \<times> string list \<times> string list"
  and walkMap :: "string gomap \<Rightarrow> json gomap \<Rightarrow> json gomap \<times> string list \<times> string list" where
  "walk secrets (JObj m) = (let (m', r, ms) = walkMap secrets m in (JObj m', r, ms))"
| "walk secrets (JArr vs) = (let (vs', r, ms) = walk_elems secrets vs in (JArr vs', r, ms))"
| "walk secrets (JStr s) = (let (s', r, ms) = substituteString secrets s in (JStr s', r, ms))"
| "walk secrets v = (v, [], [])"
| "walk_elems secrets [] = ([], [], [])"
| "walk_elems secrets (v # vs) =
     (let (v', r, ms) = walk secrets v; (vs', r', ms') = walk_elems secrets vs
      in (v' # vs', r @ r', ms @ ms'))"
| "walkMap secrets [] = ([], [], [])"
| "walkMap secrets ((k, v) # m) =
     (let (v', r, ms) = walk secrets v; (m', r', ms') = walkMap secrets m
      in ((k, v') # m', r @ r', ms @ ms'))"

definition toSortedSlice :: "string list \<Rightarrow> string list" where
  "toSortedSlice s = sorted_set s"

definition Substitute :: "json gomap \<Rightarrow> string gomap \<Rightarrow> json gomap \<times> string list \<times> string list" where
  "Substitute body secrets =
     (let (body', refSet, missSet) = walkMap secrets body
      in (body', toSortedSlice refSet, toSortedSlice missSet))"

subsection \<open>A reference reading: literal characters and placeholders\<close>

text \<open>
  The specification splits a string once into characters and placeholder names, without looking at
  the secrets, and replaces the pieces independently.
\<close>

datatype piece = Lit char | Hole string

function pieces :: "string \<Rightarrow> piece list" where
  "pieces s =
     (case match_placeholder s of
        Some (name, rest) \<Rightarrow> Hole name # pieces rest
      | None \<Rightarrow> (case s of [] \<Rightarrow> [] | c # r \<Rightarrow> Lit c # pieces r))"
  by pat_completeness auto
termination
  by (relation "measure length") auto

declare pieces.simps [simp del]

fun holes :: "piece list \<Rightarrow> string list" where
  "holes [] = []"
| "holes (Lit c # ps) = holes ps"
| "holes (Hole n # ps) = n # holes ps"

fun fill :: "(string \<Rightarrow> string option) \<Rightarrow> piece \<Rightarrow> string" where
  "fill f (Lit c) = [c]"
| "fill f (Hole n) = (case f n of Some v \<Rightarrow> v | None \<Rightarrow> ''{{'' @ n @ ''}}'')"

fun json_holes :: "json \<Rightarrow> string list" and list_holes :: "json list \<Rightarrow> string list"
  and field_holes :: "json gomap \<Rightarrow> string list" where
  "json_holes (JObj m) = field_holes m"
| "json_holes (JArr vs) = list_holes vs"
| "json_holes (JStr s) = holes (pieces s)"
| "json_holes _ = []"
| "list_holes [] = []"
| "list_holes (v # vs) = json_holes v @ list_holes vs"
| "field_holes [] = []"
| "field_holes ((k, v) # m) = json_holes v @ field_holes m"

lemma match_placeholder_text:
  "match_placeholder s = Some (name, rest) \<Longrightarrow> s = ''{{'' @ name @ ''}}'' @ rest"
proof -
  assume a: "match_placeholder s = Some (name, rest)"
  let ?d = "drop 2 s"
  from a have s: "take 2 s = ''{{''" and n: "name = takeWhile name_char ?d"
    and t: "take 2 (dropWhile name_char ?d) = ''}}''" and r: "rest = drop 2 (dropWhile name_char ?d)"
    by (auto simp: match_placeholder_def Let_def split: if_splits)
  have "s = take 2 s @ takeWhile name_char ?d @ take 2 (dropWhile name_char ?d) @ drop 2 (dropWhile name_char ?d)"
    by (metis append_take_drop_id takeWhile_dropWhile_id)
  then show ?thesis using s n t r by simp
qed

lemma match_placeholder_Nil [simp]: "match_placeholder [] = None"
  by (simp add: match_placeholder_def)

lemma pieces_unfold [simp]:
  "pieces [] = []"
  "match_placeholder (c # r) = None \<Longrightarrow> pieces (c # r) = Lit c # pieces r"
  "match_placeholder s = Some (name, rest) \<Longrightarrow> pieces s = Hole name # pieces rest"
  by (subst pieces.simps; simp)+

lemma substituteString_unfold [simp]:
  "substituteString secrets [] = ([], [], [])"
  "match_placeholder (c # r) = None \<Longrightarrow> substituteString secrets (c # r) =
     (let (out, refSet, missSet) = substituteString secrets r in (c # out, refSet, missSet))"
  by (subst substituteString.simps; simp)+

lemma pieces_print: "concat (map (fill (\<lambda>_. None)) (pieces s)) = s"
proof (induction s rule: pieces.induct)
  case (1 s)
  show ?case
  proof (cases "match_placeholder s")
    case None
    with 1 show ?thesis by (cases s) auto
  next
    case (Some p)
    then obtain name rest where p: "match_placeholder s = Some (name, rest)"
      by (cases p) auto
    with 1 have "concat (map (fill (\<lambda>_. None)) (pieces rest)) = rest" by simp
    with p show ?thesis
      using match_placeholder_text [OF p] by simp
  qed
qed

lemma substituteString_pieces:
  "substituteString secrets s =
     (concat (map (fill (map_of secrets)) (pieces s)),
      filter (\<lambda>n. map_of secrets n \<noteq> None) (holes (pieces s)),
      filter (\<lambda>n. map_of secrets n = None) (holes (pieces s)))"
proof (induction secrets s rule: substituteString.induct)
  case (1 secrets s)
  show ?case
  proof (cases "match_placeholder s")
    case None
    with 1 show ?thesis by (cases s) auto
  next
    case (Some p)
    then obtain name rest where p: "match_placeholder s = Some (name, rest)"
      by (cases p) auto
    with 1 show ?thesis
      by (auto simp: substituteString.simps [of _ s] split: option.splits)
  qed
qed

lemma walk_names:
  "fst (snd (walk secrets v)) = filter (\<lambda>n. map_of secrets n \<noteq> None) (json_holes v)
   \<and> snd (snd (walk secrets v)) = filter (\<lambda>n. map_of secrets n = None) (json_holes v)"
  "fst (snd (walk_elems secrets vs)) = filter (\<lambda>n. map_of secrets n \<noteq> None) (list_holes vs)
   \<and> snd (snd (walk_elems secrets vs)) = filter (\<lambda>n. map_of secrets n = None) (list_holes vs)"
  "fst (snd (walkMap secrets m)) = filter (\<lambda>n. map_of secrets n \<noteq> None) (field_holes m)
   \<and> snd (snd (walkMap secrets m)) = filter (\<lambda>n. map_of secrets n = None) (field_holes m)"
  by (induction secrets v and secrets vs and secrets m rule: walk_walk_elems_walkMap.induct)
    (auto simp: substituteString_pieces split: prod.splits)

lemma walk_no_holes:
  "json_holes v = [] \<Longrightarrow> fst (walk secrets v) = v"
  "list_holes vs = [] \<Longrightarrow> fst (walk_elems secrets vs) = vs"
  "field_holes m = [] \<Longrightarrow> fst (walkMap secrets m) = m"
proof (induction secrets v and secrets vs and secrets m rule: walk_walk_elems_walkMap.induct)
  case (3 secrets s)
  have "holes ps = [] \<Longrightarrow> concat (map (fill f) ps) = concat (map (fill (\<lambda>_. None)) ps)" for f ps
    by (induction ps rule: holes.induct) auto
  with 3 show ?case
    by (simp add: substituteString_pieces pieces_print)
qed (auto split: prod.splits)

lemma walkMap_keys: "keys (fst (walkMap secrets m)) = keys m"
  by (induction m) (auto split: prod.splits)

lemma walkMap_map_of: "map_of (fst (walkMap secrets m)) k = map_option (fst \<circ> walk secrets) (map_of m k)"
  by (induction m) (auto split: prod.splits)

lemma field_holes_set: "set (field_holes m) = (\<Union>(k, v) \<in> set m. set (json_holes v))"
  by (induction m) auto

lemma set_of_map_of: "map_inv m \<Longrightarrow> map_inv m' \<Longrightarrow> map_of m = map_of m' \<Longrightarrow> set m = set m'"
  by (simp add: map_inv_def map_of_inject_set)

subsection \<open>Properties\<close>

text \<open>
  Every string leaf is rewritten in one left-to-right pass: it is cut into characters and
  placeholders independently of the secrets, each placeholder with a secret is replaced by that
  secret's value and nothing inside the value is looked at again, each placeholder without one is
  printed back unchanged.
\<close>

theorem substituteString_single_pass:
  "fst (substituteString secrets s) = concat (map (fill (map_of secrets)) (pieces s))
   \<and> concat (map (fill (\<lambda>_. None)) (pieces s)) = s"
  by (simp add: substituteString_pieces pieces_print)

text \<open>
  \<^verbatim>\<open>Substitute\<close> reports exactly the placeholder names of the body, split by whether a secret
  exists for them, sorted and without duplicates; it keeps the keys of the body, and a body without
  placeholders comes back unchanged.
\<close>

theorem Substitute_reports:
  "case Substitute body secrets of (body', refs, missing) \<Rightarrow>
     set refs = {n \<in> set (field_holes body). map_of secrets n \<noteq> None}
   \<and> set missing = {n \<in> set (field_holes body). map_of secrets n = None}
   \<and> sorted refs \<and> distinct refs \<and> sorted missing \<and> distinct missing
   \<and> keys body' = keys body \<and> (field_holes body = [] \<longrightarrow> body' = body)"
  using walk_names(3) [of secrets body] walk_no_holes(3) [of body secrets] walkMap_keys [of secrets body]
  by (auto simp: Substitute_def toSortedSlice_def split: prod.splits)

theorem Substitute_reports_witness:
  "Substitute [(''api_key'', JStr ''Bearer {{KEY}} {{ X}}''), (''n'', JNum ''1''), (''u'', JStr ''{{MISS}}'')]
     [(''KEY'', ''{{MISS}}'')]
   = ([(''api_key'', JStr ''Bearer {{MISS}} {{ X}}''), (''n'', JNum ''1''), (''u'', JStr ''{{MISS}}'')],
      [''KEY''], [''MISS''])
   \<and> (case Substitute [(''n'', JNum ''1'')] [] of (body', refs, missing) \<Rightarrow> body' = [(''n'', JNum ''1'')])"
proof -
  have h: "field_holes [(''n'', JNum ''1'')] = []" by simp
  have "case Substitute [(''n'', JNum ''1'')] [] of (body', refs, missing) \<Rightarrow> body' = [(''n'', JNum ''1'')]"
    using Substitute_reports [of "[(''n'', JNum ''1'')]" "[]"] h by (auto split: prod.splits)
  moreover have "Substitute [(''api_key'', JStr ''Bearer {{KEY}} {{ X}}''), (''n'', JNum ''1''), (''u'', JStr ''{{MISS}}'')]
     [(''KEY'', ''{{MISS}}'')]
   = ([(''api_key'', JStr ''Bearer {{MISS}} {{ X}}''), (''n'', JNum ''1''), (''u'', JStr ''{{MISS}}'')],
      [''KEY''], [''MISS''])"
    by code_simp
  ultimately show ?thesis by blast
qed

text \<open>
  Go walks a map in an unspecified order; the result does not depend on it: for two listings of
  the same map the substituted maps agree key by key and the two reports are equal.
\<close>

theorem Substitute_order_independent:
  assumes "map_inv body" and "map_inv body'" and "map_of body = map_of body'"
  shows "map_of (fst (Substitute body secrets)) = map_of (fst (Substitute body' secrets))
   \<and> snd (Substitute body secrets) = snd (Substitute body' secrets)"
proof -
  have "set (field_holes body) = set (field_holes body')"
    using set_of_map_of [OF assms] by (simp add: field_holes_set)
  then have "sorted_set (filter P (field_holes body)) = sorted_set (filter P (field_holes body'))" for P
    by (intro sorted_set_cong) auto
  moreover have "map_of (fst (walkMap secrets body)) = map_of (fst (walkMap secrets body'))"
    using assms(3) by (simp add: fun_eq_iff walkMap_map_of)
  ultimately show ?thesis
    using walk_names(3) [of secrets body] walk_names(3) [of secrets body']
    by (auto simp: Substitute_def toSortedSlice_def split: prod.splits)
qed

theorem Substitute_order_independent_witness:
  "snd (Substitute [(''a'', JStr ''{{K}}''), (''b'', JStr ''{{J}}'')] [(''K'', ''v'')])
   = snd (Substitute [(''b'', JStr ''{{J}}''), (''a'', JStr ''{{K}}'')] [(''K'', ''v'')])"
  using Substitute_order_independent
    [of "[(''a'', JStr ''{{K}}''), (''b'', JStr ''{{J}}'')]"
        "[(''b'', JStr ''{{J}}''), (''a'', JStr ''{{K}}'')]" "[(''K'', ''v'')]"]
  by (auto simp: map_inv_def fun_eq_iff)

lemma Substitute_empty: "Substitute [] [] = ([], [], [])"
  by code_simp

end
