(* ===== verification/Params.thy ===== *)
theory Params
  imports Litellm_Client Substitution
begin

text \<open>
  Typed reads from a free-form parameter map: \<^verbatim>\<open>internal/controller/params_mcp.go\<close> and the tag readers
  of the agent and access-group controllers.  A parameter map is a decoded JSON object, \<open>None\<close> the nil
  map.  Go's nil slice and empty slice are both the empty list: the readers return nil for either, and
  their callers only take lengths and elements.
\<close>

subsection \<open>Raw fields\<close>

datatype raw_json = RawEmpty | RawInvalid string | RawValue json

text \<open>\<^verbatim>\<open>json.Unmarshal\<close> of a raw field into a fresh map; the empty field leaves the empty map.\<close>

fun decode_bag :: "raw_json \<Rightarrow> string + json gomap option" where
  "decode_bag RawEmpty = Inr (Some [])"
| "decode_bag (RawInvalid e) = Inl e"
| "decode_bag (RawValue JNull) = Inr None"
| "decode_bag (RawValue (JObj m)) = Inr (Some m)"
| "decode_bag (RawValue _) = Inl ''json: cannot unmarshal into Go value of type map[string]interface {}''"

definition bag :: "json gomap option \<Rightarrow> json gomap" where
  "bag m = (case m of None \<Rightarrow> [] | Some x \<Rightarrow> x)"

text \<open>\<^verbatim>\<open>Substitute\<close> on a map that may be nil: a nil map has nothing to walk.\<close>

definition substitute_bag :: "json gomap option \<Rightarrow> string gomap \<Rightarrow> json gomap option \<times> string list \<times> string list" where
  "substitute_bag m secrets =
     (case m of None \<Rightarrow> (None, [], [])
      | Some body \<Rightarrow> (let (body, r, miss) = Substitute body secrets in (Some body, r, miss)))"

subsection \<open>Single keys\<close>

definition param :: "json gomap option \<Rightarrow> string \<Rightarrow> json option" where
  "param p key = (case p of None \<Rightarrow> None | Some m \<Rightarrow> map_of m key)"

definition string_param :: "json gomap option \<Rightarrow> string \<Rightarrow> string" where
  "string_param p key = (case param p key of Some (JStr t) \<Rightarrow> t | _ \<Rightarrow> '''')"

definition map_param :: "json gomap option \<Rightarrow> string \<Rightarrow> json gomap option" where
  "map_param p key = (case param p key of Some (JObj m) \<Rightarrow> Some m | _ \<Rightarrow> None)"

definition boolPtrFromParams :: "json gomap option \<Rightarrow> string \<Rightarrow> bool option" where
  "boolPtrFromParams p key = (case param p key of Some (JBool b) \<Rightarrow> Some b | _ \<Rightarrow> None)"

fun keep_strings :: "json list \<Rightarrow> string list" where
  "keep_strings [] = []"
| "keep_strings (JStr t # vs) = t # keep_strings vs"
| "keep_strings (_ # vs) = keep_strings vs"

definition stringSliceFromParams :: "json gomap option \<Rightarrow> string \<Rightarrow> string list" where
  "stringSliceFromParams p key = (case param p key of Some (JArr vs) \<Rightarrow> keep_strings vs | _ \<Rightarrow> [])"

subsection \<open>MCP server parameters\<close>

record extractedMCPParams =
  xp_Description :: string
  xp_AuthType :: string
  xp_Credentials :: "json gomap option"
  xp_MCPAccessGroups :: "string list"
  xp_AllowedTools :: "string list"
  xp_ToolNameToDisplayName :: "json gomap option"
  xp_ToolNameToDescription :: "json gomap option"
  xp_ExtraHeaders :: "json option"
  xp_StaticHeaders :: "json gomap option"
  xp_MCPInfo :: "json gomap option"
  xp_Command :: string
  xp_Args :: "string list"
  xp_Env :: "json gomap option"
  xp_AuthorizationURL :: string
  xp_TokenURL :: string
  xp_RegistrationURL :: string
  xp_OAuth2Flow :: string
  xp_AllowAllKeys :: "bool option"
  xp_AvailableOnPublicInternet :: "bool option"
  xp_OAuthPassthrough :: "bool option"

definition reservedMCPParamKeys :: "string list" where
  "reservedMCPParamKeys = [''server_id'', ''server_name'', ''alias'', ''url'', ''transport'', ''spec_path'']"

definition first_nonempty :: "'a list \<Rightarrow> 'a list \<Rightarrow> 'a list" where
  "first_nonempty a b = (if length a = 0 then b else a)"

definition extractMCPParams :: "json gomap option \<Rightarrow> extractedMCPParams" where
  "extractMCPParams p = \<lparr>
     xp_Description = string_param p ''description'',
     xp_AuthType = string_param p ''auth_type'',
     xp_Credentials = map_param p ''credentials'',
     xp_MCPAccessGroups =
       first_nonempty (stringSliceFromParams p ''mcp_access_groups'') (stringSliceFromParams p ''access_groups''),
     xp_AllowedTools = stringSliceFromParams p ''allowed_tools'',
     xp_ToolNameToDisplayName = map_param p ''tool_name_to_display_name'',
     xp_ToolNameToDescription = map_param p ''tool_name_to_description'',
     xp_ExtraHeaders = param p ''extra_headers'',
     xp_StaticHeaders = map_param p ''static_headers'',
     xp_MCPInfo = map_param p ''mcp_info'',
     xp_Command = string_param p ''command'',
     xp_Args = stringSliceFromParams p ''args'',
     xp_Env = map_param p ''env'',
     xp_AuthorizationURL = string_param p ''authorization_url'',
     xp_TokenURL = string_param p ''token_url'',
     xp_RegistrationURL = string_param p ''registration_url'',
     xp_OAuth2Flow = string_param p ''oauth2_flow'',
     xp_AllowAllKeys = boolPtrFromParams p ''allow_all_keys'',
     xp_AvailableOnPublicInternet = boolPtrFromParams p ''available_on_public_internet'',
     xp_OAuthPassthrough = boolPtrFromParams p ''oauth_passthrough''\<rparr>"

definition agentAccessGroupsFromParams :: "json gomap option \<Rightarrow> string list" where
  "agentAccessGroupsFromParams p =
     (let tags = stringSliceFromParams p ''agent_access_groups''
      in if length tags > 0 then tags else stringSliceFromParams p ''access_groups'')"

text \<open>Extraction never reads a reserved key: dropping them beforehand changes nothing.\<close>

lemma param_drop_other: "key \<notin> set ks \<Longrightarrow> param (Some (filter (\<lambda>(k, v). k \<notin> set ks) m)) key = param (Some m) key"
  by (induction m) (auto simp: param_def)

lemma not_reserved:
  "''access_groups'' \<notin> set reservedMCPParamKeys"
  "''allow_all_keys'' \<notin> set reservedMCPParamKeys"
  "''allowed_tools'' \<notin> set reservedMCPParamKeys"
  "''args'' \<notin> set reservedMCPParamKeys"
  "''auth_type'' \<notin> set reservedMCPParamKeys"
  "''authorization_url'' \<notin> set reservedMCPParamKeys"
  "''available_on_public_internet'' \<notin> set reservedMCPParamKeys"
  "''command'' \<notin> set reservedMCPParamKeys"
  "''credentials'' \<notin> set reservedMCPParamKeys"
  "''description'' \<notin> set reservedMCPParamKeys"
  "''env'' \<notin> set reservedMCPParamKeys"
  "''extra_headers'' \<notin> set reservedMCPParamKeys"
  "''mcp_access_groups'' \<notin> set reservedMCPParamKeys"
  "''mcp_info'' \<notin> set reservedMCPParamKeys"
  "''oauth2_flow'' \<notin> set reservedMCPParamKeys"
  "''oauth_passthrough'' \<notin> set reservedMCPParamKeys"
  "''registration_url'' \<notin> set reservedMCPParamKeys"
  "''static_headers'' \<notin> set reservedMCPParamKeys"
  "''token_url'' \<notin> set reservedMCPParamKeys"
  "''tool_name_to_description'' \<notin> set reservedMCPParamKeys"
  "''tool_name_to_display_name'' \<notin> set reservedMCPParamKeys"
  by (simp_all add: reservedMCPParamKeys_def)

lemma extract_ignores_reserved:
  "extractMCPParams (Some (filter (\<lambda>(k, v). k \<notin> set reservedMCPParamKeys) m)) = extractMCPParams (Some m)"
  by (simp add: extractMCPParams_def string_param_def map_param_def boolPtrFromParams_def stringSliceFromParams_def
      param_drop_other not_reserved)

lemma keep_strings_set: "t \<in> set (keep_strings vs) \<longleftrightarrow> JStr t \<in> set vs"
  by (induction vs rule: keep_strings.induct) auto

end
