(* ===== verification/Model_Controller.thy ===== *)
theory Model_Controller
  imports Shared_Helpers Substitution Params
begin

text \<open>
  The LiteLLMModel reconciler, \<^verbatim>\<open>internal/controller/model_controller.go\<close>: \<^verbatim>\<open>Reconcile\<close> with all its
  steps, its helpers and \<^verbatim>\<open>writeStatus\<close>.

  \<^verbatim>\<open>Reconcile\<close> is one long function; here each numbered step is a definition, and \<open>Reconcile\<close>
  composes them in the order of the code.  A step ends the reconcile with \<open>Return\<close> or goes on with
  \<open>Next\<close>.  Everything outside the repository is a field of the record \<open>ModelReconciler\<close>: the
  Kubernetes client, Secret reads, the clock, SHA-256 and the condition library.  A raw JSON field
  of the spec is empty, invalid, or the value it decodes to; decoding JSON \<^verbatim>\<open>null\<close> into a Go map
  leaves a nil map, which is \<open>None\<close> here, and a write to it is the panic it is in Go.
\<close>

subsection \<open>The custom resource\<close>

record LastRenderedStatus =
  lr_Hash :: string
  lr_ParamsKeys :: "string list"
  lr_InfoKeys :: "string list"
  lr_InfoHash :: string
  lr_ModelID :: string
  lr_At :: "int option"

record ModelStatus =
  ms_ObservedGeneration :: int
  ms_Conditions :: "Condition list"
  ms_LastRendered :: LastRenderedStatus

record ModelSpec =
  sp_Params :: raw_json
  sp_Info :: raw_json
  sp_Secrets :: "SecretSubstitution list"
  sp_DeletionPolicy :: string

record LiteLLMModel =
  m_Meta :: ObjectMeta
  m_Spec :: ModelSpec
  m_Status :: ModelStatus

abbreviation last_rendered :: "LiteLLMModel \<Rightarrow> LastRenderedStatus" where
  "last_rendered model \<equiv> ms_LastRendered (m_Status model)"

abbreviation model_id :: "LiteLLMModel \<Rightarrow> string" where
  "model_id model \<equiv> lr_ModelID (last_rendered model)"

definition set_model_id :: "string \<Rightarrow> LiteLLMModel \<Rightarrow> LiteLLMModel" where
  "set_model_id i model =
     model\<lparr>m_Status := (m_Status model)\<lparr>ms_LastRendered := (last_rendered model)\<lparr>lr_ModelID := i\<rparr>\<rparr>\<rparr>"

definition model_key :: "LiteLLMModel \<Rightarrow> NamespacedName" where
  "model_key model = (Namespace (m_Meta model), Name (m_Meta model))"

definition modelFinalizer :: string where "modelFinalizer = ''models.litellm.ackstorm.ai/finalizer''"
definition modelKind :: string where "modelKind = ''LiteLLMModel''"
definition reasonRecreateThrottled :: string where "reasonRecreateThrottled = ''RecreateThrottled''"
definition recreateThrottleBackoff :: int where "recreateThrottleBackoff = 5 * minute"

subsection \<open>The reconciler's environment\<close>

record 'w ModelReconciler =
  sv_kube :: "('w, LiteLLMModel) kclient"
  sv_secret :: "'w secret_getter"
  sv_now :: "'w \<Rightarrow> int \<times> 'w"
  sv_rfc3339 :: "int \<Rightarrow> string"
  sv_sha256hex :: "string \<Rightarrow> string"
  sv_lib :: klib
  sv_retries :: nat
  sv_includeBody :: bool
  sv_version :: string
  RecreateLimit :: int
  DefaultAccessGroup :: string

definition ResolveDefaultAccessGroup :: "string \<Rightarrow> string" where
  "ResolveDefaultAccessGroup v = (if v = '''' then ''default'' else v)"

definition read_clock :: "'w ModelReconciler \<Rightarrow> 'w rstate \<Rightarrow> int \<times> 'w rstate" where
  "read_clock R s = (let (t, w) = sv_now R (world s) in (t, set_world w s))"

definition churn_Count :: "'w ModelReconciler \<Rightarrow> NamespacedName \<Rightarrow> 'w rstate \<Rightarrow> nat \<times> 'w rstate" where
  "churn_Count R key s =
     (if r_churn s = None then (0, s)
      else let (t, s) = read_clock R s; (n, g) = Count key t (r_churn s) in (n, s\<lparr>r_churn := g\<rparr>))"

definition churn_Record :: "'w ModelReconciler \<Rightarrow> NamespacedName \<Rightarrow> 'w rstate \<Rightarrow> 'w rstate" where
  "churn_Record R key s =
     (if r_churn s = None then s
      else let (t, s) = read_clock R s; (_, g) = Record key t (r_churn s) in s\<lparr>r_churn := g\<rparr>)"

definition churn_Forget :: "NamespacedName \<Rightarrow> 'w rstate \<Rightarrow> 'w rstate" where
  "churn_Forget key s = s\<lparr>r_churn := Forget key (r_churn s)\<rparr>"

subsection \<open>writeStatus\<close>

definition apply_status :: "klib \<Rightarrow> Condition \<Rightarrow> int \<Rightarrow> LastRenderedStatus \<Rightarrow> LiteLLMModel \<Rightarrow> LiteLLMModel \<times> LastRenderedStatus" where
  "apply_status K cond gen desired f =
     (let conds = SetStatusCondition K (ms_Conditions (m_Status f)) cond;
          desired = desired\<lparr>lr_ModelID := keepPersistedID (lr_ModelID desired) (model_id f)\<rparr>
      in (f\<lparr>m_Status := \<lparr>ms_ObservedGeneration = gen, ms_Conditions = conds, ms_LastRendered = desired\<rparr>\<rparr>, desired))"

definition writeStatus ::
  "'w ModelReconciler \<Rightarrow> LiteLLMModel \<Rightarrow> ConditionStatus \<Rightarrow> string \<Rightarrow> string \<Rightarrow> 'w rstate
   \<Rightarrow> kube_error option \<times> LiteLLMModel \<times> 'w rstate" where
  "writeStatus R model status reason msg s =
     (let gen = Generation (m_Meta model);
          cond = buildReadyCondition gen status reason msg;
          (r, s) = writeStatusWithRetry (sv_retries R) (sv_kube R) (model_key model)
             (\<lambda>f. StatusWrite cond (model_id f)) (apply_status (sv_lib R) cond gen) (last_rendered model) s;
          model = (case r of Inr fresh \<Rightarrow> model\<lparr>m_Status := m_Status fresh\<rparr> | Inl _ \<Rightarrow> model);
          s = recordReconcileMetric modelKind (Namespace (m_Meta model)) reason s
      in (case r of Inl e \<Rightarrow> Some e | Inr _ \<Rightarrow> None, model, s))"

text \<open>The common tail of the rejecting branches: write the status, ignore a failure, count, return.\<close>

definition park ::
  "'w ModelReconciler \<Rightarrow> LiteLLMModel \<Rightarrow> string \<Rightarrow> string \<Rightarrow> Result \<Rightarrow> 'w rstate \<Rightarrow> 'a flow \<times> 'w rstate" where
  "park R model reason msg res s =
     (let (_, _, s) = writeStatus R model ConditionFalse reason msg s;
          s = reconcile_total modelKind ''success'' s
      in (Return (Inr res), s))"

definition classify_model_error ::
  "'w ModelReconciler \<Rightarrow> LiteLLMModel \<Rightarrow> lerror \<Rightarrow> string \<Rightarrow> 'w rstate \<Rightarrow> 'a flow \<times> 'w rstate" where
  "classify_model_error R model err opDesc s =
     (let snap = Snapshot (r_cache s);
          (v, s) = classifyMutationError (sv_includeBody R) err opDesc modelKind
            (\<lambda>st reason msg s. let (e, _, s) = writeStatus R model st reason msg s in (e, s))
            (NormalizedRequeueOnRejectedAfter snap) s
      in (Return v, s))"

subsection \<open>Step 2a: deletion\<close>

definition ack_missing ::
  "LiteLLMModel \<Rightarrow> Policy \<Rightarrow> string \<Rightarrow> bool \<Rightarrow> 'w rstate \<Rightarrow> unit flow \<times> 'w rstate" where
  "ack_missing model policy reason permanent s =
     (case newAckMissingFn modelKind (Namespace (m_Meta model)) (Name (m_Meta model)) policy reason permanent s of
        (Some e, s) \<Rightarrow> (Return (Inl e), s)
      | (None, s) \<Rightarrow> (Next (), s))"

definition onConfirmedAbsent :: "LiteLLMModel \<Rightarrow> 'w rstate \<Rightarrow> 'w rstate" where
  "onConfirmedAbsent model = DeletionBlocked_Forget modelKind (Namespace (m_Meta model)) (Name (m_Meta model))"

text \<open>The delete call and its five outcomes; \<open>site\<close> is the call site's name in the texts.\<close>

definition delete_remote ::
  "LiteLLMModel \<Rightarrow> Policy \<Rightarrow> 'w http \<Rightarrow> string \<Rightarrow> string \<Rightarrow> 'w rstate \<Rightarrow> unit flow \<times> 'w rstate" where
  "delete_remote model policy client site modelID s =
     (case DeleteModel client modelID s of
        (Inl err, s) \<Rightarrow>
          (if as_auth401 err \<noteq> None then ack_missing model policy (''401 on '' @ site) False s
           else if IsNotFound err then (Next (), onConfirmedAbsent model s)
           else if is4xxStatus err then ack_missing model policy (''4xx on '' @ site @ '': '' @ lerror_text err) True s
           else (Return (Inl (LlmErr err)), s))
      | (Inr _, s) \<Rightarrow>
          (let s = emit (Metric ''DriftCorrectedTotal'' [''model'', ''delete_vanished'']) s
           in (Next (), DeletionBlocked_Forget modelKind (Namespace (m_Meta model)) (Name (m_Meta model)) s)))"

definition delete_by_name ::
  "LiteLLMModel \<Rightarrow> Policy \<Rightarrow> 'w http \<Rightarrow> 'w rstate \<Rightarrow> unit flow \<times> 'w rstate" where
  "delete_by_name model policy client s =
     (case GetModelInfoByName client (Name (m_Meta model)) s of
        (Inr None, s) \<Rightarrow> (Next (), onConfirmedAbsent model s)
      | (Inl err, s) \<Rightarrow>
          (if as_auth401 err \<noteq> None then ack_missing model policy ''401 on GetModelInfoByName'' False s
           else (Return (Inl (LlmErr err)), s))
      | (Inr (Some resolved), s) \<Rightarrow>
          delete_remote model policy client ''DeleteModel post-name-resolve'' (mi_ID (mir_ModelInfo resolved)) s)"

definition release_remote :: "LiteLLMModel \<Rightarrow> 'w rstate \<Rightarrow> unit flow \<times> 'w rstate" where
  "release_remote model s =
     (let policy = Resolve (m_Meta model) (sp_DeletionPolicy (m_Spec model));
          snap = Snapshot (r_cache s)
      in case (snap_Ready snap, snap_Client snap) of
           (True, Some client) \<Rightarrow>
             (if model_id model \<noteq> '''' then delete_remote model policy client ''DeleteModel'' (model_id model) s
              else delete_by_name model policy client s)
         | _ \<Rightarrow> (let (reason, permanent) = ackUnavailable snap in ack_missing model policy reason permanent s))"

definition drop_finalizer ::
  "'w ModelReconciler \<Rightarrow> NamespacedName \<Rightarrow> LiteLLMModel \<Rightarrow> 'w rstate \<Rightarrow> unit flow \<times> 'w rstate" where
  "drop_finalizer R key model s =
     (let s = emit (Metric ''CRStatusAge.Forget'' [modelKind, Name (m_Meta model)]) s;
          s = churn_Forget key s;
          s = DeletionBlocked_Forget modelKind (Namespace (m_Meta model)) (Name (m_Meta model)) s;
          model = model\<lparr>m_Meta := (m_Meta model)\<lparr>Finalizers := RemoveFinalizer (sv_lib R) (Finalizers (m_Meta model)) modelFinalizer\<rparr>\<rparr>;
          s = emit (ObjectUpdate (Finalizers (m_Meta model))) s;
          (err, w) = kc_update (sv_kube R) (world s) model;
          s = set_world w s
      in case err of Some e \<Rightarrow> (Return (Inl (KubeErr e)), s) | None \<Rightarrow> (done_ok, s))"

definition reconcile_delete ::
  "'w ModelReconciler \<Rightarrow> NamespacedName \<Rightarrow> LiteLLMModel \<Rightarrow> 'w rstate \<Rightarrow> unit flow \<times> 'w rstate" where
  "reconcile_delete R key model s =
     (if ContainsFinalizer (sv_lib R) (Finalizers (m_Meta model)) modelFinalizer
      then andThen (release_remote model) (\<lambda>_. drop_finalizer R key model) s
      else (done_ok, s))"

subsection \<open>Step 2b: finalizer\<close>

definition add_finalizer :: "'w ModelReconciler \<Rightarrow> LiteLLMModel \<Rightarrow> 'w rstate \<Rightarrow> unit flow \<times> 'w rstate" where
  "add_finalizer R model s =
     (let model = model\<lparr>m_Meta := (m_Meta model)\<lparr>Finalizers := AddFinalizer (sv_lib R) (Finalizers (m_Meta model)) modelFinalizer\<rparr>\<rparr>;
          s = emit (ObjectUpdate (Finalizers (m_Meta model))) s;
          (err, w) = kc_update (sv_kube R) (world s) model;
          s = set_world w s
      in case err of Some e \<Rightarrow> (Return (Inl (KubeErr e)), s) | None \<Rightarrow> (done_ok, s))"

subsection \<open>Step 3: connection gate\<close>

definition gate :: "'w ModelReconciler \<Rightarrow> LiteLLMModel \<Rightarrow> 'w rstate \<Rightarrow> ('w http ConnectionSnapshot \<times> 'w http) flow \<times> 'w rstate" where
  "gate R model s =
     (let snap = Snapshot (r_cache s) in
      case (snap_Ready snap, snap_Client snap) of
        (True, Some client) \<Rightarrow> (Next (snap, client), s)
      | _ \<Rightarrow>
          (let reason = (if snap_Reason snap = '''' then reasonConnecting else snap_Reason snap)
           in park R model reasonLiteLLMUnavailable
                (''LiteLLMConnection/default not Ready (reason: '' @ reason @ '')'') no_requeue s))"

subsection \<open>Steps 3.5 to 7: secrets, decoding, substitution, hashes\<close>

definition resolve_step ::
  "'w ModelReconciler \<Rightarrow> LiteLLMModel \<Rightarrow> 'w http ConnectionSnapshot \<Rightarrow> 'w rstate \<Rightarrow> string gomap flow \<times> 'w rstate" where
  "resolve_step R model snap s =
     (let msg = checkDuplicateSecretAs (sp_Secrets (m_Spec model)) ''SEC-03: must be unique within a LiteLLMModel'' in
      if msg \<noteq> '''' then park R model ''InvalidConfig'' msg no_requeue s
      else
        case resolveSecretMap (sv_secret R) (Namespace (m_Meta model)) (sp_Secrets (m_Spec model)) s of
          (SecretGetFailed e, s) \<Rightarrow> (Return (Inl (KubeErr e)), s)
        | (SecretMissing miss, s) \<Rightarrow>
            (if miss \<noteq> '''' then park R model reasonSecretNotFound miss (requeue_rejected snap) s
             else (Next [], s))
        | (SecretsResolved m, s) \<Rightarrow> (Next m, s))"

definition invalid_config :: "'w ModelReconciler \<Rightarrow> LiteLLMModel \<Rightarrow> string \<Rightarrow> 'w rstate \<Rightarrow> 'a flow \<times> 'w rstate" where
  "invalid_config R model msg s =
     (let (_, _, s) = writeStatus R model ConditionFalse ''InvalidConfig'' msg s in (done_ok, s))"

definition decode_step ::
  "'w ModelReconciler \<Rightarrow> LiteLLMModel \<Rightarrow> 'w rstate \<Rightarrow> (json gomap option \<times> json gomap option) flow \<times> 'w rstate" where
  "decode_step R model s =
     (case decode_bag (sp_Params (m_Spec model)) of
        Inl e \<Rightarrow> invalid_config R model (''spec.params: invalid JSON: '' @ e) s
      | Inr params \<Rightarrow>
          (case decode_bag (sp_Info (m_Spec model)) of
             Inl e \<Rightarrow> invalid_config R model (''spec.info: invalid JSON: '' @ e) s
           | Inr info \<Rightarrow> (Next (params, info), s)))"

definition isRouterModel :: "json gomap option \<Rightarrow> bool" where
  "isRouterModel params =
     (case map_of (bag params) ''model'' of Some (JStr m) \<Rightarrow> has_prefix ''auto_router/'' m | _ \<Rightarrow> False)"

definition infoHash :: "('w ModelReconciler) \<Rightarrow> json gomap option \<Rightarrow> string" where
  "infoHash R info = sv_sha256hex R (canonicalJSON (JObj (map_del ''id'' (bag info))))"

text \<open>\<open>None\<close> is the panic of an assignment to a nil map.\<close>

definition ensureDefaultAccessGroup :: "json gomap option \<Rightarrow> string \<Rightarrow> json gomap option option" where
  "ensureDefaultAccessGroup info grp =
     (if grp = '''' then Some info
      else
        let declared = (case map_of (bag info) ''access_groups'' of
              None \<Rightarrow> False | Some (JArr []) \<Rightarrow> False | Some _ \<Rightarrow> True)
        in if declared then Some info
           else case info of None \<Rightarrow> None
                | Some m \<Rightarrow> Some (Some (map_put ''access_groups'' (JArr [JStr grp]) m)))"

fun warn_unused :: "string list \<Rightarrow> SecretSubstitution list \<Rightarrow> 'w rstate \<Rightarrow> 'w rstate" where
  "warn_unused used [] s = s"
| "warn_unused used (e # es) s =
     warn_unused used es
       (if As e \<in> set used then s
        else emit (Event EventTypeNormal ''UnusedSecretRef''
          (''spec.secrets[].as '' @ quote (As e)
           @ '' is declared but unreferenced by any {{NAME}} placeholder in spec.params or spec.info'')) s)"

record rendered =
  rd_params :: "json gomap option"
  rd_info :: "json gomap option"
  rd_infoHash :: string
  rd_hash :: string
  rd_router :: bool

definition render_step ::
  "'w ModelReconciler \<Rightarrow> LiteLLMModel \<Rightarrow> 'w http ConnectionSnapshot \<Rightarrow> string gomap
   \<Rightarrow> json gomap option \<times> json gomap option \<Rightarrow> 'w rstate \<Rightarrow> rendered flow \<times> 'w rstate" where
  "render_step R model snap secretMap bags s =
     (let (params, info) = bags;
          (params, refP, missP) = substitute_bag params secretMap;
          (info, refI, missI) = substitute_bag info secretMap;
          allMissing = missP @ missI
      in case allMissing of
           m # _ \<Rightarrow> park R model reasonSecretNotFound
             (''placeholder {{'' @ m @ ''}} has no matching spec.secrets[].as'') (requeue_rejected snap) s
         | [] \<Rightarrow>
             (let s = warn_unused (refP @ refI) (sp_Secrets (m_Spec model)) s;
                  s = (if map_of (bag info) ''id'' \<noteq> None
                    then emit (Event EventTypeWarning ''ProjectionOverride''
                      (''user-supplied spec.info.id overridden by operator-managed model_info.id (spec ''
                       @ [CHR 0xC2, CHR 0xA7] @ ''5.1 Identity tier '' @ [CHR 0xE2, CHR 0x80, CHR 0x94]
                       @ '' operator overlay always wins)'')) s
                    else s);
                  info = map_option (map_del ''id'') info
              in case ensureDefaultAccessGroup info (DefaultAccessGroup R) of
                   None \<Rightarrow> (Return (Inl (GoPanic ''assignment to entry in nil map'')), s)
                 | Some info \<Rightarrow>
                     (Next \<lparr>rd_params = params, rd_info = info, rd_infoHash = infoHash R info,
                        rd_hash = sv_sha256hex R (canonicalJSON
                          (JObj [(''litellm_params'', JObj (bag params)), (''model_info'', JObj (bag info))])),
                        rd_router = isRouterModel params\<rparr>, s)))"

definition prepare ::
  "'w ModelReconciler \<Rightarrow> LiteLLMModel \<Rightarrow> 'w http ConnectionSnapshot \<Rightarrow> 'w rstate \<Rightarrow> rendered flow \<times> 'w rstate" where
  "prepare R model snap =
     andThen (resolve_step R model snap) (\<lambda>secretMap.
     andThen (decode_step R model) (render_step R model snap secretMap))"

subsection \<open>Steps 7b and 7c: existence probe and duplicate rows\<close>

definition probe_lookup ::
  "'w http \<Rightarrow> LiteLLMModel \<Rightarrow> 'w rstate \<Rightarrow> (lerror + string) \<times> string list \<times> 'w rstate" where
  "probe_lookup client model s =
     (case GetModelIDsByName client (Name (m_Meta model)) s of
        (Inl e, s) \<Rightarrow> (Inl e, [], s)
      | (Inr ids, s) \<Rightarrow>
          (Inr (if model_id model \<in> set ids then model_id model
                else case ids of i # _ \<Rightarrow> i | [] \<Rightarrow> ''''), ids, s))"

definition probe_step ::
  "LiteLLMModel \<Rightarrow> 'w http \<Rightarrow> rendered \<Rightarrow> 'w rstate \<Rightarrow> (LiteLLMModel \<times> string list) flow \<times> 'w rstate" where
  "probe_step model client rd s =
     (if \<not> rd_router rd \<and> model_id model \<noteq> '''' \<and> lr_Hash (last_rendered model) \<noteq> '''' then
        (case probeVanishedResourceID (model_id model) (probe_lookup client model) ''model'' s of
           (Inl e, ids, s) \<Rightarrow> (Return (Inl (LlmErr e)), s)
         | (Inr clear, ids, s) \<Rightarrow> (Next (if clear then set_model_id '''' model else model, ids), s))
      else (Next (model, []), s))"

fun prune_rows :: "'w http \<Rightarrow> string \<Rightarrow> string list \<Rightarrow> 'w rstate \<Rightarrow> 'w rstate" where
  "prune_rows client keep [] s = s"
| "prune_rows client keep (i # ids) s =
     prune_rows client keep ids
       (if i = keep then s
        else case DeleteModel client i s of
               (Inl _, s) \<Rightarrow> s
             | (Inr _, s) \<Rightarrow> emit (Metric ''DriftCorrectedTotal'' [''model'', ''duplicate_pruned'']) s)"

definition prune_step :: "LiteLLMModel \<Rightarrow> 'w http \<Rightarrow> rendered \<Rightarrow> string list \<Rightarrow> 'w rstate \<Rightarrow> 'w rstate" where
  "prune_step model client rd ids s =
     (if \<not> rd_router rd \<and> model_id model \<noteq> '''' \<and> length ids > 1
      then prune_rows client (model_id model) ids s else s)"

subsection \<open>Step 8: steady state\<close>

definition is_steady :: "LiteLLMModel \<Rightarrow> rendered \<Rightarrow> bool" where
  "is_steady model rd \<longleftrightarrow> lr_Hash (last_rendered model) = rd_hash rd \<and> model_id model \<noteq> '''' \<and>
     ms_ObservedGeneration (m_Status model) = Generation (m_Meta model)"

definition is_synced :: "klib \<Rightarrow> LiteLLMModel \<Rightarrow> bool" where
  "is_synced K model \<longleftrightarrow>
     (case FindStatusCondition K (ms_Conditions (m_Status model)) conditionTypeReady of
        None \<Rightarrow> False
      | Some c \<Rightarrow> Status c = ConditionTrue \<and> Reason c = reasonSynced)"

text \<open>The tail of a successful status write: a conflict ends the reconcile without error.\<close>

definition on_status_error :: "kube_error \<Rightarrow> verdict" where
  "on_status_error e = (if IsConflict e then Inr no_requeue else Inl (KubeErr e))"

definition steady_step ::
  "'w ModelReconciler \<Rightarrow> NamespacedName \<Rightarrow> LiteLLMModel \<Rightarrow> 'w rstate \<Rightarrow> unit flow \<times> 'w rstate" where
  "steady_step R key model s =
     (let (err, model, s) =
            (if is_synced (sv_lib R) model then (None, model, s)
             else writeStatus R model ConditionTrue reasonSynced ''model registered'' s)
      in case err of
           Some e \<Rightarrow> (Return (on_status_error e), s)
         | None \<Rightarrow>
             (let s = emit (Metric ''CRStatusAge.RecordSuccess'' [modelKind, Name (m_Meta model)]) s
              in (done_ok, churn_Forget key s)))"

subsection \<open>Step 9: create, adopt, update, recreate\<close>

definition firstReconcile :: "LiteLLMModel \<Rightarrow> bool" where
  "firstReconcile model \<longleftrightarrow> ms_ObservedGeneration (m_Status model) = 0 \<or> lr_Hash (last_rendered model) = ''''"

definition recreate_limit :: "'w ModelReconciler \<Rightarrow> int" where
  "recreate_limit R = (if RecreateLimit R \<le> 0 then DefaultRecreateLimitPerMin else RecreateLimit R)"

definition throttle_message :: "nat \<Rightarrow> int \<Rightarrow> string" where
  "throttle_message n limit =
     ''recreate throttled: '' @ show_nat n @ '' recreates within 1m0s (limit '' @ show_int limit @ ''). ''
     @ ''LiteLLM accepts POST /model/new but the entry never appears on the existence probe ''
     @ ''(created-but-not-listed); parked to avoid a reconcile storm. Retrying after 5m0s.''"

definition throttle_step ::
  "'w ModelReconciler \<Rightarrow> NamespacedName \<Rightarrow> LiteLLMModel \<Rightarrow> 'w rstate \<Rightarrow> unit flow \<times> 'w rstate" where
  "throttle_step R key model s =
     (if firstReconcile model then (Next (), s)
      else
        let (n, s) = churn_Count R key s in
        if int n \<ge> recreate_limit R
        then park R model reasonRecreateThrottled (throttle_message n (recreate_limit R))
               (requeue_after recreateThrottleBackoff) s
        else (Next (), s))"

definition update_info :: "'w ModelReconciler \<Rightarrow> string \<Rightarrow> rendered \<Rightarrow> ModelInfo" where
  "update_info R i rd = zero_ModelInfo\<lparr>mi_ID := i, mi_UpdatedBy := Operator (sv_version R), mi_Extra := bag (rd_info rd)\<rparr>"

definition update_request :: "'w ModelReconciler \<Rightarrow> LiteLLMModel \<Rightarrow> string \<Rightarrow> rendered \<Rightarrow> Deployment" where
  "update_request R model i rd =
     \<lparr>dep_ModelName = Name (m_Meta model), dep_LiteLLMParams = rd_params rd, dep_ModelInfo = update_info R i rd\<rparr>"

definition create_request :: "'w ModelReconciler \<Rightarrow> LiteLLMModel \<Rightarrow> string \<Rightarrow> rendered \<Rightarrow> Deployment" where
  "create_request R model nowStamp rd =
     \<lparr>dep_ModelName = Name (m_Meta model), dep_LiteLLMParams = rd_params rd,
      dep_ModelInfo = zero_ModelInfo\<lparr>mi_CreatedBy := Operator (sv_version R), mi_UpdatedBy := Operator (sv_version R),
        mi_CreatedAt := nowStamp, mi_UpdatedAt := nowStamp, mi_Extra := bag (rd_info rd)\<rparr>\<rparr>"

definition drift_metric :: "LiteLLMModel \<Rightarrow> string \<Rightarrow> 'w rstate \<Rightarrow> 'w rstate" where
  "drift_metric model what s =
     (if firstReconcile model then s else emit (Metric ''DriftCorrectedTotal'' [''model'', what]) s)"

definition create_new ::
  "'w ModelReconciler \<Rightarrow> NamespacedName \<Rightarrow> LiteLLMModel \<Rightarrow> 'w http \<Rightarrow> rendered \<Rightarrow> 'w rstate \<Rightarrow> string flow \<times> 'w rstate" where
  "create_new R key model client rd s =
     (let (t, s) = read_clock R s in
      case CreateModel client (create_request R model (sv_rfc3339 R t) rd) s of
        (Inl err, s) \<Rightarrow> classify_model_error R model err ''POST /model/new'' s
      | (Inr result, s) \<Rightarrow>
          (let s = (if firstReconcile model then s
                    else churn_Record R key (drift_metric model ''create_missing'' s))
           in (Next (mi_ID (mir_ModelInfo result)), s)))"

definition adopt ::
  "'w ModelReconciler \<Rightarrow> LiteLLMModel \<Rightarrow> 'w http \<Rightarrow> rendered \<Rightarrow> string \<Rightarrow> 'w rstate \<Rightarrow> string flow \<times> 'w rstate" where
  "adopt R model client rd newModelID s =
     (case UpdateModel client (update_request R model newModelID rd) s of
        (Inl err, s) \<Rightarrow> classify_model_error R model err ''POST /model/update (FIX4 H-1 adoption stamp)'' s
      | (Inr _, s) \<Rightarrow> (Next newModelID, s))"

definition create_path ::
  "'w ModelReconciler \<Rightarrow> NamespacedName \<Rightarrow> LiteLLMModel \<Rightarrow> 'w http \<Rightarrow> rendered \<Rightarrow> 'w rstate \<Rightarrow> string flow \<times> 'w rstate" where
  "create_path R key model client rd =
     andThen (throttle_step R key model) (\<lambda>_ s.
       case GetModelInfoByName client (Name (m_Meta model)) s of
         (Inl e, s) \<Rightarrow> (Return (Inl (LlmErr e)), s)
       | (Inr (Some existing), s) \<Rightarrow>
           (if mi_ID (mir_ModelInfo existing) \<noteq> '''' then adopt R model client rd (mi_ID (mir_ModelInfo existing)) s
            else create_new R key model client rd s)
       | (Inr None, s) \<Rightarrow> create_new R key model client rd s)"

definition must_recreate :: "LiteLLMModel \<Rightarrow> rendered \<Rightarrow> bool" where
  "must_recreate model rd \<longleftrightarrow>
     (let lr = last_rendered model;
          removedParamsKeys = setDiff (lr_ParamsKeys lr) (sortedKeys (bag (rd_params rd)));
          removedInfoKeys = setDiff (lr_InfoKeys lr) (sortedKeys (bag (rd_info rd)));
          shrinkage = (length removedParamsKeys > 0 \<or> length removedInfoKeys > 0);
          infoChanged = (lr_InfoHash lr \<noteq> '''' \<and> lr_InfoHash lr \<noteq> rd_infoHash rd)
      in shrinkage \<or> infoChanged)"

definition recreate ::
  "'w ModelReconciler \<Rightarrow> LiteLLMModel \<Rightarrow> 'w http \<Rightarrow> rendered \<Rightarrow> 'w rstate \<Rightarrow> string flow \<times> 'w rstate" where
  "recreate R model client rd s =
     (case DeleteModel client (model_id model) s of
        (Inl err, s) \<Rightarrow> classify_model_error R model err ''POST /model/delete (D-02 shrinkage)'' s
      | (Inr _, s) \<Rightarrow>
          (let (t, s) = read_clock R s in
           case CreateModel client (create_request R model (sv_rfc3339 R t) rd) s of
             (Inl err, s) \<Rightarrow> classify_model_error R model err ''POST /model/new (D-02 recreate)'' s
           | (Inr result, s) \<Rightarrow> (Next (mi_ID (mir_ModelInfo result)), drift_metric model ''update_drifted'' s)))"

definition update_path ::
  "'w ModelReconciler \<Rightarrow> LiteLLMModel \<Rightarrow> 'w http \<Rightarrow> rendered \<Rightarrow> 'w rstate \<Rightarrow> string flow \<times> 'w rstate" where
  "update_path R model client rd s =
     (if must_recreate model rd then recreate R model client rd s
      else
        case UpdateModel client (update_request R model (model_id model) rd) s of
          (Inl err, s) \<Rightarrow> classify_model_error R model err ''POST /model/update'' s
        | (Inr _, s) \<Rightarrow> (Next (model_id model), drift_metric model ''update_drifted'' s))"

definition apply_step ::
  "'w ModelReconciler \<Rightarrow> NamespacedName \<Rightarrow> LiteLLMModel \<Rightarrow> 'w http \<Rightarrow> rendered \<Rightarrow> 'w rstate \<Rightarrow> string flow \<times> 'w rstate" where
  "apply_step R key model client rd s =
     (if model_id model = '''' then create_path R key model client rd s
      else update_path R model client rd s)"

subsection \<open>Step 11, and the whole handler\<close>

definition finish ::
  "'w ModelReconciler \<Rightarrow> LiteLLMModel \<Rightarrow> rendered \<Rightarrow> string \<Rightarrow> 'w rstate \<Rightarrow> unit flow \<times> 'w rstate" where
  "finish R model rd newModelID s =
     (let (now, s) = read_clock R s;
          model = model\<lparr>m_Status := (m_Status model)\<lparr>ms_LastRendered :=
            \<lparr>lr_Hash = rd_hash rd, lr_ParamsKeys = sortedKeys (bag (rd_params rd)),
             lr_InfoKeys = sortedKeys (bag (rd_info rd)), lr_InfoHash = rd_infoHash rd,
             lr_ModelID = newModelID, lr_At = Some now\<rparr>\<rparr>\<rparr>;
          (err, model, s) = writeStatus R model ConditionTrue reasonSynced ''model registered'' s
      in case err of
           Some e \<Rightarrow> (Return (on_status_error e), s)
         | None \<Rightarrow>
             (let s = emit (Metric ''CRStatusAge.RecordSuccess'' [modelKind, Name (m_Meta model)]) s;
                  s = reconcile_total modelKind ''success'' s
              in (done_ok, s)))"

definition converge ::
  "'w ModelReconciler \<Rightarrow> NamespacedName \<Rightarrow> 'w http \<Rightarrow> rendered \<Rightarrow> LiteLLMModel \<Rightarrow> 'w rstate \<Rightarrow> unit flow \<times> 'w rstate" where
  "converge R key client rd model s =
     (if is_steady model rd then steady_step R key model s
      else andThen (apply_step R key model client rd) (finish R model rd) s)"

definition reconcile_live ::
  "'w ModelReconciler \<Rightarrow> NamespacedName \<Rightarrow> LiteLLMModel \<Rightarrow> 'w rstate \<Rightarrow> unit flow \<times> 'w rstate" where
  "reconcile_live R key model =
     andThen (gate R model) (\<lambda>(snap, client).
     andThen (prepare R model snap) (\<lambda>rd.
     andThen (probe_step model client rd) (\<lambda>(model, ids) s.
       converge R key client rd model (prune_step model client rd ids s))))"

definition Reconcile :: "'w ModelReconciler \<Rightarrow> NamespacedName \<Rightarrow> 'w rstate \<Rightarrow> verdict \<times> 'w rstate" where
  "Reconcile R key s =
     (case kc_get (sv_kube R) (world s) key of
        (Inl e, w) \<Rightarrow> (if IsNotFoundK e then Inr no_requeue else Inl (KubeErr e), set_world w s)
      | (Inr model, w) \<Rightarrow>
          (let s = set_world w s;
               (f, s) =
                 (if DeletionTimestamp (m_Meta model) then reconcile_delete R key model s
                  else if \<not> ContainsFinalizer (sv_lib R) (Finalizers (m_Meta model)) modelFinalizer
                  then add_finalizer R model s
                  else reconcile_live R key model s)
           in (case f of Return v \<Rightarrow> v | Next _ \<Rightarrow> Inr no_requeue, s)))"

end
