(* ===== verification/Model_Properties.thy ===== *)
theory Model_Properties
  imports Model_Controller
begin

text \<open>
  What the LiteLLMModel reconciler guarantees: which effects each step can have, when a finalizer may
  go, that a steady object causes no mutation, that at most one deployment is created per reconcile,
  that a persisted remote id is never blanked, and that secret values reach no cluster-visible text.
\<close>

subsection \<open>Effects of the steps\<close>

lemma read_clock_log [simp]: "read_clock R s = (t, s') \<Longrightarrow> log s' = log s"
  by (auto simp: read_clock_def set_world_def split: prod.splits)

lemma read_clock_emits: "read_clock R s = (t, s') \<Longrightarrow> emits P s s'"
  by (rule emits_same_log) simp

lemma churn_ops_emits: "emits P s (snd (churn_Count R key s))" "emits P s (churn_Record R key s)"
  "emits P s (churn_Forget key s)"
  by (auto simp: churn_Count_def churn_Record_def churn_Forget_def emits_def Let_def split: prod.splits)

lemma writeStatus_emits:
  assumes "\<And>c i. c = buildReadyCondition (Generation (m_Meta model)) status reason msg \<Longrightarrow> P (StatusWrite c i)"
    and "\<And>n l. P (Metric n l)"
  shows "emits P s (snd (snd (writeStatus R model status reason msg s)))"
  using assms
  by (auto simp: writeStatus_def recordReconcileMetric_def Let_def case_prod_beta
      intro!: emits_then_emit writeStatusWithRetry_emits)

lemma writeStatus_reports: "emits is_report s (snd (snd (writeStatus R model status reason msg s)))"
  by (rule writeStatus_emits) simp_all

lemma writeStatus_setback: "emits is_setback s (snd (snd (writeStatus R model ConditionFalse reason msg s)))"
  by (rule writeStatus_emits) (simp_all add: buildReadyCondition_def)

lemma park_setback: "emits is_setback s (snd (park R model reason msg res s))"
  using writeStatus_setback [of s R model reason msg]
  by (auto simp: park_def reconcile_total_def split: prod.splits intro!: emits_then_emit)

lemmas park_reports = park_setback [THEN setback_emits]

lemma invalid_config_setback: "emits is_setback s (snd (invalid_config R model msg s))"
  using writeStatus_setback [of s R model "''InvalidConfig''" msg]
  by (auto simp: invalid_config_def split: prod.splits)

lemmas invalid_config_reports = invalid_config_setback [THEN setback_emits]

lemma classify_setback: "emits is_setback s (snd (classify_model_error R model err op s))"
proof -
  have "emits is_setback s (snd (classifyMutationError optIn err op modelKind
      (\<lambda>st r m s. (fst (writeStatus R model st r m s), snd (snd (writeStatus R model st r m s)))) rq s))" for optIn rq
    by (rule classifyMutationError_setback) (simp add: writeStatus_setback)
  then show ?thesis
    by (simp add: classify_model_error_def Let_def case_prod_beta)
qed

lemmas classify_reports = classify_setback [THEN setback_emits]

lemma ack_missing_setback: "emits is_setback s (snd (ack_missing model policy reason permanent s))"
proof -
  let ?n = "newAckMissingFn modelKind (Namespace (m_Meta model)) (Name (m_Meta model)) policy reason permanent s"
  have "emits is_setback s (snd ?n)"
    by (auto simp: newAckMissingFn_def DeletionBlocked_Record_def Let_def intro!: emits_then_emit)
  then show ?thesis
    by (auto simp: ack_missing_def split: prod.splits option.splits)
qed

lemmas ack_missing_reports = ack_missing_setback [THEN setback_emits]

lemma gate_setback: "emits is_setback s (snd (gate R model s))"
  by (auto simp: gate_def Let_def park_setback split: prod.splits bool.splits option.splits)

lemmas gate_reports = gate_setback [THEN setback_emits]

lemma resolveSecretMap_emits: "resolveSecretMap g ns es s = (r, s') \<Longrightarrow> emits P s s'"
  by (auto simp: resolveSecretMap_def split: prod.splits)

lemma resolve_setback: "emits is_setback s (snd (resolve_step R model snap s))"
  by (auto simp: resolve_step_def Let_def park_setback split: prod.splits secret_result.splits
      intro: resolveSecretMap_emits emits_trans [OF resolveSecretMap_emits park_setback])

lemmas resolve_reports = resolve_setback [THEN setback_emits]

lemma decode_setback: "emits is_setback s (snd (decode_step R model s))"
  by (auto simp: decode_step_def invalid_config_setback split: sum.splits)

lemmas decode_reports = decode_setback [THEN setback_emits]

lemma warn_unused_setback: "emits is_setback s (warn_unused used es s)"
  by (induction used es s rule: warn_unused.induct) (auto elim!: emits_trans [rotated])

lemmas warn_unused_reports = warn_unused_setback [THEN setback_emits]

lemma render_setback: "emits is_setback s (snd (render_step R model snap m bags s))"
  by (auto simp: render_step_def Let_def park_setback warn_unused_setback
      split: prod.splits list.splits option.splits intro!: emits_then_emit)

lemmas render_reports = render_setback [THEN setback_emits]

lemma prepare_setback: "emits is_setback s (snd (prepare R model snap s))"
  unfolding prepare_def by (intro emits_andThen resolve_setback decode_setback render_setback)

lemmas prepare_reports = prepare_setback [THEN setback_emits]

lemma steady_reports: "emits is_report s (snd (steady_step R key model s))"
  using writeStatus_reports [of s R model ConditionTrue reasonSynced "''model registered''"]
  by (auto simp: steady_step_def Let_def split: prod.splits option.splits if_splits
      intro!: emits_then_emit intro: emits_trans [OF _ churn_ops_emits(3)])

lemma finish_reports: "emits is_report s (snd (finish R model rd i s))"
proof -
  obtain t s1 where t: "read_clock R s = (t, s1)" by fastforce
  have "emits is_report s (snd (snd (writeStatus R m' ConditionTrue reasonSynced ''model registered'' s1)))" for m'
    using emits_trans [OF read_clock_emits [OF t] writeStatus_reports] .
  then show ?thesis
    by (auto simp: finish_def t Let_def reconcile_total_def case_prod_beta split: option.splits
        intro!: emits_then_emit)
qed

lemma throttle_setback: "emits is_setback s (snd (throttle_step R key model s))"
proof -
  obtain n s1 where n: "churn_Count R key s = (n, s1)" by fastforce
  then have "emits is_setback s s1" using churn_ops_emits(1) [of is_setback s R key] by simp
  then show ?thesis
    by (auto simp: throttle_step_def n Let_def intro: emits_trans [OF _ park_setback])
qed

lemmas throttle_reports = throttle_setback [THEN setback_emits]

lemma drift_metric_setback: "emits is_setback s (drift_metric model w s)"
  by (simp add: drift_metric_def)

lemmas drift_metric_reports = drift_metric_setback [THEN setback_emits]

subsection \<open>Calls to LiteLLM\<close>

text \<open>A client call appends at most one request; \<open>P\<close> need only hold of that one.\<close>

lemma call_emits:
  fixes s :: "'w rstate"
  shows "P (Http ''POST'' ''/model/new'' (Some (Deployment_json d))) \<Longrightarrow> emits P s (snd (CreateModel c d s))"
    and "P (Http ''POST'' ''/model/update'' (Some (updateDeployment_json d))) \<Longrightarrow> emits P s (snd (UpdateModel c d s))"
    and "P (Http ''POST'' ''/model/delete'' (Some (JObj [(''id'', JStr i)]))) \<Longrightarrow> emits P s (snd (DeleteModel c i s))"
    and "P (Http ''GET'' (''/model/info?model_name='' @ QueryEscape n) None) \<Longrightarrow> emits P s (snd (GetModelInfoByName c n s))"
    and "P (Http ''GET'' (''/model/info?model_name='' @ QueryEscape n) None) \<Longrightarrow> emits P s (snd (GetModelIDsByName c n s))"
  by (auto simp: emits_def client_log by_name_state)

lemma call_cache:
  fixes s :: "'w rstate"
  shows "r_cache (snd (DeleteModel c i s)) = r_cache s" "r_cache (snd (GetModelInfoByName c n s)) = r_cache s"
  by (auto simp: DeleteModel_def GetModelInfoByName_def list_by_name_def makeRequest_def emit_def
      split: prod.splits sum.splits)

fun deletes :: "effect \<Rightarrow> string option" where
  "deletes (Http m p (Some (JObj [(k, JStr i)]))) =
     (if m = ''POST'' \<and> p = ''/model/delete'' \<and> k = ''id'' then Some i else None)"
| "deletes _ = None"

fun is_create :: "effect \<Rightarrow> bool" where
  "is_create (Http m p _) = (m = ''POST'' \<and> p = ''/model/new'')"
| "is_create _ = False"

fun is_object_update :: "effect \<Rightarrow> bool" where
  "is_object_update (ObjectUpdate _) = True"
| "is_object_update _ = False"

lemma report_neither: "is_report e \<Longrightarrow> \<not> is_create e \<and> \<not> is_object_update e \<and> \<not> is_mutation e \<and> deletes e = None"
  by (cases e) auto

lemma delete_remote_emits:
  assumes "P (Http ''POST'' ''/model/delete'' (Some (JObj [(''id'', JStr i)])))" and "\<And>e. is_report e \<Longrightarrow> P e"
  shows "emits P s (snd (delete_remote model policy client site i s))"
proof -
  obtain r s1 where c: "DeleteModel client i s = (r, s1)" by fastforce
  then have e: "emits P s s1" using call_emits(3) [of P i s client] assms(1) by simp
  have ack: "emits P s (snd (ack_missing model policy m p s1))" for m p
    using e emits_reports [OF ack_missing_reports assms(2)] by (rule emits_trans)
  show ?thesis
    using e ack assms(2)
    by (auto simp: delete_remote_def c onConfirmedAbsent_def DeletionBlocked_Forget_def Let_def
        split: sum.splits intro!: emits_then_emit)
qed

lemma delete_by_name_emits:
  assumes "\<And>p. P (Http ''GET'' p None)" and "\<And>j. P (Http ''POST'' ''/model/delete'' j)"
    and "\<And>e. is_report e \<Longrightarrow> P e"
  shows "emits P s (snd (delete_by_name model policy client s))"
proof -
  obtain r s1 where c: "GetModelInfoByName client (Name (m_Meta model)) s = (r, s1)" by fastforce
  then have e: "emits P s s1" using call_emits(4) [of P "Name (m_Meta model)" s client] assms by simp
  have ack: "emits P s (snd (ack_missing model policy m p s1))" for m p
    using e emits_reports [OF ack_missing_reports] assms by (blast intro: emits_trans)
  have del: "emits P s (snd (delete_remote model policy client site i s1))" for site i
    using e delete_remote_emits [of P i s1] assms by (auto intro: emits_trans)
  show ?thesis
    using e ack del assms
    by (auto simp: delete_by_name_def c onConfirmedAbsent_def DeletionBlocked_Forget_def
        split: sum.splits option.splits intro!: emits_then_emit)
qed

lemma release_emits:
  assumes "\<And>p. P (Http ''GET'' p None)" and "\<And>j. P (Http ''POST'' ''/model/delete'' j)"
    and "\<And>e. is_report e \<Longrightarrow> P e"
  shows "emits P s (snd (release_remote model s))"
  using assms
  by (auto simp: release_remote_def Let_def ackUnavailable_def
      split: bool.splits option.splits
      intro: delete_remote_emits delete_by_name_emits emits_reports [OF ack_missing_reports])

subsection \<open>When a deletion goes through\<close>

definition acknowledged :: "Policy \<Rightarrow> lerror + unit \<Rightarrow> bool" where
  "acknowledged policy r =
     (case r of
        Inr _ \<Rightarrow> True
      | Inl e \<Rightarrow> as_auth401 e = None \<and> (IsNotFound e \<or> is4xxStatus e \<and> policy = Orphan))"

lemma ack_missing_Next: "fst (ack_missing model policy m p s) = Next () \<longleftrightarrow> policy = Orphan \<and> p"
  using ackMissing_None_iff [of modelKind "Namespace (m_Meta model)" "Name (m_Meta model)" policy m p s]
  by (cases "newAckMissingFn modelKind (Namespace (m_Meta model)) (Name (m_Meta model)) policy m p s")
    (auto simp: ack_missing_def split: option.splits)

lemma delete_remote_Next:
  "fst (delete_remote model policy client site i s) = Next () \<longleftrightarrow>
     acknowledged policy (fst (DeleteModel client i s))"
proof -
  obtain r s1 where c: "DeleteModel client i s = (r, s1)" by fastforce
  show ?thesis
    by (auto simp: delete_remote_def c acknowledged_def Let_def ack_missing_Next split: sum.splits)
qed

definition may_release :: "LiteLLMModel \<Rightarrow> 'w rstate \<Rightarrow> bool" where
  "may_release model s =
     (let snap = Snapshot (r_cache s); policy = Resolve (m_Meta model) (sp_DeletionPolicy (m_Spec model)) in
      if Usable snap then
        (let client = the (snap_Client snap) in
         if model_id model \<noteq> [] then acknowledged policy (fst (DeleteModel client (model_id model) s))
         else
           (case GetModelInfoByName client (Name (m_Meta model)) s of
              (Inl _, _) \<Rightarrow> False
            | (Inr None, _) \<Rightarrow> True
            | (Inr (Some row), s1) \<Rightarrow> acknowledged policy (fst (DeleteModel client (mi_ID (mir_ModelInfo row)) s1))))
      else policy = Orphan \<and> snap_Reason snap = reasonAbsent)"

lemma release_remote_Next: "fst (release_remote model s) = Next () \<longleftrightarrow> may_release model s"
proof -
  let ?name = "GetModelInfoByName (the (snap_Client (Snapshot (r_cache s)))) (Name (m_Meta model)) s"
  obtain r s1 where n: "?name = (r, s1)" by fastforce
  show ?thesis
    using n
    by (cases "snap_Client (Snapshot (r_cache s))"; cases "snap_Ready (Snapshot (r_cache s))")
      (auto simp: may_release_def release_remote_def delete_by_name_def Usable_def Let_def ackUnavailable_def
        ack_missing_Next delete_remote_Next split: option.split sum.split)
qed

lemma set_world_simps [simp]: "r_cache (set_world w s) = r_cache s" "log (set_world w s) = log s"
  by (simp_all add: set_world_def)

lemma emits_mem: "emits P s s' \<Longrightarrow> e \<in> set (drop (length (log s)) (log s')) \<Longrightarrow> P e"
  by (auto simp: emits_def list_all_iff)

lemma drop_log_trans:
  "emits P s s1 \<Longrightarrow> log s2 = log s1 @ xs \<Longrightarrow> \<exists>ys. drop (length (log s)) (log s2) = ys @ xs \<and> list_all P ys"
  by (auto simp: emits_def)

lemma drop_finalizer_log:
  "\<exists>xs. log (snd (drop_finalizer R key model s)) = log s @ xs @
     [ObjectUpdate (RemoveFinalizer (sv_lib R) (Finalizers (m_Meta model)) modelFinalizer)] \<and> list_all is_report xs"
  by (auto simp: drop_finalizer_def DeletionBlocked_Forget_def churn_Forget_def emit_def set_world_def Let_def
      case_prod_beta split: option.splits)

lemma delete_updates:
  assumes "ContainsFinalizer (sv_lib R) (Finalizers (m_Meta model)) modelFinalizer"
  shows "ObjectUpdate fs \<in> set (drop (length (log s)) (log (snd (reconcile_delete R key model s)))) \<longleftrightarrow>
    may_release model s \<and> fs = RemoveFinalizer (sv_lib R) (Finalizers (m_Meta model)) modelFinalizer"
proof -
  obtain f s1 where r: "release_remote model s = (f, s1)" by fastforce
  have e: "emits (\<lambda>e. is_http e \<or> is_report e) s s1"
    using release_emits [of "\<lambda>e. is_http e \<or> is_report e" s model] r by simp
  show ?thesis
  proof (cases f)
    case (Return v)
    then have "\<not> may_release model s" using release_remote_Next [of model s] r by simp
    then show ?thesis
      using emits_mem [OF e] Return r assms by (fastforce simp: reconcile_delete_def)
  next
    case (Next u)
    then have m: "may_release model s" using release_remote_Next [of model s] r by simp
    obtain xs where xs: "log (snd (drop_finalizer R key model s1)) = log s1 @ xs @
      [ObjectUpdate (RemoveFinalizer (sv_lib R) (Finalizers (m_Meta model)) modelFinalizer)]" "list_all is_report xs"
      using drop_finalizer_log by blast
    obtain ys where ys: "log s1 = log s @ ys" "list_all (\<lambda>e. is_http e \<or> is_report e) ys"
      using e by (auto simp: emits_def)
    have "ObjectUpdate fs \<notin> set ys" "ObjectUpdate fs \<notin> set xs"
      using ys(2) xs(2) by (auto simp: list_all_iff)
    then show ?thesis
      using m Next r assms by (auto simp: reconcile_delete_def xs(1) ys(1))
  qed
qed

subsection \<open>Counting creates\<close>

definition creates_upto :: "nat \<Rightarrow> 'w rstate \<Rightarrow> 'w rstate \<Rightarrow> bool" where
  "creates_upto n s s' \<longleftrightarrow> (\<exists>xs. log s' = log s @ xs \<and> length (filter is_create xs) \<le> n)"

lemma creates_none: "emits (\<lambda>e. \<not> is_create e) s s' \<Longrightarrow> creates_upto n s s'"
  unfolding emits_def creates_upto_def list_all_iff
  by (metis (no_types, lifting) filter_False le0 list.size(3))

lemma creates_trans: "creates_upto m s s1 \<Longrightarrow> creates_upto n s1 s2 \<Longrightarrow> creates_upto (m + n) s s2"
  unfolding creates_upto_def by (metis add_mono append.assoc filter_append length_append)

lemma creates_then_none: "creates_upto n s s1 \<Longrightarrow> emits (\<lambda>e. \<not> is_create e) s1 s2 \<Longrightarrow> creates_upto n s s2"
  using creates_trans [of n s s1 0 s2] creates_none [of s1 s2 0] by simp

lemma creates_report: "emits is_report s s' \<Longrightarrow> emits (\<lambda>e. \<not> is_create e) s s'"
  by (erule emits_mono) (simp add: report_neither)

lemma create_once: "creates_upto 1 s (snd (CreateModel c d s))"
  by (simp add: creates_upto_def client_log)

lemma probe_lookup_emits: "emits (\<lambda>e. \<not> is_mutation e) s (snd (snd (probe_lookup c model s)))"
  using call_emits(5) [of "\<lambda>e. \<not> is_mutation e" "Name (m_Meta model)" s c]
  by (auto simp: probe_lookup_def split: prod.splits sum.splits)

lemma probe_emits: "emits (\<lambda>e. \<not> is_mutation e) s (snd (probe_step model client rd s))"
proof -
  obtain r ids s1 where l: "probe_lookup client model s = (r, ids, s1)" by (metis prod_cases3)
  then have "emits (\<lambda>e. \<not> is_mutation e) s s1" using probe_lookup_emits [of s client model] by simp
  then show ?thesis
    by (auto simp: probe_step_def probeVanishedResourceID_def l split: sum.splits
        intro: emits_trans [OF _ invalidate_cache_emits])
qed

lemma mutation_create: "\<not> is_mutation e \<Longrightarrow> \<not> is_create e"
  by (cases e) auto

lemma probe_no_create: "emits (\<lambda>e. \<not> is_create e) s (snd (probe_step model client rd s))"
  by (rule emits_mono [OF probe_emits]) (rule mutation_create)

lemma prune_rows_emits:
  "emits (\<lambda>e. is_report e \<or> (\<exists>i. i \<noteq> keep \<and> deletes e = Some i)) s (prune_rows client keep ids s)"
proof (induction client keep ids s rule: prune_rows.induct)
  case (2 client keep i ids s)
  let ?P = "\<lambda>e. is_report e \<or> (\<exists>i. i \<noteq> keep \<and> deletes e = Some i)"
  have "i \<noteq> keep \<Longrightarrow> emits ?P s (snd (DeleteModel client i s))"
    by (rule call_emits) simp
  then have "emits ?P s (if i = keep then s else case DeleteModel client i s of (Inl _, s) \<Rightarrow> s
      | (Inr _, s) \<Rightarrow> emit (Metric ''DriftCorrectedTotal'' [''model'', ''duplicate_pruned'']) s)"
    by (auto split: prod.splits sum.splits intro!: emits_then_emit)
  then show ?case using 2 by (auto intro: emits_trans)
qed simp

lemma prune_emits:
  "emits (\<lambda>e. is_report e \<or> (\<exists>i. i \<noteq> model_id model \<and> deletes e = Some i)) s (prune_step model client rd ids s)"
  by (simp add: prune_step_def prune_rows_emits)

lemma deletes_no_create: "deletes e = Some i \<Longrightarrow> \<not> is_create e"
  by (cases e rule: deletes.cases) (auto split: if_splits)

lemma prune_no_create: "emits (\<lambda>e. \<not> is_create e) s (prune_step model client rd ids s)"
  by (rule emits_mono [OF prune_emits]) (use deletes_no_create report_neither in blast)

lemma create_new_creates: "creates_upto 1 s (snd (create_new R key model client rd s))"
proof -
  obtain t s1 where t: "read_clock R s = (t, s1)" by fastforce
  obtain r s2 where c: "CreateModel client (create_request R model (sv_rfc3339 R t) rd) s1 = (r, s2)" by fastforce
  have "creates_upto 1 s s2"
    using creates_trans [OF creates_none [OF read_clock_emits [OF t], of 0] create_once]
    by (metis add_0 c snd_conv)
  then show ?thesis
    by (auto simp: create_new_def t c split: sum.splits
        intro: creates_then_none [OF _ creates_report [OF classify_reports]]
          creates_then_none [OF _ creates_report [OF drift_metric_reports [THEN emits_trans, OF churn_ops_emits(2)]]])
qed

lemma adopt_no_create: "emits (\<lambda>e. \<not> is_create e) s (snd (adopt R model client rd i s))"
proof -
  obtain r s1 where c: "UpdateModel client (update_request R model i rd) s = (r, s1)" by fastforce
  then have "emits (\<lambda>e. \<not> is_create e) s s1"
    using call_emits(2) [of "\<lambda>e. \<not> is_create e" "update_request R model i rd" s client] by simp
  then show ?thesis
    by (auto simp: adopt_def c split: sum.splits intro: emits_trans [OF _ creates_report [OF classify_reports]])
qed

lemma create_path_creates: "creates_upto 1 s (snd (create_path R key model client rd s))"
proof (cases "throttle_step R key model s")
  case (Pair f s1)
  have e: "emits (\<lambda>e. \<not> is_create e) s s1"
    using creates_report [OF throttle_reports, of s R key model] Pair by simp
  obtain r s2 where g: "GetModelInfoByName client (Name (m_Meta model)) s1 = (r, s2)" by fastforce
  have "emits (\<lambda>e. \<not> is_create e) s1 s2"
    using call_emits(4) [of "\<lambda>e. \<not> is_create e" "Name (m_Meta model)" s1 client] g by simp
  then have e2: "emits (\<lambda>e. \<not> is_create e) s s2" by (rule emits_trans [OF e])
  have new: "creates_upto 1 s (snd (create_new R key model client rd s2))"
    using creates_trans [OF creates_none [OF e2, of 0] create_new_creates] by simp
  have ad: "creates_upto 1 s (snd (adopt R model client rd i s2))" for i
    by (rule creates_none [OF emits_trans [OF e2 adopt_no_create]])
  show ?thesis
    using e e2 new ad Pair g
    by (cases f) (auto simp: create_path_def andThen_def intro: creates_none split: sum.splits option.splits)
qed

lemma recreate_creates: "creates_upto 1 s (snd (recreate R model client rd s))"
proof -
  obtain r s1 where d: "DeleteModel client (model_id model) s = (r, s1)" by fastforce
  obtain t s2 where t: "read_clock R s1 = (t, s2)" by fastforce
  obtain r' s3 where c: "CreateModel client (create_request R model (sv_rfc3339 R t) rd) s2 = (r', s3)" by fastforce
  have "emits (\<lambda>e. \<not> is_create e) s s1"
    using call_emits(3) [of "\<lambda>e. \<not> is_create e" "model_id model" s client] d by simp
  moreover from this have "emits (\<lambda>e. \<not> is_create e) s s2"
    by (rule emits_trans [OF _ read_clock_emits [OF t]])
  moreover from this have "creates_upto 1 s s3"
    using creates_trans [OF creates_none [of s s2 0] create_once] c by (metis add_0 snd_conv)
  ultimately show ?thesis
    by (auto simp: recreate_def d t c split: sum.splits
        intro: creates_then_none [OF _ creates_report [OF classify_reports]]
          creates_then_none [OF _ creates_report [OF drift_metric_reports]]
          creates_none emits_trans [OF _ creates_report [OF classify_reports]])
qed

lemma update_path_creates: "creates_upto 1 s (snd (update_path R model client rd s))"
proof -
  obtain r s1 where c: "UpdateModel client (update_request R model (model_id model) rd) s = (r, s1)" by fastforce
  then have "emits (\<lambda>e. \<not> is_create e) s s1"
    using call_emits(2) [of "\<lambda>e. \<not> is_create e" "update_request R model (model_id model) rd" s client] by simp
  then have "emits (\<lambda>e. \<not> is_create e) s (snd (update_path R model client rd s))" if "\<not> must_recreate model rd"
    using that by (auto simp: update_path_def c split: sum.splits
        intro: emits_trans [OF _ creates_report [OF classify_reports]]
          emits_trans [OF _ creates_report [OF drift_metric_reports]])
  then show ?thesis
    using recreate_creates [of s R model client rd]
    by (cases "must_recreate model rd") (auto simp: update_path_def intro: creates_none)
qed

lemma apply_creates: "creates_upto 1 s (snd (apply_step R key model client rd s))"
  using create_path_creates [of s R key model client rd] update_path_creates [of s R model client rd]
  by (simp add: apply_step_def)

lemma andThen_creates:
  assumes "emits (\<lambda>e. \<not> is_create e) s (snd (m s))"
    and "\<And>a s1. m s = (Next a, s1) \<Longrightarrow> creates_upto n s1 (snd (f a s1))"
  shows "creates_upto n s (snd (andThen m f s))"
proof (cases "m s")
  case (Pair x s1)
  then show ?thesis
    using assms creates_trans [OF creates_none [of s s1 0], of n]
    by (cases x) (auto simp: andThen_def intro: creates_none)
qed

lemma converge_creates: "creates_upto 1 s (snd (converge R key client rd model s))"
proof (cases "is_steady model rd")
  case True
  then show ?thesis
    using creates_none [OF creates_report [OF steady_reports], of 1 s R key model] by (simp add: converge_def)
next
  case False
  obtain f s1 where a: "apply_step R key model client rd s = (f, s1)" by fastforce
  then have "creates_upto 1 s s1" using apply_creates [of s R key model client rd] by simp
  then show ?thesis
    using False a creates_then_none [OF _ creates_report [OF finish_reports]]
    by (cases f) (auto simp: converge_def)
qed

lemma pruned_converge_creates: "creates_upto 1 s (snd (converge R key client rd model (prune_step model client rd ids s)))"
  using creates_trans [OF creates_none [OF prune_no_create, of 0] converge_creates] by simp

lemma live_creates: "creates_upto 1 s (snd (reconcile_live R key model s))"
  unfolding reconcile_live_def
proof (rule andThen_creates [OF creates_report [OF gate_reports]], clarify)
  fix snap client s1
  show "creates_upto 1 s1 (snd (andThen (prepare R model snap) (\<lambda>rd.
     andThen (probe_step model client rd) (\<lambda>(model, ids) s.
       converge R key client rd model (prune_step model client rd ids s))) s1))"
    by (intro andThen_creates [OF creates_report [OF prepare_reports]] andThen_creates [OF probe_no_create], clarify)
      (rule pruned_converge_creates)
qed

lemma add_finalizer_log:
  "log (snd (add_finalizer R model s)) =
     log s @ [ObjectUpdate (AddFinalizer (sv_lib R) (Finalizers (m_Meta model)) modelFinalizer)]"
  by (auto simp: add_finalizer_def emit_def set_world_def Let_def case_prod_beta split: option.splits)

lemma drop_finalizer_emits: "(\<And>e. is_report e \<or> is_object_update e \<Longrightarrow> P e) \<Longrightarrow> emits P s (snd (drop_finalizer R key model s))"
  using drop_finalizer_log [of R key model s] by (auto simp: emits_def list_all_iff)

lemma delete_emits:
  assumes "\<And>p. P (Http ''GET'' p None)" and "\<And>j. P (Http ''POST'' ''/model/delete'' j)"
    and "\<And>e. is_report e \<or> is_object_update e \<Longrightarrow> P e"
  shows "emits P s (snd (reconcile_delete R key model s))"
  using assms by (auto simp: reconcile_delete_def intro!: emits_andThen release_emits drop_finalizer_emits)

lemma add_finalizer_emits: "(\<And>e. is_object_update e \<Longrightarrow> P e) \<Longrightarrow> emits P s (snd (add_finalizer R model s))"
  by (simp add: emits_def add_finalizer_log)

text \<open>The three branches of the handler, each on the state after the object was read.\<close>

lemma Reconcile_cases:
  obtains (unread) e w where "Reconcile R key s = (if IsNotFoundK e then Inr no_requeue else Inl (KubeErr e), set_world w s)"
  | (deleting) model w where "kc_get (sv_kube R) (world s) key = (Inr model, w)" "DeletionTimestamp (m_Meta model)"
      "snd (Reconcile R key s) = snd (reconcile_delete R key model (set_world w s))"
  | (new) model w where "kc_get (sv_kube R) (world s) key = (Inr model, w)" "\<not> DeletionTimestamp (m_Meta model)"
      "\<not> ContainsFinalizer (sv_lib R) (Finalizers (m_Meta model)) modelFinalizer"
      "snd (Reconcile R key s) = snd (add_finalizer R model (set_world w s))"
  | (live) model w where "kc_get (sv_kube R) (world s) key = (Inr model, w)" "\<not> DeletionTimestamp (m_Meta model)"
      "ContainsFinalizer (sv_lib R) (Finalizers (m_Meta model)) modelFinalizer"
      "snd (Reconcile R key s) = snd (reconcile_live R key model (set_world w s))"
proof (cases "kc_get (sv_kube R) (world s) key")
  case (Pair r w)
  show ?thesis
  proof (cases r)
    case (Inl e)
    then show ?thesis using Pair by (intro unread [of e w]) (simp add: Reconcile_def)
  next
    case (Inr model)
    then show ?thesis
      using Pair deleting [of model w] new [of model w] live [of model w]
      by (auto simp: Reconcile_def Let_def case_prod_beta split: if_splits)
  qed
qed

lemma after_read: "emits P (set_world w s) s' \<Longrightarrow> emits P s s'"
  by (simp add: emits_def set_world_def)

text \<open>A small concrete cluster for the witnesses: one stored object and no Secrets.\<close>

definition example_model :: "bool \<Rightarrow> string \<Rightarrow> string \<Rightarrow> LiteLLMModel" where
  "example_model deleting hash i = \<lparr>
     m_Meta = \<lparr>Namespace = ''ns'', Name = ''gpt'', Generation = 1, DeletionTimestamp = deleting,
       Finalizers = [modelFinalizer], Annotations = [], OwnerReferences = []\<rparr>,
     m_Spec = \<lparr>sp_Params = RawEmpty, sp_Info = RawEmpty, sp_Secrets = [], sp_DeletionPolicy = ''''\<rparr>,
     m_Status = \<lparr>ms_ObservedGeneration = 1, ms_Conditions = [], ms_LastRendered =
       \<lparr>lr_Hash = hash, lr_ParamsKeys = [], lr_InfoKeys = [], lr_InfoHash = '''', lr_ModelID = i, lr_At = None\<rparr>\<rparr>\<rparr>"

definition example_R :: "LiteLLMModel \<Rightarrow> unit ModelReconciler" where
  "example_R m = \<lparr>
     sv_kube = \<lparr>kc_get = (\<lambda>w k. (Inr m, w)), kc_update = (\<lambda>w o'. (None, w)), kc_status_update = (\<lambda>w o'. (Inr o', w))\<rparr>,
     sv_secret = (\<lambda>w k. (Inl KNotFound, w)), sv_now = (\<lambda>w. (0, w)), sv_rfc3339 = (\<lambda>_. ''t''),
     sv_sha256hex = (\<lambda>_. ''h''), sv_lib = klib_std, sv_retries = 4, sv_includeBody = False, sv_version = ''dev'',
     RecreateLimit = 10, DefaultAccessGroup = ''''\<rparr>"

definition absent_state :: "unit rstate" where
  "absent_state = example_state\<lparr>r_cache := Rebuild NewCache (zero_snapshot\<lparr>snap_Reason := ''Absent''\<rparr>)\<rparr>"

lemma absent_snapshot: "Snapshot (r_cache absent_state) = zero_snapshot\<lparr>snap_Reason := ''Absent''\<rparr>"
  by (simp add: absent_state_def Snapshot_def Rebuild_def NewCache_def zero_snapshot_def Let_def)

subsection \<open>Properties of the handler\<close>

text \<open>
  C1.  When is the finalizer of a deleted model released?  With a usable connection: exactly when
  LiteLLM acknowledged the delete, or confirmed that the entry is absent (404 on the delete, or the
  name lookup found no row), or refused it with another 4xx while the policy is Orphan.  Without
  one: exactly when the connection is gone for good and the policy is Orphan.  So a 401, an outage
  or a server error never releases it, under either policy.
\<close>

theorem finalizer_released_iff:
  assumes "kc_get (sv_kube R) (world s) key = (Inr model, w)" and "DeletionTimestamp (m_Meta model)"
    and "klib_laws (sv_lib R)" and "modelFinalizer \<in> set (Finalizers (m_Meta model))"
  shows "(\<exists>fs. ObjectUpdate fs \<in> set (drop (length (log s)) (log (snd (Reconcile R key s)))) \<and> modelFinalizer \<notin> set fs)
    \<longleftrightarrow> may_release model (s\<lparr>world := w\<rparr>)"
proof -
  note K = klib_lawsD(6,8) [OF assms(3)]
  have run: "snd (Reconcile R key s) = snd (reconcile_delete R key model (set_world w s))"
    using assms(1,2) by (simp add: Reconcile_def Let_def case_prod_beta)
  have "log (set_world w s) = log s" by (simp add: set_world_def)
  then show ?thesis
    using delete_updates [of R model _ "set_world w s" key] K assms(4)
    by (auto simp: run set_world_def)
qed

theorem finalizer_released_iff_witness:
  "\<exists>fs. ObjectUpdate fs \<in> set (drop 0 (log (snd (Reconcile (example_R (example_model True ''h'' ''m1'')) (''ns'', ''gpt'') absent_state))))
     \<and> modelFinalizer \<notin> set fs"
proof -
  have "may_release (example_model True ''h'' ''m1'') absent_state"
    by (simp add: may_release_def absent_snapshot Usable_def zero_snapshot_def example_model_def Resolve_def parse_def
        reasonAbsent_def)
  then show ?thesis
    using finalizer_released_iff [of "example_R (example_model True ''h'' ''m1'')" absent_state "(''ns'', ''gpt'')"
        "example_model True ''h'' ''m1''" "()"]
    by (simp add: example_R_def example_model_def klib_std_laws absent_state_def example_state_def)
qed

text \<open>
  While the connection is not usable a reconcile sends nothing to LiteLLM, whatever the object
  and the cluster look like: no probe, no mutation, no delete.
\<close>

theorem unusable_sends_nothing:
  assumes "\<not> Usable (Snapshot (r_cache s))"
  shows "emits (\<lambda>e. \<not> is_http e) s (snd (Reconcile R key s))"
proof -
  have live': "emits (\<lambda>e. \<not> is_http e) s' (snd (reconcile_live R key model s'))"
    if "r_cache s' = r_cache s" for model s'
  proof -
    have "gate R model s' = (Next x, s1) \<Longrightarrow> False" for x s1
      using assms that
      by (auto simp: gate_def park_def Usable_def Let_def case_prod_beta split: bool.splits option.splits)
    then show ?thesis
      unfolding reconcile_live_def
      by (intro emits_andThen emits_reports [OF gate_reports]) (auto simp: report_no_http)
  qed
  have del: "emits (\<lambda>e. \<not> is_http e) s' (snd (reconcile_delete R key model s'))"
    if "r_cache s' = r_cache s" for model s'
  proof -
    have "emits (\<lambda>e. \<not> is_http e) s' (snd (release_remote model s'))"
      using assms that
      by (auto simp: release_remote_def Usable_def Let_def ackUnavailable_def report_no_http
          split: bool.splits option.splits intro: emits_reports [OF ack_missing_reports])
    moreover have "\<not> is_http e" if "is_report e \<or> is_object_update e" for e using that by (cases e) auto
    ultimately show ?thesis
      by (auto simp: reconcile_delete_def intro!: emits_andThen drop_finalizer_emits)
  qed
  show ?thesis
  proof (cases rule: Reconcile_cases [of R key s])
    case (new model w)
    have "\<not> is_http e" if "is_object_update e" for e using that by (cases e) auto
    then show ?thesis using new by (auto intro!: after_read [of _ w] add_finalizer_emits)
  next
    case (deleting model w)
    then show ?thesis using after_read [OF del [of "set_world w s"]] by simp
  next
    case (live model w)
    then show ?thesis using after_read [OF live' [of "set_world w s"]] by simp
  qed auto
qed

theorem unusable_sends_nothing_witness:
  "emits (\<lambda>e. \<not> is_http e) absent_state (snd (Reconcile (example_R (example_model False ''h'' ''m1'')) (''ns'', ''gpt'') absent_state))"
  by (rule unusable_sends_nothing) (simp add: absent_snapshot Usable_def zero_snapshot_def)

text \<open>
  C12.  A reconcile creates at most one deployment: POST /model/new is sent at most once, on every
  path, create, adopt, recreate after shrinkage, and errors included.
\<close>

theorem at_most_one_create:
  "\<exists>xs. log (snd (Reconcile R key s)) = log s @ xs \<and> length (filter is_create xs) \<le> 1"
proof -
  have "creates_upto 1 s (snd (Reconcile R key s))"
  proof (cases rule: Reconcile_cases [of R key s])
    case (deleting model w)
    have "\<not> is_create e" if "is_report e \<or> is_object_update e" for e using that by (cases e) auto
    then show ?thesis using deleting by (auto intro!: creates_none [OF after_read] delete_emits)
  next
    case (new model w)
    have "\<not> is_create e" if "is_object_update e" for e using that by (cases e) auto
    then show ?thesis using new by (auto intro!: creates_none [OF after_read] add_finalizer_emits)
  next
    case (live model w)
    then show ?thesis using live_creates [of "set_world w s" R key model] by (simp add: creates_upto_def set_world_def)
  qed (auto intro: creates_none)
  then show ?thesis unfolding creates_upto_def .
qed

lemma probe_present:
  assumes "rd_router rd \<or> (\<exists>s2. GetModelIDsByName client (Name (m_Meta model)) s1 = (Inr ids, s2))"
    and "set ids = {model_id model}" and "is_steady model rd"
  shows "\<exists>ids' s2. probe_step model client rd s1 = (Next (model, ids'), s2) \<and> (ids' = ids \<or> ids' = [])"
proof (cases "rd_router rd \<or> rd_hash rd = []")
  case True
  then show ?thesis using assms(3) by (auto simp: probe_step_def is_steady_def)
next
  case False
  then obtain s2 where "probe_lookup client model s1 = (Inr (model_id model), ids, s2)"
    using assms(1,2) by (auto simp: probe_lookup_def)
  then show ?thesis
    using False assms(3) by (simp add: probe_step_def probeVanishedResourceID_def is_steady_def)
qed

text \<open>
  C3.  Steady state is quiet: if the rendered hash, the tracked id and the generation are those of
  the last success, and LiteLLM lists exactly the tracked row (or the model is a router model, which
  LiteLLM never lists), the reconcile sends no mutating request.
\<close>

theorem steady_state_no_mutation:
  assumes read: "kc_get (sv_kube R) (world s) key = (Inr model, w)" "\<not> DeletionTimestamp (m_Meta model)"
      "ContainsFinalizer (sv_lib R) (Finalizers (m_Meta model)) modelFinalizer"
    and snap: "snap_Ready (Snapshot (r_cache s))" "snap_Client (Snapshot (r_cache s)) = Some client"
    and prep: "prepare R model (Snapshot (r_cache s)) (set_world w s) = (Next rd, s1)"
    and steady: "is_steady model rd"
    and rows: "rd_router rd \<or> (\<exists>s2. GetModelIDsByName client (Name (m_Meta model)) s1 = (Inr [model_id model], s2))"
  shows "emits (\<lambda>e. \<not> is_mutation e) s (snd (Reconcile R key s))"
proof -
  have g: "gate R model (set_world w s) = (Next (Snapshot (r_cache s), client), set_world w s)"
    using snap by (simp add: gate_def)
  have quiet: "emits is_report a b \<Longrightarrow> emits (\<lambda>e. \<not> is_mutation e) a b" for a b
    by (erule emits_mono) (simp add: report_neither)
  obtain s2 ids where p: "probe_step model client rd s1 = (Next (model, ids), s2)" "length ids \<le> 1"
    using probe_present [of rd client model s1 "[model_id model]", OF rows _ steady] by fastforce
  have "snd (reconcile_live R key model (set_world w s)) = snd (steady_step R key model s2)"
    using g prep p steady by (simp add: reconcile_live_def converge_def prune_step_def)
  moreover have "emits (\<lambda>e. \<not> is_mutation e) (set_world w s) s1"
    using quiet [OF prepare_reports, of "set_world w s" R model "Snapshot (r_cache s)"] prep by simp
  moreover have "emits (\<lambda>e. \<not> is_mutation e) s1 s2"
    using probe_emits [of s1 model client rd] p by simp
  moreover have "emits (\<lambda>e. \<not> is_mutation e) s2 (snd (steady_step R key model s2))"
    by (rule quiet [OF steady_reports])
  moreover have "snd (Reconcile R key s) = snd (reconcile_live R key model (set_world w s))"
    using read by (simp add: Reconcile_def Let_def case_prod_beta)
  ultimately show ?thesis
    by (metis after_read emits_trans)
qed

definition example_client :: "unit http" where
  "example_client = (\<lambda>w m p b. (Responded \<lparr>rs_status = 200, rs_raw = '''', rs_json = Some (JObj [(''data'',
     JArr [JObj [(''model_name'', JStr ''gpt''), (''model_info'', JObj [(''id'', JStr ''m1'')])]])])\<rparr>, w))"

definition ready_state :: "unit rstate" where
  "ready_state = example_state\<lparr>r_cache := Rebuild NewCache
     (zero_snapshot\<lparr>snap_Ready := True, snap_Client := Some example_client\<rparr>)\<rparr>"

lemma ready_snapshot:
  "Snapshot (r_cache ready_state) = zero_snapshot\<lparr>snap_Ready := True, snap_Client := Some example_client\<rparr>"
  by (simp add: ready_state_def Snapshot_def Rebuild_def NewCache_def zero_snapshot_def emitRebuilt_def Let_def)

lemma example_rows: "\<exists>s2. GetModelIDsByName example_client ''gpt'' s1 = (Inr [''m1''], s2)"
proof -
  have "decode_model_list (JObj [(''data'',
     JArr [JObj [(''model_name'', JStr ''gpt''), (''model_info'', JObj [(''id'', JStr ''m1'')])]])])
    = Some [\<lparr>mir_ModelID = '''', mir_ModelName = ''gpt'', mir_LiteLLMParams = [],
        mir_ModelInfo = zero_ModelInfo\<lparr>mi_ID := ''m1''\<rparr>\<rparr>]"
    by code_simp
  then show ?thesis
    by (simp add: GetModelIDsByName_def list_by_name_def makeRequest_def example_client_def response_of_def
        classify_response_def readCappedBody_def is2xx_def unmarshal_def zero_ModelInfo_def Let_def)
qed

definition example_rd :: rendered where
  "example_rd = \<lparr>rd_params = Some [], rd_info = Some [], rd_infoHash = ''h'', rd_hash = ''h'', rd_router = False\<rparr>"

lemma example_prepare:
  "prepare (example_R (example_model False h i)) (example_model False h i) snap s = (Next example_rd, set_world () s)"
  by (simp add: prepare_def andThen_def resolve_step_def example_model_def checkDuplicateSecretAs_def resolveSecretMap_def
      decode_step_def render_step_def substitute_bag_def Substitute_def toSortedSlice_def sorted_set_def bag_def
      ensureDefaultAccessGroup_def example_R_def infoHash_def isRouterModel_def map_del_def set_world_def example_rd_def)

theorem steady_state_no_mutation_witness:
  "emits (\<lambda>e. \<not> is_mutation e) ready_state
     (snd (Reconcile (example_R (example_model False ''h'' ''m1'')) (''ns'', ''gpt'') ready_state))"
proof (rule steady_state_no_mutation [where model = "example_model False ''h'' ''m1''" and w = "()" and client = example_client])
  show "prepare (example_R (example_model False ''h'' ''m1'')) (example_model False ''h'' ''m1'')
      (Snapshot (r_cache ready_state)) (set_world () ready_state) = (Next example_rd, set_world () (set_world () ready_state))"
    by (rule example_prepare)
  have "Name (m_Meta (example_model False ''h'' ''m1'')) = ''gpt''" "model_id (example_model False ''h'' ''m1'') = ''m1''"
    by (simp_all add: example_model_def)
  then show "rd_router example_rd \<or>
    (\<exists>s2. GetModelIDsByName example_client (Name (m_Meta (example_model False ''h'' ''m1'')))
       (set_world () (set_world () ready_state)) = (Inr [model_id (example_model False ''h'' ''m1'')], s2))"
    by (simp only: example_rows simp_thms)
qed (simp_all add: example_R_def example_model_def is_steady_def ready_snapshot klib_std_def zero_snapshot_def example_rd_def)

lemma http_or_setback:
  "emits is_setback s s' \<Longrightarrow> emits (\<lambda>e. is_http e \<or> is_setback e) s s'"
  by (erule emits_mono) simp

lemma call_step:
  "emits (\<lambda>e. is_http e \<or> is_setback e) s s1 \<Longrightarrow> emits is_setback s1 s2 \<Longrightarrow> emits (\<lambda>e. is_http e \<or> is_setback e) s s2"
  by (rule emits_trans [OF _ http_or_setback])

lemmas call_http = call_emits [where P = "\<lambda>e. is_http e \<or> is_setback e", simplified]

abbreviation calls :: "'w rstate \<Rightarrow> 'w rstate \<Rightarrow> bool" where
  "calls \<equiv> emits (\<lambda>e. is_http e \<or> is_setback e)"

lemma adopt_calls: "calls s (snd (adopt R model client rd i s))"
  using call_http(2) [of s client "update_request R model i rd"]
  by (auto simp: adopt_def split: prod.splits sum.splits intro: call_step [OF _ classify_setback])

lemma create_new_calls: "calls s (snd (create_new R key model client rd s))"
proof -
  obtain t s1 where t: "read_clock R s = (t, s1)" by fastforce
  obtain r s2 where c: "CreateModel client (create_request R model (sv_rfc3339 R t) rd) s1 = (r, s2)" by fastforce
  have "calls s s2"
    using emits_trans [OF read_clock_emits [OF t] call_http(1) [of s1 client "create_request R model (sv_rfc3339 R t) rd"]] c
    by simp
  then show ?thesis
    by (auto simp: create_new_def t c split: sum.splits
        intro: call_step [OF _ classify_setback] call_step [OF _ emits_trans [OF drift_metric_setback churn_ops_emits(2)]])
qed

lemma create_path_calls: "calls s (snd (create_path R key model client rd s))"
proof (cases "throttle_step R key model s")
  case (Pair f s1)
  have e: "calls s s1" using http_or_setback [OF throttle_setback, of s R key model] Pair by simp
  obtain r s2 where g: "GetModelInfoByName client (Name (m_Meta model)) s1 = (r, s2)" by fastforce
  then have "calls s s2" using emits_trans [OF e call_http(4) [of s1 client "Name (m_Meta model)"]] by simp
  then show ?thesis
    using e Pair g
    by (cases f) (auto simp: create_path_def split: sum.splits option.splits
        intro: emits_trans [OF _ adopt_calls] emits_trans [OF _ create_new_calls])
qed

lemma recreate_calls: "calls s (snd (recreate R model client rd s))"
proof -
  obtain r s1 where d: "DeleteModel client (model_id model) s = (r, s1)" by fastforce
  obtain t s2 where t: "read_clock R s1 = (t, s2)" by fastforce
  obtain r' s3 where c: "CreateModel client (create_request R model (sv_rfc3339 R t) rd) s2 = (r', s3)" by fastforce
  have "calls s s1" using call_http(3) [of s client "model_id model"] d by simp
  moreover from this have "calls s s3"
    using emits_trans [OF emits_trans [OF _ read_clock_emits [OF t]] call_http(1) [of s2 client "create_request R model (sv_rfc3339 R t) rd"]] c
    by simp
  ultimately show ?thesis
    by (auto simp: recreate_def d t c split: sum.splits
        intro: call_step [OF _ classify_setback] call_step [OF _ drift_metric_setback])
qed

lemma apply_setback: "calls s (snd (apply_step R key model client rd s))"
proof -
  have "calls s (snd (update_path R model client rd s))"
    using call_http(2) [of s client "update_request R model (model_id model) rd"] recreate_calls [of s R model client rd]
    by (auto simp: update_path_def split: prod.splits sum.splits
        intro: call_step [OF _ classify_setback] call_step [OF _ drift_metric_setback])
  then show ?thesis
    using create_path_calls [of s R key model client rd] by (simp add: apply_step_def)
qed



text \<open>
  A status write never blanks a persisted remote id: if every read of the object returns one
  that tracks a remote id, then each status the reconciler writes carries a non-empty id, on every
  retry and even when the probe has cleared the id in memory.
\<close>

theorem writeStatus_keeps_id:
  assumes "\<And>w f w'. kc_get (sv_kube R) w (model_key model) = (Inr f, w') \<Longrightarrow> model_id f \<noteq> ''''"
  shows "emits (\<lambda>e. \<forall>c i. e = StatusWrite c i \<longrightarrow> i \<noteq> '''') s (snd (snd (writeStatus R model status reason msg s)))"
proof -
  have "i \<noteq> ''''" if "kc_get (sv_kube R) w (model_key model) = (Inr f, w')"
    "i = model_id (fst (apply_status (sv_lib R) c gen d f))" for w w' f c gen d i
    using assms [OF that(1)] that(2) by (auto simp: apply_status_def keepPersistedID_def Let_def)
  then show ?thesis
    by (auto simp: writeStatus_def recordReconcileMetric_def Let_def case_prod_beta
        intro!: emits_then_emit writeStatusWithRetry_emits)
qed

theorem writeStatus_keeps_id_witness:
  "emits (\<lambda>e. \<forall>c i. e = StatusWrite c i \<longrightarrow> i \<noteq> '''') ready_state
     (snd (snd (writeStatus (example_R (example_model False ''h'' ''m1'')) (example_model False ''h'' '''')
        ConditionFalse ''LiteLLMRejected'' ''m'' ready_state)))"
  by (rule writeStatus_keeps_id) (simp add: example_R_def example_model_def)

lemma Substitute_same_names:
  assumes "dom (map_of m1) = dom (map_of m2)"
  shows "snd (Substitute body m1) = snd (Substitute body m2) \<and> keys (fst (Substitute body m1)) = keys (fst (Substitute body m2))"
proof -
  have "(map_of m1 n = None) = (map_of m2 n = None)" for n using assms by (metis domIff)
  then show ?thesis
    using walk_names(3) [of m1 body] walk_names(3) [of m2 body] walkMap_keys [of m1 body] walkMap_keys [of m2 body]
    by (auto simp: Substitute_def split: prod.splits)
qed

lemma substitute_bag_same_names:
  assumes "dom (map_of m1) = dom (map_of m2)"
  shows "snd (substitute_bag b m1) = snd (substitute_bag b m2)
    \<and> (map_of (bag (fst (substitute_bag b m1))) k = None) = (map_of (bag (fst (substitute_bag b m2))) k = None)"
proof (cases b)
  case (Some body)
  have "(map_of (fst (Substitute body m1)) k = None) = (map_of (fst (Substitute body m2)) k = None)"
    using Substitute_same_names [OF assms, of body] by (metis list.set_map map_of_eq_None_iff)
  then show ?thesis
    using Substitute_same_names [OF assms, of body] Some
    by (auto simp: substitute_bag_def bag_def split: prod.splits)
qed (simp add: substitute_bag_def)

text \<open>
  C23.  Secret values reach nothing a cluster user can read: between resolving the Secrets and
  calling LiteLLM the reconciler logs the same events, status conditions and metrics for any two
  substitution maps that define the same names.
\<close>

theorem render_hides_secret_values:
  assumes "dom (map_of m1) = dom (map_of m2)"
  shows "log (snd (render_step R model snap m1 bags s)) = log (snd (render_step R model snap m2 bags s))"
proof -
  obtain params info where b: "bags = (params, info)" by fastforce
  obtain p1 r miss p2 where p: "substitute_bag params m1 = (p1, r, miss)" "substitute_bag params m2 = (p2, r, miss)"
    using substitute_bag_same_names [OF assms, of params] by (metis prod.collapse)
  obtain i1 ri missi i2 where i: "substitute_bag info m1 = (i1, ri, missi)" "substitute_bag info m2 = (i2, ri, missi)"
    using substitute_bag_same_names [OF assms, of info] by (metis prod.collapse)
  have "(map_of (bag i1) ''id'' = None) = (map_of (bag i2) ''id'' = None)"
    using substitute_bag_same_names [OF assms, of info "''id''"] i by simp
  then show ?thesis
    by (auto simp: render_step_def b p i Let_def split: list.split option.split)
qed

theorem render_hides_secret_values_witness:
  "log (snd (render_step (example_R (example_model False '''' '''')) (example_model False '''' '''') zero_snapshot
      [(''K'', ''sk-one'')] (Some [(''api_key'', JStr ''{{K}}'')], Some []) ready_state))
   = log (snd (render_step (example_R (example_model False '''' '''')) (example_model False '''' '''') zero_snapshot
      [(''K'', ''sk-two'')] (Some [(''api_key'', JStr ''{{K}}'')], Some []) ready_state))"
  by (rule render_hides_secret_values) simp

lemma http_only: "list_all is_report xs \<Longrightarrow> filter is_http xs = []"
  by (auto simp: filter_empty_conv list_all_iff report_no_http)

lemma reports_no_requests: "emits is_report s s' \<Longrightarrow> \<exists>xs. log s' = log s @ xs \<and> filter is_http xs = []"
  using http_only by (auto simp: emits_def)

lemma request_then_reports:
  assumes "log s1 = log s @ [e]" "is_http e" "emits is_report s1 s2"
  shows "\<exists>xs. log s2 = log s @ xs \<and> filter is_http xs = [e]"
proof -
  obtain xs where "log s2 = log s1 @ xs" "filter is_http xs = []" using reports_no_requests [OF assms(3)] by blast
  then show ?thesis using assms(1,2) by (intro exI [of _ "e # xs"]) simp
qed

lemma update_sends:
  assumes "\<not> must_recreate model rd"
  shows "\<exists>xs. log (snd (update_path R model client rd s)) = log s @ xs \<and> filter is_http xs =
    [Http ''POST'' ''/model/update'' (Some (updateDeployment_json (update_request R model (model_id model) rd)))]"
proof -
  obtain r s1 where c: "UpdateModel client (update_request R model (model_id model) rd) s = (r, s1)" by fastforce
  have "log s1 = log s @ [Http ''POST'' ''/model/update'' (Some (updateDeployment_json (update_request R model (model_id model) rd)))]"
    using client_log(2) [of client "update_request R model (model_id model) rd" s] c by simp
  moreover have "emits is_report s1 (snd (update_path R model client rd s))"
    using assms c by (auto simp: update_path_def classify_reports drift_metric_reports split: sum.split)
  ultimately show ?thesis by (intro request_then_reports) auto
qed

lemma recreate_sends:
  assumes "model_id model \<noteq> ''''"
  shows "\<exists>xs ys. log (snd (recreate R model client rd s)) = log s @ xs \<and> list_all is_create ys \<and> length ys \<le> 1 \<and>
    filter is_http xs = Http ''POST'' ''/model/delete'' (Some (JObj [(''id'', JStr (model_id model))])) # ys"
proof -
  let ?d = "Http ''POST'' ''/model/delete'' (Some (JObj [(''id'', JStr (model_id model))]))"
  obtain r s1 where d: "DeleteModel client (model_id model) s = (r, s1)" by fastforce
  have l1: "log s1 = log s @ [?d]" using client_log(3) [of client "model_id model" s] d assms by simp
  obtain t s2 where t: "read_clock R s1 = (t, s2)" by fastforce
  let ?req = "create_request R model (sv_rfc3339 R t) rd"
  obtain r' s3 where c: "CreateModel client ?req s2 = (r', s3)" by fastforce
  have l3: "log s3 = log s1 @ [Http ''POST'' ''/model/new'' (Some (Deployment_json ?req))]"
    using client_log(1) [of client ?req s2] c read_clock_log [OF t] by simp
  show ?thesis
  proof (cases r)
    case (Inl e)
    have "\<exists>xs. log (snd (recreate R model client rd s)) = log s @ xs \<and> filter is_http xs = [?d]"
      by (rule request_then_reports [OF l1]) (simp_all add: recreate_def d Inl classify_reports)
    then show ?thesis by (metis list.pred_inject(1) list.size(3) zero_le)
  next
    case (Inr u)
    have "emits is_report s3 (snd (recreate R model client rd s))"
      by (auto simp: recreate_def d Inr t c classify_reports drift_metric_reports split: sum.split)
    then obtain xs where "log (snd (recreate R model client rd s)) = log s1 @ xs"
      "filter is_http xs = [Http ''POST'' ''/model/new'' (Some (Deployment_json ?req))]"
      using request_then_reports [OF l3] by auto
    then show ?thesis
      using l1 by (intro exI [of _ "?d # xs"] exI [of _ "filter is_http xs"]) simp
  qed
qed

lemma must_recreate_iff:
  "must_recreate model rd \<longleftrightarrow>
     \<not> set (lr_ParamsKeys (last_rendered model)) \<subseteq> set (keys (bag (rd_params rd))) \<or>
     \<not> set (lr_InfoKeys (last_rendered model)) \<subseteq> set (keys (bag (rd_info rd))) \<or>
     lr_InfoHash (last_rendered model) \<notin> {'''', rd_infoHash rd}"
  by (auto simp: must_recreate_def Let_def setDiff_empty_iff set_sortedKeys)

text \<open>
  C2.  How a changed model is applied.  If a key disappeared from the params or the info, or the
  info blob changed since it was last recorded, the tracked deployment is deleted first and then at
  most one create follows, and no update is sent, because LiteLLM's update never rewrites the info
  blob; otherwise exactly one update is sent, which carries the tracked id inside its info.
\<close>

theorem update_or_recreate:
  assumes "model_id model \<noteq> ''''"
  shows "\<exists>xs. log (snd (update_path R model client rd s)) = log s @ xs \<and>
    (if \<not> set (lr_ParamsKeys (last_rendered model)) \<subseteq> set (keys (bag (rd_params rd)))
        \<or> \<not> set (lr_InfoKeys (last_rendered model)) \<subseteq> set (keys (bag (rd_info rd)))
        \<or> lr_InfoHash (last_rendered model) \<notin> {'''', rd_infoHash rd}
     then \<exists>ys. list_all is_create ys \<and> length ys \<le> 1 \<and>
       filter is_http xs = Http ''POST'' ''/model/delete'' (Some (JObj [(''id'', JStr (model_id model))])) # ys
     else filter is_http xs =
       [Http ''POST'' ''/model/update'' (Some (updateDeployment_json (update_request R model (model_id model) rd)))])"
  unfolding must_recreate_iff [symmetric]
  using update_sends [of model rd R client s] recreate_sends [OF assms, of R client rd s]
  by (cases "must_recreate model rd") (auto simp: update_path_def)

theorem update_or_recreate_witness:
  "\<exists>xs. log (snd (update_path (example_R (example_model False ''old'' ''m1'')) (example_model False ''old'' ''m1'')
      example_client example_rd ready_state)) = log ready_state @ xs \<and> length (filter is_http xs) = 1"
proof -
  have "\<not> must_recreate (example_model False ''old'' ''m1'') example_rd"
    by (simp add: must_recreate_def example_model_def example_rd_def setDiff_def)
  then show ?thesis
    using update_or_recreate [of "example_model False ''old'' ''m1''" "example_R (example_model False ''old'' ''m1'')"
        example_client example_rd ready_state]
    unfolding must_recreate_iff [symmetric] by (fastforce simp: example_model_def)
qed

text \<open>
  The breaker stops the create path before any request: for an object that is not on its first
  reconcile, a full window makes the reconcile end with the five-minute backoff, having sent nothing.
\<close>

theorem throttled_create_sends_nothing:
  assumes "\<not> firstReconcile model" and "int (fst (churn_Count R key s)) \<ge> recreate_limit R"
  shows "fst (create_path R key model client rd s) = Return (Inr (requeue_after recreateThrottleBackoff))
    \<and> emits is_setback s (snd (create_path R key model client rd s))"
proof -
  obtain n s1 where n: "churn_Count R key s = (n, s1)" by fastforce
  have th: "throttle_step R key model s = park R model reasonRecreateThrottled (throttle_message n (recreate_limit R))
      (requeue_after recreateThrottleBackoff) s1"
    using assms n by (simp add: throttle_step_def)
  obtain s2 where p: "throttle_step R key model s = (Return (Inr (requeue_after recreateThrottleBackoff)), s2)"
    unfolding th by (auto simp: park_def case_prod_beta)
  then show ?thesis
    using throttle_setback [of s R key model] by (simp add: create_path_def)
qed

theorem throttled_create_sends_nothing_witness:
  "fst (create_path ((example_R (example_model False ''h'' ''''))\<lparr>RecreateLimit := 1\<rparr>) (''ns'', ''gpt'') (example_model False ''h'' '''')
      example_client example_rd (ready_state\<lparr>r_churn := snd (Record (''ns'', ''gpt'') 0 newChurnGuard)\<rparr>))
   = Return (Inr (requeue_after recreateThrottleBackoff))"
  using throttled_create_sends_nothing
    [of "example_model False ''h'' ''''" "(example_R (example_model False ''h'' ''''))\<lparr>RecreateLimit := 1\<rparr>" "(''ns'', ''gpt'')"
      "ready_state\<lparr>r_churn := snd (Record (''ns'', ''gpt'') 0 newChurnGuard)\<rparr>" example_client example_rd]
  by (simp add: firstReconcile_def example_model_def example_R_def recreate_limit_def churn_Count_def read_clock_def
      newChurnGuard_def Record_def Count_def pruneLocked_def events_of_def churnWindow_def durations set_world_def)

end
