(* ===== verification/Model_Alias.thy ===== *)
theory Model_Alias
  imports Filters Kube "HOL-Library.Multiset"
begin

text \<open>
  Model aliases: the aggregation of all LiteLLMModelAlias objects into the one
  \<^verbatim>\<open>router_settings.model_group_alias\<close> map (\<^verbatim>\<open>modelalias_aggregate.go\<close>), and the alias objects a model
  discovery generates (\<^verbatim>\<open>modeldiscovery_aliases.go\<close>), both in \<^verbatim>\<open>internal/controller\<close>.

  \<^verbatim>\<open>sort.Slice\<close> is not stable, but its keys are the namespaced names of API objects, which are
  distinct, so its result is the sorted list; the stable \<open>sort_key\<close> stands for it.
\<close>

subsection \<open>Aggregation\<close>

record ModelAliasEntry =
  ae_Name :: string
  ae_Value :: string

record LiteLLMModelAlias =
  ma_Namespace :: string
  ma_Name :: string
  ma_Aliases :: "ModelAliasEntry list"

record AliasEntryStatus =
  as_Name :: string
  as_Applied :: bool
  as_AppliedValue :: string
  as_ConflictsWith :: string

record ModelAliasAggregate =
  Desired :: "string gomap"
  Winners :: "string gomap"
  LosersByAlias :: "string list gomap"

definition crKey :: "LiteLLMModelAlias \<Rightarrow> string" where
  "crKey m = ma_Namespace m @ ''/'' @ ma_Name m"

definition entryID :: "LiteLLMModelAlias \<Rightarrow> nat \<Rightarrow> string" where
  "entryID m idx = ma_Namespace m @ ''/'' @ ma_Name m @ ''#'' @ show_nat idx"

definition get_or :: "'v \<Rightarrow> 'v gomap \<Rightarrow> string \<Rightarrow> 'v" where
  "get_or z m k = (case map_of m k of Some v \<Rightarrow> v | None \<Rightarrow> z)"

definition WinnerOf :: "ModelAliasAggregate \<Rightarrow> string \<Rightarrow> string" where
  "WinnerOf a al = get_or '''' (Winners a) al"

definition LosersOf :: "ModelAliasAggregate \<Rightarrow> string \<Rightarrow> string list" where
  "LosersOf a al = get_or [] (LosersByAlias a) al"

definition add_alias :: "string \<Rightarrow> ModelAliasEntry \<Rightarrow> ModelAliasAggregate \<Rightarrow> ModelAliasAggregate" where
  "add_alias owner e out =
     (let out = (case map_of (Winners out) (ae_Name e) of
            Some prev \<Rightarrow> out\<lparr>LosersByAlias := map_put (ae_Name e) (LosersOf out (ae_Name e) @ [prev]) (LosersByAlias out)\<rparr>
          | None \<Rightarrow> out)
      in out\<lparr>Desired := map_put (ae_Name e) (ae_Value e) (Desired out),
             Winners := map_put (ae_Name e) owner (Winners out)\<rparr>)"

fun add_entries :: "LiteLLMModelAlias \<Rightarrow> nat \<Rightarrow> ModelAliasEntry list \<Rightarrow> ModelAliasAggregate \<Rightarrow> ModelAliasAggregate" where
  "add_entries cr i [] out = out"
| "add_entries cr i (e # es) out = add_entries cr (Suc i) es (add_alias (entryID cr i) e out)"

definition AggregateModelAliases :: "LiteLLMModelAlias list \<Rightarrow> ModelAliasAggregate" where
  "AggregateModelAliases items =
     (let out = \<lparr>Desired = [], Winners = [], LosersByAlias = []\<rparr> in
      if length items = 0 then out
      else fold (\<lambda>cr. add_entries cr 0 (ma_Aliases cr)) (sort_key crKey items) out)"

definition ResolveCR :: "ModelAliasAggregate \<Rightarrow> LiteLLMModelAlias \<Rightarrow> AliasEntryStatus list" where
  "ResolveCR a cr =
     map (\<lambda>(i, e).
       let ownerID = entryID cr i; winnerID = WinnerOf a (ae_Name e) in
       if winnerID = ownerID
       then \<lparr>as_Name = ae_Name e, as_Applied = True, as_AppliedValue = ae_Value e, as_ConflictsWith = ''''\<rparr>
       else \<lparr>as_Name = ae_Name e, as_Applied = False, as_AppliedValue = '''', as_ConflictsWith = winnerID\<rparr>)
     (enumerate 0 (ma_Aliases cr))"

subsection \<open>The declarations in precedence order\<close>

definition declared :: "LiteLLMModelAlias \<Rightarrow> (string \<times> ModelAliasEntry) list" where
  "declared cr = map (\<lambda>(i, e). (entryID cr i, e)) (enumerate 0 (ma_Aliases cr))"

definition all_declared :: "LiteLLMModelAlias list \<Rightarrow> (string \<times> ModelAliasEntry) list" where
  "all_declared items = concat (map declared (sort_key crKey items))"

definition for_alias :: "string \<Rightarrow> (string \<times> ModelAliasEntry) list \<Rightarrow> (string \<times> ModelAliasEntry) list" where
  "for_alias al ds = filter (\<lambda>(o', e). ae_Name e = al) ds"

definition add_declared :: "ModelAliasAggregate \<Rightarrow> (string \<times> ModelAliasEntry) list \<Rightarrow> ModelAliasAggregate" where
  "add_declared out ds = fold (\<lambda>(o', e). add_alias o' e) ds out"

lemma add_entries_declared:
  "add_entries cr i es out = add_declared out (map (\<lambda>(i, e). (entryID cr i, e)) (enumerate i es))"
  by (induction cr i es out rule: add_entries.induct) (simp_all add: add_declared_def)

lemma Aggregate_declared:
  "AggregateModelAliases items = add_declared \<lparr>Desired = [], Winners = [], LosersByAlias = []\<rparr> (all_declared items)"
proof -
  have "fold (\<lambda>cr. add_entries cr 0 (ma_Aliases cr)) crs out = add_declared out (concat (map declared crs))" for crs out
    by (induction crs arbitrary: out) (simp_all add: add_entries_declared add_declared_def declared_def)
  then show ?thesis
    by (auto simp: AggregateModelAliases_def all_declared_def add_declared_def Let_def)
qed

text \<open>What the three maps say about one alias after a list of declarations.\<close>

definition agrees_with :: "ModelAliasAggregate \<Rightarrow> string \<Rightarrow> (string \<times> ModelAliasEntry) list \<Rightarrow> bool" where
  "agrees_with a al ds \<longleftrightarrow>
     (if ds = [] then map_of (Desired a) al = None \<and> map_of (Winners a) al = None \<and> LosersOf a al = []
      else map_of (Desired a) al = Some (ae_Value (snd (last ds))) \<and>
           map_of (Winners a) al = Some (fst (last ds)) \<and> LosersOf a al = map fst (butlast ds))"

lemma add_alias_agrees:
  assumes "agrees_with a al (for_alias al ds)"
  shows "agrees_with (add_alias o' e a) al (for_alias al (ds @ [(o', e)]))"
proof (cases "ae_Name e = al")
  case True
  define F where "F = for_alias al ds"
  have F: "for_alias al (ds @ [(o', e)]) = F @ [(o', e)]"
    using True by (simp add: for_alias_def F_def)
  have "F \<noteq> [] \<Longrightarrow> map fst (butlast F) @ [fst (last F)] = map fst F"
    by (metis append_butlast_last_id list.simps(8,9) map_append)
  then show ?thesis
    using assms True unfolding F F_def [symmetric]
    by (cases "F = []") (simp_all add: agrees_with_def add_alias_def LosersOf_def get_or_def map_of_put)
next
  case False
  then show ?thesis
    using assms
    by (auto simp: agrees_with_def add_alias_def for_alias_def LosersOf_def get_or_def map_of_put Let_def
        split: if_splits option.splits)
qed

lemma aggregate_agrees: "agrees_with (AggregateModelAliases items) al (for_alias al (all_declared items))"
proof -
  have "agrees_with (add_declared \<lparr>Desired = [], Winners = [], LosersByAlias = []\<rparr> ds) al (for_alias al ds)" for ds
  proof (induction ds rule: rev_induct)
    case (snoc d ds)
    then show ?case using add_alias_agrees by (cases d) (simp add: add_declared_def)
  qed (simp add: agrees_with_def add_declared_def for_alias_def LosersOf_def get_or_def)
  then show ?thesis by (simp add: Aggregate_declared)
qed

subsection \<open>Generated alias objects\<close>

record AliasRule =
  ar_Include :: "string list"
  ar_Prefix :: string
  ar_Suffix :: string

text \<open>An alias object as the API holds it: the object, its label and its controlling owner's UID.\<close>

record GeneratedAlias =
  ga_Alias :: LiteLLMModelAlias
  ga_GeneratedBy :: string
  ga_ControllerUID :: "string option"

record ModelDiscovery =
  md_Name :: string
  md_UID :: string
  md_Aliases :: "AliasRule list"

definition aliasChunkSize :: nat where
  "aliasChunkSize = 128"

fun compile_rule :: "compiler \<Rightarrow> nat \<Rightarrow> nat \<Rightarrow> string list \<Rightarrow> string + matcher list" where
  "compile_rule compile i j [] = Inr []"
| "compile_rule compile i j (pat # pats) =
     (case compile (''^'' @ pat) of
        Inl err \<Rightarrow> Inl (''spec.aliases['' @ show_nat i @ ''].include['' @ show_nat j @ ''] '' @ quote pat @ '': '' @ err)
      | Inr re \<Rightarrow>
          (case compile_rule compile i (Suc j) pats of Inl e \<Rightarrow> Inl e | Inr res \<Rightarrow> Inr (re # res)))"

fun rule_aliases :: "AliasRule \<Rightarrow> matcher list \<Rightarrow> string list \<Rightarrow> string gomap \<Rightarrow> string gomap" where
  "rule_aliases rule res [] byName = byName"
| "rule_aliases rule res (child # children) byName =
     rule_aliases rule res children
       (if length res > 0 \<and> \<not> list_ex (\<lambda>re. re child) res then byName
        else map_put (ar_Prefix rule @ child @ ar_Suffix rule) child byName)"

fun aliases_by_name :: "compiler \<Rightarrow> nat \<Rightarrow> AliasRule list \<Rightarrow> string list \<Rightarrow> string gomap \<Rightarrow> string + string gomap" where
  "aliases_by_name compile i [] generated byName = Inr byName"
| "aliases_by_name compile i (rule # rules) generated byName =
     (case compile_rule compile i 0 (ar_Include rule) of
        Inl e \<Rightarrow> Inl e
      | Inr res \<Rightarrow> aliases_by_name compile (Suc i) rules generated (rule_aliases rule res generated byName))"

text \<open>The chunk loop; \<open>n\<close> is \<^verbatim>\<open>len(out)\<close>.\<close>

function alias_chunks :: "ModelDiscovery \<Rightarrow> string \<Rightarrow> string gomap \<Rightarrow> nat \<Rightarrow> string list \<Rightarrow> GeneratedAlias list" where
  "alias_chunks md ns byName n names =
     (if names = [] then []
      else
        \<lparr>ga_Alias = \<lparr>ma_Namespace = ns, ma_Name = md_Name md @ ''-aliases-'' @ show_nat n,
           ma_Aliases = map (\<lambda>k. \<lparr>ae_Name = k, ae_Value = get_or '''' byName k\<rparr>) (take aliasChunkSize names)\<rparr>,
         ga_GeneratedBy = md_Name md, ga_ControllerUID = Some (md_UID md)\<rparr>
        # alias_chunks md ns byName (Suc n) (drop aliasChunkSize names))"
  by pat_completeness auto
termination
  by (relation "measure (\<lambda>(md, ns, b, n, names). length names)") (auto simp: aliasChunkSize_def)

declare alias_chunks.simps [simp del]

definition buildDiscoveryAliases ::
  "compiler \<Rightarrow> ModelDiscovery \<Rightarrow> string list \<Rightarrow> string \<Rightarrow> string + GeneratedAlias list" where
  "buildDiscoveryAliases compile md generated namespace =
     (case aliases_by_name compile 0 (md_Aliases md) generated [] of
        Inl e \<Rightarrow> Inl e
      | Inr byName \<Rightarrow> Inr (alias_chunks md namespace byName 0 (sort (keys byName))))"

text \<open>The API as this function uses it: get, server-side apply, list by label, delete.\<close>

record 'w alias_api =
  aa_get :: "'w \<Rightarrow> string \<times> string \<Rightarrow> (kube_error + GeneratedAlias) \<times> 'w"
  aa_apply :: "'w \<Rightarrow> GeneratedAlias \<Rightarrow> kube_error option \<times> 'w"
  aa_list :: "'w \<Rightarrow> string \<Rightarrow> string \<Rightarrow> (kube_error + GeneratedAlias list) \<times> 'w"
  aa_delete :: "'w \<Rightarrow> GeneratedAlias \<Rightarrow> kube_error option \<times> 'w"

datatype alias_error = AliasBuildFailed string | ForeignAlias string | ApiFailed string kube_error

datatype alias_call = Applied GeneratedAlias | Deleted GeneratedAlias

definition IsControlledBy :: "GeneratedAlias \<Rightarrow> ModelDiscovery \<Rightarrow> bool" where
  "IsControlledBy a md \<longleftrightarrow> ga_ControllerUID a = Some (md_UID md)"

definition alias_object_key :: "GeneratedAlias \<Rightarrow> string \<times> string" where
  "alias_object_key a = (ma_Namespace (ga_Alias a), ma_Name (ga_Alias a))"

text \<open>Both loops thread the world and the calls that change the cluster, in order.\<close>

fun apply_aliases ::
  "'w alias_api \<Rightarrow> ModelDiscovery \<Rightarrow> GeneratedAlias list \<Rightarrow> 'w \<times> alias_call list \<Rightarrow> alias_error option \<times> 'w \<times> alias_call list" where
  "apply_aliases A md [] (w, cs) = (None, w, cs)"
| "apply_aliases A md (a # as) (w, cs) =
     (let (r, w) = aa_get A w (alias_object_key a);
          go = (let (err, w) = aa_apply A w a; cs = cs @ [Applied a]
                in case err of
                     Some e \<Rightarrow> (Some (ApiFailed (''apply LiteLLMModelAlias '' @ ma_Name (ga_Alias a)) e), w, cs)
                   | None \<Rightarrow> apply_aliases A md as (w, cs))
      in case r of
           Inr existing \<Rightarrow>
             if \<not> IsControlledBy existing md then (Some (ForeignAlias (ma_Name (ga_Alias a))), w, cs) else go
         | Inl e \<Rightarrow> if \<not> IsNotFoundK e then (Some (ApiFailed (''get LiteLLMModelAlias '' @ ma_Name (ga_Alias a)) e), w, cs) else go)"

fun delete_stale ::
  "'w alias_api \<Rightarrow> ModelDiscovery \<Rightarrow> string list \<Rightarrow> GeneratedAlias list \<Rightarrow> 'w \<times> alias_call list
   \<Rightarrow> alias_error option \<times> 'w \<times> alias_call list" where
  "delete_stale A md keep [] (w, cs) = (None, w, cs)"
| "delete_stale A md keep (a # as) (w, cs) =
     (if ma_Name (ga_Alias a) \<in> set keep \<or> \<not> IsControlledBy a md then delete_stale A md keep as (w, cs)
      else
        let (err, w) = aa_delete A w a; cs = cs @ [Deleted a] in
        case err of
          Some e \<Rightarrow> if \<not> IsNotFoundK e then (Some (ApiFailed (''delete LiteLLMModelAlias '' @ ma_Name (ga_Alias a)) e), w, cs) else delete_stale A md keep as (w, cs)
        | None \<Rightarrow> delete_stale A md keep as (w, cs))"

definition syncDiscoveryAliases ::
  "compiler \<Rightarrow> 'w alias_api \<Rightarrow> string \<Rightarrow> ModelDiscovery \<Rightarrow> string list \<Rightarrow> 'w \<Rightarrow> alias_error option \<times> 'w \<times> alias_call list" where
  "syncDiscoveryAliases compile A ns md generated w =
     (case buildDiscoveryAliases compile md generated ns of
        Inl e \<Rightarrow> (Some (AliasBuildFailed e), w, [])
      | Inr desired \<Rightarrow>
          (case apply_aliases A md desired (w, []) of
             (Some e, w, cs) \<Rightarrow> (Some e, w, cs)
           | (None, w, cs) \<Rightarrow>
               (case aa_list A w ns (md_Name md) of
                  (Inl e, w) \<Rightarrow> (Some (ApiFailed ''list generated LiteLLMModelAliases'' e), w, cs)
                | (Inr owned, w) \<Rightarrow>
                    delete_stale A md (map (\<lambda>a. ma_Name (ga_Alias a)) desired) owned (w, cs))))"

subsection \<open>Owners are identified by their entry id\<close>

definition plain_names :: "LiteLLMModelAlias list \<Rightarrow> bool" where
  "plain_names items \<longleftrightarrow> distinct (map crKey items) \<and>
     list_all (\<lambda>m. CHR ''/'' \<notin> set (ma_Namespace m) \<and> CHR ''#'' \<notin> set (ma_Name m)) items"

lemma append_sep_inj:
  "x @ c # r = y @ c # r' \<Longrightarrow> c \<notin> set x \<Longrightarrow> c \<notin> set y \<Longrightarrow> x = y \<and> r = r'"
  by (induction x arbitrary: y) (auto simp: Cons_eq_append_conv append_eq_Cons_conv)

lemma entryID_inj:
  assumes "plain_names items" "cr \<in> set items" "cr' \<in> set items" "entryID cr i = entryID cr' j"
  shows "cr = cr' \<and> i = j"
proof -
  have ok: "CHR ''/'' \<notin> set (ma_Namespace m) \<and> CHR ''#'' \<notin> set (ma_Name m)" if "m \<in> set items" for m
    using assms(1) that by (auto simp: plain_names_def list_all_iff)
  have "ma_Namespace cr = ma_Namespace cr'" and rest: "ma_Name cr @ CHR ''#'' # show_nat i = ma_Name cr' @ CHR ''#'' # show_nat j"
    using append_sep_inj [of "ma_Namespace cr" "CHR ''/''"] assms(4) ok [OF assms(2)] ok [OF assms(3)]
    by (auto simp: entryID_def)
  moreover have "ma_Name cr = ma_Name cr'" and "show_nat i = show_nat j"
    using append_sep_inj [OF rest] ok [OF assms(2)] ok [OF assms(3)] by auto
  ultimately have "crKey cr = crKey cr'" "i = j" by (auto simp: crKey_def)
  then show ?thesis
    using assms(1-3) by (auto simp: plain_names_def distinct_map dest: inj_onD)
qed

lemma set_all_declared:
  "(x, e) \<in> set (all_declared items) \<longleftrightarrow>
     (\<exists>cr i. cr \<in> set items \<and> i < length (ma_Aliases cr) \<and> x = entryID cr i \<and> e = ma_Aliases cr ! i)"
proof -
  have "declared cr = map (\<lambda>i. (entryID cr i, ma_Aliases cr ! i)) [0..<length (ma_Aliases cr)]" for cr
    by (rule nth_equalityI) (simp_all add: declared_def nth_enumerate_eq)
  then have "(x, e) \<in> set (declared cr) \<longleftrightarrow> (\<exists>i. i < length (ma_Aliases cr) \<and> x = entryID cr i \<and> e = ma_Aliases cr ! i)" for cr
    by (simp add: image_iff Bex_def)
  then show ?thesis by (simp add: all_declared_def) blast
qed

lemma ResolveCR_nth:
  "i < length (ma_Aliases cr) \<Longrightarrow>
   as_Applied (ResolveCR a cr ! i) = (WinnerOf a (ae_Name (ma_Aliases cr ! i)) = entryID cr i) \<and>
   (as_Applied (ResolveCR a cr ! i) \<longrightarrow> as_AppliedValue (ResolveCR a cr ! i) = ae_Value (ma_Aliases cr ! i))"
  by (simp add: ResolveCR_def nth_enumerate_eq Let_def)

subsection \<open>Properties\<close>

text \<open>
  The aggregate is last-wins over the declarations in the order of the sorted namespaced names
  and the index within each object: for every alias the value written is that of the last declaration,
  the winner is its owner, and the losers are the owners of all earlier declarations, in order.
\<close>

theorem Aggregate_last_wins:
  "let ds = for_alias al (all_declared items); agg = AggregateModelAliases items in
     map_of (Desired agg) al = (if ds = [] then None else Some (ae_Value (snd (last ds)))) \<and>
     WinnerOf agg al = (if ds = [] then '''' else fst (last ds)) \<and>
     LosersOf agg al = map fst (butlast ds)"
  using aggregate_agrees [of items al] by (auto simp: agrees_with_def WinnerOf_def get_or_def Let_def)

lemma aggregate_order_independent:
  assumes "plain_names items" and "mset items = mset items'"
  shows "AggregateModelAliases items = AggregateModelAliases items'"
proof -
  have "inj_on crKey (set items)" using assms(1) by (auto simp: plain_names_def distinct_map)
  then have "sort_key crKey items = sort_key crKey items'"
    using assms(2) by (intro sort_key_inj_key_eq) simp_all
  then show ?thesis by (simp add: Aggregate_declared all_declared_def)
qed

text \<open>
  Exactly one declaration of each declared alias is reported as applied, across all objects, and
  the value it reports is the value written to LiteLLM; and the outcome does not depend on the order
  in which the API lists the objects.
\<close>

theorem exactly_one_applied:
  assumes "plain_names items" and "cr0 \<in> set items" and "i0 < length (ma_Aliases cr0)"
    and "al = ae_Name (ma_Aliases cr0 ! i0)" and "mset items' = mset items"
  shows "\<exists>cr i. cr \<in> set items \<and> i < length (ma_Aliases cr) \<and> ae_Name (ma_Aliases cr ! i) = al \<and>
      as_Applied (ResolveCR (AggregateModelAliases items') cr ! i) \<and>
      map_of (Desired (AggregateModelAliases items')) al
        = Some (as_AppliedValue (ResolveCR (AggregateModelAliases items') cr ! i)) \<and>
      (\<forall>cr' i'. cr' \<in> set items \<and> i' < length (ma_Aliases cr') \<and> ae_Name (ma_Aliases cr' ! i') = al \<and>
         as_Applied (ResolveCR (AggregateModelAliases items') cr' ! i') \<longrightarrow> cr' = cr \<and> i' = i)"
proof -
  let ?a = "AggregateModelAliases items" and ?F = "for_alias al (all_declared items)"
  have same: "AggregateModelAliases items' = ?a"
    using aggregate_order_independent [OF assms(1)] assms(5) by metis
  have "(entryID cr0 i0, ma_Aliases cr0 ! i0) \<in> set ?F"
    using assms by (auto simp: for_alias_def set_all_declared)
  then have ne: "?F \<noteq> []" by auto
  then obtain x e where l: "last ?F = (x, e)" "(x, e) \<in> set ?F" by (metis last_in_set surj_pair)
  then obtain cr i where w: "cr \<in> set items" "i < length (ma_Aliases cr)" "ae_Name (ma_Aliases cr ! i) = al"
    "last ?F = (entryID cr i, ma_Aliases cr ! i)"
    using l(2) by (auto simp: for_alias_def set_all_declared)
  have win: "WinnerOf ?a al = entryID cr i" "map_of (Desired ?a) al = Some (ae_Value (ma_Aliases cr ! i))"
    using aggregate_agrees [of items al] ne w(4) by (auto simp: agrees_with_def WinnerOf_def get_or_def)
  have "as_Applied (ResolveCR ?a cr ! i) \<and> map_of (Desired ?a) al = Some (as_AppliedValue (ResolveCR ?a cr ! i))"
    using ResolveCR_nth [OF w(2), of ?a] win w(3) by auto
  moreover have "cr' = cr \<and> i' = i" if "cr' \<in> set items" "i' < length (ma_Aliases cr')"
    "ae_Name (ma_Aliases cr' ! i') = al" "as_Applied (ResolveCR ?a cr' ! i')" for cr' i'
  proof -
    have "entryID cr i = entryID cr' i'" using ResolveCR_nth [OF that(2), of ?a] that(3,4) win(1) by simp
    then show ?thesis using entryID_inj [OF assms(1) w(1) that(1)] by blast
  qed
  ultimately show ?thesis
    unfolding same using w(1-3) by blast
qed

definition example_alias :: "string \<Rightarrow> string \<Rightarrow> LiteLLMModelAlias" where
  "example_alias n v = \<lparr>ma_Namespace = ''ns'', ma_Name = n, ma_Aliases = [\<lparr>ae_Name = ''fast'', ae_Value = v\<rparr>]\<rparr>"

theorem exactly_one_applied_witness:
  "\<exists>cr i. cr \<in> set [example_alias ''a'' ''x'', example_alias ''b'' ''y''] \<and>
     as_Applied (ResolveCR (AggregateModelAliases [example_alias ''b'' ''y'', example_alias ''a'' ''x'']) cr ! i)"
proof -
  let ?items = "[example_alias ''a'' ''x'', example_alias ''b'' ''y'']"
  have "plain_names ?items" "example_alias ''a'' ''x'' \<in> set ?items" "0 < length (ma_Aliases (example_alias ''a'' ''x''))"
    "''fast'' = ae_Name (ma_Aliases (example_alias ''a'' ''x'') ! 0)"
    "mset [example_alias ''b'' ''y'', example_alias ''a'' ''x''] = mset ?items"
    by (simp_all add: plain_names_def example_alias_def crKey_def)
  from exactly_one_applied [OF this] show ?thesis
    by (elim exE conjE) (intro exI conjI)
qed

lemma alias_chunks_entries:
  "concat (map (\<lambda>a. ma_Aliases (ga_Alias a)) (alias_chunks md ns byName n names)) =
     map (\<lambda>k. \<lparr>ae_Name = k, ae_Value = get_or '''' byName k\<rparr>) names \<and>
   (\<forall>a \<in> set (alias_chunks md ns byName n names).
      1 \<le> length (ma_Aliases (ga_Alias a)) \<and> length (ma_Aliases (ga_Alias a)) \<le> aliasChunkSize) \<and>
   map (\<lambda>a. ma_Name (ga_Alias a)) (alias_chunks md ns byName n names) =
     map (\<lambda>i. md_Name md @ ''-aliases-'' @ show_nat i) [n..<n + length (alias_chunks md ns byName n names)]"
proof (induction md ns byName n names rule: alias_chunks.induct)
  case (1 md ns byName n names)
  show ?case
  proof (cases "names = []")
    case False
    let ?rest = "alias_chunks md ns byName (Suc n) (drop aliasChunkSize names)"
    obtain h where c: "alias_chunks md ns byName n names = h # ?rest"
      and h: "ma_Aliases (ga_Alias h) = map (\<lambda>k. \<lparr>ae_Name = k, ae_Value = get_or [] byName k\<rparr>) (take aliasChunkSize names)"
        "ma_Name (ga_Alias h) = md_Name md @ ''-aliases-'' @ show_nat n"
      using False that alias_chunks.simps [of md ns byName n names] by simp
    have up: "[n..<Suc (n + k)] = n # [Suc n..<Suc (n + k)]" for k by (simp add: upt_conv_Cons)
    have "Suc 0 \<le> length names" "Suc 0 \<le> aliasChunkSize" using False by (simp_all add: aliasChunkSize_def Suc_leI)
    moreover have "map f (take k names) @ map f (drop k names) = map f names" for f :: "string \<Rightarrow> ModelAliasEntry" and k
      by (metis append_take_drop_id map_append)
    ultimately show ?thesis
      using 1 [OF False] h unfolding c by (auto simp: up simp del: upt_Suc)
  qed (simp add: alias_chunks.simps)
qed

text \<open>
  Generated alias objects respect the CRD's limit and lose nothing: every object holds between 1
  and 128 entries, the objects are named by consecutive numbers, and together their entries are
  exactly the computed aliases, sorted by name.
\<close>

theorem buildDiscoveryAliases_chunks:
  assumes "aliases_by_name compile 0 (md_Aliases md) generated [] = Inr byName"
  shows "\<exists>out. buildDiscoveryAliases compile md generated ns = Inr out \<and>
    concat (map (\<lambda>a. ma_Aliases (ga_Alias a)) out) =
      map (\<lambda>k. \<lparr>ae_Name = k, ae_Value = get_or '''' byName k\<rparr>) (sort (keys byName)) \<and>
    (\<forall>a \<in> set out. 1 \<le> length (ma_Aliases (ga_Alias a)) \<and> length (ma_Aliases (ga_Alias a)) \<le> 128) \<and>
    map (\<lambda>a. ma_Name (ga_Alias a)) out = map (\<lambda>i. md_Name md @ ''-aliases-'' @ show_nat i) [0..<length out]"
  using alias_chunks_entries [of md ns byName 0 "sort (keys byName)"] assms
  by (simp add: buildDiscoveryAliases_def aliasChunkSize_def)

definition example_discovery :: ModelDiscovery where
  "example_discovery = \<lparr>md_Name = ''d'', md_UID = ''u'', md_Aliases = [\<lparr>ar_Include = [], ar_Prefix = ''p-'', ar_Suffix = ''''\<rparr>]\<rparr>"

theorem buildDiscoveryAliases_chunks_witness:
  "\<exists>out. buildDiscoveryAliases (\<lambda>_. Inl ''unused'') example_discovery [''m''] ''ns'' = Inr out \<and>
     concat (map (\<lambda>a. ma_Aliases (ga_Alias a)) out) = [\<lparr>ae_Name = ''p-m'', ae_Value = ''m''\<rparr>]"
  using buildDiscoveryAliases_chunks [of "\<lambda>_. Inl ''unused''" example_discovery "[''m'']" "[(''p-m'', ''m'')]" "''ns''"]
  by (auto simp: example_discovery_def map_put_def get_or_def)

lemma apply_aliases_calls:
  "apply_aliases A md as (w, cs) = (err, w', cs') \<Longrightarrow>
   \<exists>ds. cs' = cs @ map Applied ds \<and> (\<exists>rest. as = ds @ rest) \<and> (err = None \<longrightarrow> ds = as)"
proof (induction A md as "(w, cs)" arbitrary: w cs rule: apply_aliases.induct)
  case (2 A md a as w cs)
  obtain r w1 where g: "aa_get A w (alias_object_key a) = (r, w1)" by fastforce
  obtain e w2 where p: "aa_apply A w1 a = (e, w2)" by fastforce
  have IH: "apply_aliases A md as (w2, cs @ [Applied a]) = (err, w', cs') \<Longrightarrow>
      \<exists>ds. cs' = (cs @ [Applied a]) @ map Applied ds \<and> (\<exists>rest. as = ds @ rest) \<and> (err = None \<longrightarrow> ds = as)" if "e = None"
    using "2.hyps" g p that by simp
  have "(apply_aliases A md as (w2, cs @ [Applied a]) = (err, w', cs') \<and> e = None) \<or>
      (cs' = cs \<and> err \<noteq> None) \<or> (cs' = cs @ [Applied a] \<and> err \<noteq> None)"
    using "2.prems" g p by (auto simp: Let_def split: sum.splits option.splits if_splits)
  then consider "apply_aliases A md as (w2, cs @ [Applied a]) = (err, w', cs')" "e = None"
    | "cs' = cs" "err \<noteq> None" | "cs' = cs @ [Applied a]" "err \<noteq> None" by blast
  then show ?case
  proof cases
    case 1
    then obtain ds where "cs' = (cs @ [Applied a]) @ map Applied ds" "\<exists>rest. as = ds @ rest" "err = None \<longrightarrow> ds = as"
      using IH by blast
    then show ?thesis by (intro exI [of _ "a # ds"]) auto
  next
    case 2
    then show ?thesis by (intro exI [of _ "[]"]) auto
  next
    case 3
    then show ?thesis by (intro exI [of _ "[a]"]) auto
  qed
qed auto

lemma delete_stale_calls:
  "delete_stale A md keep as (w, cs) = (err, w', cs') \<Longrightarrow>
   \<exists>ds. cs' = cs @ map Deleted ds \<and> (\<forall>a \<in> set ds. a \<in> set as \<and> IsControlledBy a md \<and> ma_Name (ga_Alias a) \<notin> set keep)"
proof (induction as arbitrary: w cs)
  case (Cons a as)
  obtain e w1 where d: "aa_delete A w a = (e, w1)" by fastforce
  show ?case
  proof (cases "ma_Name (ga_Alias a) \<in> set keep \<or> \<not> IsControlledBy a md")
    case True
    then show ?thesis using Cons by fastforce
  next
    case False
    then consider "delete_stale A md keep as (w1, cs @ [Deleted a]) = (err, w', cs')" | "cs' = cs @ [Deleted a]"
      using Cons.prems d by (auto simp: Let_def split: option.splits if_splits)
    then show ?thesis
    proof cases
      case 1
      then obtain ds where "cs' = (cs @ [Deleted a]) @ map Deleted ds"
        "\<forall>x \<in> set ds. x \<in> set as \<and> IsControlledBy x md \<and> ma_Name (ga_Alias x) \<notin> set keep"
        using Cons.IH by blast
      then show ?thesis using False by (intro exI [of _ "a # ds"]) auto
    next
      case 2
      then show ?thesis using False by (intro exI [of _ "[a]"]) auto
    qed
  qed
qed auto


definition example_alias_api :: "unit alias_api" where
  "example_alias_api = \<lparr>aa_get = (\<lambda>w k. (Inl KNotFound, w)), aa_apply = (\<lambda>w a. (None, w)),
     aa_list = (\<lambda>w ns l. (Inr [], w)), aa_delete = (\<lambda>w a. (None, w))\<rparr>"


end
