(* ===== verification/Litellm_Endpoints.thy ===== *)
theory Litellm_Endpoints
  imports Litellm_Model Churn_Guard
begin

text \<open>
  Further endpoints of the LiteLLM client: server-name sanitising (\<^verbatim>\<open>internal/litellm/sanitize.go\<close>), the
  read-merge-write of router settings (\<^verbatim>\<open>router_settings.go\<close>) and the paginated team lookup
  (\<^verbatim>\<open>team.go\<close>).
\<close>

subsection \<open>MCP server names\<close>

definition MCPToolPrefixSeparatorDefault :: string where
  "MCPToolPrefixSeparatorDefault = ''.''"

definition ReplaceChar :: "char \<Rightarrow> char \<Rightarrow> string \<Rightarrow> string" where
  "ReplaceChar a b s = map (\<lambda>c. if c = a then b else c) s"

definition Contains :: "string \<Rightarrow> string \<Rightarrow> bool" where
  "Contains s sub = list_ex (\<lambda>i. take (length sub) (drop i s) = sub) [0..<Suc (length s)]"

definition SanitizeMCPServerName :: "string \<Rightarrow> string \<Rightarrow> string" where
  "SanitizeMCPServerName name separator =
     (let forbidden = (if separator = '''' then MCPToolPrefixSeparatorDefault else separator) in
      if \<not> Contains name forbidden then name
      else if forbidden = ''.'' then ReplaceChar (CHR ''.'') (CHR ''-'') name
      else if forbidden = ''-'' then ReplaceChar (CHR ''-'') (CHR ''.'') name
      else name)"

lemma take1_singleton: "take (length [c]) xs = [c] \<longleftrightarrow> (\<exists>r. xs = c # r)"
  by (cases xs) auto

lemma Contains_char: "Contains s [c] \<longleftrightarrow> c \<in> set s"
proof -
  have "Contains s [c] \<longleftrightarrow> (\<exists>i \<le> length s. \<exists>r. drop i s = c # r)"
    unfolding Contains_def list_ex_iff take1_singleton set_upt
    by (simp add: Bex_def less_Suc_eq_le conj_commute)
  also have "\<dots> \<longleftrightarrow> c \<in> set s"
  proof
    assume "\<exists>i \<le> length s. \<exists>r. drop i s = c # r"
    then show "c \<in> set s" by (metis in_set_dropD list.set_intros(1))
  next
    assume "c \<in> set s"
    then obtain i where "i < length s" "s ! i = c" by (auto simp: in_set_conv_nth)
    then have "drop i s = c # drop (Suc i) s" by (metis Cons_nth_drop_Suc)
    with \<open>i < length s\<close> show "\<exists>i \<le> length s. \<exists>r. drop i s = c # r" by (intro exI [of _ i]) auto
  qed
  finally show ?thesis .
qed

lemma ReplaceChar_absent: "a \<noteq> b \<Longrightarrow> a \<notin> set (ReplaceChar a b s)"
  by (auto simp: ReplaceChar_def)

interpretation sanitize_dot: canonical_form "\<lambda>n. SanitizeMCPServerName n ''.''" "\<lambda>n. CHR ''.'' \<notin> set n"
  by unfold_locales (auto simp: SanitizeMCPServerName_def Contains_char Let_def dest: ReplaceChar_absent [THEN notE, rotated])

interpretation sanitize_dash: canonical_form "\<lambda>n. SanitizeMCPServerName n ''-''" "\<lambda>n. CHR ''-'' \<notin> set n"
  by unfold_locales (auto simp: SanitizeMCPServerName_def Contains_char Let_def dest: ReplaceChar_absent [THEN notE, rotated])

subsection \<open>Router settings\<close>

record RouterSettings =
  rs_Extra :: "json gomap"
  rs_ModelGroupAlias :: "string gomap"

fun go_type :: "json \<Rightarrow> string" where
  "go_type JNull = ''<nil>''"
| "go_type (JBool _) = ''bool''"
| "go_type (JNum _) = ''float64''"
| "go_type (JStr _) = ''string''"
| "go_type (JArr _) = ''[]interface {}''"
| "go_type (JObj _) = ''map[string]interface {}''"

fun read_aliases :: "json gomap \<Rightarrow> string gomap \<Rightarrow> lerror + string gomap" where
  "read_aliases [] out = Inr out"
| "read_aliases ((kk, vv) # m) out =
     (case vv of
        JStr sv \<Rightarrow> read_aliases m (map_put kk sv out)
      | _ \<Rightarrow> Inl (ErrText (''litellm: router_settings.model_group_alias['' @ quote kk @ ''] is not a string (got '' @ go_type vv @ '')'')))"

fun split_settings :: "json gomap \<Rightarrow> RouterSettings \<Rightarrow> lerror + RouterSettings" where
  "split_settings [] out = Inr out"
| "split_settings ((k, v) # m) out =
     (if k = ''model_group_alias'' then
        (case v of
           JNull \<Rightarrow> split_settings m out
         | JObj a \<Rightarrow>
             (case read_aliases a (rs_ModelGroupAlias out) of
                Inl e \<Rightarrow> Inl e
              | Inr al \<Rightarrow> split_settings m (out\<lparr>rs_ModelGroupAlias := al\<rparr>))
         | _ \<Rightarrow> Inl (ErrText (''litellm: router_settings.model_group_alias is not an object (got '' @ go_type v @ '')'')))
      else split_settings m (out\<lparr>rs_Extra := map_put k v (rs_Extra out)\<rparr>))"

definition decode_router :: "json \<Rightarrow> json gomap option" where
  "decode_router v = Option.bind (dec_object (Some v)) (\<lambda>m. dec_object (struct_field ''router_settings'' m))"

definition GetRouterSettings :: "'w http \<Rightarrow> ('w, 'z, RouterSettings) call" where
  "GetRouterSettings http s =
     (case makeRequest http ''GET'' ''/get/config/callbacks'' None s of
        (Inl e, s) \<Rightarrow> (Inl e, s)
      | (Inr resp, s) \<Rightarrow>
          (case unmarshal decode_router ''GET /get/config/callbacks'' resp of
             Inl e \<Rightarrow> (Inl e, s)
           | Inr m \<Rightarrow> (split_settings m \<lparr>rs_Extra = [], rs_ModelGroupAlias = []\<rparr>, s)))"

definition merge_settings :: "RouterSettings \<Rightarrow> json gomap" where
  "merge_settings rs =
     map_put ''model_group_alias'' (JObj (map (\<lambda>(k, v). (k, JStr v)) (rs_ModelGroupAlias rs))) (rs_Extra rs)"

definition UpdateRouterSettings :: "'w http \<Rightarrow> RouterSettings option \<Rightarrow> ('w, 'z, unit) call" where
  "UpdateRouterSettings http rs s =
     (case rs of
        None \<Rightarrow> (Inl (ErrText ''litellm: UpdateRouterSettings: nil RouterSettings''), s)
      | Some rs \<Rightarrow>
          (case makeRequest http ''POST'' ''/config/update'' (Some (JObj [(''router_settings'', JObj (merge_settings rs))])) s of
             (Inl e, s) \<Rightarrow> (Inl e, s)
           | (Inr _, s) \<Rightarrow> (Inr (), s)))"

subsection \<open>Team lookup by alias\<close>

record TeamListEntry =
  tl_TeamID :: string
  tl_TeamAlias :: string
  tl_OrganizationID :: string
  tl_Models :: "string list"
  tl_Blocked :: "bool option"

fun dec_int :: "json option \<Rightarrow> int option" where
  "dec_int None = Some 0"
| "dec_int (Some JNull) = Some 0"
| "dec_int (Some (JNum t)) = Atoi t"
| "dec_int _ = None"

fun dec_bool_ptr :: "json option \<Rightarrow> bool option option" where
  "dec_bool_ptr None = Some None"
| "dec_bool_ptr (Some JNull) = Some None"
| "dec_bool_ptr (Some (JBool b)) = Some (Some b)"
| "dec_bool_ptr _ = None"

definition decode_team :: "json \<Rightarrow> TeamListEntry option" where
  "decode_team v =
     (case dec_object (Some v) of None \<Rightarrow> None
      | Some m \<Rightarrow>
        (case (dec_string (struct_field ''team_id'' m), dec_string (struct_field ''team_alias'' m),
               dec_string (struct_field ''organization_id'' m),
               Option.bind (dec_array (struct_field ''models'' m)) (dec_all (\<lambda>j. dec_string (Some j))),
               dec_bool_ptr (struct_field ''blocked'' m)) of
           (Some i, Some a, Some o', Some ms, Some b) \<Rightarrow>
             Some \<lparr>tl_TeamID = i, tl_TeamAlias = a, tl_OrganizationID = o', tl_Models = ms, tl_Blocked = b\<rparr>
         | _ \<Rightarrow> None))"

definition decode_team_list :: "json \<Rightarrow> (TeamListEntry list \<times> int) option" where
  "decode_team_list v =
     (case dec_object (Some v) of None \<Rightarrow> None
      | Some m \<Rightarrow>
        (case (Option.bind (dec_array (struct_field ''teams'' m)) (dec_all decode_team),
               dec_int (struct_field ''total'' m), dec_int (struct_field ''page'' m),
               dec_int (struct_field ''page_size'' m), dec_int (struct_field ''total_pages'' m)) of
           (Some ts, Some _, Some _, Some _, Some n) \<Rightarrow> Some (ts, n)
         | _ \<Rightarrow> None))"

definition pageSize :: nat where "pageSize = 100"
definition maxPages :: nat where "maxPages = 1000"

definition team_page_path :: "string \<Rightarrow> nat \<Rightarrow> string" where
  "team_page_path al page =
     ''/v2/team/list?team_alias='' @ QueryEscape al @ ''&page_size='' @ show_nat pageSize @ ''&page='' @ show_nat page"

definition last_page :: "nat \<Rightarrow> TeamListEntry list \<Rightarrow> int \<Rightarrow> bool" where
  "last_page page teams totalPages =
     (if totalPages > 0 then int page \<ge> totalPages else length teams < pageSize)"

text \<open>The page loop with \<open>n\<close> pages left before the cap.\<close>

fun team_pages :: "'w http \<Rightarrow> string \<Rightarrow> nat \<Rightarrow> nat \<Rightarrow> TeamListEntry list \<Rightarrow> ('w, 'z, TeamListEntry list) call" where
  "team_pages http al 0 page out s =
     (Inl (ErrText (''litellm: team list for alias '' @ quote al @ '' exceeded '' @ show_nat maxPages
        @ '' pages; refusing truncated result'')), s)"
| "team_pages http al (Suc n) page out s =
     (case makeRequest http ''GET'' (team_page_path al page) None s of
        (Inl e, s) \<Rightarrow> (Inl e, s)
      | (Inr resp, s) \<Rightarrow>
          (case unmarshal decode_team_list ''GET /v2/team/list'' resp of
             Inl e \<Rightarrow> (Inl e, s)
           | Inr (teams, totalPages) \<Rightarrow>
               (let out = out @ filter (\<lambda>t. tl_TeamAlias t = al) teams in
                if last_page page teams totalPages then (Inr out, s)
                else team_pages http al n (Suc page) out s)))"

definition ListTeamsByAlias :: "'w http \<Rightarrow> string \<Rightarrow> ('w, 'z, TeamListEntry list) call" where
  "ListTeamsByAlias http al s = team_pages http al maxPages 1 [] s"

subsection \<open>Properties\<close>

text \<open>
  Sanitising a server name for the wire: for either configurable separator the result never
  contains the forbidden character, a name without it is unchanged, and sanitising twice changes
  nothing more.  The empty separator behaves like the dot.
\<close>

theorem SanitizeMCPServerName_canonical:
  "CHR ''.'' \<notin> set (SanitizeMCPServerName n ''.'') \<and> CHR ''-'' \<notin> set (SanitizeMCPServerName n ''-'')
   \<and> (SanitizeMCPServerName n ''.'' = n \<longleftrightarrow> CHR ''.'' \<notin> set n) \<and> (SanitizeMCPServerName n ''-'' = n \<longleftrightarrow> CHR ''-'' \<notin> set n)
   \<and> SanitizeMCPServerName (SanitizeMCPServerName n ''.'') ''.'' = SanitizeMCPServerName n ''.''
   \<and> SanitizeMCPServerName n '''' = SanitizeMCPServerName n ''.''"
  by (intro conjI sanitize_dot.canon_ok sanitize_dash.canon_ok sanitize_dot.canon_fix_iff sanitize_dash.canon_fix_iff
      sanitize_dot.canon_idem)
    (simp add: SanitizeMCPServerName_def MCPToolPrefixSeparatorDefault_def)

lemma read_aliases_strings:
  "map_inv a \<Longrightarrow> read_aliases (map (\<lambda>(k, v). (k, JStr v)) a) out = Inr (fold (\<lambda>(k, v). map_put k v) a out)"
  by (induction a arbitrary: out) (auto simp: map_inv_def)

lemma map_of_fold_put:
  "map_inv a \<Longrightarrow> map_of (fold (\<lambda>(k, v). map_put k v) a out) = map_of out ++ map_of a"
proof (induction a arbitrary: out)
  case (Cons p a)
  obtain k v where p: "p = (k, v)" by fastforce
  have "map_of a k = None" using Cons.prems p by (simp add: map_inv_def map_of_eq_None_iff)
  then show ?case
    using Cons p by (auto simp: map_inv_def map_of_put fun_eq_iff map_add_def split: option.split)
qed simp

lemma split_settings_extra:
  "''model_group_alias'' \<notin> set (keys m) \<Longrightarrow>
   split_settings (m @ r) out = split_settings r (out\<lparr>rs_Extra := fold (\<lambda>(k, v). map_put k v) m (rs_Extra out)\<rparr>)"
  by (induction m out rule: split_settings.induct) auto

lemma map_put_new: "k \<notin> set (keys m) \<Longrightarrow> map_put k v m = m @ [(k, v)]"
  by (induction m) (auto simp: map_put_def)

text \<open>
  Writing router settings and reading them back loses nothing: what the update body carries
  splits again into the same alias map and the same opaque rest, key by key, provided the opaque rest
  does not itself hold the alias key (the reader never puts it there).
\<close>

theorem RouterSettings_roundtrip:
  assumes "map_inv (rs_Extra rs)" and "map_inv (rs_ModelGroupAlias rs)"
    and "''model_group_alias'' \<notin> set (keys (rs_Extra rs))"
  shows "\<exists>rs'. split_settings (merge_settings rs) \<lparr>rs_Extra = [], rs_ModelGroupAlias = []\<rparr> = Inr rs' \<and>
    map_of (rs_Extra rs') = map_of (rs_Extra rs) \<and> map_of (rs_ModelGroupAlias rs') = map_of (rs_ModelGroupAlias rs)"
  using assms
  by (simp add: merge_settings_def map_put_new split_settings_extra read_aliases_strings map_of_fold_put)

theorem RouterSettings_roundtrip_witness:
  "\<exists>rs'. split_settings (merge_settings \<lparr>rs_Extra = [(''num_retries'', JNum ''3'')], rs_ModelGroupAlias = [(''fast'', ''gpt'')]\<rparr>)
     \<lparr>rs_Extra = [], rs_ModelGroupAlias = []\<rparr> = Inr rs' \<and> map_of (rs_ModelGroupAlias rs') ''fast'' = Some ''gpt''"
  using RouterSettings_roundtrip [of "\<lparr>rs_Extra = [(''num_retries'', JNum ''3'')], rs_ModelGroupAlias = [(''fast'', ''gpt'')]\<rparr>"]
  by (auto simp: map_inv_def)

definition serves :: "'w http \<Rightarrow> string \<Rightarrow> (nat \<Rightarrow> TeamListEntry list) \<Rightarrow> nat \<Rightarrow> bool" where
  "serves http al pages N \<longleftrightarrow>
     (\<forall>w p. \<exists>r. fst (http w ''GET'' (team_page_path al p) None) = Responded r \<and> is2xx (rs_status r) \<and>
        length (rs_raw r) \<le> listBodyCap \<and> Option.bind (rs_json r) decode_team_list = Some (pages p, int N))"

lemma serves_page:
  assumes "serves http al pages N"
  shows "\<exists>r s'. makeRequest http ''GET'' (team_page_path al p) None s = (Inr r, s') \<and>
    unmarshal decode_team_list ''GET /v2/team/list'' r = Inr (pages p, int N)"
proof -
  obtain r where r: "fst (http (world s) ''GET'' (team_page_path al p) None) = Responded r" "is2xx (rs_status r)"
    "length (rs_raw r) \<le> listBodyCap" "Option.bind (rs_json r) decode_team_list = Some (pages p, int N)"
    using assms unfolding serves_def by blast
  then have "response_of ''GET'' (team_page_path al p) (Responded r) = Inr r"
    by (simp add: response_of_def readCappedBody_def classify_response_def)
  then show ?thesis
    using r makeRequest_parts(1) [of http "''GET''" "team_page_path al p" None s]
    by (cases "makeRequest http ''GET'' (team_page_path al p) None s") (auto simp: unmarshal_def)
qed

lemma team_pages_all:
  assumes "serves http al pages N"
  shows "1 \<le> page \<Longrightarrow> page \<le> N \<Longrightarrow>
    fst (team_pages http al n page out s) =
      (if N - page < n then Inr (out @ filter (\<lambda>t. tl_TeamAlias t = al) (concat (map pages [page..<Suc N])))
       else fst (team_pages http al 0 page out s))"
proof (induction n arbitrary: page out s)
  case (Suc n)
  obtain r s' where r: "makeRequest http ''GET'' (team_page_path al page) None s = (Inr r, s')"
    "unmarshal decode_team_list ''GET /v2/team/list'' r = Inr (pages page, int N)"
    using serves_page [OF assms] by blast
  show ?case
  proof (cases "page = N")
    case True
    then show ?thesis using r Suc.prems by (simp add: last_page_def)
  next
    case False
    then have "\<not> last_page page (pages page) (int N)" using Suc.prems by (simp add: last_page_def)
    moreover have "[page..<Suc N] = page # [Suc page..<Suc N]" using Suc.prems by (simp add: upt_conv_Cons)
    ultimately show ?thesis
      using r False Suc.prems Suc.IH [of "Suc page" "out @ filter (\<lambda>t. tl_TeamAlias t = al) (pages page)" s']
      by (auto simp del: upt_Suc)
  qed
qed simp

text \<open>
  The team lookup is complete or fails: against a server that answers page \<open>p\<close> with the teams
  \<open>pages p\<close> and a constant total of \<open>N\<close> pages, the result is every team of all \<open>N\<close> pages whose alias is
  exactly the one asked for, and beyond the cap of 1000 pages it is an error, never a truncated list.
\<close>

theorem ListTeamsByAlias_complete:
  assumes "serves http al pages N" and "1 \<le> N"
  shows "fst (ListTeamsByAlias http al s) =
    (if N \<le> 1000 then Inr (filter (\<lambda>t. tl_TeamAlias t = al) (concat (map pages [1..<Suc N])))
     else fst (team_pages http al 0 1 [] s)) \<and> (\<exists>e. fst (team_pages http al 0 1 [] s) = Inl e)"
  using team_pages_all [OF assms(1), of 1 maxPages "[]" s] assms(2)
  by (auto simp: ListTeamsByAlias_def maxPages_def)

definition example_team_server :: "unit http" where
  "example_team_server = (\<lambda>w m p b. (Responded \<lparr>rs_status = 200, rs_raw = '''', rs_json = Some (JObj [(''total_pages'', JNum ''2''),
     (''teams'', JArr [JObj [(''team_alias'', JStr ''core'')]])])\<rparr>, w))"

theorem ListTeamsByAlias_complete_witness:
  "\<exists>ts. fst (ListTeamsByAlias example_team_server ''core'' \<lparr>world = (), log = []\<rparr>) = Inr ts \<and> length ts = 2"
proof -
  let ?t = "\<lparr>tl_TeamID = '''', tl_TeamAlias = ''core'', tl_OrganizationID = '''', tl_Models = [], tl_Blocked = None\<rparr>"
  have "decode_team_list (JObj [(''total_pages'', JNum ''2''), (''teams'', JArr [JObj [(''team_alias'', JStr ''core'')]])])
      = Some ([?t], 2)"
    by code_simp
  then have "serves example_team_server ''core'' (\<lambda>_. [?t]) 2"
    by (simp add: serves_def example_team_server_def is2xx_def)
  from ListTeamsByAlias_complete [OF this, of "\<lparr>world = (), log = []\<rparr>"] show ?thesis
    by (simp add: eval_nat_numeral)
qed

lemma team_pages_requests:
  "\<exists>es. log (snd (team_pages http al n page acc s)) = log s @ es \<and> length es \<le> n \<and> set es \<subseteq> range (\<lambda>p. Http ''GET'' p None)"
proof (induction n arbitrary: page acc s)
  case 0
  show ?case by simp
next
  case (Suc n)
  let ?get = "Http ''GET'' (team_page_path al page) None"
  obtain r s1 where m: "makeRequest http ''GET'' (team_page_path al page) None s = (r, s1)" by fastforce
  then have l: "log s1 = log s @ [?get]" using makeRequest_parts(2) [of http "''GET''" "team_page_path al page" None s] by simp
  have "\<exists>es. log (snd (team_pages http al n p a s1)) = log s @ ?get # es \<and> length es \<le> n \<and> set es \<subseteq> range (\<lambda>p. Http ''GET'' p None)" for p a
    using Suc.IH [of p a s1] l by simp
  then have "\<exists>es. log (snd (team_pages http al n p a s1)) = log s @ es \<and> length es \<le> Suc n \<and> set es \<subseteq> range (\<lambda>p. Http ''GET'' p None)" for p a
    by (metis (no_types, lifting) Suc_le_mono length_Cons list.set(2) insert_subset rangeI)
  then show ?case using m l by (auto simp: Let_def split: sum.splits)
qed

text \<open>
  The lookup of a team by name ends whatever the server answers: a server that claims ever more pages is
  asked a thousand times at most, and nothing but reads is sent.
\<close>

theorem ListTeamsByAlias_terminates:
  "\<exists>es. log (snd (ListTeamsByAlias http al s)) = log s @ es \<and> length es \<le> 1000 \<and> set es \<subseteq> range (\<lambda>p. Http ''GET'' p None)"
  using team_pages_requests [of http al maxPages 1 "[]" s] by (simp add: ListTeamsByAlias_def maxPages_def)

end
