(* ===== verification/Alias_Controller.thy ===== *)
theory Alias_Controller
  imports Model_Alias Litellm_Endpoints Shared_Helpers
begin

text \<open>
  The handler of \<^verbatim>\<open>internal/controller/modelalias_controller.go\<close>: one reconcile on a sentinel key
  aggregates all LiteLLMModelAlias objects into \<^verbatim>\<open>router_settings.model_group_alias\<close>, writes it with one
  request, reports per object, and only then releases the objects being deleted.

  An update returns the object as the server stored it; the handler goes on with that copy.
\<close>

subsection \<open>Objects and environment\<close>

record alias_object =
  ao_Meta :: ObjectMeta
  ao_Aliases :: "ModelAliasEntry list"
  ao_ObservedGeneration :: int
  ao_Conditions :: "Condition list"
  ao_AliasStatuses :: "AliasEntryStatus list"

definition alias_of :: "alias_object \<Rightarrow> LiteLLMModelAlias" where
  "alias_of item = \<lparr>ma_Namespace = Namespace (ao_Meta item), ma_Name = Name (ao_Meta item), ma_Aliases = ao_Aliases item\<rparr>"

record 'w ModelAliasReconciler =
  ar_list :: "'w \<Rightarrow> (kube_error + alias_object list) \<times> 'w"
  ar_get :: "'w \<Rightarrow> NamespacedName \<Rightarrow> (kube_error + alias_object) \<times> 'w"
  ar_update :: "'w \<Rightarrow> alias_object \<Rightarrow> (kube_error + alias_object) \<times> 'w"
  ar_status_update :: "'w \<Rightarrow> alias_object \<Rightarrow> kube_error option \<times> 'w"
  ar_lib :: klib
  ar_retries :: nat
  ar_Namespace :: string

definition reasonAliasPartialConflict :: string where "reasonAliasPartialConflict = ''PartialAliasConflict''"
definition reasonModelAliasRejected :: string where "reasonModelAliasRejected = ''LiteLLMRejected''"

definition modelAliasFinalizer :: string where
  "modelAliasFinalizer = ''modelaliases.litellm.ackstorm.ai/finalizer''"

definition ModelAliasSingletonKey :: string where "ModelAliasSingletonKey = ''_modelalias_singleton''"
definition modelAliasResyncPeriod :: int where "modelAliasResyncPeriod = 15 * minute"

definition filterAliveAliases :: "alias_object list \<Rightarrow> alias_object list" where
  "filterAliveAliases items = filter (\<lambda>it. \<not> DeletionTimestamp (ao_Meta it)) items"

definition modelAliasErrorReason :: "lerror \<Rightarrow> string" where
  "modelAliasErrorReason err =
     (if as_auth401 err \<noteq> None then reasonLiteLLMUnavailable
      else if is4xxStatus err then reasonModelAliasRejected
      else reasonLiteLLMUnavailable)"

subsection \<open>Status writes\<close>

definition alias_status :: "klib \<Rightarrow> Condition \<Rightarrow> AliasEntryStatus list option \<Rightarrow> alias_object \<Rightarrow> alias_object" where
  "alias_status K cond rows fresh =
     fresh\<lparr>ao_Conditions := SetStatusCondition K (ao_Conditions fresh) cond,
           ao_ObservedGeneration := Generation (ao_Meta fresh),
           ao_AliasStatuses := (case rows of None \<Rightarrow> ao_AliasStatuses fresh | Some r \<Rightarrow> r)\<rparr>"

definition alias_status_attempt ::
  "'w ModelAliasReconciler \<Rightarrow> alias_object \<Rightarrow> Condition \<Rightarrow> AliasEntryStatus list option \<Rightarrow> 'w rstate
   \<Rightarrow> kube_error option \<times> 'w rstate" where
  "alias_status_attempt R item cond rows s =
     (case ar_get R (world s) (Namespace (ao_Meta item), Name (ao_Meta item)) of
        (Inl e, w) \<Rightarrow> (if IsNotFoundK e then None else Some e, set_world w s)
      | (Inr fresh, w) \<Rightarrow>
          (let s = emit (StatusWrite cond '''') (set_world w s);
               (e, w) = ar_status_update R (world s) (alias_status (ar_lib R) cond rows fresh)
           in (e, set_world w s)))"

text \<open>\<open>n\<close> further attempts after a conflict.\<close>

fun alias_applyStatus ::
  "nat \<Rightarrow> 'w ModelAliasReconciler \<Rightarrow> alias_object \<Rightarrow> Condition \<Rightarrow> AliasEntryStatus list option \<Rightarrow> 'w rstate
   \<Rightarrow> kube_error option \<times> 'w rstate" where
  "alias_applyStatus 0 R item cond rows s = alias_status_attempt R item cond rows s"
| "alias_applyStatus (Suc n) R item cond rows s =
     (case alias_status_attempt R item cond rows s of
        (Some e, s) \<Rightarrow> (if IsConflict e then alias_applyStatus n R item cond rows s else (Some e, s))
      | (None, s) \<Rightarrow> (None, s))"

definition alias_condition :: "alias_object \<Rightarrow> ConditionStatus \<Rightarrow> string \<Rightarrow> string \<Rightarrow> Condition" where
  "alias_condition item status reason msg =
     \<lparr>Type = conditionTypeReady, Status = status, Reason = reason, Message = msg,
      ObservedGeneration = Generation (ao_Meta item)\<rparr>"

fun broadcast_loop ::
  "'w ModelAliasReconciler \<Rightarrow> string \<Rightarrow> string \<Rightarrow> alias_object list \<Rightarrow> 'w rstate \<Rightarrow> kube_error option \<times> 'w rstate" where
  "broadcast_loop R reason msg [] s = (None, s)"
| "broadcast_loop R reason msg (item # items) s =
     (if DeletionTimestamp (ao_Meta item) then broadcast_loop R reason msg items s
      else
        case alias_applyStatus (ar_retries R) R item (alias_condition item ConditionFalse reason msg) None s of
          (Some e, s) \<Rightarrow> (Some e, s)
        | (None, s) \<Rightarrow> broadcast_loop R reason msg items s)"

definition broadcastNotReady ::
  "'w ModelAliasReconciler \<Rightarrow> alias_object list \<Rightarrow> string \<Rightarrow> string \<Rightarrow> int \<Rightarrow> 'w rstate \<Rightarrow> verdict \<times> 'w rstate" where
  "broadcastNotReady R items reason msg requeueAfter s =
     (case broadcast_loop R reason msg items s of
        (Some e, s) \<Rightarrow> (Inl (KubeErr e), s)
      | (None, s) \<Rightarrow> (Inr (requeue_after requeueAfter), s))"

definition conflict_text :: "AliasEntryStatus \<Rightarrow> string" where
  "conflict_text row = as_Name row @ [CHR 0xE2, CHR 0x86, CHR 0x92] @ as_ConflictsWith row"

definition per_cr_condition :: "alias_object \<Rightarrow> AliasEntryStatus list \<Rightarrow> Condition" where
  "per_cr_condition item rows =
     (let conflicting = map conflict_text (filter (\<lambda>r. \<not> as_Applied r) rows) in
      if list_all as_Applied rows
      then alias_condition item ConditionTrue reasonSynced (show_nat (length rows) @ '' alias entries applied to LiteLLM'')
      else alias_condition item ConditionFalse reasonAliasPartialConflict
        (show_nat (length conflicting) @ '' of '' @ show_nat (length rows) @ '' alias entries lost slot: ['' @ join '' '' conflicting @ '']''))"

fun writePerCRStatuses ::
  "'w ModelAliasReconciler \<Rightarrow> alias_object list \<Rightarrow> ModelAliasAggregate \<Rightarrow> 'w rstate \<Rightarrow> kube_error option \<times> 'w rstate" where
  "writePerCRStatuses R [] agg s = (None, s)"
| "writePerCRStatuses R (item # items) agg s =
     (if DeletionTimestamp (ao_Meta item) then writePerCRStatuses R items agg s
      else
        let rows = ResolveCR agg (alias_of item) in
        case alias_applyStatus (ar_retries R) R item (per_cr_condition item rows) (Some rows) s of
          (Some e, s) \<Rightarrow> (Some e, s)
        | (None, s) \<Rightarrow> writePerCRStatuses R items agg s)"

subsection \<open>Finalizers\<close>

definition set_finalizers :: "string list \<Rightarrow> alias_object \<Rightarrow> alias_object" where
  "set_finalizers fs item = item\<lparr>ao_Meta := (ao_Meta item)\<lparr>Finalizers := fs\<rparr>\<rparr>"

definition alias_update ::
  "'w ModelAliasReconciler \<Rightarrow> alias_object \<Rightarrow> 'w rstate \<Rightarrow> (kube_error + alias_object) \<times> 'w rstate" where
  "alias_update R item s =
     (let s = emit (ObjectUpdate (Finalizers (ao_Meta item))) s;
          (r, w) = ar_update R (world s) item
      in (r, set_world w s))"

text \<open>The first loop of the handler; \<open>seen\<close> holds the items already passed, as the server returned them.\<close>

fun add_alias_finalizers ::
  "'w ModelAliasReconciler \<Rightarrow> alias_object list \<Rightarrow> alias_object list \<Rightarrow> 'w rstate \<Rightarrow> alias_object list flow \<times> 'w rstate" where
  "add_alias_finalizers R seen [] s = (Next seen, s)"
| "add_alias_finalizers R seen (item # items) s =
     (if DeletionTimestamp (ao_Meta item) \<or> ContainsFinalizer (ar_lib R) (Finalizers (ao_Meta item)) modelAliasFinalizer
      then add_alias_finalizers R (seen @ [item]) items s
      else
        case alias_update R (set_finalizers (AddFinalizer (ar_lib R) (Finalizers (ao_Meta item)) modelAliasFinalizer) item) s of
          (Inl e, s) \<Rightarrow>
            (Return (if IsConflict e \<or> IsNotFoundK e then Inr \<lparr>RequeueAfter = 0, Requeue = True\<rparr> else Inl (KubeErr e)), s)
        | (Inr item, s) \<Rightarrow> add_alias_finalizers R (seen @ [item]) items s)"

fun stripDeletingFinalizers ::
  "'w ModelAliasReconciler \<Rightarrow> alias_object list \<Rightarrow> 'w rstate \<Rightarrow> kube_error option \<times> 'w rstate" where
  "stripDeletingFinalizers R [] s = (None, s)"
| "stripDeletingFinalizers R (item # items) s =
     (if \<not> DeletionTimestamp (ao_Meta item)
         \<or> \<not> ContainsFinalizer (ar_lib R) (Finalizers (ao_Meta item)) modelAliasFinalizer
      then stripDeletingFinalizers R items s
      else
        case alias_update R (set_finalizers (RemoveFinalizer (ar_lib R) (Finalizers (ao_Meta item)) modelAliasFinalizer) item) s of
          (Inl e, s) \<Rightarrow> (if IsConflict e \<or> IsNotFoundK e then stripDeletingFinalizers R items s else (Some e, s))
        | (Inr _, s) \<Rightarrow> stripDeletingFinalizers R items s)"

subsection \<open>The handler\<close>

definition alias_call_failed ::
  "'w ModelAliasReconciler \<Rightarrow> alias_object list \<Rightarrow> string \<Rightarrow> lerror \<Rightarrow> int \<Rightarrow> 'w rstate \<Rightarrow> verdict \<times> 'w rstate" where
  "alias_call_failed R items op err requeueAfter s =
     (let s = (if as_auth401 err \<noteq> None then invalidate_cache s else s)
      in broadcastNotReady R items (modelAliasErrorReason err) (op @ '': '' @ lerror_text err) requeueAfter s)"

definition desired_aliases :: "alias_object list \<Rightarrow> ModelAliasAggregate" where
  "desired_aliases items = AggregateModelAliases (map alias_of (filterAliveAliases items))"

definition alias_report ::
  "'w ModelAliasReconciler \<Rightarrow> alias_object list \<Rightarrow> 'w rstate \<Rightarrow> verdict \<times> 'w rstate" where
  "alias_report R items s =
     (case writePerCRStatuses R items (desired_aliases items) s of
        (Some e, s) \<Rightarrow> (Inl (KubeErr e), s)
      | (None, s) \<Rightarrow>
          (case stripDeletingFinalizers R items s of
             (Some e, s) \<Rightarrow> (Inl (KubeErr e), s)
           | (None, s) \<Rightarrow> (Inr (requeue_after modelAliasResyncPeriod), s)))"

definition alias_write ::
  "'w ModelAliasReconciler \<Rightarrow> alias_object list \<Rightarrow> 'w http ConnectionSnapshot \<Rightarrow> 'w http \<Rightarrow> 'w rstate \<Rightarrow> verdict \<times> 'w rstate" where
  "alias_write R items snap cli s =
     (let rq = NormalizedRequeueOnRejectedAfter snap in
      case GetRouterSettings cli s of
        (Inl err, s) \<Rightarrow> alias_call_failed R items ''GET /get/config/callbacks'' err rq s
      | (Inr current, s) \<Rightarrow>
          (case UpdateRouterSettings cli (Some (current\<lparr>rs_ModelGroupAlias := Desired (desired_aliases items)\<rparr>)) s of
             (Inl err, s) \<Rightarrow> alias_call_failed R items ''POST /config/update'' err rq s
           | (Inr _, s) \<Rightarrow> alias_report R items s))"

definition alias_gate :: "'w ModelAliasReconciler \<Rightarrow> alias_object list \<Rightarrow> 'w rstate \<Rightarrow> verdict \<times> 'w rstate" where
  "alias_gate R items s =
     (let snap = Snapshot (r_cache s) in
      case (snap_Ready snap, snap_Client snap) of
        (True, Some cli) \<Rightarrow> alias_write R items snap cli s
      | _ \<Rightarrow> broadcastNotReady R items reasonLiteLLMUnavailable
          (''LiteLLMConnection/default not Ready (reason: '' @ snap_Reason snap @ '')'')
          (NormalizedRequeueOnRejectedAfter snap) s)"

definition alias_Reconcile :: "'w ModelAliasReconciler \<Rightarrow> NamespacedName \<Rightarrow> 'w rstate \<Rightarrow> verdict \<times> 'w rstate" where
  "alias_Reconcile R key s =
     (if snd key \<noteq> ModelAliasSingletonKey then (Inr no_requeue, s)
      else
        case ar_list R (world s) of
          (Inl e, w) \<Rightarrow> (Inl (WrapErr ''list LiteLLMModelAlias'' (KubeErr e)), set_world w s)
        | (Inr items, w) \<Rightarrow>
            (case add_alias_finalizers R [] items (set_world w s) of
               (Return v, s) \<Rightarrow> (v, s)
             | (Next items, s) \<Rightarrow> alias_gate R items s))"

definition mapToSingleton :: "'w ModelAliasReconciler \<Rightarrow> NamespacedName list" where
  "mapToSingleton R = [(ar_Namespace R, ModelAliasSingletonKey)]"

subsection \<open>Effects\<close>

lemma alias_attempt_emits:
  "P (StatusWrite cond '''') \<Longrightarrow> emits P s (snd (alias_status_attempt R item cond rows s))"
  by (auto simp: alias_status_attempt_def Let_def case_prod_beta split: prod.splits sum.splits
      intro!: emits_set_world emits_then_emit)

lemma alias_applyStatus_emits:
  "P (StatusWrite cond '''') \<Longrightarrow> emits P s (snd (alias_applyStatus n R item cond rows s))"
proof (induction n arbitrary: s)
  case (Suc n)
  obtain e s1 where a: "alias_status_attempt R item cond rows s = (e, s1)" by fastforce
  have "emits P s s1" using alias_attempt_emits [of P cond s R item rows] Suc.prems a by simp
  with Suc a show ?case by (auto split: option.splits intro: emits_trans)
qed (simp add: alias_attempt_emits)

lemma broadcast_loop_setback: "emits is_setback s (snd (broadcast_loop R reason msg items s))"
proof (induction items arbitrary: s)
  case (Cons item items)
  let ?c = "alias_condition item ConditionFalse reason msg"
  obtain e s1 where a: "alias_applyStatus (ar_retries R) R item ?c None s = (e, s1)" by fastforce
  have "emits is_setback s s1"
    using alias_applyStatus_emits [of is_setback ?c s "ar_retries R" R item None] a by (simp add: alias_condition_def)
  with Cons a show ?case by (auto split: option.splits intro: emits_trans)
qed simp

lemma broadcastNotReady_setback: "emits is_setback s (snd (broadcastNotReady R items reason msg rq s))"
  using broadcast_loop_setback [of s R reason msg items]
  by (auto simp: broadcastNotReady_def split: prod.splits option.splits)

lemma alias_call_failed_setback: "emits is_setback s (snd (alias_call_failed R items op err rq s))"
  by (auto simp: alias_call_failed_def Let_def intro: emits_trans [OF invalidate_cache_emits] broadcastNotReady_setback)

lemma writePerCRStatuses_reports: "emits is_report s (snd (writePerCRStatuses R items agg s))"
proof (induction items arbitrary: s)
  case (Cons item items)
  let ?rows = "ResolveCR agg (alias_of item)"
  obtain e s1 where a: "alias_applyStatus (ar_retries R) R item (per_cr_condition item ?rows) (Some ?rows) s = (e, s1)"
    by fastforce
  have "emits is_report s s1"
    using alias_applyStatus_emits [of is_report _ s "ar_retries R" R item "Some ?rows"] a by (metis is_report.simps(1) snd_conv)
  with Cons a show ?case by (auto simp: Let_def split: option.splits intro: emits_trans)
qed simp

lemma alias_update_log: "log (snd (alias_update R item s)) = log s @ [ObjectUpdate (Finalizers (ao_Meta item))]"
  by (simp add: alias_update_def emit_def set_world_def Let_def case_prod_beta)

lemma alias_update_emits: "P (ObjectUpdate (Finalizers (ao_Meta item))) \<Longrightarrow> emits P s (snd (alias_update R item s))"
  by (simp add: emits_def alias_update_log)

lemma add_alias_finalizers_emits:
  assumes "\<And>fs. P (ObjectUpdate (AddFinalizer (ar_lib R) fs modelAliasFinalizer))"
  shows "emits P s (snd (add_alias_finalizers R seen items s))"
proof (induction items arbitrary: seen s)
  case (Cons item items)
  let ?i = "set_finalizers (AddFinalizer (ar_lib R) (Finalizers (ao_Meta item)) modelAliasFinalizer) item"
  obtain r s1 where u: "alias_update R ?i s = (r, s1)" by fastforce
  have "emits P s s1" using alias_update_emits [of P ?i s R] assms u by (simp add: set_finalizers_def)
  with Cons u show ?case by (auto split: sum.splits intro: emits_trans)
qed simp

lemma strip_emits:
  assumes "\<And>fs. P (ObjectUpdate fs)"
  shows "emits P s (snd (stripDeletingFinalizers R items s))"
proof (induction items arbitrary: s)
  case (Cons item items)
  let ?i = "set_finalizers (RemoveFinalizer (ar_lib R) (Finalizers (ao_Meta item)) modelAliasFinalizer) item"
  obtain r s1 where u: "alias_update R ?i s = (r, s1)" by fastforce
  have "emits P s s1" using alias_update_emits [of P ?i s R] assms u by simp
  with Cons u show ?case by (auto split: sum.splits intro: emits_trans)
qed simp

lemma alias_report_emits:
  assumes "\<And>e. is_report e \<Longrightarrow> P e" and "\<And>fs. P (ObjectUpdate fs)"
  shows "emits P s (snd (alias_report R items s))"
proof -
  obtain e s1 where w: "writePerCRStatuses R items (desired_aliases items) s = (e, s1)" by fastforce
  have "emits P s s1"
    using emits_reports [OF writePerCRStatuses_reports, of P s R items "desired_aliases items"] assms(1) w by simp
  moreover obtain e' s2 where st: "stripDeletingFinalizers R items s1 = (e', s2)" by fastforce
  have "emits P s1 s2" using strip_emits [of P s1 R items] assms(2) st by simp
  ultimately show ?thesis
    by (auto simp: alias_report_def w st split: option.splits intro: emits_trans)
qed

lemma router_calls_log:
  "log (snd (GetRouterSettings http s)) = log s @ [Http ''GET'' ''/get/config/callbacks'' None]"
  "log (snd (UpdateRouterSettings http (Some rs) s)) =
     log s @ [Http ''POST'' ''/config/update'' (Some (JObj [(''router_settings'', JObj (merge_settings rs))]))]"
  by (auto simp: GetRouterSettings_def UpdateRouterSettings_def makeRequest_def emit_def split: sum.splits prod.splits)

lemma alias_write_emits:
  assumes "\<And>p. P (Http ''GET'' p None)" and "\<And>b. P (Http ''POST'' ''/config/update'' b)"
    and "\<And>e. is_report e \<Longrightarrow> P e" and "\<And>fs. P (ObjectUpdate fs)"
  shows "emits P s (snd (alias_write R items snap cli s))"
proof -
  obtain r s1 where g: "GetRouterSettings cli s = (r, s1)" by fastforce
  have e1: "emits P s s1" using router_calls_log(1) [of cli s] g assms(1) by (simp add: emits_def)
  have fail: "emits P s' (snd (alias_call_failed R items op err rq s'))" for op err rq s'
    by (rule emits_reports [OF setback_emits [OF alias_call_failed_setback]]) (rule assms(3))
  have upd: "emits P s (snd (UpdateRouterSettings cli (Some rs) s1))" for rs
    using router_calls_log(2) [of cli rs s1] e1 assms(2) by (auto simp: emits_def)
  have rep: "emits P s' (snd (alias_report R items s'))" for s' by (rule alias_report_emits) (simp_all add: assms)
  show ?thesis
    using emits_trans [OF e1 fail] emits_trans [OF _ fail] emits_trans [OF _ rep] upd
    by (simp add: alias_write_def g Let_def split: sum.splits prod.splits) (metis snd_conv)
qed

lemma alias_write_release:
  assumes "e \<in> set (drop (length (log s)) (log (snd (alias_write R items snap cli s))))" and "releases f e"
  shows "\<exists>current s1 s2. GetRouterSettings cli s = (Inr current, s1) \<and>
    UpdateRouterSettings cli (Some (current\<lparr>rs_ModelGroupAlias := Desired (desired_aliases items)\<rparr>)) s1 = (Inr (), s2) \<and>
    alias_write R items snap cli s = alias_report R items s2 \<and> e \<notin> set (drop (length (log s)) (log s2))"
proof -
  obtain r s1 where g: "GetRouterSettings cli s = (r, s1)" by fastforce
  have e1: "emits (\<lambda>e. \<not> releases f e) s s1"
    using router_calls_log(1) [of cli s] g by (simp add: emits_def)
  have fail: "emits (\<lambda>e. \<not> releases f e) s' (snd (alias_call_failed R items op err rq s'))" for op err rq s'
    by (rule emits_mono [OF alias_call_failed_setback]) (rule setback_no_release)
  show ?thesis
  proof (cases r)
    case (Inl err)
    then have "emits (\<lambda>e. \<not> releases f e) s (snd (alias_write R items snap cli s))"
      using emits_trans [OF e1 fail] by (simp add: alias_write_def g Let_def)
    then show ?thesis using new_effects_mem assms by blast
  next
    case (Inr current)
    let ?rs = "current\<lparr>rs_ModelGroupAlias := Desired (desired_aliases items)\<rparr>"
    obtain r' s2 where u: "UpdateRouterSettings cli (Some ?rs) s1 = (r', s2)" by fastforce
    have "emits (\<lambda>e. \<not> releases f e) s1 s2"
      using router_calls_log(2) [of cli ?rs s1] u by (simp add: emits_def)
    with e1 have e2: "emits (\<lambda>e. \<not> releases f e) s s2" by (rule emits_trans)
    show ?thesis
    proof (cases r')
      case (Inl err)
      then have "emits (\<lambda>e. \<not> releases f e) s (snd (alias_write R items snap cli s))"
        using emits_trans [OF e2 fail] Inr by (simp add: alias_write_def g u Let_def)
      then show ?thesis using new_effects_mem assms by blast
    next
      case r': (Inr x)
      then show ?thesis
        using g u Inr new_effects_mem [OF e2] assms(2) by (auto simp: alias_write_def)
    qed
  qed
qed

subsection \<open>Properties\<close>

text \<open>
  C28.  A deleted alias object is released only after LiteLLM has accepted a map without it: if a
  reconcile writes an object without the finalizer, then earlier in the same reconcile the router
  settings were read and written back with exactly the aggregate of the objects that are not being
  deleted, every other setting as it was read, and LiteLLM accepted the write.
\<close>

theorem alias_released_after_write:
  assumes "klib_laws (ar_lib R)"
    and "e \<in> set (drop (length (log s)) (log (snd (alias_Reconcile R key s))))" and "releases modelAliasFinalizer e"
  shows "\<exists>listed items w s0 cli current s1 s2.
    ar_list R (world s) = (Inr listed, w) \<and> add_alias_finalizers R [] listed (set_world w s) = (Next items, s0) \<and>
    snap_Client (Snapshot (r_cache s0)) = Some cli \<and> GetRouterSettings cli s0 = (Inr current, s1) \<and>
    UpdateRouterSettings cli (Some (current\<lparr>rs_ModelGroupAlias := Desired
      (AggregateModelAliases (map alias_of (filterAliveAliases items)))\<rparr>)) s1 = (Inr (), s2) \<and>
    e \<notin> set (drop (length (log s)) (log s2)) \<and> e \<in> set (drop (length (log s2)) (log (snd (alias_Reconcile R key s))))"
proof -
  let ?f = "modelAliasFinalizer"
  obtain listed w where l: "ar_list R (world s) = (Inr listed, w)" and k: "snd key = ModelAliasSingletonKey"
    using assms(2) by (auto simp: alias_Reconcile_def set_world_def split: if_splits prod.splits sum.splits)
  obtain f s0 where a: "add_alias_finalizers R [] listed (set_world w s) = (f, s0)" by fastforce
  have "emits (\<lambda>e. \<not> releases ?f e) (set_world w s) s0"
    using add_alias_finalizers_emits [of "\<lambda>e. \<not> releases ?f e" R "set_world w s" "[]" listed] a
    by (simp add: klib_lawsD(7) [OF assms(1)])
  then have e0: "emits (\<lambda>e. \<not> releases ?f e) s s0" by (simp add: emits_def set_world_def)
  then obtain items where n: "f = Next items"
    using assms(2,3) new_effects_mem [OF e0] k l a by (cases f) (auto simp: alias_Reconcile_def)
  have run: "alias_Reconcile R key s = alias_gate R items s0" using k l a n by (simp add: alias_Reconcile_def)
  have quiet: "emits (\<lambda>e. \<not> releases ?f e) s (snd (broadcastNotReady R items r m q s0))" for r m q
    by (rule emits_trans [OF e0 emits_mono [OF broadcastNotReady_setback]]) (rule setback_no_release)
  then obtain cli where c: "snap_Ready (Snapshot (r_cache s0))" "snap_Client (Snapshot (r_cache s0)) = Some cli"
    using assms(2,3) new_effects_mem [OF quiet]
    by (auto simp: run alias_gate_def Let_def split: bool.splits option.splits)
  then have w': "alias_Reconcile R key s = alias_write R items (Snapshot (r_cache s0)) cli s0"
    by (simp add: run alias_gate_def)
  obtain xs where xs: "log s0 = log s @ xs" "list_all (\<lambda>e. \<not> releases ?f e) xs" using e0 by (auto simp: emits_def)
  have "emits (\<lambda>_. True) s0 (snd (alias_write R items (Snapshot (r_cache s0)) cli s0))" by (rule alias_write_emits) simp_all
  then obtain ys where ys: "log (snd (alias_Reconcile R key s)) = log s0 @ ys" by (auto simp: emits_def w')
  have "e \<in> set ys" using assms(2,3) xs by (auto simp: ys list_all_iff)
  then obtain current s1 s2 where r: "GetRouterSettings cli s0 = (Inr current, s1)"
    "UpdateRouterSettings cli (Some (current\<lparr>rs_ModelGroupAlias := Desired (desired_aliases items)\<rparr>)) s1 = (Inr (), s2)"
    "alias_Reconcile R key s = alias_report R items s2" "e \<notin> set (drop (length (log s0)) (log s2))"
    using alias_write_release [of e s0 R items "Snapshot (r_cache s0)" cli ?f] assms(3) ys unfolding w' by auto
  obtain zs where zs: "log s2 = log s0 @ zs"
    using router_calls_log(1) [of cli s0] r(1,2)
      router_calls_log(2) [of cli "current\<lparr>rs_ModelGroupAlias := Desired (desired_aliases items)\<rparr>" s1] by simp
  then have "e \<notin> set zs" using r(4) by simp
  then have "e \<notin> set (drop (length (log s)) (log s2))"
    using xs zs assms(3) by (auto simp: list_all_iff)
  moreover have "emits (\<lambda>_. True) s2 (snd (alias_report R items s2))" by (rule alias_report_emits) simp_all
  then obtain zs where "log (snd (alias_Reconcile R key s)) = log s2 @ zs" by (auto simp: emits_def r(3))
  ultimately show ?thesis
    using l a n c(2) r assms(2) unfolding desired_aliases_def by (auto simp: drop_append dest: in_set_dropD)
qed

definition example_alias_object :: "bool \<Rightarrow> string \<Rightarrow> alias_object" where
  "example_alias_object deleting n = \<lparr>ao_Meta = \<lparr>Namespace = ''ns'', Name = n, Generation = 1, DeletionTimestamp = deleting,
       Finalizers = [modelAliasFinalizer], Annotations = [], OwnerReferences = []\<rparr>,
     ao_Aliases = [\<lparr>ae_Name = ''fast'', ae_Value = ''gpt''\<rparr>],
     ao_ObservedGeneration = 1, ao_Conditions = [], ao_AliasStatuses = []\<rparr>"

definition example_alias_R :: "alias_object list \<Rightarrow> unit ModelAliasReconciler" where
  "example_alias_R items = \<lparr>ar_list = (\<lambda>w. (Inr items, w)), ar_get = (\<lambda>w k. (Inl KNotFound, w)),
     ar_update = (\<lambda>w i. (Inr i, w)), ar_status_update = (\<lambda>w i. (None, w)),
     ar_lib = klib_std, ar_retries = 4, ar_Namespace = ''ns''\<rparr>"

definition example_router :: "unit http" where
  "example_router = (\<lambda>w m p b. (Responded \<lparr>rs_status = 200, rs_raw = '''', rs_json = Some (JObj [])\<rparr>, w))"

definition example_router_state :: "unit rstate" where
  "example_router_state = example_state\<lparr>r_cache := Rebuild NewCache
     (zero_snapshot\<lparr>snap_Ready := True, snap_Client := Some example_router\<rparr>)\<rparr>"

lemma example_alias_run:
  "log (snd (alias_Reconcile (example_alias_R [example_alias_object True ''a'']) (''ns'', ModelAliasSingletonKey) example_router_state)) =
     [Http ''GET'' ''/get/config/callbacks'' None,
      Http ''POST'' ''/config/update'' (Some (JObj [(''router_settings'', JObj [(''model_group_alias'', JObj [])])])),
      ObjectUpdate []]"
  by (simp add: alias_Reconcile_def example_alias_R_def example_alias_object_def example_router_state_def example_router_def
      example_state_def Snapshot_def Rebuild_def NewCache_def zero_snapshot_def emitRebuilt_def Let_def set_world_def klib_std_def
      alias_gate_def alias_write_def GetRouterSettings_def UpdateRouterSettings_def makeRequest_def response_of_def readCappedBody_def
      classify_response_def is2xx_def unmarshal_def decode_router_def struct_field_def emit_def alias_report_def desired_aliases_def
      filterAliveAliases_def AggregateModelAliases_def merge_settings_def map_put_def alias_update_def set_finalizers_def)

theorem alias_released_after_write_witness:
  "\<exists>items s0 current s1 s2. GetRouterSettings example_router s0 = (Inr current, s1) \<and>
     UpdateRouterSettings example_router (Some (current\<lparr>rs_ModelGroupAlias := Desired
       (AggregateModelAliases (map alias_of (filterAliveAliases items)))\<rparr>)) s1 = (Inr (), s2 :: unit rstate)"
proof -
  let ?R = "example_alias_R [example_alias_object True ''a'']"
  have "ObjectUpdate [] \<in> set (drop (length (log example_router_state))
      (log (snd (alias_Reconcile ?R (''ns'', ModelAliasSingletonKey) example_router_state))))"
    unfolding example_alias_run by (simp add: example_router_state_def example_state_def)
  moreover have "klib_laws (ar_lib ?R)" by (simp add: example_alias_R_def klib_std_laws)
  ultimately obtain items s0 cli current s1 s2 where
    a: "add_alias_finalizers ?R [] [example_alias_object True ''a''] (set_world () example_router_state) = (Next items, s0)"
    and c: "snap_Client (Snapshot (r_cache s0)) = Some cli" "GetRouterSettings cli s0 = (Inr current, s1)"
      "UpdateRouterSettings cli (Some (current\<lparr>rs_ModelGroupAlias := Desired
        (AggregateModelAliases (map alias_of (filterAliveAliases items)))\<rparr>)) s1 = (Inr (), s2)"
    using alias_released_after_write [of ?R "ObjectUpdate []" example_router_state "(''ns'', ModelAliasSingletonKey)"]
    by (auto simp: example_alias_R_def)
  have "cli = example_router"
    using a c(1) by (auto simp: example_alias_object_def set_world_def example_router_state_def Snapshot_def Rebuild_def
        NewCache_def zero_snapshot_def emitRebuilt_def Let_def)
  with c show ?thesis by blast
qed

lemma alias_write_requests:
  "\<exists>ys zs. log (snd (alias_write R items snap cli s)) = log s @ Http ''GET'' ''/get/config/callbacks'' None # ys @ zs \<and>
     (ys = [] \<or> (\<exists>b. ys = [Http ''POST'' ''/config/update'' b])) \<and> list_all (\<lambda>e. \<not> is_mutation e) zs"
proof -
  obtain r s1 where g: "GetRouterSettings cli s = (r, s1)" by fastforce
  have l1: "log s1 = log s @ [Http ''GET'' ''/get/config/callbacks'' None]" using router_calls_log(1) [of cli s] g by simp
  have quiet: "is_report e \<Longrightarrow> \<not> is_mutation e" for e by (cases e) auto
  have fail: "emits (\<lambda>e. \<not> is_mutation e) s' (snd (alias_call_failed R items op err rq s'))" for op err rq s'
    by (rule emits_reports [OF setback_emits [OF alias_call_failed_setback]]) (rule quiet)
  have rep: "emits (\<lambda>e. \<not> is_mutation e) s' (snd (alias_report R items s'))" for s'
    by (rule alias_report_emits) (simp_all add: quiet)
  show ?thesis
  proof (cases r)
    case (Inl err)
    then obtain zs where "log (snd (alias_write R items snap cli s)) = log s1 @ zs" "list_all (\<lambda>e. \<not> is_mutation e) zs"
      using fail [of s1 "''GET /get/config/callbacks''" err "NormalizedRequeueOnRejectedAfter snap"]
      by (auto simp: alias_write_def g emits_def)
    then show ?thesis using l1 by (intro exI [of _ "[]"] exI [of _ zs]) simp
  next
    case (Inr current)
    let ?rs = "current\<lparr>rs_ModelGroupAlias := Desired (desired_aliases items)\<rparr>"
    let ?b = "Some (JObj [(''router_settings'', JObj (merge_settings ?rs))])"
    obtain r' s2 where u: "UpdateRouterSettings cli (Some ?rs) s1 = (r', s2)" by fastforce
    have l2: "log s2 = log s1 @ [Http ''POST'' ''/config/update'' ?b]" using router_calls_log(2) [of cli ?rs s1] u by simp
    have "emits (\<lambda>e. \<not> is_mutation e) s2 (snd (alias_write R items snap cli s))"
      using fail rep Inr by (auto simp: alias_write_def g u Let_def split: sum.split)
    then obtain zs where "log (snd (alias_write R items snap cli s)) = log s2 @ zs" "list_all (\<lambda>e. \<not> is_mutation e) zs"
      by (auto simp: emits_def)
    then show ?thesis using l1 l2 by (intro exI [of _ "[Http ''POST'' ''/config/update'' ?b]"] exI [of _ zs]) simp
  qed
qed

lemma add_alias_finalizers_cache: "r_cache (snd (add_alias_finalizers R seen items s)) = r_cache s"
proof (induction items arbitrary: seen s)
  case (Cons item items)
  have "alias_update R i s = (r, s1) \<Longrightarrow> r_cache s1 = r_cache s" for i r s1
    by (auto simp: alias_update_def emit_def set_world_def Let_def split: prod.splits)
  with Cons show ?case by (auto split: sum.splits prod.splits)
qed simp

text \<open>
  One write per pass: however many alias objects there are and whatever fails, a reconcile sends
  at most one mutating request, the write of the router settings, and while the connection is not
  usable it sends none at all.
\<close>

theorem alias_one_write:
  "\<exists>xs. log (snd (alias_Reconcile R key s)) = log s @ xs \<and>
     list_all (\<lambda>e. is_mutation e = (\<exists>b. e = Http ''POST'' ''/config/update'' b)) xs \<and>
     length (filter is_mutation xs) \<le> (if Usable (Snapshot (r_cache s)) then 1 else 0)"
proof (cases "snd key = ModelAliasSingletonKey \<and> (\<exists>listed w. ar_list R (world s) = (Inr listed, w))")
  case False
  then show ?thesis by (auto simp: alias_Reconcile_def set_world_def split: prod.splits sum.splits)
next
  case True
  then obtain listed w where l: "snd key = ModelAliasSingletonKey" "ar_list R (world s) = (Inr listed, w)" by blast
  let ?q = "\<lambda>e. \<not> is_mutation e \<and> \<not> (\<exists>b. e = Http ''POST'' ''/config/update'' b)"
  obtain f s0 where a: "add_alias_finalizers R [] listed (set_world w s) = (f, s0)" by fastforce
  then have c0: "r_cache s0 = r_cache s" using add_alias_finalizers_cache [of R "[]" listed "set_world w s"] by (simp add: set_world_def)
  have "emits ?q (set_world w s) s0"
    using add_alias_finalizers_emits [of ?q R "set_world w s" "[]" listed] a by simp
  then obtain xs where xs: "log s0 = log s @ xs" "list_all ?q xs" by (auto simp: emits_def set_world_def)
  then have quiet0: "filter is_mutation xs = []" by (auto simp: list_all_iff filter_empty_conv)
  have calm: "is_setback e \<Longrightarrow> ?q e" for e by (cases e) auto
  have quiet: "\<exists>zs. log s' = log s0 @ zs \<and> list_all ?q zs" if "emits is_setback s0 s'" for s'
  proof -
    have "emits ?q s0 s'" by (rule emits_mono [OF that]) (rule calm)
    then show ?thesis by (simp only: emits_def)
  qed
  show ?thesis
  proof (cases f)
    case (Return v)
    then show ?thesis using l a xs quiet0 by (auto simp: alias_Reconcile_def list_all_iff)
  next
    case (Next items)
    then have run: "alias_Reconcile R key s = alias_gate R items s0" using l a by (simp add: alias_Reconcile_def)
    show ?thesis
    proof (cases "\<exists>cli. snap_Ready (Snapshot (r_cache s)) \<and> snap_Client (Snapshot (r_cache s)) = Some cli")
      case True
      then obtain cli where c: "snap_Ready (Snapshot (r_cache s))" "snap_Client (Snapshot (r_cache s)) = Some cli" by blast
      then have "alias_Reconcile R key s = alias_write R items (Snapshot (r_cache s)) cli s0"
        by (simp add: run alias_gate_def c0)
      then show ?thesis
        using alias_write_requests [of R items "Snapshot (r_cache s)" cli s0] xs quiet0 c
        by (auto simp: Usable_def list_all_iff filter_empty_conv)
    next
      case False
      then have "emits is_setback s0 (snd (alias_Reconcile R key s))"
        by (auto simp: run alias_gate_def c0 Let_def broadcastNotReady_setback split: bool.splits option.splits)
      from quiet [OF this] show ?thesis using xs quiet0 by (auto simp: list_all_iff filter_empty_conv)
    qed
  qed
qed

end
