(* ===== verification/Controller_Kit.thy ===== *)
theory Controller_Kit
  imports Shared_Helpers Litellm_Model
begin

text \<open>
  The handler shape the access-group, toolset, MCP-server, agent and guardrail controllers share.  Their Go files repeat it step by
  step: fetch, deletion with the acknowledgement rule, finalizer, connection gate, existence probe,
  steady state with the stale-status heal, recreate breaker, create or update, status.  Here each step
  is one definition over an object with an arbitrary spec; what differs between the copies, kind,
  finalizer and texts, is the record \<open>kit\<close>.  The locale \<open>handler\<close> states what the whole handler
  guarantees once its kind-specific parts, the release of the remote entry and the live path, keep a
  small contract; the controllers interpret it on their own definitions.
\<close>

subsection \<open>Objects, parameters\<close>

record 'spec cr =
  cr_Meta :: ObjectMeta
  cr_Spec :: 'spec
  cr_ObservedGeneration :: int
  cr_Conditions :: "Condition list"
  cr_Hash :: string
  cr_ID :: string
  cr_At :: "int option"

record 'spec kit =
  k_kind :: string
  k_label :: string
  k_probe :: string
  k_finalizer :: string
  k_registered :: string
  k_create :: string
  k_carry :: "'spec cr \<Rightarrow> 'spec cr \<Rightarrow> 'spec cr"  \<comment> \<open>what else the status write takes from the object in hand\<close>

record ('w, 'spec) ctl =
  ct_kube :: "('w, 'spec cr) kclient"
  ct_now :: "'w \<Rightarrow> int \<times> 'w"
  ct_lib :: klib
  ct_retries :: nat
  ct_includeBody :: bool
  ct_RecreateLimit :: int

definition cr_key :: "'spec cr \<Rightarrow> NamespacedName" where
  "cr_key obj = (Namespace (cr_Meta obj), Name (cr_Meta obj))"

subsection \<open>Clock and breaker\<close>

definition tick :: "('w, 'spec) ctl \<Rightarrow> 'w rstate \<Rightarrow> int \<times> 'w rstate" where
  "tick C s = (let (t, w) = ct_now C (world s) in (t, set_world w s))"

definition kit_Count :: "('w, 'spec) ctl \<Rightarrow> NamespacedName \<Rightarrow> 'w rstate \<Rightarrow> nat \<times> 'w rstate" where
  "kit_Count C key s =
     (if r_churn s = None then (0, s)
      else let (t, s) = tick C s; (n, g) = Count key t (r_churn s) in (n, s\<lparr>r_churn := g\<rparr>))"

definition kit_Record :: "('w, 'spec) ctl \<Rightarrow> NamespacedName \<Rightarrow> 'w rstate \<Rightarrow> 'w rstate" where
  "kit_Record C key s =
     (if r_churn s = None then s
      else let (t, s) = tick C s; (_, g) = Record key t (r_churn s) in s\<lparr>r_churn := g\<rparr>)"

definition kit_Forget :: "NamespacedName \<Rightarrow> 'w rstate \<Rightarrow> 'w rstate" where
  "kit_Forget key s = s\<lparr>r_churn := Forget key (r_churn s)\<rparr>"

subsection \<open>Status\<close>

definition kit_status :: "'spec kit \<Rightarrow> klib \<Rightarrow> Condition \<Rightarrow> int \<Rightarrow> 'spec cr \<Rightarrow> string \<Rightarrow> 'spec cr \<Rightarrow> 'spec cr \<times> string" where
  "kit_status k K cond gen obj desiredID f =
     (let i = keepPersistedID desiredID (cr_ID f)
      in ((k_carry k obj f)\<lparr>cr_Conditions := SetStatusCondition K (cr_Conditions f) cond, cr_ObservedGeneration := gen,
            cr_Hash := cr_Hash obj, cr_ID := i, cr_At := cr_At obj\<rparr>, i))"

definition kit_writeStatus ::
  "'spec kit \<Rightarrow> ('w, 'spec) ctl \<Rightarrow> 'spec cr \<Rightarrow> ConditionStatus \<Rightarrow> string \<Rightarrow> string \<Rightarrow> 'w rstate
   \<Rightarrow> kube_error option \<times> 'w rstate" where
  "kit_writeStatus k C obj status reason msg s =
     (let gen = Generation (cr_Meta obj);
          cond = buildReadyCondition gen status reason msg;
          (r, s) = writeStatusWithRetry (ct_retries C) (ct_kube C) (cr_key obj)
             (\<lambda>f. StatusWrite cond (cr_ID f)) (kit_status k (ct_lib C) cond gen obj) (cr_ID obj) s;
          s = recordReconcileMetric (k_kind k) (Namespace (cr_Meta obj)) reason s
      in (case r of Inl e \<Rightarrow> Some e | Inr _ \<Rightarrow> None, s))"

definition kit_park ::
  "'spec kit \<Rightarrow> ('w, 'spec) ctl \<Rightarrow> 'spec cr \<Rightarrow> string \<Rightarrow> string \<Rightarrow> Result \<Rightarrow> 'w rstate \<Rightarrow> 'a flow \<times> 'w rstate" where
  "kit_park k C obj reason msg res s =
     (let (_, s) = kit_writeStatus k C obj ConditionFalse reason msg s
      in (Return (Inr res), reconcile_total (k_kind k) ''success'' s))"

definition kit_classify ::
  "'spec kit \<Rightarrow> ('w, 'spec) ctl \<Rightarrow> 'spec cr \<Rightarrow> lerror \<Rightarrow> string \<Rightarrow> 'w rstate \<Rightarrow> 'a flow \<times> 'w rstate" where
  "kit_classify k C obj err opDesc s =
     (let snap = Snapshot (r_cache s);
          (v, s) = classifyMutationError (ct_includeBody C) err opDesc (k_kind k) (kit_writeStatus k C obj)
            (NormalizedRequeueOnRejectedAfter snap) s
      in (Return v, s))"

subsection \<open>Deletion and finalizers\<close>

definition kit_ack ::
  "'spec kit \<Rightarrow> 'spec cr \<Rightarrow> Policy \<Rightarrow> string \<Rightarrow> bool \<Rightarrow> 'w rstate \<Rightarrow> unit flow \<times> 'w rstate" where
  "kit_ack k obj policy reason permanent s =
     (case newAckMissingFn (k_kind k) (Namespace (cr_Meta obj)) (Name (cr_Meta obj)) policy reason permanent s of
        (Some e, s) \<Rightarrow> (Return (Inl e), s)
      | (None, s) \<Rightarrow> (Next (), s))"

definition kit_unblock :: "'spec kit \<Rightarrow> 'spec cr \<Rightarrow> 'w rstate \<Rightarrow> 'w rstate" where
  "kit_unblock k obj = DeletionBlocked_Forget (k_kind k) (Namespace (cr_Meta obj)) (Name (cr_Meta obj))"

definition kit_deleted :: "'spec kit \<Rightarrow> 'spec cr \<Rightarrow> 'w rstate \<Rightarrow> unit flow \<times> 'w rstate" where
  "kit_deleted k obj s =
     (Next (), kit_unblock k obj (emit (Metric ''DriftCorrectedTotal'' [k_label k, ''delete_vanished'']) s))"

definition kit_update ::
  "('w, 'spec) ctl \<Rightarrow> 'spec cr \<Rightarrow> string list \<Rightarrow> 'w rstate \<Rightarrow> verdict \<times> 'w rstate" where
  "kit_update C obj fs s =
     (let obj = obj\<lparr>cr_Meta := (cr_Meta obj)\<lparr>Finalizers := fs\<rparr>\<rparr>;
          s = emit (ObjectUpdate fs) s;
          (err, w) = kc_update (ct_kube C) (world s) obj
      in (case err of Some e \<Rightarrow> Inl (KubeErr e) | None \<Rightarrow> Inr no_requeue, set_world w s))"

definition kit_drop_finalizer :: "'spec kit \<Rightarrow> ('w, 'spec) ctl \<Rightarrow> 'spec cr \<Rightarrow> 'w rstate \<Rightarrow> verdict \<times> 'w rstate" where
  "kit_drop_finalizer k C obj s =
     (let s = emit (Metric ''CRStatusAge.Forget'' [k_kind k, Name (cr_Meta obj)]) s;
          s = kit_unblock k obj s
      in kit_update C obj (RemoveFinalizer (ct_lib C) (Finalizers (cr_Meta obj)) (k_finalizer k)) s)"

subsection \<open>Gate, probe, steady state, breaker, final status\<close>

definition kit_gate ::
  "'spec kit \<Rightarrow> ('w, 'spec) ctl \<Rightarrow> 'spec cr \<Rightarrow> 'w rstate \<Rightarrow> ('w http ConnectionSnapshot \<times> 'w http) flow \<times> 'w rstate" where
  "kit_gate k C obj s =
     (let snap = Snapshot (r_cache s) in
      case (snap_Ready snap, snap_Client snap) of
        (True, Some client) \<Rightarrow> (Next (snap, client), s)
      | _ \<Rightarrow>
          (let reason = (if snap_Reason snap = '''' then reasonConnecting else snap_Reason snap)
           in kit_park k C obj reasonLiteLLMUnavailable
                (''LiteLLMConnection/default not Ready (reason: '' @ reason @ '')'') no_requeue s))"

definition kit_probe ::
  "'spec kit \<Rightarrow> 'spec cr \<Rightarrow> ('w rstate \<Rightarrow> (lerror + string) \<times> 'w rstate) \<Rightarrow> 'w rstate \<Rightarrow> 'spec cr flow \<times> 'w rstate" where
  "kit_probe k obj lookup s =
     (if cr_ID obj \<noteq> '''' \<and> cr_Hash obj \<noteq> '''' then
        (case probeVanishedResourceID (cr_ID obj) (\<lambda>s. let (r, s) = lookup s in (r, (), s)) (k_probe k) s of
           (Inl e, _, s) \<Rightarrow> (Return (Inl (LlmErr e)), s)
         | (Inr clear, _, s) \<Rightarrow> (Next (if clear then obj\<lparr>cr_ID := ''''\<rparr> else obj), s))
      else (Next obj, s))"

definition kit_is_steady :: "'spec cr \<Rightarrow> string \<Rightarrow> bool" where
  "kit_is_steady obj hash \<longleftrightarrow>
     cr_Hash obj = hash \<and> cr_ID obj \<noteq> '''' \<and> cr_ObservedGeneration obj = Generation (cr_Meta obj)"

definition kit_synced :: "klib \<Rightarrow> 'spec cr \<Rightarrow> bool" where
  "kit_synced K obj =
     (case FindStatusCondition K (cr_Conditions obj) conditionTypeReady of
        None \<Rightarrow> False | Some c \<Rightarrow> Status c = ConditionTrue \<and> Reason c = reasonSynced)"

definition kit_status_failed :: "kube_error \<Rightarrow> verdict" where
  "kit_status_failed e = (if IsConflict e then Inr no_requeue else Inl (KubeErr e))"

definition kit_steady ::
  "'spec kit \<Rightarrow> ('w, 'spec) ctl \<Rightarrow> NamespacedName \<Rightarrow> 'spec cr \<Rightarrow> 'w rstate \<Rightarrow> unit flow \<times> 'w rstate" where
  "kit_steady k C key obj s =
     (case (if kit_synced (ct_lib C) obj then (None, s)
            else kit_writeStatus k C obj ConditionTrue reasonSynced (k_registered k) s) of
        (Some e, s) \<Rightarrow> (Return (kit_status_failed e), s)
      | (None, s) \<Rightarrow>
          (done_ok, kit_Forget key (emit (Metric ''CRStatusAge.RecordSuccess'' [k_kind k, Name (cr_Meta obj)]) s)))"

definition kit_first :: "'spec cr \<Rightarrow> bool" where
  "kit_first obj \<longleftrightarrow> cr_ObservedGeneration obj = 0 \<or> cr_Hash obj = ''''"

definition kit_limit :: "('w, 'spec) ctl \<Rightarrow> int" where
  "kit_limit C = (if ct_RecreateLimit C \<le> 0 then DefaultRecreateLimitPerMin else ct_RecreateLimit C)"

definition kit_throttle ::
  "'spec kit \<Rightarrow> ('w, 'spec) ctl \<Rightarrow> NamespacedName \<Rightarrow> 'spec cr \<Rightarrow> 'w rstate \<Rightarrow> unit flow \<times> 'w rstate" where
  "kit_throttle k C key obj s =
     (if kit_first obj then (Next (), s)
      else
        let (n, s) = kit_Count C key s in
        if int n \<ge> kit_limit C
        then kit_park k C obj ''RecreateThrottled''
               (''recreate throttled: '' @ show_nat n @ '' recreates within 1m0s (limit '' @ show_int (kit_limit C) @ ''); ''
                @ ''LiteLLM accepts '' @ k_create k @ '' but the entry never appears on the existence probe ''
                @ ''(created-but-not-listed); parked to avoid a reconcile storm. Retrying after 5m0s.'')
               (requeue_after (5 * minute)) s
        else (Next (), s))"

definition kit_created :: "'spec kit \<Rightarrow> ('w, 'spec) ctl \<Rightarrow> NamespacedName \<Rightarrow> 'spec cr \<Rightarrow> 'w rstate \<Rightarrow> 'w rstate" where
  "kit_created k C key obj s =
     (if \<not> kit_first obj \<and> cr_ObservedGeneration obj > 0
      then kit_Record C key (emit (Metric ''DriftCorrectedTotal'' [k_label k, ''create_missing'']) s) else s)"

definition kit_updated :: "'spec kit \<Rightarrow> 'spec cr \<Rightarrow> 'w rstate \<Rightarrow> 'w rstate" where
  "kit_updated k obj s =
     (if kit_first obj then s else emit (Metric ''DriftCorrectedTotal'' [k_label k, ''update_drifted'']) s)"

definition kit_finish ::
  "'spec kit \<Rightarrow> ('w, 'spec) ctl \<Rightarrow> 'spec cr \<Rightarrow> string \<Rightarrow> string \<Rightarrow> 'w rstate \<Rightarrow> unit flow \<times> 'w rstate" where
  "kit_finish k C obj hash newID s =
     (let (now, s) = tick C s;
          obj = obj\<lparr>cr_Hash := hash, cr_ID := newID, cr_At := Some now\<rparr>;
          (err, s) = kit_writeStatus k C obj ConditionTrue reasonSynced (k_registered k) s
      in case err of
           Some e \<Rightarrow> (Return (kit_status_failed e), s)
         | None \<Rightarrow>
             (done_ok, reconcile_total (k_kind k) ''success''
                (emit (Metric ''CRStatusAge.RecordSuccess'' [k_kind k, Name (cr_Meta obj)]) s)))"

text \<open>
  Create, with adoption by name on a 409, or update.  \<open>create\<close> returns the minted id, \<open>resolveID\<close> looks a
  name up and answers the empty string when it finds nothing, \<open>update\<close> writes onto an id.
\<close>

definition kit_create_path ::
  "'spec kit \<Rightarrow> ('w, 'spec) ctl \<Rightarrow> NamespacedName \<Rightarrow> 'spec cr \<Rightarrow> string
   \<Rightarrow> ('w rstate \<Rightarrow> (lerror + string) \<times> 'w rstate) \<Rightarrow> ('w rstate \<Rightarrow> string \<times> 'w rstate)
   \<Rightarrow> (string \<Rightarrow> 'w rstate \<Rightarrow> (lerror + unit) \<times> 'w rstate) \<Rightarrow> 'w rstate \<Rightarrow> string flow \<times> 'w rstate" where
  "kit_create_path k C key obj put create resolveID update =
     andThen (kit_throttle k C key obj) (\<lambda>_ s.
       case create s of
         (Inr i, s) \<Rightarrow> (Next i, kit_created k C key obj s)
       | (Inl cerr, s) \<Rightarrow>
           (if rejectedStatus cerr = 409 then
              (case resolveID s of
                 (adopted, s) \<Rightarrow>
                   (if adopted = '''' then kit_classify k C obj cerr (k_create k) s
                    else
                      case update adopted s of
                        (Inl uerr, s) \<Rightarrow> kit_classify k C obj uerr (put @ '' (adopt)'') s
                      | (Inr _, s) \<Rightarrow> (Next adopted, s)))
            else kit_classify k C obj cerr (k_create k) s))"

definition kit_apply ::
  "'spec kit \<Rightarrow> ('w, 'spec) ctl \<Rightarrow> NamespacedName \<Rightarrow> 'spec cr \<Rightarrow> string
   \<Rightarrow> ('w rstate \<Rightarrow> (lerror + string) \<times> 'w rstate) \<Rightarrow> ('w rstate \<Rightarrow> string \<times> 'w rstate)
   \<Rightarrow> (string \<Rightarrow> 'w rstate \<Rightarrow> (lerror + unit) \<times> 'w rstate) \<Rightarrow> 'w rstate \<Rightarrow> string flow \<times> 'w rstate" where
  "kit_apply k C key obj put create resolveID update s =
     (if cr_ID obj = '''' then kit_create_path k C key obj put create resolveID update s
      else
        case update (cr_ID obj) s of
          (Inl err, s) \<Rightarrow> kit_classify k C obj err put s
        | (Inr _, s) \<Rightarrow> (Next (cr_ID obj), kit_updated k obj s))"

text \<open>From the rendered hash on.\<close>

definition kit_converge ::
  "'spec kit \<Rightarrow> ('w, 'spec) ctl \<Rightarrow> NamespacedName \<Rightarrow> string \<Rightarrow> ('w rstate \<Rightarrow> (lerror + string) \<times> 'w rstate)
   \<Rightarrow> ('spec cr \<Rightarrow> 'w rstate \<Rightarrow> string flow \<times> 'w rstate) \<Rightarrow> 'spec cr \<Rightarrow> 'w rstate \<Rightarrow> unit flow \<times> 'w rstate" where
  "kit_converge k C key hash lookup mutate obj =
     andThen (kit_probe k obj lookup) (\<lambda>obj s.
       if kit_is_steady obj hash then kit_steady k C key obj s
       else andThen (mutate obj) (kit_finish k C obj hash) s)"

subsection \<open>The frame of the handler\<close>

definition kit_object ::
  "'spec kit \<Rightarrow> ('w, 'spec) ctl \<Rightarrow> ('spec cr \<Rightarrow> 'w rstate \<Rightarrow> unit flow \<times> 'w rstate)
   \<Rightarrow> ('spec cr \<Rightarrow> 'w rstate \<Rightarrow> unit flow \<times> 'w rstate) \<Rightarrow> 'spec cr \<Rightarrow> 'w rstate \<Rightarrow> verdict \<times> 'w rstate" where
  "kit_object k C release live obj s =
     (if DeletionTimestamp (cr_Meta obj) then
        (if ContainsFinalizer (ct_lib C) (Finalizers (cr_Meta obj)) (k_finalizer k)
         then (case release obj s of
                 (Return v, s) \<Rightarrow> (v, s)
               | (Next _, s) \<Rightarrow> kit_drop_finalizer k C obj s)
         else (Inr no_requeue, s))
      else if \<not> ContainsFinalizer (ct_lib C) (Finalizers (cr_Meta obj)) (k_finalizer k)
      then kit_update C obj (AddFinalizer (ct_lib C) (Finalizers (cr_Meta obj)) (k_finalizer k)) s
      else (case live obj s of (Return v, s) \<Rightarrow> (v, s) | (Next _, s) \<Rightarrow> (Inr no_requeue, s)))"

subsection \<open>Effects\<close>

lemma tick_log: "tick C s = (t, s') \<Longrightarrow> log s' = log s"
  by (auto simp: tick_def set_world_def split: prod.splits)

lemma kit_breaker_emits:
  "emits P s (snd (kit_Count C key s))" "emits P s (kit_Record C key s)" "emits P s (kit_Forget key s)"
  by (auto simp: kit_Count_def kit_Record_def kit_Forget_def emits_def Let_def tick_log split: prod.splits)

lemma kit_writeStatus_emits:
  assumes "\<And>i. P (StatusWrite (buildReadyCondition (Generation (cr_Meta obj)) status reason msg) i)"
    and "\<And>n l. P (Metric n l)"
  shows "emits P s (snd (kit_writeStatus k C obj status reason msg s))"
  using assms
  by (auto simp: kit_writeStatus_def recordReconcileMetric_def Let_def case_prod_beta
      intro!: emits_then_emit writeStatusWithRetry_emits)

lemma kit_writeStatus_reports: "emits is_report s (snd (kit_writeStatus k C obj status reason msg s))"
  by (rule kit_writeStatus_emits) simp_all

lemma kit_writeStatus_setback: "emits is_setback s (snd (kit_writeStatus k C obj ConditionFalse reason msg s))"
  by (rule kit_writeStatus_emits) (simp_all add: buildReadyCondition_def)

lemma kit_park_setback: "emits is_setback s (snd (kit_park k C obj reason msg res s))"
  using kit_writeStatus_setback [of s k C obj reason msg]
  by (auto simp: kit_park_def reconcile_total_def split: prod.splits intro!: emits_then_emit)

lemma kit_classify_setback: "emits is_setback s (snd (kit_classify k C obj err op s))"
proof -
  have "emits is_setback s (snd (classifyMutationError optIn err op (k_kind k) (kit_writeStatus k C obj) rq s))" for optIn rq
    by (rule classifyMutationError_setback) (rule kit_writeStatus_setback)
  then show ?thesis by (simp add: kit_classify_def Let_def case_prod_beta)
qed

lemma kit_ack_setback: "emits is_setback s (snd (kit_ack k obj policy reason permanent s))"
proof -
  have "emits is_setback s (snd (newAckMissingFn kind ns n policy reason permanent s))" for kind ns n
    by (auto simp: newAckMissingFn_def DeletionBlocked_Record_def Let_def intro!: emits_then_emit)
  from this [of "k_kind k" "Namespace (cr_Meta obj)" "Name (cr_Meta obj)"] show ?thesis
    by (auto simp: kit_ack_def split: prod.splits option.splits)
qed

lemma kit_ack_Next: "fst (kit_ack k obj policy reason permanent s) = Next () \<longleftrightarrow> policy = Orphan \<and> permanent"
  using ackMissing_None_iff [of "k_kind k" "Namespace (cr_Meta obj)" "Name (cr_Meta obj)" policy reason permanent s]
  by (cases "newAckMissingFn (k_kind k) (Namespace (cr_Meta obj)) (Name (cr_Meta obj)) policy reason permanent s")
    (auto simp: kit_ack_def split: option.splits)

lemma kit_unblock_setback: "emits is_setback s (kit_unblock k obj s)"
  by (simp add: kit_unblock_def DeletionBlocked_Forget_def)

lemma kit_deleted_setback: "emits is_setback s (snd (kit_deleted k obj s))"
  by (auto simp: kit_deleted_def kit_unblock_def DeletionBlocked_Forget_def intro!: emits_then_emit)

lemma kit_deleted_Next: "fst (kit_deleted k obj s) = Next ()"
  by (simp add: kit_deleted_def)

lemma kit_gate_setback: "emits is_setback s (snd (kit_gate k C obj s))"
  by (auto simp: kit_gate_def Let_def kit_park_setback split: bool.splits option.splits)

lemma kit_gate_Next:
  "kit_gate k C obj s = (Next x, s') \<Longrightarrow> s' = s \<and> fst x = Snapshot (r_cache s) \<and> Usable (fst x) \<and> snap_Client (fst x) = Some (snd x)"
  by (auto simp: kit_gate_def Let_def kit_park_def Usable_def split: bool.splits option.splits prod.splits)

lemma kit_steady_reports: "emits is_report s (snd (kit_steady k C key obj s))"
proof -
  obtain e s1 where w: "(if kit_synced (ct_lib C) obj then (None, s)
      else kit_writeStatus k C obj ConditionTrue reasonSynced (k_registered k) s) = (e, s1)" by fastforce
  then have "emits is_report s s1"
    using kit_writeStatus_reports [of s k C obj ConditionTrue reasonSynced "k_registered k"] by (auto split: if_splits)
  then show ?thesis
    by (cases e) (auto simp: kit_steady_def w intro!: emits_then_emit intro: emits_trans [OF _ kit_breaker_emits(3)])
qed

lemma kit_throttle_setback: "emits is_setback s (snd (kit_throttle k C key obj s))"
proof -
  obtain n s1 where n: "kit_Count C key s = (n, s1)" by fastforce
  then have "emits is_setback s s1" using kit_breaker_emits(1) [of is_setback s C key] by simp
  then show ?thesis by (auto simp: kit_throttle_def n Let_def intro: emits_trans [OF _ kit_park_setback])
qed

lemma kit_created_setback: "emits is_setback s (kit_created k C key obj s)"
  by (auto simp: kit_created_def intro: emits_trans [OF _ kit_breaker_emits(2)])

lemma kit_updated_setback: "emits is_setback s (kit_updated k obj s)"
  by (simp add: kit_updated_def)

lemma kit_finish_reports: "emits is_report s (snd (kit_finish k C obj hash i s))"
proof -
  obtain t s1 where t: "tick C s = (t, s1)" by fastforce
  have "emits is_report s s1" using tick_log [OF t] by (rule emits_same_log)
  then have "emits is_report s (snd (kit_writeStatus k C obj' ConditionTrue reasonSynced m s1))" for obj' m
    by (rule emits_trans) (rule kit_writeStatus_reports)
  then show ?thesis
    by (auto simp: kit_finish_def t Let_def reconcile_total_def case_prod_beta split: option.splits intro!: emits_then_emit)
qed

lemma kit_probe_emits:
  assumes "\<And>s. emits P s (snd (lookup s))"
  shows "emits P s (snd (kit_probe k obj lookup s))"
proof -
  obtain r s1 where l: "lookup s = (r, s1)" by fastforce
  then have "emits P s s1" using assms [of s] by simp
  then show ?thesis
    by (cases r) (auto simp: kit_probe_def probeVanishedResourceID_def l intro: emits_trans [OF _ invalidate_cache_emits])
qed

text \<open>
  What a handler sends.  \<open>asks\<close>: requests other than DELETE.  \<open>quiet\<close>: those, and setbacks on the way out.
  \<open>talk\<close>: any request or report.
\<close>

fun is_delete :: "effect \<Rightarrow> bool" where
  "is_delete (Http m _ _) = (m = ''DELETE'')"
| "is_delete _ = False"

abbreviation asks :: "effect \<Rightarrow> bool" where
  "asks e \<equiv> is_http e \<and> \<not> is_delete e"

abbreviation quiet :: "effect \<Rightarrow> bool" where
  "quiet e \<equiv> asks e \<or> is_setback e"

abbreviation talk :: "effect \<Rightarrow> bool" where
  "talk e \<equiv> is_http e \<or> is_report e"

lemma makeRequest_asks:
  fixes s :: "'w rstate"
  shows "m \<noteq> ''DELETE'' \<Longrightarrow> emits asks s (snd (makeRequest http m p b s))"
  by (simp add: emits_def makeRequest_parts)

lemma setback_not_http: "is_setback e \<Longrightarrow> \<not> is_http e"
  by (cases e) auto

lemma setback_not_delete: "is_setback e \<Longrightarrow> \<not> is_delete e"
  by (cases e) auto

lemma report_not_delete: "is_report e \<Longrightarrow> \<not> is_delete e"
  by (cases e) auto

lemma setback_talk: "emits is_setback s s' \<Longrightarrow> emits talk s s'"
  by (rule emits_mono [OF setback_emits]) simp_all

lemma quiet_talk: "emits quiet s s' \<Longrightarrow> emits talk s s'"
  by (erule emits_mono) (use setback_emits in \<open>metis emits_emit\<close>)

lemma setback_imp: "emits is_setback s s' \<Longrightarrow> (\<And>e. is_setback e \<Longrightarrow> P e) \<Longrightarrow> emits P s s'"
  by (rule emits_mono)

lemma kit_apply_emits:
  assumes quiet: "\<And>e. is_setback e \<Longrightarrow> P e" and c: "\<And>s. emits P s (snd (create s))"
    and r: "\<And>s. emits P s (snd (resolveID s))" and u: "\<And>i s. emits P s (snd (update i s))"
  shows "emits P s (snd (kit_apply k C key obj put create resolveID update s))"
proof -
  have cl: "emits P s1 (snd (kit_classify k C obj err op s1 :: string flow \<times> 'a rstate))" for err op s1
    by (rule setback_imp [OF kit_classify_setback quiet])
  have upd: "emits P s1 (snd (case update i s1 of (Inl err, s) \<Rightarrow> kit_classify k C obj err op s | (Inr _, s) \<Rightarrow> (Next j, f s)))"
    if "\<And>s. emits P s (f s)" for i op s1 and j :: string and f :: "'a rstate \<Rightarrow> 'a rstate"
  proof -
    obtain x s2 where x: "update i s1 = (x, s2)" by fastforce
    then have e: "emits P s1 s2" using u [of s1 i] by simp
    then show ?thesis using x emits_trans [OF e cl] emits_trans [OF e that] by (auto split: sum.splits)
  qed
  have path: "emits P s1 (snd (case create s1 of
         (Inr i, s) \<Rightarrow> (Next i, kit_created k C key obj s)
       | (Inl cerr, s) \<Rightarrow>
           (if rejectedStatus cerr = 409 then
              (case resolveID s of
                 (adopted, s) \<Rightarrow>
                   (if adopted = '''' then kit_classify k C obj cerr (k_create k) s
                    else case update adopted s of
                        (Inl uerr, s) \<Rightarrow> kit_classify k C obj uerr (put @ '' (adopt)'') s
                      | (Inr _, s) \<Rightarrow> (Next adopted, s)))
            else kit_classify k C obj cerr (k_create k) s)))" for s1
  proof -
    obtain x s2 where x: "create s1 = (x, s2)" by fastforce
    obtain a s3 where a: "resolveID s2 = (a, s3)" by fastforce
    have e2: "emits P s1 s2" using c [of s1] x by simp
    have e3: "emits P s1 s3" using r [of s2] a by (auto intro: emits_trans [OF e2])
    have "emits P s1 (kit_created k C key obj s2)"
      by (rule emits_trans [OF e2 setback_imp [OF kit_created_setback quiet]])
    then show ?thesis
      using emits_trans [OF e2 cl] emits_trans [OF e3 cl] emits_trans [OF e3 upd [of "\<lambda>s. s"]] x a
      by (auto split: sum.splits)
  qed
  have "emits P s (snd (kit_create_path k C key obj put create resolveID update s))"
    unfolding kit_create_path_def by (rule emits_andThen [OF setback_imp [OF kit_throttle_setback quiet] path])
  then show ?thesis
    using upd [of "kit_updated k obj" s put "cr_ID obj" "cr_ID obj", OF setback_imp [OF kit_updated_setback quiet]]
    by (auto simp: kit_apply_def)
qed

lemma kit_probe_same:
  "kit_probe k obj lookup s = (Next obj', s1) \<Longrightarrow> cr_Spec obj' = cr_Spec obj \<and> cr_Meta obj' = cr_Meta obj"
  by (auto simp: kit_probe_def split: if_splits prod.splits sum.splits)

lemma kit_converge_emits_same:
  assumes "\<And>e. is_report e \<Longrightarrow> P e" and "\<And>s. emits P s (snd (lookup s))"
    and "\<And>obj' s. cr_Spec obj' = cr_Spec obj \<Longrightarrow> cr_Meta obj' = cr_Meta obj \<Longrightarrow> emits P s (snd (mutate obj' s))"
  shows "emits P s (snd (kit_converge k C key hash lookup mutate obj s))"
  unfolding kit_converge_def
proof (rule emits_andThen [OF kit_probe_emits [OF assms(2)]])
  fix obj' s1
  assume "kit_probe k obj lookup s = (Next obj', s1)"
  note same = kit_probe_same [OF this]
  have "emits P s1 (snd (kit_steady k C key obj' s1))" by (rule emits_reports [OF kit_steady_reports]) (rule assms(1))
  moreover have "emits P s1 (snd (andThen (mutate obj') (kit_finish k C obj' hash) s1))"
    using same by (intro emits_andThen assms(3) emits_reports [OF kit_finish_reports]) (simp_all add: assms(1))
  ultimately show "emits P s1 (snd (if kit_is_steady obj' hash then kit_steady k C key obj' s1
      else andThen (mutate obj') (kit_finish k C obj' hash) s1))" by simp
qed

lemma kit_converge_emits:
  assumes "\<And>e. is_report e \<Longrightarrow> P e" and "\<And>s. emits P s (snd (lookup s))" and "\<And>obj s. emits P s (snd (mutate obj s))"
  shows "emits P s (snd (kit_converge k C key hash lookup mutate obj s))"
  using assms by (rule kit_converge_emits_same)

lemma kit_update_log: "log (snd (kit_update C obj fs s)) = log s @ [ObjectUpdate fs]"
  by (simp add: kit_update_def emit_def set_world_def Let_def case_prod_beta)

lemma kit_drop_log: "\<exists>xs. log (snd (kit_drop_finalizer k C obj s)) = log s @ xs @
    [ObjectUpdate (RemoveFinalizer (ct_lib C) (Finalizers (cr_Meta obj)) (k_finalizer k))] \<and> list_all is_report xs"
  by (simp add: kit_drop_finalizer_def kit_update_log kit_unblock_def DeletionBlocked_Forget_def emit_def)

lemma kit_drop_emits:
  assumes "\<And>e. is_report e \<Longrightarrow> P e" and "\<And>fs. P (ObjectUpdate fs)"
  shows "emits P s (snd (kit_drop_finalizer k C obj s))"
  using kit_drop_log [of k C obj s] assms by (auto simp: emits_def list_all_iff)

lemma kit_object_emits:
  assumes "\<And>e. is_report e \<Longrightarrow> P e" and "\<And>fs. P (ObjectUpdate fs)"
    and "DeletionTimestamp (cr_Meta obj) \<Longrightarrow> emits P s (snd (release obj s))"
    and "\<not> DeletionTimestamp (cr_Meta obj) \<Longrightarrow> emits P s (snd (live obj s))"
  shows "emits P s (snd (kit_object k C release live obj s))"
proof -
  obtain f s1 where r: "release obj s = (f, s1)" by fastforce
  have "emits P s1 (snd (kit_drop_finalizer k C obj s1))" by (rule kit_drop_emits) (simp_all add: assms(1,2))
  moreover have "emits P s (snd (kit_update C obj fs s))" for fs by (simp add: emits_def kit_update_log assms(2))
  ultimately show ?thesis
    using assms(3,4) r by (auto simp: kit_object_def split: prod.splits flow.splits intro: emits_trans)
qed

lemma fetch_emits:
  assumes "\<And>obj w. kc_get K (world s) key = (Inr obj, w) \<Longrightarrow> emits P (set_world w s) (snd (f obj (set_world w s)))"
  shows "emits P s (snd (case kc_get K (world s) key of
      (Inl e, w) \<Rightarrow> (v e, set_world w s) | (Inr obj, w) \<Rightarrow> f obj (set_world w s)))"
proof (cases "kc_get K (world s) key")
  case (Pair r w)
  have e: "emits P s (set_world w s)" by simp
  show ?thesis using emits_trans [OF e assms] e Pair by (cases r) auto
qed

text \<open>A live path behind the gate: silent when the connection is unusable, and it never writes the object.\<close>

lemma gated_offline:
  assumes "\<not> Usable (Snapshot (r_cache s))"
  shows "emits is_setback s (snd (andThen (kit_gate k C obj) f s))"
  using assms by (intro emits_andThen [OF kit_gate_setback]) (auto dest: kit_gate_Next)

lemma gated_emits:
  assumes "\<And>x s. emits talk s (snd (f x s))"
  shows "emits talk s (snd (andThen (kit_gate k C obj) f s))"
  by (rule emits_andThen [OF emits_mono [OF setback_emits [OF kit_gate_setback]] assms]) simp

lemma talk_keeps_object: "is_http e \<or> is_report e \<Longrightarrow> \<forall>fs. e \<noteq> ObjectUpdate fs"
  by (cases e) auto

subsection \<open>The contract of the kind-specific parts\<close>

text \<open>
  \<open>release\<close> withdraws the remote entry of a deleted object, \<open>live\<close> converges a live one.  Neither writes
  the object itself, and neither talks to LiteLLM while the connection is unusable.
\<close>

locale handler =
  fixes k :: "'spec kit"
    and C :: "('w, 'spec) ctl"
    and release :: "'spec cr \<Rightarrow> 'w rstate \<Rightarrow> unit flow \<times> 'w rstate"
    and live :: "'spec cr \<Rightarrow> 'w rstate \<Rightarrow> unit flow \<times> 'w rstate"
  assumes release_keeps: "emits (\<lambda>e. \<forall>fs. e \<noteq> ObjectUpdate fs) s (snd (release obj s))"
    and live_keeps: "emits (\<lambda>e. \<forall>fs. e \<noteq> ObjectUpdate fs) s (snd (live obj s))"
    and release_offline: "\<not> Usable (Snapshot (r_cache s)) \<Longrightarrow> emits (\<lambda>e. \<not> is_http e) s (snd (release obj s))"
    and live_offline: "\<not> Usable (Snapshot (r_cache s)) \<Longrightarrow> emits (\<lambda>e. \<not> is_http e) s (snd (live obj s))"
begin

lemma offline_silent:
  assumes "\<not> Usable (Snapshot (r_cache s))"
  shows "emits (\<lambda>e. \<not> is_http e) s (snd (kit_object k C release live obj s))"
proof -
  obtain f s1 where r: "release obj s = (f, s1)" by fastforce
  have e1: "emits (\<lambda>e. \<not> is_http e) s s1" using release_offline [OF assms, of obj] r by simp
  have drop: "emits (\<lambda>e. \<not> is_http e) s1 (snd (kit_drop_finalizer k C obj s1))"
    using kit_drop_log [of k C obj s1] report_no_http by (auto simp: emits_def list_all_iff)
  have upd: "emits (\<lambda>e. \<not> is_http e) s (snd (kit_update C obj fs s))" for fs by (simp add: emits_def kit_update_log)
  show ?thesis
    using e1 emits_trans [OF e1 drop] upd live_offline [OF assms, of obj]
    by (auto simp: kit_object_def r split: prod.splits flow.splits)
qed

lemma released_iff:
  assumes "klib_laws (ct_lib C)" and "DeletionTimestamp (cr_Meta obj)" and "k_finalizer k \<in> set (Finalizers (cr_Meta obj))"
  shows "(\<exists>e \<in> set (drop (length (log s)) (log (snd (kit_object k C release live obj s)))). releases (k_finalizer k) e)
    \<longleftrightarrow> fst (release obj s) = Next ()"
proof -
  note K = klib_lawsD(6,8) [OF assms(1)]
  obtain f s1 where r: "release obj s = (f, s1)" by fastforce
  obtain xs where xs: "log s1 = log s @ xs" "list_all (\<lambda>e. \<forall>fs. e \<noteq> ObjectUpdate fs) xs"
    using release_keeps [of s obj] r by (auto simp: emits_def)
  then have none: "\<not> releases (k_finalizer k) e" if "e \<in> set xs" for e
    using that by (cases e) (auto simp: list_all_iff)
  show ?thesis
  proof (cases f)
    case (Return v)
    then show ?thesis using assms K r xs none by (auto simp: kit_object_def)
  next
    case (Next u)
    obtain ys where "log (snd (kit_drop_finalizer k C obj s1)) = log s1 @ ys @
        [ObjectUpdate (RemoveFinalizer (ct_lib C) (Finalizers (cr_Meta obj)) (k_finalizer k))]"
      using kit_drop_log [of k C obj s1] by blast
    then show ?thesis using assms K r xs Next by (auto simp: kit_object_def)
  qed
qed

lemma live_never_releases:
  assumes "klib_laws (ct_lib C)" and "\<not> DeletionTimestamp (cr_Meta obj)"
  shows "emits (\<lambda>e. \<not> releases (k_finalizer k) e) s (snd (kit_object k C release live obj s))"
proof -
  have "\<not> releases (k_finalizer k) e" if "\<forall>fs. e \<noteq> ObjectUpdate fs" for e using that by (cases e) auto
  then have "emits (\<lambda>e. \<not> releases (k_finalizer k) e) s (snd (live obj s))"
    by (rule emits_mono [OF live_keeps])
  moreover have "emits (\<lambda>e. \<not> releases (k_finalizer k) e) s
      (snd (kit_update C obj (AddFinalizer (ct_lib C) (Finalizers (cr_Meta obj)) (k_finalizer k)) s))"
    by (simp add: emits_def kit_update_log klib_lawsD(7) [OF assms(1)])
  ultimately show ?thesis using assms(2) by (auto simp: kit_object_def split: prod.splits flow.splits)
qed

end

subsection \<open>Convergence\<close>

text \<open>Ready is written by the live path only in the steady state or after the mutation succeeded.\<close>

lemma ready_needs_mutation:
  assumes "\<And>obj s. emits (\<lambda>e. \<not> claims_ready e) s (snd (mutate obj s))"
    and "\<And>s. emits (\<lambda>e. \<not> claims_ready e) s (snd (lookup s))"
    and "e \<in> set (drop (length (log s)) (log (snd (kit_converge k C key hash lookup mutate obj s))))"
    and "claims_ready e"
  shows "\<exists>obj' s1. kit_probe k obj lookup s = (Next obj', s1) \<and>
    (kit_is_steady obj' hash \<or> (\<exists>newID s2. mutate obj' s1 = (Next newID, s2)))"
proof (rule ccontr)
  let ?P = "\<lambda>e. \<not> claims_ready e"
  assume no: "\<not> ?thesis"
  have "emits ?P s (snd (kit_converge k C key hash lookup mutate obj s))"
    unfolding kit_converge_def
  proof (rule emits_andThen [OF kit_probe_emits [OF assms(2)]])
    fix obj' s1
    assume p: "kit_probe k obj lookup s = (Next obj', s1)"
    then obtain v s2 where m: "mutate obj' s1 = (Return v, s2)" "\<not> kit_is_steady obj' hash"
      using no by (cases "mutate obj' s1"; cases "fst (mutate obj' s1)") auto
    then show "emits ?P s1 (snd (if kit_is_steady obj' hash then kit_steady k C key obj' s1
        else andThen (mutate obj') (kit_finish k C obj' hash) s1))"
      using assms(1) [of s1 obj'] by simp
  qed
  then show False using new_effects_mem assms(3,4) by blast
qed

lemma kit_writeStatus_keeps_id:
  assumes "\<And>w f w'. kc_get (ct_kube C) w (cr_key obj) = (Inr f, w') \<Longrightarrow> cr_ID f \<noteq> ''''"
  shows "emits (\<lambda>e. \<forall>c i. e = StatusWrite c i \<longrightarrow> i \<noteq> '''') s (snd (kit_writeStatus k C obj status reason msg s))"
  using assms
  by (auto simp: kit_writeStatus_def recordReconcileMetric_def kit_status_def keepPersistedID_def Let_def case_prod_beta
      split: if_splits intro!: emits_then_emit writeStatusWithRetry_emits)

subsection \<open>Instances for the witnesses\<close>

definition example_cr :: "'spec \<Rightarrow> string \<Rightarrow> bool \<Rightarrow> string \<Rightarrow> string \<Rightarrow> 'spec cr" where
  "example_cr spec name deleting fin i = \<lparr>
     cr_Meta = \<lparr>Namespace = ''ns'', Name = name, Generation = 1, DeletionTimestamp = deleting, Finalizers = [fin],
       Annotations = [], OwnerReferences = []\<rparr>,
     cr_Spec = spec, cr_ObservedGeneration = 1, cr_Conditions = [], cr_Hash = '''', cr_ID = i, cr_At = None\<rparr>"

definition example_ctl :: "'spec cr \<Rightarrow> (unit, 'spec) ctl" where
  "example_ctl obj = \<lparr>ct_kube = \<lparr>kc_get = (\<lambda>w k. (Inr obj, w)), kc_update = (\<lambda>w o'. (None, w)),
       kc_status_update = (\<lambda>w o'. (Inr o', w))\<rparr>,
     ct_now = (\<lambda>w. (0, w)), ct_lib = klib_std, ct_retries = 4, ct_includeBody = False, ct_RecreateLimit = 0\<rparr>"

definition answering :: "int \<Rightarrow> json \<Rightarrow> unit http" where
  "answering st j = (\<lambda>w m p b. (Responded \<lparr>rs_status = st, rs_raw = '''', rs_json = Some j\<rparr>, w))"

definition example_online :: "unit http \<Rightarrow> unit rstate" where
  "example_online srv = example_state\<lparr>r_cache := Rebuild NewCache
     (zero_snapshot\<lparr>snap_Ready := True, snap_Client := Some srv\<rparr>)\<rparr>"

lemma set_world_unit [simp]: "set_world () s = s" "s\<lparr>world := ()\<rparr> = s"
  by (simp_all add: set_world_def)

lemma example_online_snapshot:
  "Snapshot (r_cache (example_online srv)) = zero_snapshot\<lparr>snap_Ready := True, snap_Client := Some srv\<rparr>"
  "log (example_online srv) = []" "world (example_online srv) = ()"
  by (simp_all add: example_online_def example_state_def Snapshot_def Rebuild_def NewCache_def emitRebuilt_def zero_snapshot_def Let_def)

lemma answering_ok:
  fixes s :: "unit rstate"
  shows "is2xx st \<Longrightarrow> makeRequest (answering st j) m p b s =
    (Inr \<lparr>rs_status = st, rs_raw = '''', rs_json = Some j\<rparr>, emit (Http m p b) (s\<lparr>world := ()\<rparr>))"
  by (simp add: makeRequest_def answering_def response_of_def readCappedBody_def classify_response_def)

end
