(* ===== verification/Access_Group.thy ===== *)
theory Access_Group
  imports Controller_Kit Params Conflict
begin

text \<open>
  Access groups: the client calls of \<^verbatim>\<open>internal/litellm/accessgroup.go\<close>, the LIST calls of
  \<^verbatim>\<open>mcp.go\<close> and \<^verbatim>\<open>agents.go\<close> they are resolved against, and the handler of
  \<^verbatim>\<open>internal/controller/accessgroup_controller.go\<close>.

  What the LIST cache holds fresh at a moment is a parameter that reads the world; when it holds
  nothing the call is the bare LIST (the cache itself is the subject of the theory of the LIST cache).
  \<^verbatim>\<open>slices.Compact\<close> on a sorted slice is \<open>remdups_adj\<close>.
\<close>

subsection \<open>Wire types\<close>

record AccessGroupEntry =
  ge_AccessGroupID :: string
  ge_AccessGroupName :: string
  ge_Description :: string
  ge_AccessModelNames :: "string list"
  ge_AccessMCPServerIDs :: "string list"
  ge_AccessAgentIDs :: "string list"
  ge_AssignedTeamIDs :: "string list"
  ge_AssignedKeyIDs :: "string list"

record AccessGroupUpdateRequest =
  gu_AccessGroupName :: "string option"
  gu_Description :: "string option"
  gu_AccessModelNames :: "string list"
  gu_AccessMCPServerIDs :: "string list"
  gu_AccessAgentIDs :: "string list"

definition dec_strings :: "json option \<Rightarrow> string list option" where
  "dec_strings v = Option.bind (dec_array v) (dec_all (\<lambda>j. dec_string (Some j)))"

definition decode_access_group :: "json \<Rightarrow> AccessGroupEntry option" where
  "decode_access_group v =
     (case dec_object (Some v) of None \<Rightarrow> None
      | Some m \<Rightarrow>
        (case (dec_string (struct_field ''access_group_id'' m), dec_string (struct_field ''access_group_name'' m),
               dec_string (struct_field ''description'' m), dec_strings (struct_field ''access_model_names'' m),
               dec_strings (struct_field ''access_mcp_server_ids'' m), dec_strings (struct_field ''access_agent_ids'' m),
               dec_strings (struct_field ''assigned_team_ids'' m), dec_strings (struct_field ''assigned_key_ids'' m)) of
           (Some i, Some n, Some d, Some ms, Some ss, Some as, Some ts, Some ks) \<Rightarrow>
             Some \<lparr>ge_AccessGroupID = i, ge_AccessGroupName = n, ge_Description = d, ge_AccessModelNames = ms,
               ge_AccessMCPServerIDs = ss, ge_AccessAgentIDs = as, ge_AssignedTeamIDs = ts, ge_AssignedKeyIDs = ks\<rparr>
         | _ \<Rightarrow> None))"

definition decode_list :: "(json \<Rightarrow> 'a option) \<Rightarrow> json \<Rightarrow> 'a list option" where
  "decode_list f v = Option.bind (dec_array (Some v)) (dec_all f)"

definition create_group_json :: "string \<Rightarrow> string \<Rightarrow> string list \<Rightarrow> string list \<Rightarrow> string list \<Rightarrow> json" where
  "create_group_json name desc models servers agents = JObj
     ([(''access_group_name'', JStr name)] @ omitempty ''description'' desc
      @ [(''access_model_names'', strings_json models), (''access_mcp_server_ids'', strings_json servers),
         (''access_agent_ids'', strings_json agents)])"

definition omitnil :: "string \<Rightarrow> string option \<Rightarrow> json gomap" where
  "omitnil key v = (case v of None \<Rightarrow> [] | Some t \<Rightarrow> [(key, JStr t)])"

definition update_group_json :: "AccessGroupUpdateRequest \<Rightarrow> json" where
  "update_group_json r = JObj
     (omitnil ''access_group_name'' (gu_AccessGroupName r) @ omitnil ''description'' (gu_Description r)
      @ [(''access_model_names'', strings_json (gu_AccessModelNames r)),
         (''access_mcp_server_ids'', strings_json (gu_AccessMCPServerIDs r)),
         (''access_agent_ids'', strings_json (gu_AccessAgentIDs r))])"

subsection \<open>Client calls\<close>

definition CreateAccessGroup ::
  "'w http \<Rightarrow> string \<Rightarrow> string \<Rightarrow> string list \<Rightarrow> string list \<Rightarrow> string list \<Rightarrow> ('w, 'z, AccessGroupEntry) call" where
  "CreateAccessGroup http name desc models servers agents s =
     (if name = '''' then (Inl (ErrText ''litellm: CreateAccessGroup: empty access_group_name''), s)
      else
        case makeRequest http ''POST'' ''/v1/access_group'' (Some (create_group_json name desc models servers agents)) s of
          (Inl e, s) \<Rightarrow> (Inl e, s)
        | (Inr raw, s) \<Rightarrow> (unmarshal decode_access_group ''POST /v1/access_group'' raw, s))"

definition ListAccessGroups :: "'w http \<Rightarrow> ('w, 'z, AccessGroupEntry list) call" where
  "ListAccessGroups http s =
     (case makeRequest http ''GET'' ''/v1/access_group'' None s of
        (Inl e, s) \<Rightarrow> (Inl e, s)
      | (Inr raw, s) \<Rightarrow> (unmarshal (decode_list decode_access_group) ''GET /v1/access_group'' raw, s))"

definition GetAccessGroupByName :: "'w http \<Rightarrow> string \<Rightarrow> ('w, 'z, AccessGroupEntry option) call" where
  "GetAccessGroupByName http name s =
     (if name = '''' then (Inl (ErrText ''litellm: GetAccessGroupByName: empty name''), s)
      else
        case ListAccessGroups http s of
          (Inl e, s) \<Rightarrow> (if IsNotFound e then (Inr None, s) else (Inl e, s))
        | (Inr list, s) \<Rightarrow> (Inr (find (\<lambda>g. ge_AccessGroupName g = name) list), s))"

definition UpdateAccessGroup :: "'w http \<Rightarrow> string \<Rightarrow> AccessGroupUpdateRequest \<Rightarrow> ('w, 'z, AccessGroupEntry) call" where
  "UpdateAccessGroup http i r s =
     (if i = '''' then (Inl (ErrText ''litellm: UpdateAccessGroup: empty access_group_id''), s)
      else
        case makeRequest http ''PUT'' (''/v1/access_group/'' @ PathEscape i) (Some (update_group_json r)) s of
          (Inl e, s) \<Rightarrow> (Inl e, s)
        | (Inr raw, s) \<Rightarrow> (unmarshal decode_access_group (''PUT /v1/access_group/'' @ i) raw, s))"

definition DeleteAccessGroup :: "'w http \<Rightarrow> string \<Rightarrow> ('w, 'z, unit) call" where
  "DeleteAccessGroup http i s =
     (if i = '''' then (Inl (ErrText ''litellm: DeleteAccessGroup: empty access_group_id''), s)
      else
        case makeRequest http ''DELETE'' (''/v1/access_group/'' @ PathEscape i) None s of
          (Inl e, s) \<Rightarrow> (Inl e, s)
        | (Inr _, s) \<Rightarrow> (Inr (), s))"

record MCPServerEntry =
  me_ServerID :: string
  me_ServerName :: string
  me_Alias :: string
  me_Description :: string
  me_URL :: string
  me_SpecPath :: string
  me_Transport :: string
  me_AuthType :: string
  me_Status :: string
  me_ApprovalStatus :: string

definition decode_mcp_server :: "json \<Rightarrow> MCPServerEntry option" where
  "decode_mcp_server v =
     (case dec_object (Some v) of None \<Rightarrow> None
      | Some m \<Rightarrow>
        (let f = (\<lambda>tag. dec_string (struct_field tag m)) in
         case (f ''server_id'', f ''server_name'', f ''alias'', f ''description'', f ''url'', f ''spec_path'',
               f ''transport'', f ''auth_type'', f ''status'', f ''approval_status'') of
           (Some a, Some b, Some c, Some d, Some e, Some g, Some h, Some i, Some j, Some l) \<Rightarrow>
             Some \<lparr>me_ServerID = a, me_ServerName = b, me_Alias = c, me_Description = d, me_URL = e, me_SpecPath = g,
               me_Transport = h, me_AuthType = i, me_Status = j, me_ApprovalStatus = l\<rparr>
         | _ \<Rightarrow> None))"

record AgentEntry =
  gn_AgentID :: string
  gn_AgentName :: string

definition decode_agent :: "json \<Rightarrow> AgentEntry option" where
  "decode_agent v =
     (case dec_object (Some v) of None \<Rightarrow> None
      | Some m \<Rightarrow>
        (case (dec_string (struct_field ''agent_id'' m), dec_string (struct_field ''agent_name'' m),
               dec_object (struct_field ''agent_card_params'' m), dec_object (struct_field ''litellm_params'' m),
               dec_string (struct_field ''created_at'' m), dec_string (struct_field ''updated_at'' m)) of
           (Some i, Some n, Some _, Some _, Some _, Some _) \<Rightarrow> Some \<lparr>gn_AgentID = i, gn_AgentName = n\<rparr>
         | _ \<Rightarrow> None))"

definition nonempty_list :: "lerror + 'a list \<Rightarrow> lerror + 'a list" where
  "nonempty_list r = (case r of Inr [] \<Rightarrow> Inl ErrNotFound | _ \<Rightarrow> r)"

definition ListMCPServers :: "'w http \<Rightarrow> ('w, 'z, MCPServerEntry list) call" where
  "ListMCPServers http s =
     (case makeRequest http ''GET'' ''/v1/mcp/server'' None s of
        (Inl e, s) \<Rightarrow> (Inl e, s)
      | (Inr raw, s) \<Rightarrow> (nonempty_list (unmarshal (decode_list decode_mcp_server) ''GET /v1/mcp/server'' raw), s))"

definition ListAgents :: "'w http \<Rightarrow> ('w, 'z, AgentEntry list) call" where
  "ListAgents http s =
     (case makeRequest http ''GET'' ''/v1/agents?health_check=false'' None s of
        (Inl e, s) \<Rightarrow> (Inl e, s)
      | (Inr raw, s) \<Rightarrow> (nonempty_list (unmarshal (decode_list decode_agent) ''GET /v1/agents'' raw), s))"

subsection \<open>Rendering\<close>

record AccessGroupSpec =
  gs_Description :: string
  gs_Models :: "string list"
  gs_ModelGroups :: "string list"
  gs_MCPServers :: "string list"
  gs_MCPServerGroups :: "string list"
  gs_Agents :: "string list"
  gs_AgentGroups :: "string list"
  gs_DeletionPolicy :: string

record renderedAccessGroup =
  ra_Models :: "string list"
  ra_MCPServerIDs :: "string list"
  ra_AgentIDs :: "string list"

record missingAccessGroupRefs =
  mr_MCPServers :: "string list"
  mr_Agents :: "string list"

definition renderAccessGroup ::
  "AccessGroupSpec \<Rightarrow> string gomap \<Rightarrow> string gomap \<Rightarrow> string list \<Rightarrow> string list
   \<Rightarrow> renderedAccessGroup \<times> missingAccessGroupRefs" where
  "renderAccessGroup spec serverIDs agentIDs taggedServers taggedAgents =
     (let models = remdups_adj (sort (gs_Models spec @ gs_ModelGroups spec));
          (servers, missingServers) = resolveNames (gs_MCPServers spec) serverIDs;
          servers = remdups_adj (sort (servers @ taggedServers));
          (agents, missingAgents) = resolveNames (gs_Agents spec) agentIDs;
          agents = remdups_adj (sort (agents @ taggedAgents))
      in (\<lparr>ra_Models = models, ra_MCPServerIDs = servers, ra_AgentIDs = agents\<rparr>,
          \<lparr>mr_MCPServers = missingServers, mr_Agents = missingAgents\<rparr>))"

record taggable =
  tg_id :: string
  tg_deleting :: bool
  tg_tags :: "string list"

definition taggedIDs :: "taggable list \<Rightarrow> string list \<Rightarrow> string list" where
  "taggedIDs items groups =
     (if length groups = 0 then []
      else sorted_set (map tg_id (filter (\<lambda>it. tg_id it \<noteq> '''' \<and> \<not> tg_deleting it
             \<and> (\<exists>tag \<in> set (tg_tags it). tag \<in> set groups)) items)))"

datatype raw_params = RawNone | RawBroken | RawJson json

text \<open>\<^verbatim>\<open>json.Unmarshal\<close> of the raw bag into a nil map, its error ignored.\<close>

fun paramsMap :: "raw_params \<Rightarrow> json gomap option" where
  "paramsMap (RawJson (JObj m)) = Some m"
| "paramsMap _ = None"

record remote_cr =
  rc_Meta :: ObjectMeta
  rc_Params :: raw_params
  rc_Conditions :: "Condition list"
  rc_RemoteID :: string

definition taggedAgentIDs :: "remote_cr list \<Rightarrow> string list \<Rightarrow> string list" where
  "taggedAgentIDs agents groups =
     taggedIDs (map (\<lambda>a. \<lparr>tg_id = rc_RemoteID a, tg_deleting = DeletionTimestamp (rc_Meta a),
       tg_tags = agentAccessGroupsFromParams (paramsMap (rc_Params a))\<rparr>) agents) groups"

definition conflict_loser :: "klib \<Rightarrow> remote_cr \<Rightarrow> bool" where
  "conflict_loser K srv = (case FindStatusCondition K (rc_Conditions srv) conditionTypeReady of
     None \<Rightarrow> False | Some c \<Rightarrow> Reason c = ConditionReasonConflict)"

definition taggedMCPServerIDs :: "klib \<Rightarrow> remote_cr list \<Rightarrow> string list \<Rightarrow> string list" where
  "taggedMCPServerIDs K servers groups =
     taggedIDs (map (\<lambda>srv. \<lparr>tg_id = rc_RemoteID srv, tg_deleting = DeletionTimestamp (rc_Meta srv) \<or> conflict_loser K srv,
       tg_tags = xp_MCPAccessGroups (extractMCPParams (paramsMap (rc_Params srv)))\<rparr>) servers) groups"

definition strings_text :: "string list \<Rightarrow> string" where
  "strings_text xs = ''['' @ join '','' (map marshal_string xs) @ '']''"

text \<open>\<^verbatim>\<open>canonicalJSON\<close> of a struct is \<^verbatim>\<open>json.Marshal\<close>: fields in declaration order.\<close>

definition accessGroupHash :: "(string \<Rightarrow> string) \<Rightarrow> renderedAccessGroup \<Rightarrow> string" where
  "accessGroupHash sha r = sha
     (''{'' @ marshal_string ''access_model_names'' @ '':'' @ strings_text (ra_Models r) @ '',''
      @ marshal_string ''access_mcp_server_ids'' @ '':'' @ strings_text (ra_MCPServerIDs r) @ '',''
      @ marshal_string ''access_agent_ids'' @ '':'' @ strings_text (ra_AgentIDs r) @ ''}'')"

subsection \<open>The handler\<close>

definition accessGroupFinalizer :: string where "accessGroupFinalizer = ''accessgroups.litellm.ackstorm.ai/finalizer''"
definition accessGroupKind :: string where "accessGroupKind = ''LiteLLMAccessGroup''"
definition implicitDefaultAccessGroup :: string where "implicitDefaultAccessGroup = ''default''"

definition accessgroup_kit :: "AccessGroupSpec kit" where
  "accessgroup_kit = \<lparr>k_kind = accessGroupKind, k_label = ''accessgroup'', k_probe = ''accessgroup'', k_finalizer = accessGroupFinalizer,
     k_registered = ''access group registered'', k_create = ''POST /v1/access_group'', k_carry = (\<lambda>_ f. f)\<rparr>"

record 'w AccessGroupReconciler =
  gr_ctl :: "('w, AccessGroupSpec) ctl"
  gr_sha256hex :: "string \<Rightarrow> string"
  gr_Namespace :: string
  gr_cachedServers :: "'w \<Rightarrow> MCPServerEntry list option"
  gr_cachedAgents :: "'w \<Rightarrow> AgentEntry list option"
  gr_agents :: "'w \<Rightarrow> string \<Rightarrow> (kube_error + remote_cr list) \<times> 'w"
  gr_servers :: "'w \<Rightarrow> string \<Rightarrow> (kube_error + remote_cr list) \<times> 'w"

definition or_cached :: "'a list option \<Rightarrow> ('w, 'z, 'a list) call \<Rightarrow> ('w, 'z, 'a list) call" where
  "or_cached hit list s = (case hit of Some xs \<Rightarrow> (Inr xs, s) | None \<Rightarrow> list s)"

definition resolveAccessGroupIDByName :: "'w http \<Rightarrow> string \<Rightarrow> 'w rstate \<Rightarrow> string \<times> 'w rstate" where
  "resolveAccessGroupIDByName llm name s =
     (case GetAccessGroupByName llm name s of
        (Inl err, s) \<Rightarrow>
          (if is_ErrNotFound err then ('''', s)
           else if as_auth401 err \<noteq> None then ('''', invalidate_cache s)
           else ('''', s))
      | (Inr None, s) \<Rightarrow> ('''', s)
      | (Inr (Some entry), s) \<Rightarrow> (ge_AccessGroupID entry, s))"

definition ensureEmptyDefault :: "'w http \<Rightarrow> 'w rstate \<Rightarrow> lerror option \<times> 'w rstate" where
  "ensureEmptyDefault llm s =
     (case GetAccessGroupByName llm implicitDefaultAccessGroup s of
        (Inl err, s) \<Rightarrow> (Some err, s)
      | (Inr None, s) \<Rightarrow>
          (case CreateAccessGroup llm implicitDefaultAccessGroup '''' [] [] [] s of
             (Inl err, s) \<Rightarrow> (Some err, s) | (Inr _, s) \<Rightarrow> (None, s))
      | (Inr (Some entry), s) \<Rightarrow>
          (if length (ge_AccessModelNames entry) + length (ge_AccessMCPServerIDs entry) + length (ge_AccessAgentIDs entry) = 0
           then (None, s)
           else
             case UpdateAccessGroup llm (ge_AccessGroupID entry)
                    \<lparr>gu_AccessGroupName = None, gu_Description = None, gu_AccessModelNames = [],
                     gu_AccessMCPServerIDs = [], gu_AccessAgentIDs = []\<rparr> s of
               (Inl err, s) \<Rightarrow> (Some err, s) | (Inr _, s) \<Rightarrow> (None, s)))"

definition delete_group ::
  "AccessGroupSpec cr \<Rightarrow> Policy \<Rightarrow> 'w http \<Rightarrow> string \<Rightarrow> 'w rstate \<Rightarrow> unit flow \<times> 'w rstate" where
  "delete_group ag policy client groupID s =
     (case DeleteAccessGroup client groupID s of
        (Inl err, s) \<Rightarrow>
          (if as_auth401 err \<noteq> None then kit_ack accessgroup_kit ag policy ''401 on DeleteAccessGroup'' False s
           else if is4xxStatus err
           then kit_ack accessgroup_kit ag policy (''4xx on DeleteAccessGroup: '' @ lerror_text err) True s
           else (Return (Inl (LlmErr err)), s))
      | (Inr _, s) \<Rightarrow> kit_deleted accessgroup_kit ag s)"

definition group_id :: "AccessGroupSpec cr \<Rightarrow> 'w http \<Rightarrow> 'w rstate \<Rightarrow> string \<times> 'w rstate" where
  "group_id ag client s =
     (if cr_ID ag = '''' then resolveAccessGroupIDByName client (Name (cr_Meta ag)) s else (cr_ID ag, s))"

definition ag_release :: "AccessGroupSpec cr \<Rightarrow> 'w rstate \<Rightarrow> unit flow \<times> 'w rstate" where
  "ag_release ag s =
     (let policy = Resolve (cr_Meta ag) (gs_DeletionPolicy (cr_Spec ag));
          snap = Snapshot (r_cache s)
      in case (snap_Ready snap, snap_Client snap) of
           (True, Some client) \<Rightarrow>
             (let (groupID, s) = group_id ag client s in
              if Name (cr_Meta ag) = implicitDefaultAccessGroup then
                (case ensureEmptyDefault client s of
                   (Some err, s) \<Rightarrow> (Return (Inl (LlmErr err)), s)
                 | (None, s) \<Rightarrow> (Next (), s))
              else if groupID \<noteq> '''' then delete_group ag policy client groupID s
              else (Next (), kit_unblock accessgroup_kit ag s))
         | _ \<Rightarrow>
             (if Name (cr_Meta ag) = implicitDefaultAccessGroup then (done_ok, s)
              else (let (reason, permanent) = ackUnavailable snap in kit_ack accessgroup_kit ag policy reason permanent s)))"

text \<open>Step 4: one LIST per dimension, and only when the spec names something there.\<close>

definition index_by :: "('e \<Rightarrow> string) \<Rightarrow> ('e \<Rightarrow> string) \<Rightarrow> 'e list \<Rightarrow> string gomap" where
  "index_by name ident entries = fold (\<lambda>e. map_put (name e) (ident e)) entries []"

definition resolve_dimension ::
  "'w AccessGroupReconciler \<Rightarrow> AccessGroupSpec cr \<Rightarrow> string list \<Rightarrow> ('w rstate \<Rightarrow> (lerror + 'e list) \<times> 'w rstate)
   \<Rightarrow> ('e \<Rightarrow> string) \<Rightarrow> ('e \<Rightarrow> string) \<Rightarrow> string \<Rightarrow> 'w rstate \<Rightarrow> string gomap flow \<times> 'w rstate" where
  "resolve_dimension R ag names list name ident op s =
     (if length names = 0 then (Next [], s)
      else
        case list s of
          (Inl err, s) \<Rightarrow> (if IsNotFound err then (Next [], s) else kit_classify accessgroup_kit (gr_ctl R) ag err op s)
        | (Inr entries, s) \<Rightarrow> (Next (index_by name ident entries), s))"

definition list_tagged ::
  "('w \<Rightarrow> string \<Rightarrow> (kube_error + remote_cr list) \<times> 'w) \<Rightarrow> string \<Rightarrow> string list \<Rightarrow> (remote_cr list \<Rightarrow> string list \<Rightarrow> string list)
   \<Rightarrow> 'w rstate \<Rightarrow> string list flow \<times> 'w rstate" where
  "list_tagged lst ns groups pick s =
     (if length groups = 0 then (Next [], s)
      else
        case lst (world s) ns of
          (Inl e, w) \<Rightarrow> (Return (Inl (KubeErr e)), set_world w s)
        | (Inr items, w) \<Rightarrow> (Next (pick items groups), set_world w s))"

definition ag_references ::
  "'w AccessGroupReconciler \<Rightarrow> AccessGroupSpec cr \<Rightarrow> 'w http \<Rightarrow> 'w rstate
   \<Rightarrow> (renderedAccessGroup \<times> missingAccessGroupRefs) flow \<times> 'w rstate" where
  "ag_references R ag client =
     (let spec = cr_Spec ag; ns = Namespace (cr_Meta ag) in
      andThen (\<lambda>s. resolve_dimension R ag (gs_MCPServers spec) (or_cached (gr_cachedServers R (world s)) (ListMCPServers client))
        me_ServerName me_ServerID ''GET /v1/mcp/server'' s) (\<lambda>serverIDs.
      andThen (\<lambda>s. resolve_dimension R ag (gs_Agents spec) (or_cached (gr_cachedAgents R (world s)) (ListAgents client))
        gn_AgentName gn_AgentID ''GET /v1/agents'' s) (\<lambda>agentIDs.
      andThen (list_tagged (gr_agents R) ns (gs_AgentGroups spec) taggedAgentIDs) (\<lambda>tagged.
      andThen (list_tagged (gr_servers R) ns (gs_MCPServerGroups spec) (taggedMCPServerIDs (ct_lib (gr_ctl R)))) (\<lambda>taggedServers s.
        (Next (renderAccessGroup spec serverIDs agentIDs taggedServers tagged), s))))))"

definition ag_render ::
  "'w AccessGroupReconciler \<Rightarrow> AccessGroupSpec cr \<Rightarrow> 'w http \<Rightarrow> 'w rstate \<Rightarrow> renderedAccessGroup flow \<times> 'w rstate" where
  "ag_render R ag client =
     andThen (ag_references R ag client) (\<lambda>(rendered, missing) s.
       if length (mr_MCPServers missing) > 0 then
         kit_park accessgroup_kit (gr_ctl R) ag ''MCPServerNotFound''
           (''spec.mcpServers not yet registered in LiteLLM: '' @ join '', '' (mr_MCPServers missing)) no_requeue s
       else if length (mr_Agents missing) > 0 then
         kit_park accessgroup_kit (gr_ctl R) ag ''AgentNotFound''
           (''spec.agents not yet registered in LiteLLM: '' @ join '', '' (mr_Agents missing)) no_requeue s
       else (Next rendered, s))"

definition accessGroupUpdateBody :: "AccessGroupSpec cr \<Rightarrow> renderedAccessGroup \<Rightarrow> AccessGroupUpdateRequest" where
  "accessGroupUpdateBody ag r =
     \<lparr>gu_AccessGroupName = Some (Name (cr_Meta ag)), gu_Description = Some (gs_Description (cr_Spec ag)),
      gu_AccessModelNames = ra_Models r, gu_AccessMCPServerIDs = ra_MCPServerIDs r, gu_AccessAgentIDs = ra_AgentIDs r\<rparr>"

definition ag_lookup :: "'w http \<Rightarrow> string \<Rightarrow> 'w rstate \<Rightarrow> (lerror + string) \<times> 'w rstate" where
  "ag_lookup client name s =
     (case GetAccessGroupByName client name s of
        (Inl e, s) \<Rightarrow> (Inl e, s)
      | (Inr None, s) \<Rightarrow> (Inr '''', s)
      | (Inr (Some entry), s) \<Rightarrow> (Inr (ge_AccessGroupID entry), s))"

definition ag_create :: "'w http \<Rightarrow> AccessGroupSpec cr \<Rightarrow> renderedAccessGroup \<Rightarrow> 'w rstate \<Rightarrow> (lerror + string) \<times> 'w rstate" where
  "ag_create client ag r s =
     (case CreateAccessGroup client (Name (cr_Meta ag)) (gs_Description (cr_Spec ag)) (ra_Models r) (ra_MCPServerIDs r) (ra_AgentIDs r) s of
        (Inl e, s) \<Rightarrow> (Inl e, s)
      | (Inr entry, s) \<Rightarrow> (Inr (ge_AccessGroupID entry), s))"

definition ag_update ::
  "'w http \<Rightarrow> AccessGroupSpec cr \<Rightarrow> renderedAccessGroup \<Rightarrow> string \<Rightarrow> 'w rstate \<Rightarrow> (lerror + unit) \<times> 'w rstate" where
  "ag_update client ag r i s =
     (case UpdateAccessGroup client i (accessGroupUpdateBody ag r) s of
        (Inl e, s) \<Rightarrow> (Inl e, s)
      | (Inr _, s) \<Rightarrow> (Inr (), s))"

definition ag_mutate ::
  "'w AccessGroupReconciler \<Rightarrow> NamespacedName \<Rightarrow> 'w http \<Rightarrow> renderedAccessGroup \<Rightarrow> AccessGroupSpec cr \<Rightarrow> 'w rstate
   \<Rightarrow> string flow \<times> 'w rstate" where
  "ag_mutate R key client r ag =
     kit_apply accessgroup_kit (gr_ctl R) key ag ''PUT /v1/access_group'' (ag_create client ag r)
       (resolveAccessGroupIDByName client (Name (cr_Meta ag))) (ag_update client ag r)"

definition ag_live ::
  "'w AccessGroupReconciler \<Rightarrow> NamespacedName \<Rightarrow> AccessGroupSpec cr \<Rightarrow> 'w rstate \<Rightarrow> unit flow \<times> 'w rstate" where
  "ag_live R key ag =
     andThen (kit_gate accessgroup_kit (gr_ctl R) ag) (\<lambda>(snap, client).
     andThen (ag_render R ag client) (\<lambda>r.
       kit_converge accessgroup_kit (gr_ctl R) key (accessGroupHash (gr_sha256hex R) r)
         (ag_lookup client (Name (cr_Meta ag))) (ag_mutate R key client r) ag))"

definition ag_absent ::
  "'w AccessGroupReconciler \<Rightarrow> NamespacedName \<Rightarrow> 'w rstate \<Rightarrow> verdict \<times> 'w rstate" where
  "ag_absent R key s =
     (if snd key = implicitDefaultAccessGroup \<and> fst key = gr_Namespace R then
        (let snap = Snapshot (r_cache s) in
         case (snap_Ready snap, snap_Client snap) of
           (True, Some client) \<Rightarrow>
             (case ensureEmptyDefault client s of
                (Some err, s) \<Rightarrow> (Inl (LlmErr err), s) | (None, s) \<Rightarrow> (Inr no_requeue, s))
         | _ \<Rightarrow> (Inr no_requeue, s))
      else (Inr no_requeue, s))"

definition ag_Reconcile :: "'w AccessGroupReconciler \<Rightarrow> NamespacedName \<Rightarrow> 'w rstate \<Rightarrow> verdict \<times> 'w rstate" where
  "ag_Reconcile R key s =
     (case kc_get (ct_kube (gr_ctl R)) (world s) key of
        (Inl e, w) \<Rightarrow>
          (if IsNotFoundK e then ag_absent R key (set_world w s) else (Inl (KubeErr e), set_world w s))
      | (Inr ag, w) \<Rightarrow> kit_object accessgroup_kit (gr_ctl R) ag_release (ag_live R key) ag (set_world w s))"

text \<open>Watch mappers: every group that selects by tag, not only those matching now.\<close>

definition agentToAccessGroups :: "kube_error + AccessGroupSpec cr list \<Rightarrow> NamespacedName list" where
  "agentToAccessGroups listed =
     (case listed of Inl _ \<Rightarrow> [] | Inr groups \<Rightarrow> map cr_key (filter (\<lambda>g. length (gs_AgentGroups (cr_Spec g)) > 0) groups))"

definition mcpServerToAccessGroups :: "kube_error + AccessGroupSpec cr list \<Rightarrow> NamespacedName list" where
  "mcpServerToAccessGroups listed =
     (case listed of Inl _ \<Rightarrow> [] | Inr groups \<Rightarrow> map cr_key (filter (\<lambda>g. length (gs_MCPServerGroups (cr_Spec g)) > 0) groups))"

subsection \<open>Effects of the calls\<close>

lemma group_calls_asks:
  fixes s :: "'w rstate"
  shows "emits asks s (snd (CreateAccessGroup http name d ms ss as s))"
    and "emits asks s (snd (ListAccessGroups http s))"
    and "emits asks s (snd (UpdateAccessGroup http i r s))"
    and "emits asks s (snd (ListMCPServers http s))"
    and "emits asks s (snd (ListAgents http s))"
  by (auto simp: makeRequest_asks CreateAccessGroup_def ListAccessGroups_def UpdateAccessGroup_def ListMCPServers_def
      ListAgents_def case_prod_beta split: sum.splits)

lemma DeleteAccessGroup_http: "emits is_http s (snd (DeleteAccessGroup http i s))"
  using makeRequest_http by (auto simp: DeleteAccessGroup_def case_prod_beta split: sum.splits)

lemma by_name_asks:
  fixes s :: "'w rstate"
  shows "emits asks s (snd (GetAccessGroupByName http name s))"
  using group_calls_asks(2) [of s http]
  by (auto simp: GetAccessGroupByName_def case_prod_beta split: sum.splits)

lemma resolve_group_asks: "emits asks s (snd (resolveAccessGroupIDByName llm name s))"
  using by_name_asks [of s llm name]
  by (auto simp: resolveAccessGroupIDByName_def split: prod.splits sum.splits option.splits
      intro: emits_trans [OF _ invalidate_cache_emits])

lemma ensureEmptyDefault_asks: "emits asks s (snd (ensureEmptyDefault llm s))"
proof -
  obtain r s1 where g: "GetAccessGroupByName llm implicitDefaultAccessGroup s = (r, s1)" by fastforce
  then have e: "emits asks s s1" using by_name_asks [of s llm implicitDefaultAccessGroup] by simp
  have "emits asks s (snd (CreateAccessGroup llm n d ms ss as s1))" "emits asks s (snd (UpdateAccessGroup llm i q s1))"
    for n d ms ss as i q
    using emits_trans [OF e group_calls_asks(1)] emits_trans [OF e group_calls_asks(3)] by auto
  with e show ?thesis
    by (auto simp: ensureEmptyDefault_def g case_prod_beta split: sum.splits option.splits)
qed

lemma ag_calls_asks:
  fixes s :: "'w rstate"
  shows "emits asks s (snd (ag_lookup client name s))"
    and "emits asks s (snd (ag_create client ag r s))"
    and "emits asks s (snd (ag_update client ag r i s))"
  using by_name_asks [of s client name] group_calls_asks(1,3)
  by (auto simp: ag_lookup_def ag_create_def ag_update_def case_prod_beta split: sum.splits option.splits)

lemma delete_group_talks: "emits talk s (snd (delete_group ag policy client i s))"
proof -
  obtain r s1 where d: "DeleteAccessGroup client i s = (r, s1)" by fastforce
  then have e: "emits talk s s1" using emits_mono [OF DeleteAccessGroup_http [of s client i], of talk] by simp
  have "emits talk s (snd (kit_ack accessgroup_kit ag policy m p s1))" for m p
    by (rule emits_trans [OF e setback_talk [OF kit_ack_setback]])
  moreover have "emits talk s (snd (kit_deleted accessgroup_kit ag s1))"
    by (rule emits_trans [OF e setback_talk [OF kit_deleted_setback]])
  ultimately show ?thesis using e by (auto simp: delete_group_def d split: sum.splits)
qed

lemma ag_release_talks: "emits talk s (snd (ag_release ag s))"
proof (cases "\<exists>client. snap_Ready (Snapshot (r_cache s)) \<and> snap_Client (Snapshot (r_cache s)) = Some client")
  case True
  then obtain client where c: "snap_Ready (Snapshot (r_cache s))" "snap_Client (Snapshot (r_cache s)) = Some client" by blast
  obtain i s1 where i: "group_id ag client s = (i, s1)" by fastforce
  then have e: "emits talk s s1"
    using emits_mono [OF resolve_group_asks [of s client "Name (cr_Meta ag)"], of talk]
    by (auto simp: group_id_def split: if_splits)
  have "emits talk s (snd (ensureEmptyDefault client s1))"
    by (rule emits_trans [OF e emits_mono [OF ensureEmptyDefault_asks]]) simp
  moreover have "emits talk s (snd (delete_group ag p client i s1))" for p by (rule emits_trans [OF e delete_group_talks])
  moreover have "emits talk s (kit_unblock accessgroup_kit ag s1)"
    by (rule emits_trans [OF e setback_talk [OF kit_unblock_setback]])
  ultimately show ?thesis
    by (auto simp: ag_release_def c i Let_def split: option.splits prod.splits)
next
  case False
  have "emits talk s (snd (kit_ack accessgroup_kit ag p m q s))" for p m q by (rule setback_talk [OF kit_ack_setback])
  with False show ?thesis
    by (auto simp: ag_release_def ackUnavailable_def Let_def split: bool.splits option.splits)
qed

lemma ag_references_quiet: "emits quiet s (snd (ag_references R ag client s))"
proof -
  have cached: "emits quiet s (snd (or_cached hit (ListMCPServers client) s))"
    "emits quiet s (snd (or_cached hit' (ListAgents client) s))" for hit hit' and s :: "'a rstate"
    using emits_mono [OF group_calls_asks(4) [of s client], of quiet] emits_mono [OF group_calls_asks(5) [of s client], of quiet]
    by (auto simp: or_cached_def split: option.splits)
  have dim: "emits quiet s (snd (resolve_dimension R ag names lst name ident op s))"
    if "emits quiet s (snd (lst s))" for names name ident op and s :: "'a rstate" and lst :: "_ \<Rightarrow> (lerror + 'z list) \<times> _"
  proof -
    obtain r s1 where l: "lst s = (r, s1)" by fastforce
    then have e: "emits quiet s s1" using that by simp
    have "emits quiet s (snd (kit_classify accessgroup_kit (gr_ctl R) ag err op s1 :: string gomap flow \<times> _))" for err
      by (rule emits_trans [OF e emits_mono [OF kit_classify_setback]]) simp
    then show ?thesis using e by (auto simp: resolve_dimension_def l split: sum.splits)
  qed
  have tagged: "emits quiet s (snd (list_tagged lst ns groups pick s))" for lst ns groups pick and s :: "'a rstate"
    by (auto simp: list_tagged_def split: prod.splits sum.splits)
  show ?thesis
    unfolding ag_references_def Let_def by (intro emits_andThen dim cached tagged) simp
qed

lemma ag_render_quiet: "emits quiet s (snd (ag_render R ag client s))"
  unfolding ag_render_def
proof (rule emits_andThen [OF ag_references_quiet])
  fix x :: "renderedAccessGroup \<times> missingAccessGroupRefs" and s1 :: "'a rstate"
  have "emits quiet s1 (snd (kit_park accessgroup_kit (gr_ctl R) ag reason msg no_requeue s1 :: renderedAccessGroup flow \<times> _))"
    for reason msg by (rule emits_mono [OF kit_park_setback]) simp
  then show "emits quiet s1 (snd ((case x of (rendered, missing) \<Rightarrow> \<lambda>s.
       if length (mr_MCPServers missing) > 0 then
         kit_park accessgroup_kit (gr_ctl R) ag ''MCPServerNotFound''
           (''spec.mcpServers not yet registered in LiteLLM: '' @ join '', '' (mr_MCPServers missing)) no_requeue s
       else if length (mr_Agents missing) > 0 then
         kit_park accessgroup_kit (gr_ctl R) ag ''AgentNotFound''
           (''spec.agents not yet registered in LiteLLM: '' @ join '', '' (mr_Agents missing)) no_requeue s
       else (Next rendered, s)) s1))"
    by (auto split: prod.splits)
qed

lemma ag_mutate_quiet: "emits quiet s (snd (ag_mutate R key client r ag s))"
  unfolding ag_mutate_def
  by (rule kit_apply_emits)
    (auto intro: emits_mono [OF ag_calls_asks(2)] emits_mono [OF ag_calls_asks(3)] emits_mono [OF resolve_group_asks])

lemma ag_live_talks: "emits talk s (snd (ag_live R key ag s))"
proof -
  have conv: "emits talk s1
      (snd (kit_converge accessgroup_kit C key h (ag_lookup client n) (ag_mutate R key client r) ag s1))" for C h client n r s1
    by (rule kit_converge_emits) (auto intro: quiet_talk [OF ag_mutate_quiet] emits_mono [OF ag_calls_asks(1)])
  show ?thesis
    unfolding ag_live_def
    by (rule gated_emits) (auto intro!: emits_andThen conv intro: quiet_talk [OF ag_render_quiet])
qed

lemma ag_release_offline:
  assumes "\<not> Usable (Snapshot (r_cache s))"
  shows "emits is_setback s (snd (ag_release ag s))"
  using assms kit_ack_setback
  by (auto simp: ag_release_def Usable_def ackUnavailable_def Let_def split: bool.splits option.splits)

interpretation ag: handler accessgroup_kit "gr_ctl R" ag_release "ag_live R key"
  for R :: "'w AccessGroupReconciler" and key
proof unfold_locales
  fix s :: "'w rstate" and obj
  show "emits (\<lambda>e. \<forall>fs. e \<noteq> ObjectUpdate fs) s (snd (ag_release obj s))"
    by (rule emits_mono [OF ag_release_talks talk_keeps_object])
  show "emits (\<lambda>e. \<forall>fs. e \<noteq> ObjectUpdate fs) s (snd (ag_live R key obj s))"
    by (rule emits_mono [OF ag_live_talks talk_keeps_object])
  assume offline: "\<not> Usable (Snapshot (r_cache s))"
  show "emits (\<lambda>e. \<not> is_http e) s (snd (ag_release obj s))"
    by (rule emits_mono [OF ag_release_offline [OF offline] setback_not_http])
  show "emits (\<lambda>e. \<not> is_http e) s (snd (ag_live R key obj s))"
    unfolding ag_live_def by (rule emits_mono [OF gated_offline [OF offline] setback_not_http])
qed

subsection \<open>What is deleted, and when\<close>

abbreviation connected :: "'w rstate \<Rightarrow> 'w http \<Rightarrow> bool" where
  "connected s client \<equiv> snap_Ready (Snapshot (r_cache s)) \<and> snap_Client (Snapshot (r_cache s)) = Some client"

definition group_path :: "string \<Rightarrow> string" where
  "group_path i = ''/v1/access_group/'' @ PathEscape i"

definition withdraws :: "AccessGroupSpec cr \<Rightarrow> 'w rstate \<Rightarrow> effect \<Rightarrow> bool" where
  "withdraws ag s e \<longleftrightarrow> Name (cr_Meta ag) \<noteq> implicitDefaultAccessGroup \<and>
     (\<exists>client i. connected s client \<and> i = fst (group_id ag client s) \<and> i \<noteq> '''' \<and> e = Http ''DELETE'' (group_path i) None)"

lemma DeleteAccessGroup_emits:
  fixes s :: "'w rstate"
  shows "(i \<noteq> '''' \<Longrightarrow> P (Http ''DELETE'' (group_path i) None)) \<Longrightarrow> emits P s (snd (DeleteAccessGroup http i s))"
  by (auto simp: DeleteAccessGroup_def group_path_def emits_def makeRequest_parts case_prod_beta split: sum.splits)

lemma ag_release_deletes: "emits (\<lambda>e. is_delete e \<longrightarrow> withdraws ag s e) s (snd (ag_release ag s))"
proof (cases "\<exists>client. connected s client")
  case True
  let ?P = "\<lambda>e. is_delete e \<longrightarrow> withdraws ag s e"
  from True obtain client where c: "connected s client" by blast
  obtain i s1 where i: "group_id ag client s = (i, s1)" by fastforce
  have ask: "emits ?P s1 s2" if "emits asks s1 s2" for s1 s2 :: "'a rstate" by (rule emits_mono [OF that]) simp
  have sb: "emits ?P s1 s2" if "emits is_setback s1 s2" for s1 s2 :: "'a rstate"
    by (rule emits_mono [OF that]) (simp add: setback_not_delete)
  have e: "emits ?P s s1"
    using i ask [OF resolve_group_asks [of s client "Name (cr_Meta ag)"]] by (auto simp: group_id_def split: if_splits)
  have "emits ?P s (snd (ensureEmptyDefault client s1))"
    by (rule emits_trans [OF e ask [OF ensureEmptyDefault_asks]])
  moreover have "emits ?P s (kit_unblock accessgroup_kit ag s1)" by (rule emits_trans [OF e sb [OF kit_unblock_setback]])
  moreover have "emits ?P s (snd (delete_group ag p client i s1))"
    if name: "Name (cr_Meta ag) \<noteq> implicitDefaultAccessGroup" "i \<noteq> ''''" for p
  proof -
    obtain r s2 where d: "DeleteAccessGroup client i s1 = (r, s2)" by fastforce
    have "emits ?P s1 (snd (DeleteAccessGroup client i s1))"
      using c i name by (intro DeleteAccessGroup_emits) (auto simp: withdraws_def)
    then have e2: "emits ?P s s2" using d by (auto intro: emits_trans [OF e])
    have "emits ?P s (snd (kit_ack accessgroup_kit ag p m q s2))" for m q by (rule emits_trans [OF e2 sb [OF kit_ack_setback]])
    moreover have "emits ?P s (snd (kit_deleted accessgroup_kit ag s2))" by (rule emits_trans [OF e2 sb [OF kit_deleted_setback]])
    ultimately show ?thesis using e2 by (auto simp: delete_group_def d split: sum.splits)
  qed
  ultimately show ?thesis using c i by (auto simp: ag_release_def Let_def split: option.splits prod.splits)
next
  case False
  then have "\<not> Usable (Snapshot (r_cache s))" by (auto simp: Usable_def)
  then show ?thesis by (rule emits_mono [OF ag_release_offline]) (simp add: setback_not_delete)
qed

lemma ag_live_no_delete: "emits (\<lambda>e. \<not> is_delete e) s (snd (ag_live R key ag s))"
proof -
  have q: "\<not> is_delete e" if "quiet e" for e using that setback_not_delete by blast
  have conv: "emits (\<lambda>e. \<not> is_delete e) s1
      (snd (kit_converge accessgroup_kit C key h (ag_lookup client n) (ag_mutate R key client r) ag s1))" for C h client n r s1
    by (rule kit_converge_emits)
      (auto intro: emits_mono [OF ag_mutate_quiet q] emits_mono [OF ag_calls_asks(1)] dest: report_not_delete)
  show ?thesis
    unfolding ag_live_def
    by (rule emits_andThen [OF emits_mono [OF kit_gate_setback setback_not_delete]])
      (auto intro!: emits_andThen conv intro: emits_mono [OF ag_render_quiet q])
qed

lemma ag_absent_asks: "emits asks s (snd (ag_absent R key s))"
  using ensureEmptyDefault_asks [of s]
  by (auto simp: ag_absent_def Let_def split: bool.splits option.splits prod.splits) (metis snd_conv)+

lemma taggedIDs_exact:
  "taggedIDs items groups = sorted_list_of_set
     {i. i \<noteq> '''' \<and> (\<exists>it \<in> set items. tg_id it = i \<and> \<not> tg_deleting it \<and> set (tg_tags it) \<inter> set groups \<noteq> {})}"
proof (cases "groups = []")
  case False
  have meet: "A \<inter> B \<noteq> {} \<longleftrightarrow> (\<exists>t \<in> A. t \<in> B)" for A B :: "string set" by blast
  have "set (map tg_id (filter (\<lambda>it. tg_id it \<noteq> '''' \<and> \<not> tg_deleting it \<and> (\<exists>tag \<in> set (tg_tags it). tag \<in> set groups)) items)) =
      {i. i \<noteq> '''' \<and> (\<exists>it \<in> set items. tg_id it = i \<and> \<not> tg_deleting it \<and> set (tg_tags it) \<inter> set groups \<noteq> {})}"
    unfolding meet by (rule set_eqI) (auto simp: image_iff)
  then show ?thesis using False sorted_set_image by (simp add: taggedIDs_def)
qed (simp add: taggedIDs_def)

subsection \<open>Properties\<close>

text \<open>
  What an access group grants: the models and tags of the spec, the ids of its MCP servers and of
  its agents that have one, and the ids selected by tag; each list sorted and without duplicates, so two
  specs that name the same things in another order render alike; and the names without an id are all
  reported, in the order of the spec, none dropped silently.
\<close>

theorem renderAccessGroup_exact:
  "renderAccessGroup spec serverIDs agentIDs taggedServers taggedAgents =
     (\<lparr>ra_Models = sorted_list_of_set (set (gs_Models spec) \<union> set (gs_ModelGroups spec)),
       ra_MCPServerIDs = sorted_list_of_set
         ({i. \<exists>n \<in> set (gs_MCPServers spec). map_of serverIDs n = Some i} \<union> set taggedServers),
       ra_AgentIDs = sorted_list_of_set
         ({i. \<exists>n \<in> set (gs_Agents spec). map_of agentIDs n = Some i} \<union> set taggedAgents)\<rparr>,
      \<lparr>mr_MCPServers = filter (\<lambda>n. map_of serverIDs n = None) (gs_MCPServers spec),
       mr_Agents = filter (\<lambda>n. map_of agentIDs n = None) (gs_Agents spec)\<rparr>)"
proof -
  have ids: "set (fst (resolveNames names ids)) = {i. \<exists>n \<in> set names. map_of ids n = Some i}"
    "snd (resolveNames names ids) = filter (\<lambda>n. map_of ids n = None) names" for names ids
    by (induction names ids rule: resolveNames.induct) (auto simp: Let_def split: option.splits prod.splits)
  show ?thesis
    by (simp add: renderAccessGroup_def Let_def case_prod_beta compact_sort sorted_set_list ids)
qed

text \<open>
  Selection by tag: an id is granted exactly when some registered MCP server with that id carries
  one of the tags, is not being deleted, and did not lose the conflict for its entry.
\<close>

theorem taggedMCPServerIDs_exact:
  "taggedMCPServerIDs K servers groups = sorted_list_of_set
     {i. i \<noteq> '''' \<and> (\<exists>srv \<in> set servers. rc_RemoteID srv = i \<and> \<not> DeletionTimestamp (rc_Meta srv) \<and> \<not> conflict_loser K srv \<and>
        set (xp_MCPAccessGroups (extractMCPParams (paramsMap (rc_Params srv)))) \<inter> set groups \<noteq> {})}"
  by (simp add: taggedMCPServerIDs_def taggedIDs_exact)

text \<open>
  C8.  A DELETE goes out only for an object that is being deleted, whose name is not the implicit
  default group, over a usable connection, and only for the id that was persisted or, when none was,
  that the name resolves to.
\<close>

theorem ag_deletes_only:
  assumes "Http ''DELETE'' p b \<in> set (drop (length (log s)) (log (snd (ag_Reconcile R key s))))"
  shows "\<exists>ag w. kc_get (ct_kube (gr_ctl R)) (world s) key = (Inr ag, w) \<and> DeletionTimestamp (cr_Meta ag) \<and>
    Name (cr_Meta ag) \<noteq> implicitDefaultAccessGroup \<and>
    (\<exists>client. connected s client \<and> fst (group_id ag client (set_world w s)) \<noteq> '''' \<and>
       p = group_path (fst (group_id ag client (set_world w s))) \<and> b = None)"
proof (rule ccontr)
  assume no: "\<not> ?thesis"
  let ?P = "\<lambda>e. e \<noteq> Http ''DELETE'' p b"
  have nd: "emits ?P s1 s2" if "emits (\<lambda>e. \<not> is_delete e) s1 s2" for s1 s2 :: "'a rstate"
    by (rule emits_mono [OF that]) auto
  have "emits ?P s (snd (ag_Reconcile R key s))"
  proof (cases "kc_get (ct_kube (gr_ctl R)) (world s) key")
    case (Pair r w)
    show ?thesis
    proof (cases r)
      case (Inl e)
      have "emits ?P (set_world w s) (snd (ag_absent R key (set_world w s)))"
        by (rule nd [OF emits_mono [OF ag_absent_asks]]) simp
      then have "emits ?P s (snd (ag_absent R key (set_world w s)))" by (rule emits_trans [rotated]) simp
      then show ?thesis by (auto simp: ag_Reconcile_def Pair Inl)
    next
      case (Inr ag)
      let ?s = "set_world w s"
      have "emits (\<lambda>e. is_delete e \<longrightarrow> withdraws ag ?s e) ?s (snd (ag_release ag ?s))" by (rule ag_release_deletes)
      then have rel: "emits ?P ?s (snd (ag_release ag ?s))" if "DeletionTimestamp (cr_Meta ag)"
        by (rule emits_mono) (use no Pair Inr that in \<open>auto simp: withdraws_def set_world_def\<close>)
      have drop: "emits ?P s1 (snd (kit_drop_finalizer accessgroup_kit (gr_ctl R) ag s1))" for s1
        by (rule kit_drop_emits) auto
      have upd: "emits ?P ?s (snd (kit_update (gr_ctl R) ag fs ?s))" for fs by (simp add: emits_def kit_update_log)
      obtain f s1 where r: "ag_release ag ?s = (f, s1)" by fastforce
      have "emits ?P ?s (snd (kit_object accessgroup_kit (gr_ctl R) ag_release (ag_live R key) ag ?s))"
        using rel r upd nd [OF ag_live_no_delete [of ?s R key ag]] emits_trans [OF _ drop, of ?s s1]
        by (auto simp: kit_object_def split: prod.splits flow.splits)
      then have "emits ?P s (snd (kit_object accessgroup_kit (gr_ctl R) ag_release (ag_live R key) ag ?s))"
        by (rule emits_trans [rotated]) simp
      then show ?thesis by (simp add: ag_Reconcile_def Pair Inr)
    qed
  qed
  then show False using new_effects_mem [of "\<lambda>e. e = Http ''DELETE'' p b"] assms by auto
qed

definition example_group_spec :: AccessGroupSpec where
  "example_group_spec = \<lparr>gs_Description = '''', gs_Models = [''m''], gs_ModelGroups = [], gs_MCPServers = [], gs_MCPServerGroups = [],
     gs_Agents = [], gs_AgentGroups = [], gs_DeletionPolicy = ''Delete''\<rparr>"

definition example_group :: "string \<Rightarrow> string \<Rightarrow> AccessGroupSpec cr" where
  "example_group name i = example_cr example_group_spec name True accessGroupFinalizer i"

definition example_group_R :: "AccessGroupSpec cr \<Rightarrow> unit AccessGroupReconciler" where
  "example_group_R ag = \<lparr>gr_ctl = example_ctl ag, gr_sha256hex = (\<lambda>t. t), gr_Namespace = ''ns'',
     gr_cachedServers = (\<lambda>w. None), gr_cachedAgents = (\<lambda>w. None), gr_agents = (\<lambda>w ns. (Inr [], w)), gr_servers = (\<lambda>w ns. (Inr [], w))\<rparr>"

lemma example_group_deleted:
  "log (snd (ag_Reconcile (example_group_R (example_group ''g'' ''id1'')) (''ns'', ''g'') (example_online (answering 200 (JObj []))))) =
     [Http ''DELETE'' (group_path ''id1'') None, Metric ''DriftCorrectedTotal'' [''accessgroup'', ''delete_vanished''],
      Metric ''DeletionBlocked.Forget'' [makeDeletionBlockedKey accessGroupKind ''ns'' ''g''], Metric ''CRStatusAge.Forget'' [accessGroupKind, ''g''],
      Metric ''DeletionBlocked.Forget'' [makeDeletionBlockedKey accessGroupKind ''ns'' ''g''], ObjectUpdate []]"
  by (simp add: ag_Reconcile_def example_group_R_def example_ctl_def example_group_def example_cr_def kit_object_def klib_std_def
      accessgroup_kit_def set_world_def ag_release_def example_online_snapshot zero_snapshot_def group_id_def delete_group_def
      DeleteAccessGroup_def answering_ok is2xx_def kit_deleted_def kit_unblock_def DeletionBlocked_Forget_def kit_drop_finalizer_def
      kit_update_def emit_def implicitDefaultAccessGroup_def group_path_def Let_def)

theorem ag_deletes_only_witness:
  "\<exists>client. connected (example_online (answering 200 (JObj []))) client \<and>
     fst (group_id (example_group ''g'' ''id1'') client (example_online (answering 200 (JObj [])))) = ''id1''"
  using ag_deletes_only [of "group_path ''id1''" None "example_online (answering 200 (JObj []))"
      "example_group_R (example_group ''g'' ''id1'')" "(''ns'', ''g'')"]
  unfolding example_group_deleted
  by (auto simp: example_group_R_def example_ctl_def example_online_snapshot example_group_def example_cr_def group_id_def set_world_def)

text \<open>When the finalizer of an access group may go.\<close>

definition may_release_group :: "AccessGroupSpec cr \<Rightarrow> 'w rstate \<Rightarrow> bool" where
  "may_release_group ag s =
     (let snap = Snapshot (r_cache s); orphan = (Resolve (cr_Meta ag) (gs_DeletionPolicy (cr_Spec ag)) = Orphan);
          default = (Name (cr_Meta ag) = implicitDefaultAccessGroup) in
      if Usable snap then
        (let (i, s1) = group_id ag (the (snap_Client snap)) s in
         if default then fst (ensureEmptyDefault (the (snap_Client snap)) s1) = None
         else i = '''' \<or>
           (case fst (DeleteAccessGroup (the (snap_Client snap)) i s1) of
              Inr _ \<Rightarrow> True
            | Inl e \<Rightarrow> as_auth401 e = None \<and> is4xxStatus e \<and> orphan))
      else \<not> default \<and> snap_Reason snap = reasonAbsent \<and> orphan)"

lemma ag_release_Next: "fst (ag_release ag s) = Next () \<longleftrightarrow> may_release_group ag s"
proof (cases "\<exists>client. connected s client")
  case True
  then obtain client where c: "connected s client" by blast
  obtain i s1 where i: "group_id ag client s = (i, s1)" by fastforce
  obtain x s2 where x: "ensureEmptyDefault client s1 = (x, s2)" by fastforce
  obtain d s3 where d: "DeleteAccessGroup client i s1 = (d, s3)" by fastforce
  show ?thesis using c
    by (auto simp: ag_release_def may_release_group_def Usable_def i x d delete_group_def kit_ack_Next kit_deleted_Next
        split: sum.splits option.splits)
next
  case False
  then show ?thesis
    by (cases "snap_Ready (Snapshot (r_cache s))"; cases "snap_Client (Snapshot (r_cache s))")
      (auto simp: ag_release_def may_release_group_def Usable_def Let_def ackUnavailable_def kit_ack_Next)
qed



text \<open>
  C34.  Under the policy \<^verbatim>\<open>Delete\<close> too, a deleted group whose id was never persisted loses its
  finalizer when the look-up by name fails, whatever the failure: the error is read as "no such entry",
  and no DELETE is sent although the entry may exist.
\<close>

theorem ag_lookup_failure_releases:
  assumes "kc_get (ct_kube (gr_ctl R)) (world s) key = (Inr ag, w)" and "DeletionTimestamp (cr_Meta ag)"
    and "klib_laws (ct_lib (gr_ctl R))" and "accessGroupFinalizer \<in> set (Finalizers (cr_Meta ag))"
    and "connected s client" and "cr_ID ag = ''''" and "Name (cr_Meta ag) \<noteq> implicitDefaultAccessGroup"
    and "fst (GetAccessGroupByName client (Name (cr_Meta ag)) (set_world w s)) = Inl err"
  shows "(\<exists>fs. ObjectUpdate fs \<in> set (drop (length (log s)) (log (snd (ag_Reconcile R key s)))) \<and> accessGroupFinalizer \<notin> set fs) \<and>
    emits (\<lambda>e. \<not> is_delete e) s (snd (ag_Reconcile R key s))"
proof -
  let ?s = "set_world w s"
  have conn: "connected ?s client" using assms(5) by (simp add: set_world_def)
  have i: "fst (group_id ag client ?s) = ''''"
    using assms(6,8) by (auto simp: group_id_def resolveAccessGroupIDByName_def split: prod.splits)
  then have "fst (ag_release ag ?s) = Next ()"
    using conn assms(7) by (auto simp: ag_release_Next may_release_group_def Usable_def Let_def case_prod_beta)
  then have rel: "\<exists>e \<in> set (drop (length (log ?s)) (log (snd (kit_object accessgroup_kit (gr_ctl R) ag_release (ag_live R key) ag ?s)))).
      releases accessGroupFinalizer e"
    using ag.released_iff [of R ag ?s key] assms(2-4) by (simp add: accessgroup_kit_def)
  have none: "\<not> withdraws ag ?s e" for e using conn i by (auto simp: withdraws_def)
  have "emits (\<lambda>e. \<not> is_delete e) ?s (snd (ag_release ag ?s))"
    by (rule emits_mono [OF ag_release_deletes [of ag ?s]]) (simp add: none)
  moreover have "emits (\<lambda>e. \<not> is_delete e) s1 (snd (kit_drop_finalizer accessgroup_kit (gr_ctl R) ag s1))" for s1
    by (rule kit_drop_emits) (auto dest: report_not_delete)
  ultimately have "emits (\<lambda>e. \<not> is_delete e) ?s (snd (kit_object accessgroup_kit (gr_ctl R) ag_release (ag_live R key) ag ?s))"
    using assms(2) by (auto simp: kit_object_def split: prod.splits flow.splits intro: emits_trans)
  then have "emits (\<lambda>e. \<not> is_delete e) s (snd (kit_object accessgroup_kit (gr_ctl R) ag_release (ag_live R key) ag ?s))"
    by (rule emits_trans [rotated]) simp
  then show ?thesis
    using rel assms(1) by (auto simp: ag_Reconcile_def set_world_def elim: releases.elims)
qed

theorem ag_lookup_failure_releases_witness:
  "\<exists>fs. ObjectUpdate fs \<in> set (log (snd (ag_Reconcile (example_group_R (example_group ''g'' '''')) (''ns'', ''g'')
       (example_online (answering 503 (JObj [])))))) \<and> accessGroupFinalizer \<notin> set fs"
proof -
  have "\<exists>e. fst (GetAccessGroupByName (answering 503 (JObj [])) ''g'' (example_online (answering 503 (JObj [])))) = Inl e"
    by (simp add: GetAccessGroupByName_def ListAccessGroups_def makeRequest_def answering_def response_of_def readCappedBody_def
        classify_response_def is2xx_def IsNotFound_def Let_def case_prod_beta)
  then show ?thesis
    using ag_lookup_failure_releases [of "example_group_R (example_group ''g'' '''')" "example_online (answering 503 (JObj []))"
        "(''ns'', ''g'')" "example_group ''g'' ''''" "()" "answering 503 (JObj [])"]
    by (auto simp: example_group_R_def example_ctl_def klib_std_laws example_group_def example_cr_def example_online_snapshot
        implicitDefaultAccessGroup_def zero_snapshot_def)
qed

end
