(* ===== verification/Mcp_Toolset.thy ===== *)
theory Mcp_Toolset
  imports Access_Group
begin

text \<open>
  MCP toolsets: the client calls of \<^verbatim>\<open>internal/litellm/toolset.go\<close>, the rendering of
  \<^verbatim>\<open>mcptoolset_render.go\<close> and the handler of \<^verbatim>\<open>mcptoolset_controller.go\<close>, on the shared handler steps.

  The read of the MCP server objects goes to the informer cache: a parameter on the world, like the
  Kubernetes client.
\<close>

subsection \<open>Wire types and client calls\<close>

record MCPToolsetTool =
  tt_ServerID :: string
  tt_ToolName :: string

record MCPToolsetRequest =
  tq_ToolsetName :: string
  tq_Description :: string
  tq_Tools :: "MCPToolsetTool list"

record MCPToolsetUpdateRequest =
  tu_ToolsetID :: string
  tu_ToolsetName :: string
  tu_Description :: string
  tu_Tools :: "MCPToolsetTool list"

record MCPToolsetEntry =
  te_ToolsetID :: string
  te_ToolsetName :: string
  te_Description :: string
  te_Tools :: "MCPToolsetTool list"

definition tool_json :: "MCPToolsetTool \<Rightarrow> json" where
  "tool_json t = JObj [(''server_id'', JStr (tt_ServerID t)), (''tool_name'', JStr (tt_ToolName t))]"

definition tools_json :: "MCPToolsetTool list \<Rightarrow> json" where
  "tools_json ts = JArr (map tool_json ts)"

definition toolset_json :: "MCPToolsetRequest \<Rightarrow> json" where
  "toolset_json r = JObj ([(''toolset_name'', JStr (tq_ToolsetName r))] @ omitempty ''description'' (tq_Description r)
     @ [(''tools'', tools_json (tq_Tools r))])"

definition toolset_update_json :: "MCPToolsetUpdateRequest \<Rightarrow> json" where
  "toolset_update_json r = JObj ([(''toolset_id'', JStr (tu_ToolsetID r))] @ omitempty ''toolset_name'' (tu_ToolsetName r)
     @ omitempty ''description'' (tu_Description r) @ [(''tools'', tools_json (tu_Tools r))])"

definition decode_tool :: "json \<Rightarrow> MCPToolsetTool option" where
  "decode_tool v =
     (case dec_object (Some v) of None \<Rightarrow> None
      | Some m \<Rightarrow>
        (case (dec_string (struct_field ''server_id'' m), dec_string (struct_field ''tool_name'' m)) of
           (Some i, Some n) \<Rightarrow> Some \<lparr>tt_ServerID = i, tt_ToolName = n\<rparr>
         | _ \<Rightarrow> None))"

definition decode_toolset :: "json \<Rightarrow> MCPToolsetEntry option" where
  "decode_toolset v =
     (case dec_object (Some v) of None \<Rightarrow> None
      | Some m \<Rightarrow>
        (case (dec_string (struct_field ''toolset_id'' m), dec_string (struct_field ''toolset_name'' m),
               dec_string (struct_field ''description'' m),
               Option.bind (dec_array (struct_field ''tools'' m)) (dec_all decode_tool),
               dec_string (struct_field ''created_at'' m), dec_string (struct_field ''updated_at'' m)) of
           (Some i, Some n, Some d, Some ts, Some _, Some _) \<Rightarrow>
             Some \<lparr>te_ToolsetID = i, te_ToolsetName = n, te_Description = d, te_Tools = ts\<rparr>
         | _ \<Rightarrow> None))"

definition CreateMCPToolset :: "'w http \<Rightarrow> MCPToolsetRequest \<Rightarrow> ('w, 'z, MCPToolsetEntry) call" where
  "CreateMCPToolset http r s =
     (case makeRequest http ''POST'' ''/v1/mcp/toolset'' (Some (toolset_json r)) s of
        (Inl e, s) \<Rightarrow> (Inl e, s)
      | (Inr raw, s) \<Rightarrow> (unmarshal decode_toolset ''POST /v1/mcp/toolset'' raw, s))"

definition UpdateMCPToolset :: "'w http \<Rightarrow> MCPToolsetUpdateRequest \<Rightarrow> ('w, 'z, MCPToolsetEntry) call" where
  "UpdateMCPToolset http r s =
     (if tu_ToolsetID r = '''' then (Inl (ErrText ''litellm: UpdateMCPToolset: empty toolset_id''), s)
      else
        case makeRequest http ''PUT'' ''/v1/mcp/toolset'' (Some (toolset_update_json r)) s of
          (Inl e, s) \<Rightarrow> (Inl e, s)
        | (Inr raw, s) \<Rightarrow> (unmarshal decode_toolset ''PUT /v1/mcp/toolset'' raw, s))"

definition DeleteMCPToolset :: "'w http \<Rightarrow> string \<Rightarrow> ('w, 'z, unit) call" where
  "DeleteMCPToolset http i s =
     (if i = '''' then (Inl (ErrText ''litellm: DeleteMCPToolset: empty toolset_id''), s)
      else
        case makeRequest http ''DELETE'' (''/v1/mcp/toolset/'' @ PathEscape i) None s of
          (Inl e, s) \<Rightarrow> (Inl e, s)
        | (Inr _, s) \<Rightarrow> (Inr (), s))"

definition ListMCPToolsets :: "'w http \<Rightarrow> ('w, 'z, MCPToolsetEntry list) call" where
  "ListMCPToolsets http s =
     (case makeRequest http ''GET'' ''/v1/mcp/toolset'' None s of
        (Inl e, s) \<Rightarrow> (Inl e, s)
      | (Inr raw, s) \<Rightarrow> (nonempty_list (unmarshal (decode_list decode_toolset) ''GET /v1/mcp/toolset'' raw), s))"

subsection \<open>Rendering\<close>

record MCPToolsetServerTools =
  st_Server :: string
  st_Tools :: "string list"

record MCPToolsetSpec =
  ts_Description :: string
  ts_From :: "MCPToolsetServerTools list"
  ts_DeletionPolicy :: string

text \<open>The two loops of \<^verbatim>\<open>renderToolsetTools\<close>; \<open>out\<close> also stands for the set \<^verbatim>\<open>seen\<close>, which has the same pairs.\<close>

fun add_tools :: "string \<Rightarrow> string list \<Rightarrow> MCPToolsetTool list \<Rightarrow> MCPToolsetTool list" where
  "add_tools serverID [] out = out"
| "add_tools serverID (tool # tools) out =
     (let pair = \<lparr>tt_ServerID = serverID, tt_ToolName = tool\<rparr> in
      add_tools serverID tools (if tool = '''' \<or> pair \<in> set out then out else out @ [pair]))"

fun render_from ::
  "MCPToolsetServerTools list \<Rightarrow> (string \<Rightarrow> 'w \<Rightarrow> string \<times> 'w) \<Rightarrow> MCPToolsetTool list \<Rightarrow> 'w \<Rightarrow> MCPToolsetTool list \<times> 'w" where
  "render_from [] resolveServer out w = (out, w)"
| "render_from (entry # from) resolveServer out w =
     (let (serverID, w) = resolveServer (st_Server entry) w
      in render_from from resolveServer (add_tools serverID (st_Tools entry) out) w)"

definition renderToolsetTools ::
  "MCPToolsetServerTools list \<Rightarrow> (string \<Rightarrow> 'w \<Rightarrow> string \<times> 'w) \<Rightarrow> 'w \<Rightarrow> MCPToolsetTool list \<times> 'w" where
  "renderToolsetTools from resolveServer w = render_from from resolveServer [] w"

text \<open>\<open>getServer\<close> reads \<^verbatim>\<open>status.lastRendered.serverID\<close> of the named object, or fails.\<close>

definition serverIDResolver ::
  "('w \<Rightarrow> NamespacedName \<Rightarrow> (kube_error + string) \<times> 'w) \<Rightarrow> string \<Rightarrow> string \<Rightarrow> 'w \<Rightarrow> string \<times> 'w" where
  "serverIDResolver getServer namespace name w =
     (if name = '''' then (name, w)
      else
        case getServer w (namespace, name) of
          (Inl _, w) \<Rightarrow> (name, w)
        | (Inr i, w) \<Rightarrow> (if i \<noteq> '''' then i else name, w))"

subsection \<open>The handler\<close>

definition mcpToolsetFinalizer :: string where "mcpToolsetFinalizer = ''mcptoolsets.litellm.ackstorm.ai/finalizer''"
definition mcpToolsetKind :: string where "mcpToolsetKind = ''LiteLLMMCPToolset''"

definition toolset_kit :: "MCPToolsetSpec kit" where
  "toolset_kit = \<lparr>k_kind = mcpToolsetKind, k_label = ''mcptoolset'', k_probe = ''mcptoolset'', k_finalizer = mcpToolsetFinalizer,
     k_registered = ''toolset registered'', k_create = ''POST /v1/mcp/toolset'', k_carry = (\<lambda>_ f. f)\<rparr>"

record 'w MCPToolsetReconciler =
  tr_ctl :: "('w, MCPToolsetSpec) ctl"
  tr_sha256hex :: "string \<Rightarrow> string"
  tr_getServer :: "'w \<Rightarrow> NamespacedName \<Rightarrow> (kube_error + string) \<times> 'w"

definition id_by_name :: "string \<Rightarrow> MCPToolsetEntry list \<Rightarrow> string" where
  "id_by_name name entries = (case find (\<lambda>e. te_ToolsetName e = name) entries of None \<Rightarrow> '''' | Some e \<Rightarrow> te_ToolsetID e)"

definition resolveToolsetIDByName :: "'w http \<Rightarrow> string \<Rightarrow> 'w rstate \<Rightarrow> string \<times> 'w rstate" where
  "resolveToolsetIDByName llm name s =
     (case ListMCPToolsets llm s of
        (Inl err, s) \<Rightarrow>
          (if is_ErrNotFound err then ('''', s)
           else if as_auth401 err \<noteq> None then ('''', invalidate_cache s)
           else ('''', s))
      | (Inr entries, s) \<Rightarrow> (id_by_name name entries, s))"

definition updateRequestFor :: "string \<Rightarrow> MCPToolsetRequest \<Rightarrow> MCPToolsetUpdateRequest" where
  "updateRequestFor i body = \<lparr>tu_ToolsetID = i, tu_ToolsetName = tq_ToolsetName body, tu_Description = tq_Description body,
     tu_Tools = tq_Tools body\<rparr>"

definition toolset_id :: "MCPToolsetSpec cr \<Rightarrow> 'w http \<Rightarrow> 'w rstate \<Rightarrow> string \<times> 'w rstate" where
  "toolset_id ts client s =
     (if cr_ID ts = '''' then resolveToolsetIDByName client (Name (cr_Meta ts)) s else (cr_ID ts, s))"

definition delete_toolset ::
  "MCPToolsetSpec cr \<Rightarrow> Policy \<Rightarrow> 'w http \<Rightarrow> string \<Rightarrow> 'w rstate \<Rightarrow> unit flow \<times> 'w rstate" where
  "delete_toolset ts policy client i s =
     (case DeleteMCPToolset client i s of
        (Inl err, s) \<Rightarrow>
          (if as_auth401 err \<noteq> None then kit_ack toolset_kit ts policy ''401 on DeleteMCPToolset'' False s
           else if is4xxStatus err
           then kit_ack toolset_kit ts policy (''4xx on DeleteMCPToolset: '' @ lerror_text err) True s
           else
             case resolveToolsetIDByName client (Name (cr_Meta ts)) s of
               (resolved, s) \<Rightarrow>
                 (if resolved = '''' then (Next (), kit_unblock toolset_kit ts s) else (Return (Inl (LlmErr err)), s)))
      | (Inr _, s) \<Rightarrow> kit_deleted toolset_kit ts s)"

definition ts_release :: "MCPToolsetSpec cr \<Rightarrow> 'w rstate \<Rightarrow> unit flow \<times> 'w rstate" where
  "ts_release ts s =
     (let policy = Resolve (cr_Meta ts) (ts_DeletionPolicy (cr_Spec ts));
          snap = Snapshot (r_cache s)
      in case (snap_Ready snap, snap_Client snap) of
           (True, Some client) \<Rightarrow>
             (let (i, s) = toolset_id ts client s in
              if i \<noteq> '''' then delete_toolset ts policy client i s
              else (Next (), kit_unblock toolset_kit ts s))
         | _ \<Rightarrow> (let (reason, permanent) = ackUnavailable snap in kit_ack toolset_kit ts policy reason permanent s))"

definition ts_render :: "'w MCPToolsetReconciler \<Rightarrow> MCPToolsetSpec cr \<Rightarrow> 'w rstate \<Rightarrow> MCPToolsetRequest flow \<times> 'w rstate" where
  "ts_render R ts s =
     (let (tools, w) = renderToolsetTools (ts_From (cr_Spec ts))
            (serverIDResolver (tr_getServer R) (Namespace (cr_Meta ts))) (world s)
      in (Next \<lparr>tq_ToolsetName = Name (cr_Meta ts), tq_Description = ts_Description (cr_Spec ts), tq_Tools = tools\<rparr>, set_world w s))"

text \<open>
  The tools of the hash input are a slice of structs, marshalled with their fields in declaration
  order, which is also the sorted order of their keys.
\<close>

definition toolset_hash :: "'w MCPToolsetReconciler \<Rightarrow> MCPToolsetRequest \<Rightarrow> string" where
  "toolset_hash R body = tr_sha256hex R (canonicalJSON (JObj
     [(''toolset_name'', JStr (tq_ToolsetName body)), (''description'', JStr (tq_Description body)),
      (''tools'', tools_json (tq_Tools body))]))"

definition ts_lookup :: "'w http \<Rightarrow> string \<Rightarrow> 'w rstate \<Rightarrow> (lerror + string) \<times> 'w rstate" where
  "ts_lookup client name s =
     (case ListMCPToolsets client s of
        (Inl e, s) \<Rightarrow> (Inl e, s)
      | (Inr entries, s) \<Rightarrow> (Inr (id_by_name name entries), s))"

definition ts_create :: "'w http \<Rightarrow> MCPToolsetRequest \<Rightarrow> 'w rstate \<Rightarrow> (lerror + string) \<times> 'w rstate" where
  "ts_create client body s =
     (case CreateMCPToolset client body s of
        (Inl e, s) \<Rightarrow> (Inl e, s)
      | (Inr entry, s) \<Rightarrow> (Inr (te_ToolsetID entry), s))"

definition ts_update :: "'w http \<Rightarrow> MCPToolsetRequest \<Rightarrow> string \<Rightarrow> 'w rstate \<Rightarrow> (lerror + unit) \<times> 'w rstate" where
  "ts_update client body i s =
     (case UpdateMCPToolset client (updateRequestFor i body) s of
        (Inl e, s) \<Rightarrow> (Inl e, s)
      | (Inr _, s) \<Rightarrow> (Inr (), s))"

definition ts_mutate ::
  "'w MCPToolsetReconciler \<Rightarrow> NamespacedName \<Rightarrow> 'w http \<Rightarrow> MCPToolsetRequest \<Rightarrow> MCPToolsetSpec cr \<Rightarrow> 'w rstate
   \<Rightarrow> string flow \<times> 'w rstate" where
  "ts_mutate R key client body ts =
     kit_apply toolset_kit (tr_ctl R) key ts ''PUT /v1/mcp/toolset'' (ts_create client body)
       (resolveToolsetIDByName client (Name (cr_Meta ts))) (ts_update client body)"

definition ts_live ::
  "'w MCPToolsetReconciler \<Rightarrow> NamespacedName \<Rightarrow> MCPToolsetSpec cr \<Rightarrow> 'w rstate \<Rightarrow> unit flow \<times> 'w rstate" where
  "ts_live R key ts =
     andThen (kit_gate toolset_kit (tr_ctl R) ts) (\<lambda>(snap, client).
     andThen (ts_render R ts) (\<lambda>body.
       kit_converge toolset_kit (tr_ctl R) key (toolset_hash R body)
         (ts_lookup client (Name (cr_Meta ts))) (ts_mutate R key client body) ts))"

definition ts_Reconcile :: "'w MCPToolsetReconciler \<Rightarrow> NamespacedName \<Rightarrow> 'w rstate \<Rightarrow> verdict \<times> 'w rstate" where
  "ts_Reconcile R key s =
     (case kc_get (ct_kube (tr_ctl R)) (world s) key of
        (Inl e, w) \<Rightarrow> (if IsNotFoundK e then Inr no_requeue else Inl (KubeErr e), set_world w s)
      | (Inr ts, w) \<Rightarrow> kit_object toolset_kit (tr_ctl R) ts_release (ts_live R key) ts (set_world w s))"

text \<open>The watch mappers: every toolset of the namespace.\<close>

definition ListMCPToolsetRequests :: "kube_error + MCPToolsetSpec cr list \<Rightarrow> kube_error + NamespacedName list" where
  "ListMCPToolsetRequests listed = (case listed of Inl e \<Rightarrow> Inl e | Inr items \<Rightarrow> Inr (map cr_key items))"

definition mcpServerToToolsets :: "kube_error + MCPToolsetSpec cr list \<Rightarrow> NamespacedName list" where
  "mcpServerToToolsets listed = (case ListMCPToolsetRequests listed of Inl _ \<Rightarrow> [] | Inr reqs \<Rightarrow> reqs)"

subsection \<open>Effects\<close>

lemma toolset_calls_asks:
  fixes s :: "'w rstate"
  shows "emits asks s (snd (CreateMCPToolset http r s))"
    and "emits asks s (snd (UpdateMCPToolset http u s))"
    and "emits asks s (snd (ListMCPToolsets http s))"
  by (auto simp: makeRequest_asks CreateMCPToolset_def UpdateMCPToolset_def ListMCPToolsets_def case_prod_beta split: sum.splits)

lemma DeleteMCPToolset_http: "emits is_http s (snd (DeleteMCPToolset http i s))"
  using makeRequest_http by (auto simp: DeleteMCPToolset_def case_prod_beta split: sum.splits)

lemma resolve_toolset_asks: "emits asks s (snd (resolveToolsetIDByName llm name s))"
  using toolset_calls_asks(3) [of s llm]
  by (auto simp: resolveToolsetIDByName_def split: prod.splits sum.splits intro: emits_trans [OF _ invalidate_cache_emits])

lemma ts_calls_asks:
  fixes s :: "'w rstate"
  shows "emits asks s (snd (ts_lookup client name s))"
    and "emits asks s (snd (ts_create client body s))"
    and "emits asks s (snd (ts_update client body i s))"
  using toolset_calls_asks
  by (auto simp: ts_lookup_def ts_create_def ts_update_def case_prod_beta split: sum.splits)

lemma delete_toolset_talks: "emits talk s (snd (delete_toolset ts policy client i s))"
proof -
  obtain r s1 where d: "DeleteMCPToolset client i s = (r, s1)" by fastforce
  then have e: "emits talk s s1" using emits_mono [OF DeleteMCPToolset_http [of s client i], of talk] by simp
  obtain x s2 where x: "resolveToolsetIDByName client (Name (cr_Meta ts)) s1 = (x, s2)" by fastforce
  then have e2: "emits talk s s2"
    using emits_trans [OF e emits_mono [OF resolve_toolset_asks [of s1 client "Name (cr_Meta ts)"], of talk]] by simp
  have "emits talk s (snd (kit_ack toolset_kit ts policy m p s1))" for m p
    by (rule emits_trans [OF e setback_talk [OF kit_ack_setback]])
  moreover have "emits talk s (snd (kit_deleted toolset_kit ts s1))"
    by (rule emits_trans [OF e setback_talk [OF kit_deleted_setback]])
  moreover have "emits talk s (kit_unblock toolset_kit ts s2)"
    by (rule emits_trans [OF e2 setback_talk [OF kit_unblock_setback]])
  ultimately show ?thesis using e e2 x by (auto simp: delete_toolset_def d split: sum.splits)
qed

lemma ts_release_talks: "emits talk s (snd (ts_release ts s))"
proof (cases "\<exists>client. connected s client")
  case True
  then obtain client where c: "connected s client" by blast
  obtain i s1 where i: "toolset_id ts client s = (i, s1)" by fastforce
  then have e: "emits talk s s1"
    using emits_mono [OF resolve_toolset_asks [of s client "Name (cr_Meta ts)"], of talk]
    by (auto simp: toolset_id_def split: if_splits)
  have "emits talk s (snd (delete_toolset ts p client i s1))" for p by (rule emits_trans [OF e delete_toolset_talks])
  moreover have "emits talk s (kit_unblock toolset_kit ts s1)"
    by (rule emits_trans [OF e setback_talk [OF kit_unblock_setback]])
  ultimately show ?thesis using c by (auto simp: ts_release_def i Let_def)
next
  case False
  have "emits talk s (snd (kit_ack toolset_kit ts p m q s))" for p m q by (rule setback_talk [OF kit_ack_setback])
  with False show ?thesis
    by (auto simp: ts_release_def ackUnavailable_def Let_def split: bool.splits option.splits)
qed

lemma ts_render_emits: "emits P s (snd (ts_render R ts s))"
  by (simp add: ts_render_def case_prod_beta)

lemma ts_mutate_quiet: "emits quiet s (snd (ts_mutate R key client body ts s))"
  unfolding ts_mutate_def
  by (rule kit_apply_emits)
    (auto intro: emits_mono [OF ts_calls_asks(2)] emits_mono [OF ts_calls_asks(3)] emits_mono [OF resolve_toolset_asks])

lemma ts_live_talks: "emits talk s (snd (ts_live R key ts s))"
proof -
  have conv: "emits talk s1
      (snd (kit_converge toolset_kit C key h (ts_lookup client n) (ts_mutate R key client body) ts s1))" for C h client n body s1
    by (rule kit_converge_emits) (auto intro: quiet_talk [OF ts_mutate_quiet] emits_mono [OF ts_calls_asks(1)])
  show ?thesis
    unfolding ts_live_def by (rule gated_emits) (auto intro!: emits_andThen conv ts_render_emits)
qed

lemma ts_release_offline:
  assumes "\<not> Usable (Snapshot (r_cache s))"
  shows "emits is_setback s (snd (ts_release ts s))"
  using assms kit_ack_setback
  by (auto simp: ts_release_def Usable_def ackUnavailable_def Let_def split: bool.splits option.splits)

interpretation ts: handler toolset_kit "tr_ctl R" ts_release "ts_live R key"
  for R :: "'w MCPToolsetReconciler" and key
proof unfold_locales
  fix s :: "'w rstate" and obj
  show "emits (\<lambda>e. \<forall>fs. e \<noteq> ObjectUpdate fs) s (snd (ts_release obj s))"
    by (rule emits_mono [OF ts_release_talks talk_keeps_object])
  show "emits (\<lambda>e. \<forall>fs. e \<noteq> ObjectUpdate fs) s (snd (ts_live R key obj s))"
    by (rule emits_mono [OF ts_live_talks talk_keeps_object])
  assume offline: "\<not> Usable (Snapshot (r_cache s))"
  show "emits (\<lambda>e. \<not> is_http e) s (snd (ts_release obj s))"
    by (rule emits_mono [OF ts_release_offline [OF offline] setback_not_http])
  show "emits (\<lambda>e. \<not> is_http e) s (snd (ts_live R key obj s))"
    unfolding ts_live_def by (rule emits_mono [OF gated_offline [OF offline] setback_not_http])
qed

subsection \<open>Properties\<close>


definition first_occurrences :: "'a list \<Rightarrow> 'a list" where
  "first_occurrences xs = fold (\<lambda>x out. if x \<in> set out then out else out @ [x]) xs []"

lemma fold_first_occurrences:
  "fold (\<lambda>x out. if x \<in> set out then out else out @ [x]) xs out = out @ filter (\<lambda>x. x \<notin> set out) (first_occurrences xs)"
proof (induction xs rule: rev_induct)
  case (snoc x xs)
  have "set (fold (\<lambda>x out. if x \<in> set out then out else out @ [x]) ys []) = set ys" for ys :: "'a list"
    by (induction ys rule: rev_induct) auto
  with snoc show ?case by (auto simp: first_occurrences_def)
qed (simp add: first_occurrences_def)

lemma first_occurrences_facts:
  "set (first_occurrences xs) = set xs" "distinct (first_occurrences xs)"
  by (induction xs rule: rev_induct) (auto simp: first_occurrences_def)

lemma add_tools_fold:
  "add_tools i tools out = fold (\<lambda>x out. if x \<in> set out then out else out @ [x])
     (map (\<lambda>t. \<lparr>tt_ServerID = i, tt_ToolName = t\<rparr>) (filter (\<lambda>t. t \<noteq> '''') tools)) out"
  by (induction i tools out rule: add_tools.induct) (auto simp: Let_def)

lemma render_from_fold:
  "render_from from (\<lambda>n w. (f n, w)) out w =
     (fold (\<lambda>x out. if x \<in> set out then out else out @ [x])
        (concat (map (\<lambda>e. map (\<lambda>t. \<lparr>tt_ServerID = f (st_Server e), tt_ToolName = t\<rparr>) (filter (\<lambda>t. t \<noteq> '''') (st_Tools e))) from)) out, w)"
  by (induction "from" arbitrary: out) (simp_all add: add_tools_fold)

text \<open>
  C32.  A toolset renders to the pairs of its spec in declaration order, each at its first occurrence
  and none twice, with no empty tool name; nothing else is dropped and nothing added.
\<close>

theorem renderToolsetTools_exact:
  "renderToolsetTools from (\<lambda>n w. (f n, w)) w =
     (first_occurrences [\<lparr>tt_ServerID = f (st_Server e), tt_ToolName = t\<rparr>. e \<leftarrow> from, t \<leftarrow> st_Tools e, t \<noteq> ''''], w) \<and>
   distinct (fst (renderToolsetTools from (\<lambda>n w. (f n, w)) w)) \<and>
   set (fst (renderToolsetTools from (\<lambda>n w. (f n, w)) w)) =
     {p. \<exists>e \<in> set from. tt_ServerID p = f (st_Server e) \<and> tt_ToolName p \<in> set (st_Tools e) \<and> tt_ToolName p \<noteq> ''''}"
proof -
  let ?xs = "[\<lparr>tt_ServerID = f (st_Server e), tt_ToolName = t\<rparr>. e \<leftarrow> from, t \<leftarrow> st_Tools e, t \<noteq> '''']"
  let ?B = "{p. \<exists>e \<in> set from. tt_ServerID p = f (st_Server e) \<and> tt_ToolName p \<in> set (st_Tools e) \<and> tt_ToolName p \<noteq> ''''}"
  have pick: "map (\<lambda>t. \<lparr>tt_ServerID = i, tt_ToolName = t\<rparr>) (filter (\<lambda>t. t \<noteq> '''') tools) =
      concat (map (\<lambda>t. if t \<noteq> '''' then [\<lparr>tt_ServerID = i, tt_ToolName = t\<rparr>] else []) tools)" for i tools
    by (induction tools) auto
  then have run: "renderToolsetTools from (\<lambda>n w. (f n, w)) w = (first_occurrences ?xs, w)"
    by (simp add: renderToolsetTools_def render_from_fold fold_first_occurrences)
  have "p \<in> set ?xs \<longleftrightarrow> p \<in> ?B" for p
    unfolding pick [symmetric] by (cases p) auto
  then have "set ?xs = ?B" by blast
  with run show ?thesis by (simp add: first_occurrences_facts)
qed

text \<open>
  Under the policy \<^verbatim>\<open>Delete\<close> too, a deleted toolset loses its finalizer while LiteLLM is down: when
  the DELETE fails with a transient error and the LIST that should prove the entry absent fails as well, its
  failure is read as an empty answer, and the entry stays behind.
\<close>

theorem ts_outage_releases:
  assumes "kc_get (ct_kube (tr_ctl R)) (world s) key = (Inr ts, w)" and "DeletionTimestamp (cr_Meta ts)"
    and "klib_laws (ct_lib (tr_ctl R))" and "mcpToolsetFinalizer \<in> set (Finalizers (cr_Meta ts))"
    and "connected s client" and "cr_ID ts \<noteq> ''''"
    and "DeleteMCPToolset client (cr_ID ts) (set_world w s) = (Inl err, s1)" and "as_auth401 err = None" and "\<not> is4xxStatus err"
    and "ListMCPToolsets client s1 = (Inl err', s2)"
  shows "\<exists>fs. ObjectUpdate fs \<in> set (drop (length (log s)) (log (snd (ts_Reconcile R key s)))) \<and> mcpToolsetFinalizer \<notin> set fs"
proof -
  let ?s = "set_world w s"
  have conn: "connected ?s client" using assms(5) by (simp add: set_world_def)
  have "fst (resolveToolsetIDByName client (Name (cr_Meta ts)) s1) = ''''"
    using assms(10) by (simp add: resolveToolsetIDByName_def)
  then have "fst (ts_release ts ?s) = Next ()"
    using conn assms(6-9) by (auto simp: ts_release_def toolset_id_def delete_toolset_def split: prod.splits)
  then have "\<exists>e \<in> set (drop (length (log ?s)) (log (snd (kit_object toolset_kit (tr_ctl R) ts_release (ts_live R key) ts ?s)))).
      releases mcpToolsetFinalizer e"
    using ts.released_iff [of R ts ?s key] assms(2-4) by (simp add: toolset_kit_def)
  then show ?thesis
    using assms(1) by (auto simp: ts_Reconcile_def set_world_def elim: releases.elims)
qed

definition example_toolset :: "MCPToolsetSpec cr" where
  "example_toolset = example_cr \<lparr>ts_Description = '''', ts_From = [], ts_DeletionPolicy = ''Delete''\<rparr> ''t'' True mcpToolsetFinalizer ''id1''"

definition example_toolset_R :: "unit MCPToolsetReconciler" where
  "example_toolset_R = \<lparr>tr_ctl = example_ctl example_toolset, tr_sha256hex = (\<lambda>t. t), tr_getServer = (\<lambda>w k. (Inl KNotFound, w))\<rparr>"

theorem ts_outage_releases_witness:
  "\<exists>fs. ObjectUpdate fs \<in> set (log (snd (ts_Reconcile example_toolset_R (''ns'', ''t'') (example_online (answering 503 (JObj [])))))) \<and>
     mcpToolsetFinalizer \<notin> set fs"
proof -
  let ?srv = "answering 503 (JObj [])"
  note calls = DeleteMCPToolset_def ListMCPToolsets_def makeRequest_def answering_def response_of_def readCappedBody_def
    classify_response_def is2xx_def
  have "\<exists>err s1. DeleteMCPToolset ?srv ''id1'' (example_online ?srv) = (Inl err, s1) \<and> as_auth401 err = None \<and> \<not> is4xxStatus err"
    by (simp add: calls is4xxStatus_def rejectedStatus_def Let_def case_prod_beta)
  then obtain err s1 where d: "DeleteMCPToolset ?srv ''id1'' (example_online ?srv) = (Inl err, s1)" "as_auth401 err = None"
    "\<not> is4xxStatus err" by blast
  have "\<exists>err' s2. ListMCPToolsets ?srv s1 = (Inl err', s2)" by (simp add: calls Let_def case_prod_beta)
  then obtain err' s2 where l: "ListMCPToolsets ?srv s1 = (Inl err', s2)" by blast
  show ?thesis
    using ts_outage_releases [of example_toolset_R "example_online ?srv" "(''ns'', ''t'')" example_toolset "()" ?srv err s1 err' s2]
      d l
    by (auto simp: example_toolset_R_def example_ctl_def klib_std_laws example_toolset_def example_cr_def example_online_snapshot
        zero_snapshot_def)
qed

end
