(* ===== verification/Endpoint.thy ===== *)
theory Endpoint
  imports Litellm_Client "HOL-Library.Sublist"
begin

text \<open>
  The endpoint checks of \<^verbatim>\<open>internal/litellm/endpoint.go\<close>: which addresses the operator accepts for
  LiteLLM, and which would carry the master key over plain HTTP out of the cluster.

  \<^verbatim>\<open>url.Parse\<close>, \<^verbatim>\<open>net.ParseIP\<close> and the IDNA profile are the parameter \<open>netlib\<close>: the parser returns
  the fields of \<^verbatim>\<open>url.URL\<close> the checks read, or an error text; \<open>parse_ip\<close> returns whether the literal is a
  loopback address, or nothing when it is no IP literal.
\<close>

subsection \<open>URLs\<close>

record URL =
  Scheme :: string
  Opaque :: string
  User :: bool
  RawQuery :: string
  Fragment :: string
  Host :: string

record netlib =
  url_Parse :: "string \<Rightarrow> string + URL"
  parse_ip :: "string \<Rightarrow> bool option"
  idna_ToASCII :: "string \<Rightarrow> string option"

definition last_index :: "char \<Rightarrow> string \<Rightarrow> nat option" where
  "last_index c s = (if c \<in> set s then Some (length s - Suc (length (takeWhile (\<lambda>x. x \<noteq> c) (rev s)))) else None)"

text \<open>\<^verbatim>\<open>validOptionalPort\<close> of \<^verbatim>\<open>net/url\<close>: empty, or a colon and digits only.\<close>

definition validOptionalPort :: "string \<Rightarrow> bool" where
  "validOptionalPort p = (case p of [] \<Rightarrow> True | c # ds \<Rightarrow> c = CHR '':'' \<and> list_all is_digit ds)"

definition splitHostPort :: "string \<Rightarrow> string \<times> string" where
  "splitHostPort hp =
     (let (host, port) = (case last_index CHR '':'' hp of
            None \<Rightarrow> (hp, '''')
          | Some i \<Rightarrow> (if validOptionalPort (drop i hp) then (take i hp, drop (Suc i) hp) else (hp, '''')));
          host = (if prefix ''['' host \<and> suffix '']'' host then butlast (tl host) else host)
      in (host, port))"

definition Hostname :: "URL \<Rightarrow> string" where
  "Hostname u = fst (splitHostPort (Host u))"

definition Port :: "URL \<Rightarrow> string" where
  "Port u = snd (splitHostPort (Host u))"

subsection \<open>Spaces and control characters\<close>

text \<open>
  \<^verbatim>\<open>unicode.IsSpace\<close> and \<^verbatim>\<open>unicode.IsControl\<close> on the runes of a UTF-8 text: the ASCII ones, and the byte
  sequences of the others.  A lead byte never continues another rune, so a rune occurs exactly where its
  bytes do.
\<close>

definition byte :: "char \<Rightarrow> nat" where
  "byte c = of_char c"

fun wide_space_or_control :: "nat list \<Rightarrow> bool" where
  "wide_space_or_control (a # b # rest) =
     (a = 194 \<and> 128 \<le> b \<and> b \<le> 160 \<or>
      (case rest of [] \<Rightarrow> False
       | c # _ \<Rightarrow>
           a = 225 \<and> b = 154 \<and> c = 128 \<or>
           a = 226 \<and> b = 128 \<and> (128 \<le> c \<and> c \<le> 138 \<or> c = 168 \<or> c = 169 \<or> c = 175) \<or>
           a = 226 \<and> b = 129 \<and> c = 159 \<or>
           a = 227 \<and> b = 128 \<and> c = 128))"
| "wide_space_or_control _ = False"

fun space_or_control :: "nat list \<Rightarrow> bool" where
  "space_or_control [] = False"
| "space_or_control (a # rest) = (a \<le> 32 \<or> a = 127 \<or> wide_space_or_control (a # rest) \<or> space_or_control rest)"

text \<open>
  \<^verbatim>\<open>strings.TrimSpace(raw) == ""\<close>: only spaces.  It only chooses the error text, since every non-empty such
  value fails the next check too; ASCII spaces and the wide spaces are skipped, other runes stop it.
\<close>

definition space_len :: "nat list \<Rightarrow> nat" where
  "space_len bs =
     (case bs of
        [] \<Rightarrow> 0
      | a # rest \<Rightarrow>
          (if 9 \<le> a \<and> a \<le> 13 \<or> a = 32 then 1
           else if a = 194 \<and> rest \<noteq> [] \<and> (hd rest = 133 \<or> hd rest = 160) then 2
           else if a \<noteq> 194 \<and> wide_space_or_control bs then 3
           else 0))"

function only_spaces :: "nat list \<Rightarrow> bool" where
  "only_spaces bs = (if bs = [] then True else if space_len bs = 0 then False else only_spaces (drop (space_len bs) bs))"
  by pat_completeness auto
termination
  by (relation "measure length") auto

declare only_spaces.simps [simp del]

subsection \<open>Validation\<close>

fun atoi :: "nat \<Rightarrow> string \<Rightarrow> nat" where
  "atoi acc [] = acc"
| "atoi acc (c # cs) = atoi (10 * acc + (byte c - 48)) cs"

text \<open>\<open>None\<close> is success.  A port that \<^verbatim>\<open>Atoi\<close> cannot hold is out of range as well.\<close>

definition ValidateEndpoint :: "netlib \<Rightarrow> string \<Rightarrow> string option" where
  "ValidateEndpoint N raw =
     (if only_spaces (map byte raw) \<or> raw = ''/'' then Some ''empty endpoint''
      else if space_or_control (map byte raw) then Some ''whitespace or control character in endpoint''
      else
        case url_Parse N raw of
          Inl err \<Rightarrow> Some (''parse endpoint: '' @ err)
        | Inr u \<Rightarrow>
            (if Scheme u \<noteq> ''http'' \<and> Scheme u \<noteq> ''https'' then Some ''scheme must be http or https''
             else if Opaque u \<noteq> '''' then Some ''opaque endpoint (use scheme://host[:port][/path])''
             else if User u then Some ''userinfo not allowed (use spec.masterKeySecretRef)''
             else if RawQuery u \<noteq> '''' then Some ''query string not allowed''
             else if Fragment u \<noteq> '''' then Some ''fragment not allowed''
             else if Host u = '''' then Some ''host required''
             else if Hostname u = '''' then Some ''host required''
             else if Port u \<noteq> '''' \<and> (atoi 0 (Port u) < 1 \<or> 65535 < atoi 0 (Port u)) then Some ''invalid port (must be 1-65535)''
             else if \<not> prefix ''['' (Host u) then
               (if list_ex (\<lambda>c. 127 < byte c) (Hostname u) then Some ''non-ASCII host (use Punycode xn--... encoding)''
                else map_option (\<lambda>e. ''invalid host label: '' @ e) (idna_ToASCII N (Hostname u)))
             else None))"

text \<open>Hosts are ASCII here: a host outside brackets with another byte was rejected above.\<close>

definition isLoopbackHost :: "netlib \<Rightarrow> string \<Rightarrow> bool" where
  "isLoopbackHost N host \<longleftrightarrow> equal_fold_ascii host ''localhost'' \<or> parse_ip N host = Some True"

definition trim_dot :: "string \<Rightarrow> string" where
  "trim_dot h = (if suffix ''.'' h then butlast h else h)"

definition isClusterLocalHost :: "netlib \<Rightarrow> string \<Rightarrow> bool" where
  "isClusterLocalHost N host =
     (if parse_ip N host \<noteq> None then False
      else if CHR ''.'' \<notin> set host then True
      else suffix ''.svc'' (trim_dot host) \<or> suffix ''.svc.cluster.local'' (trim_dot host))"

definition ClassifyEndpointTransport :: "netlib \<Rightarrow> string \<Rightarrow> bool" where
  "ClassifyEndpointTransport N raw =
     (if ValidateEndpoint N raw \<noteq> None then False
      else
        case url_Parse N raw of
          Inl _ \<Rightarrow> False
        | Inr u \<Rightarrow>
            (if Scheme u \<noteq> ''http'' then False
             else \<not> (isLoopbackHost N (Hostname u) \<or> isClusterLocalHost N (Hostname u))))"

subsection \<open>Properties\<close>

text \<open>
  The master key never leaves over plain HTTP without being flagged: for an accepted endpoint, the
  check is silent exactly when the scheme is \<^verbatim>\<open>https\<close>, or the host is a loopback name or address, or a
  name that only the cluster resolves; an IP literal other than loopback is always flagged.
\<close>

theorem plaintext_remote_flagged:
  assumes "ValidateEndpoint N raw = None"
  shows "\<exists>u. url_Parse N raw = Inr u \<and> (Scheme u = ''http'' \<or> Scheme u = ''https'') \<and> \<not> User u \<and> Hostname u \<noteq> '''' \<and>
    (ClassifyEndpointTransport N raw \<longleftrightarrow>
       Scheme u = ''http'' \<and> \<not> equal_fold_ascii (Hostname u) ''localhost'' \<and>
       (case parse_ip N (Hostname u) of
          Some loopback \<Rightarrow> \<not> loopback
        | None \<Rightarrow> CHR ''.'' \<in> set (Hostname u) \<and> \<not> suffix ''.svc'' (trim_dot (Hostname u)) \<and>
            \<not> suffix ''.svc.cluster.local'' (trim_dot (Hostname u))))"
proof -
  from assms obtain u where u: "url_Parse N raw = Inr u" "Scheme u = ''http'' \<or> Scheme u = ''https''" "\<not> User u" "Hostname u \<noteq> ''''"
    unfolding ValidateEndpoint_def by (force split: if_splits sum.splits)
  then show ?thesis
    using assms by (auto simp: ClassifyEndpointTransport_def isLoopbackHost_def isClusterLocalHost_def split: option.splits)
qed

definition example_net :: "string \<Rightarrow> string \<Rightarrow> netlib" where
  "example_net scheme host = \<lparr>url_Parse = (\<lambda>raw. Inr \<lparr>Scheme = scheme, Opaque = '''', User = False, RawQuery = '''', Fragment = '''', Host = host\<rparr>),
     parse_ip = (\<lambda>h. None), idna_ToASCII = (\<lambda>h. None)\<rparr>"

theorem plaintext_remote_flagged_witness:
  "ClassifyEndpointTransport (example_net ''http'' ''a.b'') ''http://a.b''"
proof -
  let ?u = "\<lparr>Scheme = ''http'', Opaque = '''', User = False, RawQuery = '''', Fragment = '''', Host = ''a.b''\<rparr>"
  have N: "parse_ip (example_net ''http'' ''a.b'') h = None" "idna_ToASCII (example_net ''http'' ''a.b'') h = None"
    "url_Parse (example_net ''http'' ''a.b'') raw = Inr ?u" for h raw
    by (simp_all add: example_net_def)
  have H: "Hostname ?u = ''a.b''" "Port ?u = ''''"
    by (simp_all add: Hostname_def Port_def splitHostPort_def last_index_def prefix_def)
  have "ValidateEndpoint (example_net ''http'' ''a.b'') ''http://a.b'' = None"
    by (simp add: ValidateEndpoint_def N H byte_def only_spaces.simps space_len_def prefix_def)
  then show ?thesis
    using plaintext_remote_flagged [of "example_net ''http'' ''a.b''" "''http://a.b''"]
    by (simp add: N H equal_fold_ascii_def trim_dot_def suffix_def)
qed

end
