(* ===== verification/Connection_Controller.thy ===== *)
theory Connection_Controller
  imports Shared_Helpers Endpoint
begin

text \<open>
  The controller of the singleton connection object, \<^verbatim>\<open>internal/controller/litellmconnection_controller.go\<close>
  with \<^verbatim>\<open>litellmconnection_logging.go\<close> and the probe of \<^verbatim>\<open>internal/litellm/keyinfo.go\<close>: the only producer of the
  snapshots every other controller reads from the cache.

  Parameters: the Kubernetes client (the status patch is its \<open>kc_status_update\<close>), the read of the
  Secret, the value of the environment switch, and the constructor of the HTTP transport for an
  endpoint, a key and a rate limit.
\<close>

subsection \<open>Data\<close>

record LiteLLMConnectionSpec =
  cs_Endpoint :: string
  cs_SecretName :: string
  cs_SecretKey :: string
  cs_MCPToolPrefixSeparator :: string
  cs_RequeueOnRejectedAfter :: int
  cs_MaxRequestsPerSecond :: int
  cs_MaxBurst :: int

record LiteLLMConnection =
  co_Meta :: ObjectMeta
  co_Spec :: LiteLLMConnectionSpec
  co_ObservedGeneration :: int
  co_Conditions :: "Condition list"

record 'w LiteLLMConnectionReconciler =
  cn_kube :: "('w, LiteLLMConnection) kclient"
  cn_getSecret :: "'w \<Rightarrow> NamespacedName \<Rightarrow> (kube_error + string gomap) \<times> 'w"
  cn_lib :: klib
  cn_net :: netlib
  cn_requireHTTPS :: string
  cn_transport :: "string \<Rightarrow> string \<Rightarrow> (int \<times> int) option \<Rightarrow> 'w http"
  cn_Namespace :: string

definition connectionFinalizer :: string where "connectionFinalizer = ''litellm.ackstorm.ai/connection-cache-cleanup''"
definition connectionKind :: string where "connectionKind = ''LiteLLMConnection''"
definition conditionTypeLoggingHealthy :: string where "conditionTypeLoggingHealthy = ''LoggingHealthy''"
definition reasonInvalidEndpoint :: string where "reasonInvalidEndpoint = ''InvalidEndpoint''"
definition reasonInsecureEndpoint :: string where "reasonInsecureEndpoint = ''InsecureEndpoint''"
definition reasonUnreachable :: string where "reasonUnreachable = ''Unreachable''"
definition reasonBadMasterKey :: string where "reasonBadMasterKey = ''BadMasterKey''"
definition EnvRequireHTTPSRemote :: string where "EnvRequireHTTPSRemote = ''LITELLM_OPERATOR_REQUIRE_HTTPS_REMOTE''"

subsection \<open>The probe\<close>

record ProbeResult =
  pr_LoggingStatus :: string
  pr_LoggingDetails :: string

definition best_effort :: "json option \<Rightarrow> string" where
  "best_effort v = (case dec_string v of Some t \<Rightarrow> t | None \<Rightarrow> '''')"

text \<open>The decode error is ignored: a field of another type keeps its zero value.\<close>

definition decode_key_health :: "json option \<Rightarrow> ProbeResult" where
  "decode_key_health j =
     (let m = (case j of Some (JObj m) \<Rightarrow> m | _ \<Rightarrow> []);
          cb = (case struct_field ''logging_callbacks'' m of Some (JObj c) \<Rightarrow> c | _ \<Rightarrow> [])
      in \<lparr>pr_LoggingStatus = best_effort (struct_field ''status'' cb), pr_LoggingDetails = best_effort (struct_field ''details'' cb)\<rparr>)"

definition ProbeConnection :: "'w http \<Rightarrow> ('w, 'z, ProbeResult) call" where
  "ProbeConnection http s =
     (case makeRequest http ''POST'' ''/key/health'' None s of
        (Inl e, s) \<Rightarrow> (Inl e, s)
      | (Inr body, s) \<Rightarrow> (Inr (decode_key_health (rs_json body)), s))"

definition computeLoggingHealthy :: "ProbeResult \<Rightarrow> ConditionStatus \<times> string \<times> string" where
  "computeLoggingHealthy pr =
     (if pr_LoggingStatus pr = ''healthy'' then (ConditionTrue, ''Healthy'', ''all logging callbacks healthy'')
      else if pr_LoggingStatus pr = ''unhealthy'' then
        (ConditionFalse, ''Unhealthy'',
         if pr_LoggingDetails pr = '''' then ''one or more logging callbacks reported unhealthy'' else pr_LoggingDetails pr)
      else if pr_LoggingStatus pr = '''' then
        (ConditionUnknown, ''NoCallbacksReported'', ''LiteLLM /key/health returned no logging callbacks (logging_callbacks: null)'')
      else (ConditionUnknown, ''Unknown'', ''unrecognized logging status: '' @ pr_LoggingStatus pr))"

text \<open>\<^verbatim>\<open>strings.TrimRight(endpoint, "/")\<close>.\<close>

definition trim_slashes :: "string \<Rightarrow> string" where
  "trim_slashes e = rev (dropWhile (\<lambda>c. c = CHR ''/'') (rev e))"

definition WithRateLimit :: "int \<Rightarrow> int \<Rightarrow> (int \<times> int) option" where
  "WithRateLimit rps burst = (if rps > 0 then Some (rps, if burst < 1 then 1 else burst) else None)"

definition rate_option :: "LiteLLMConnectionSpec \<Rightarrow> (int \<times> int) option" where
  "rate_option sp =
     (if cs_MaxRequestsPerSecond sp > 0
      then WithRateLimit (cs_MaxRequestsPerSecond sp)
             (if cs_MaxBurst sp \<le> 0 then cs_MaxRequestsPerSecond sp else cs_MaxBurst sp)
      else None)"

definition NewClient :: "'w LiteLLMConnectionReconciler \<Rightarrow> LiteLLMConnectionSpec \<Rightarrow> string \<Rightarrow> 'w http" where
  "NewClient R sp masterKey = cn_transport R (trim_slashes (cs_Endpoint sp)) masterKey (rate_option sp)"

subsection \<open>Status\<close>

definition conn_gauge :: "string \<Rightarrow> 'w rstate \<Rightarrow> 'w rstate" where
  "conn_gauge reason = emit (Metric ''ConnectionReady'' [reason])"

definition conn_patch ::
  "'w LiteLLMConnectionReconciler \<Rightarrow> LiteLLMConnection \<Rightarrow> Condition \<Rightarrow> 'w rstate \<Rightarrow> kube_error option \<times> LiteLLMConnection \<times> 'w rstate" where
  "conn_patch R conn cond s =
     (let s = emit (StatusWrite cond '''') s;
          (r, w) = kc_status_update (cn_kube R) (world s) conn
      in (case r of Inl e \<Rightarrow> Some e | Inr _ \<Rightarrow> None, case r of Inl _ \<Rightarrow> conn | Inr fresh \<Rightarrow> fresh, set_world w s))"

definition conn_writeStatus ::
  "'w LiteLLMConnectionReconciler \<Rightarrow> LiteLLMConnection \<Rightarrow> string \<Rightarrow> string \<Rightarrow> 'w rstate
   \<Rightarrow> kube_error option \<times> LiteLLMConnection \<times> 'w rstate" where
  "conn_writeStatus R conn reason msg s =
     (let s = conn_gauge reason s; gen = Generation (co_Meta conn) in
      if statusReadyUnchanged (cn_lib R) (co_Conditions conn) (co_ObservedGeneration conn) gen ConditionFalse reason msg
      then (None, conn, s)
      else
        let cond = buildReadyCondition gen ConditionFalse reason msg;
            conds = SetStatusCondition (cn_lib R) (co_Conditions conn) cond;
            conds = (if FindStatusCondition (cn_lib R) conds conditionTypeLoggingHealthy \<noteq> None
                     then SetStatusCondition (cn_lib R) conds
                       \<lparr>Type = conditionTypeLoggingHealthy, Status = ConditionUnknown, Reason = reason,
                        Message = ''logging health is unknown while the connection is not Ready'', ObservedGeneration = gen\<rparr>
                     else conds)
        in conn_patch R (conn\<lparr>co_Conditions := conds, co_ObservedGeneration := gen\<rparr>) cond s)"

definition writeReadyAndLoggingHealthy ::
  "'w LiteLLMConnectionReconciler \<Rightarrow> LiteLLMConnection \<Rightarrow> ConditionStatus \<Rightarrow> string \<Rightarrow> string
   \<Rightarrow> ConditionStatus \<times> string \<times> string \<Rightarrow> 'w rstate \<Rightarrow> kube_error option \<times> LiteLLMConnection \<times> 'w rstate" where
  "writeReadyAndLoggingHealthy R conn status reason msg lh s =
     (let gen = Generation (co_Meta conn); (lhStatus, lhReason, lhMessage) = lh;
          readyEqual = statusReadyUnchanged (cn_lib R) (co_Conditions conn) (co_ObservedGeneration conn) gen status reason msg;
          lhEqual = (case find (\<lambda>c. Type c = conditionTypeLoggingHealthy) (co_Conditions conn) of
             None \<Rightarrow> False
           | Some c \<Rightarrow> Status c = lhStatus \<and> Reason c = lhReason \<and> Message c = lhMessage \<and> ObservedGeneration c = gen);
          s = conn_gauge reason s
      in if readyEqual \<and> lhEqual then (None, conn, s)
         else
           let cond = buildReadyCondition gen status reason msg;
               conds = SetStatusCondition (cn_lib R) (co_Conditions conn) cond;
               conds = SetStatusCondition (cn_lib R) conds
                 \<lparr>Type = conditionTypeLoggingHealthy, Status = lhStatus, Reason = lhReason, Message = lhMessage, ObservedGeneration = gen\<rparr>
           in conn_patch R (conn\<lparr>co_Conditions := conds, co_ObservedGeneration := gen\<rparr>) cond s)"

subsection \<open>The handler\<close>

definition unready :: "string \<Rightarrow> 'c ConnectionSnapshot" where
  "unready reason = zero_snapshot\<lparr>snap_Reason := reason\<rparr>"

definition publish :: "'w http ConnectionSnapshot \<Rightarrow> 'w rstate \<Rightarrow> 'w rstate" where
  "publish snap s = s\<lparr>r_cache := Rebuild (r_cache s) snap\<rparr>"

text \<open>Write the status, ignore a failure, publish the same reason, count the reconcile.\<close>

definition conn_fail ::
  "'w LiteLLMConnectionReconciler \<Rightarrow> LiteLLMConnection \<Rightarrow> string \<Rightarrow> string \<Rightarrow> 'w rstate \<Rightarrow> 'a flow \<times> 'w rstate" where
  "conn_fail R conn reason msg s =
     (let (_, _, s) = conn_writeStatus R conn reason msg s
      in (done_ok, reconcile_total connectionKind ''success'' (publish (unready reason) s)))"

definition conn_enter ::
  "'w LiteLLMConnectionReconciler \<Rightarrow> LiteLLMConnection \<Rightarrow> 'w rstate \<Rightarrow> LiteLLMConnection \<times> 'w rstate" where
  "conn_enter R conn s =
     (let curReady = FindStatusCondition (cn_lib R) (co_Conditions conn) conditionTypeReady in
      if curReady = None \<or> co_ObservedGeneration conn \<noteq> Generation (co_Meta conn) then
        (if (case curReady of None \<Rightarrow> True | Some c \<Rightarrow> Reason c \<noteq> reasonConnecting) then
           (let (_, conn, s) = conn_writeStatus R conn reasonConnecting ''probing endpoint'' s
            in (conn, publish (unready reasonConnecting) s))
         else (conn, s))
      else (conn, s))"

definition conn_secret ::
  "'w LiteLLMConnectionReconciler \<Rightarrow> string \<Rightarrow> LiteLLMConnection \<Rightarrow> 'w rstate \<Rightarrow> string flow \<times> 'w rstate" where
  "conn_secret R ns conn s =
     (let sp = co_Spec conn; coord = ns @ ''/'' @ cs_SecretName sp in
      case cn_getSecret R (world s) (ns, cs_SecretName sp) of
        (Inl e, w) \<Rightarrow>
          (let s = set_world w s in
           if IsNotFoundK e then conn_fail R conn reasonSecretNotFound (''Secret '' @ coord @ '' not found'') s
           else (Return (Inl (KubeErr e)), s))
      | (Inr dat, w) \<Rightarrow>
          (let s = set_world w s in
           case map_of dat (cs_SecretKey sp) of
             None \<Rightarrow> conn_fail R conn reasonSecretNotFound (''Secret '' @ coord @ '':'' @ cs_SecretKey sp @ '' key not found'') s
           | Some masterKey \<Rightarrow> (Next masterKey, s)))"

definition conn_endpoint ::
  "'w LiteLLMConnectionReconciler \<Rightarrow> LiteLLMConnection \<Rightarrow> 'w rstate \<Rightarrow> unit flow \<times> 'w rstate" where
  "conn_endpoint R conn s =
     (case ValidateEndpoint (cn_net R) (cs_Endpoint (co_Spec conn)) of
        Some err \<Rightarrow> conn_fail R conn reasonInvalidEndpoint (''spec.endpoint: '' @ err) s
      | None \<Rightarrow>
          (if ClassifyEndpointTransport (cn_net R) (cs_Endpoint (co_Spec conn)) \<and> equal_fold_ascii (cn_requireHTTPS R) ''true''
           then conn_fail R conn reasonInsecureEndpoint
             (''spec.endpoint: master key would traverse plaintext http to a remote host; use https (or unset ''
              @ EnvRequireHTTPSRemote @ '')'') s
           else (Next (), s)))"

definition probe_failed :: "ConditionStatus \<times> string \<times> string" where
  "probe_failed = (ConditionUnknown, ''ProbeError'', ''probe failed before logging-callback health could be read'')"

definition conn_probe ::
  "'w LiteLLMConnectionReconciler \<Rightarrow> LiteLLMConnection \<Rightarrow> string \<Rightarrow> 'w rstate \<Rightarrow> unit flow \<times> 'w rstate" where
  "conn_probe R conn masterKey s =
     (let client = NewClient R (co_Spec conn) masterKey in
      case ProbeConnection client s of
        (Inl err, s) \<Rightarrow>
          (case as_auth401 err of
             Some path \<Rightarrow>
               (let (_, _, s) = writeReadyAndLoggingHealthy R conn ConditionFalse reasonBadMasterKey (''401 from '' @ path) probe_failed s
                in (done_ok, reconcile_total connectionKind ''success'' (publish (unready reasonBadMasterKey) s)))
           | None \<Rightarrow>
               (let (_, _, s) = writeReadyAndLoggingHealthy R conn ConditionFalse reasonUnreachable
                      (''probe failed: '' @ lerror_text err) probe_failed s
                in (Return (Inl (LlmErr err)), reconcile_total connectionKind ''error'' (publish (unready reasonUnreachable) s))))
      | (Inr pr, s) \<Rightarrow>
          (let (_, conn, s) = writeReadyAndLoggingHealthy R conn ConditionTrue reasonSynced ''probe ok'' (computeLoggingHealthy pr) s;
               s = publish \<lparr>snap_Ready = True, snap_Reason = reasonSynced, snap_Client = Some client,
                     snap_MCPToolPrefixSeparator = cs_MCPToolPrefixSeparator (co_Spec conn),
                     snap_RequeueOnRejectedAfter = cs_RequeueOnRejectedAfter (co_Spec conn)\<rparr> s;
               s = reconcile_total connectionKind ''success'' s;
               s = emit (Metric ''CRStatusAge.RecordSuccess'' [connectionKind, Name (co_Meta conn)]) s
           in (Return (Inr (requeue_after (5 * minute))), s)))"

definition conn_live ::
  "'w LiteLLMConnectionReconciler \<Rightarrow> string \<Rightarrow> LiteLLMConnection \<Rightarrow> 'w rstate \<Rightarrow> unit flow \<times> 'w rstate" where
  "conn_live R ns conn s =
     (let (conn, s) = conn_enter R conn s in
      andThen (conn_secret R ns conn) (\<lambda>masterKey.
      andThen (conn_endpoint R conn) (\<lambda>_.
        conn_probe R conn masterKey)) s)"

definition conn_update :: "'w LiteLLMConnectionReconciler \<Rightarrow> LiteLLMConnection \<Rightarrow> string list \<Rightarrow> 'w rstate \<Rightarrow> verdict \<times> 'w rstate" where
  "conn_update R conn fs s =
     (let conn = conn\<lparr>co_Meta := (co_Meta conn)\<lparr>Finalizers := fs\<rparr>\<rparr>;
          s = emit (ObjectUpdate fs) s;
          (err, w) = kc_update (cn_kube R) (world s) conn
      in (case err of Some e \<Rightarrow> Inl (KubeErr e) | None \<Rightarrow> Inr no_requeue, set_world w s))"

definition conn_delete :: "'w LiteLLMConnectionReconciler \<Rightarrow> LiteLLMConnection \<Rightarrow> 'w rstate \<Rightarrow> verdict \<times> 'w rstate" where
  "conn_delete R conn s =
     (if ContainsFinalizer (cn_lib R) (Finalizers (co_Meta conn)) connectionFinalizer then
        (let s = publish (unready reasonAbsent) s;
             s = conn_gauge reasonAbsent s;
             s = emit (Metric ''CRStatusAge.Forget'' [connectionKind, Name (co_Meta conn)]) s
         in conn_update R conn (RemoveFinalizer (cn_lib R) (Finalizers (co_Meta conn)) connectionFinalizer) s)
      else (Inr no_requeue, s))"

definition conn_Reconcile :: "'w LiteLLMConnectionReconciler \<Rightarrow> NamespacedName \<Rightarrow> 'w rstate \<Rightarrow> verdict \<times> 'w rstate" where
  "conn_Reconcile R key s =
     (case kc_get (cn_kube R) (world s) key of
        (Inl e, w) \<Rightarrow> (if IsNotFoundK e then Inr no_requeue else Inl (KubeErr e), set_world w s)
      | (Inr conn, w) \<Rightarrow>
          (let s = set_world w s in
           if DeletionTimestamp (co_Meta conn) then conn_delete R conn s
           else if \<not> ContainsFinalizer (cn_lib R) (Finalizers (co_Meta conn)) connectionFinalizer
           then conn_update R conn (AddFinalizer (cn_lib R) (Finalizers (co_Meta conn)) connectionFinalizer) s
           else (case conn_live R (fst key) conn s of (Return v, s) \<Rightarrow> (v, s) | (Next _, s) \<Rightarrow> (Inr no_requeue, s))))"

definition fastPathRequest :: "'w LiteLLMConnectionReconciler \<Rightarrow> NamespacedName" where
  "fastPathRequest R = (cn_Namespace R, ''default'')"

definition secretToConnection :: "kube_error + LiteLLMConnection list \<Rightarrow> NamespacedName \<Rightarrow> NamespacedName list" where
  "secretToConnection listed secret =
     (case listed of Inl _ \<Rightarrow> []
      | Inr items \<Rightarrow> map (\<lambda>c. (Namespace (co_Meta c), Name (co_Meta c)))
          (filter (\<lambda>c. cs_SecretName (co_Spec c) = snd secret \<and> Namespace (co_Meta c) = fst secret) items))"

subsection \<open>What a reconcile publishes\<close>

lemma Snapshot_Rebuild [simp]: "Snapshot (Rebuild c snap) = snap"
  by (simp add: Rebuild_def Snapshot_def emitRebuilt_def Let_def)

lemma publish_simps [simp]:
  "Snapshot (r_cache (publish snap s)) = snap" "world (publish snap s) = world s" "log (publish snap s) = log s"
  by (simp_all add: publish_def)

lemma conn_patch_cache: "r_cache (snd (snd (conn_patch R conn cond s))) = r_cache s"
  by (simp add: conn_patch_def emit_def set_world_def Let_def case_prod_beta)

lemma conn_writeStatus_cache: "r_cache (snd (snd (conn_writeStatus R conn reason msg s))) = r_cache s"
  by (simp add: conn_writeStatus_def conn_gauge_def emit_def conn_patch_cache Let_def)

lemma writeReady_cache: "r_cache (snd (snd (writeReadyAndLoggingHealthy R conn status reason msg lh s))) = r_cache s"
  by (simp add: writeReadyAndLoggingHealthy_def conn_gauge_def emit_def conn_patch_cache Let_def split: prod.split)

lemma reconcile_total_cache [simp]: "r_cache (reconcile_total k l s) = r_cache s"
  by (simp add: reconcile_total_def emit_def)

lemma conn_fail_snapshot: "Snapshot (r_cache (snd (conn_fail R conn reason msg s))) = unready reason"
  by (simp add: conn_fail_def case_prod_beta)

lemma conn_fail_fst: "fst (conn_fail R conn reason msg s) = done_ok"
  by (simp add: conn_fail_def case_prod_beta)

lemma ProbeConnection_cache:
  fixes s :: "'w rstate"
  shows "r_cache (snd (ProbeConnection http s)) = r_cache s"
  by (auto simp: ProbeConnection_def makeRequest_def emit_def case_prod_beta split: sum.splits)

text \<open>Every published snapshot is unready or carries a client.\<close>

definition sound_snapshot :: "'c ConnectionSnapshot \<Rightarrow> bool" where
  "sound_snapshot snap \<longleftrightarrow> (snap_Ready snap \<longrightarrow> snap_Client snap \<noteq> None)"

lemma unready_sound [simp]: "sound_snapshot (unready reason)"
  by (simp add: sound_snapshot_def unready_def zero_snapshot_def)

abbreviation sound :: "'w rstate \<Rightarrow> bool" where
  "sound s \<equiv> sound_snapshot (Snapshot (r_cache s))"

lemma conn_enter_sound: "sound s \<Longrightarrow> sound (snd (conn_enter R conn s))"
  by (auto simp: conn_enter_def Let_def case_prod_beta)

lemma conn_secret_sound: "sound s \<Longrightarrow> sound (snd (conn_secret R ns conn s))"
  by (auto simp: conn_secret_def Let_def conn_fail_snapshot set_world_def split: prod.splits sum.splits option.splits)

lemma conn_endpoint_sound: "sound s \<Longrightarrow> sound (snd (conn_endpoint R conn s))"
  by (auto simp: conn_endpoint_def conn_fail_snapshot split: option.splits)

lemma conn_probe_sound: "sound (snd (conn_probe R conn masterKey s))"
  by (auto simp: conn_probe_def Let_def case_prod_beta sound_snapshot_def emit_def unready_def zero_snapshot_def
      split: sum.splits option.splits)

lemma andThen_keeps:
  "(\<And>s. P s \<Longrightarrow> P (snd (m s))) \<Longrightarrow> (\<And>a s. P s \<Longrightarrow> P (snd (f a s))) \<Longrightarrow> P s \<Longrightarrow> P (snd (andThen m f s))"
  by (auto simp: andThen_def split: prod.splits flow.splits) (metis snd_conv)+

lemma conn_live_sound: "sound s \<Longrightarrow> sound (snd (conn_live R ns conn s))"
  unfolding conn_live_def Let_def case_prod_beta
  by (intro andThen_keeps [of sound] conn_secret_sound conn_endpoint_sound conn_probe_sound conn_enter_sound)

lemma conn_update_cache: "r_cache (snd (conn_update R conn fs s)) = r_cache s"
  by (simp add: conn_update_def emit_def set_world_def Let_def case_prod_beta)

lemma conn_Reconcile_sound: "sound s \<Longrightarrow> sound (snd (conn_Reconcile R key s))"
proof -
  assume s: "sound s"
  then have w: "sound (set_world w s)" for w by (simp add: set_world_def)
  have "sound (snd (conn_delete R conn (set_world w s)))" for conn w
    using w by (simp add: conn_delete_def Let_def conn_update_cache conn_gauge_def emit_def)
  then show ?thesis
    using s w conn_live_sound [OF w, of R "fst key"]
    by (auto simp: conn_Reconcile_def Let_def conn_update_cache split: prod.splits sum.splits flow.splits) (metis snd_conv)+
qed

text \<open>
  The cache over the life of the process: the connection controller publishes, any controller may
  report a 401, and everything else leaves the snapshot alone.
\<close>

inductive conn_reachable :: "'w rstate \<Rightarrow> bool" where
  start: "r_cache s = NewCache \<Longrightarrow> conn_reachable s"
| probed: "conn_reachable s \<Longrightarrow> conn_reachable (snd (conn_Reconcile R key s))"
| rejected: "conn_reachable s \<Longrightarrow> conn_reachable (invalidate_cache s)"
| other: "conn_reachable s \<Longrightarrow> r_cache s' = r_cache s \<Longrightarrow> conn_reachable s'"

text \<open>
  C30.  The type invariant of the cached snapshot, over any interleaving of reconciles of the connection,
  401 reports and other work: a ready snapshot always carries a client, so the guard \<^verbatim>\<open>Usable\<close> of every
  controller is the same test as \<^verbatim>\<open>Ready\<close>.
\<close>

theorem ready_snapshot_usable:
  assumes "conn_reachable s"
  shows "Usable (Snapshot (r_cache s)) \<longleftrightarrow> snap_Ready (Snapshot (r_cache s))"
proof -
  from assms have "sound s"
  proof induction
    case (start s)
    then show ?case by (simp add: NewCache_def Snapshot_def zero_snapshot_def sound_snapshot_def)
  next
    case (rejected s)
    then show ?case
      by (auto simp: invalidate_cache_def InvalidateOn401_def placeholder401_def Snapshot_def sound_snapshot_def zero_snapshot_def Let_def
          split: option.splits)
  qed (auto intro: conn_Reconcile_sound)
  then show ?thesis by (auto simp: Usable_def sound_snapshot_def)
qed

subsection \<open>An API server for the witnesses\<close>

text \<open>
  The world is the stored object and the number of status patches so far; the second patch fails, as a
  patch may.  The transport of an endpoint answers 200 when the key is the right one.
\<close>

definition example_conn_meta :: "int \<Rightarrow> ObjectMeta" where
  "example_conn_meta gen = \<lparr>Namespace = ''ns'', Name = ''default'', Generation = gen, DeletionTimestamp = False,
     Finalizers = [connectionFinalizer], Annotations = [], OwnerReferences = []\<rparr>"

definition example_conn_spec :: "string \<Rightarrow> LiteLLMConnectionSpec" where
  "example_conn_spec endpoint = \<lparr>cs_Endpoint = endpoint, cs_SecretName = ''sec'', cs_SecretKey = ''key'', cs_MCPToolPrefixSeparator = ''.'',
     cs_RequeueOnRejectedAfter = 0, cs_MaxRequestsPerSecond = 5, cs_MaxBurst = 10\<rparr>"

definition example_conn :: "int \<Rightarrow> string \<Rightarrow> LiteLLMConnection" where
  "example_conn gen endpoint = \<lparr>co_Meta = example_conn_meta gen, co_Spec = example_conn_spec endpoint, co_ObservedGeneration = 0, co_Conditions = []\<rparr>"

type_synonym conn_world = "LiteLLMConnection \<times> nat"

definition example_conn_R :: "conn_world LiteLLMConnectionReconciler" where
  "example_conn_R = \<lparr>
     cn_kube = \<lparr>kc_get = (\<lambda>w k. (Inr (fst w), w)), kc_update = (\<lambda>w o'. (None, w)),
       kc_status_update = (\<lambda>w o'. if snd w = 1 then (Inl (KOther ''boom''), (fst w, 2)) else (Inr o', (o', Suc (snd w))))\<rparr>,
     cn_getSecret = (\<lambda>w k. (Inr [(''key'', ''k1'')], w)), cn_lib = klib_std,
     cn_net = \<lparr>url_Parse = (\<lambda>raw. Inr \<lparr>Scheme = ''https'', Opaque = '''', User = False, RawQuery = '''', Fragment = '''', Host = raw\<rparr>),
       parse_ip = (\<lambda>h. None), idna_ToASCII = (\<lambda>h. None)\<rparr>,
     cn_requireHTTPS = '''',
     cn_transport = (\<lambda>endpoint k lim w m p b. (Responded \<lparr>rs_status = 200, rs_raw = endpoint, rs_json = None\<rparr>, w)),
     cn_Namespace = ''ns''\<rparr>"

definition example_conn_state :: "conn_world rstate" where
  "example_conn_state = \<lparr>world = (example_conn 1 ''a'', 0), log = [], r_cache = NewCache, r_churn = None\<rparr>"

lemma example_endpoint_ok:
  "ValidateEndpoint (cn_net example_conn_R) ''a'' = None" "ValidateEndpoint (cn_net example_conn_R) ''b'' = None"
  "\<not> ClassifyEndpointTransport (cn_net example_conn_R) ''a''" "\<not> ClassifyEndpointTransport (cn_net example_conn_R) ''b''"
  by (simp_all add: example_conn_R_def ValidateEndpoint_def ClassifyEndpointTransport_def byte_def only_spaces.simps space_len_def
      Hostname_def Port_def splitHostPort_def last_index_def prefix_def)

lemma example_conn_fields:
  "kc_get (cn_kube example_conn_R) w k = (Inr (fst w), w)"
  "kc_status_update (cn_kube example_conn_R) w obj =
     (if snd w = 1 then (Inl (KOther ''boom''), (fst w, 2)) else (Inr obj, (obj, Suc (snd w))))"
  "cn_getSecret example_conn_R w k = (Inr [(''key'', ''k1'')], w)" "cn_lib example_conn_R = klib_std"
  by (simp_all add: example_conn_R_def)

lemma example_probe:
  "ProbeConnection (NewClient example_conn_R sp k) s =
     (Inr \<lparr>pr_LoggingStatus = '''', pr_LoggingDetails = ''''\<rparr>, emit (Http ''POST'' ''/key/health'' None) s)"
  if "length (cs_Endpoint sp) < 10"
proof -
  have "length (trim_slashes (cs_Endpoint sp)) \<le> length (cs_Endpoint sp)"
    by (simp add: trim_slashes_def) (metis length_dropWhile_le length_rev)
  then have "length (trim_slashes (cs_Endpoint sp)) \<le> listBodyCap" using that by (simp add: listBodyCap_def)
  then show ?thesis
    by (simp add: ProbeConnection_def NewClient_def example_conn_R_def makeRequest_def response_of_def readCappedBody_def
        classify_response_def is2xx_def decode_key_health_def best_effort_def struct_field_def)
qed

lemma example_first_probe:
  fixes s :: "conn_world rstate"
  defines "s \<equiv> snd (conn_Reconcile example_conn_R (''ns'', ''default'') example_conn_state)"
  shows "Snapshot (r_cache s) = \<lparr>snap_Ready = True, snap_Reason = ''Synced'',
      snap_Client = Some (NewClient example_conn_R (example_conn_spec ''a'') ''k1''), snap_MCPToolPrefixSeparator = ''.'', snap_RequeueOnRejectedAfter = 0\<rparr>"
    and "co_ObservedGeneration (fst (world s)) = 1"
    and "co_Conditions (fst (world s)) = [buildReadyCondition 1 ConditionFalse reasonConnecting ''probing endpoint'']"
  unfolding s_def
  by (simp_all add: conn_Reconcile_def example_conn_state_def example_conn_def example_conn_meta_def conn_live_def conn_enter_def
      conn_secret_def conn_endpoint_def example_endpoint_ok conn_probe_def example_conn_fields example_probe klib_std_def
      conn_writeStatus_def writeReadyAndLoggingHealthy_def conn_patch_def conn_gauge_def statusReadyUnchanged_def
      example_conn_spec_def emit_def set_world_def Let_def reasonSynced_def reconcile_total_def computeLoggingHealthy_def
      buildReadyCondition_def conditionTypeReady_def conditionTypeLoggingHealthy_def publish_def)

lemma example_first_probe_reachable:
  "conn_reachable (snd (conn_Reconcile example_conn_R (''ns'', ''default'') example_conn_state))"
  by (rule conn_reachable.probed, rule conn_reachable.start) (simp add: example_conn_state_def)

theorem ready_snapshot_usable_witness:
  "Usable (Snapshot (r_cache (snd (conn_Reconcile example_conn_R (''ns'', ''default'') example_conn_state))))"
  using ready_snapshot_usable [OF example_first_probe_reachable] by (simp add: example_first_probe)

subsection \<open>What is published, and from what\<close>

definition expected_snapshot ::
  "'w LiteLLMConnectionReconciler \<Rightarrow> LiteLLMConnectionSpec \<Rightarrow> string option \<Rightarrow> (string \<Rightarrow> lerror + ProbeResult) \<Rightarrow> 'w http ConnectionSnapshot" where
  "expected_snapshot R sp secret answer =
     (case secret of
        None \<Rightarrow> unready reasonSecretNotFound
      | Some masterKey \<Rightarrow>
          (if ValidateEndpoint (cn_net R) (cs_Endpoint sp) \<noteq> None then unready reasonInvalidEndpoint
           else if ClassifyEndpointTransport (cn_net R) (cs_Endpoint sp) \<and> equal_fold_ascii (cn_requireHTTPS R) ''true''
           then unready reasonInsecureEndpoint
           else
             case answer masterKey of
               Inl err \<Rightarrow> unready (if as_auth401 err \<noteq> None then reasonBadMasterKey else reasonUnreachable)
             | Inr _ \<Rightarrow> \<lparr>snap_Ready = True, snap_Reason = reasonSynced, snap_Client = Some (NewClient R sp masterKey),
                 snap_MCPToolPrefixSeparator = cs_MCPToolPrefixSeparator sp,
                 snap_RequeueOnRejectedAfter = cs_RequeueOnRejectedAfter sp\<rparr>))"

definition status_keeps_spec :: "('w, LiteLLMConnection) kclient \<Rightarrow> bool" where
  "status_keeps_spec k \<longleftrightarrow> (\<forall>w obj fresh w'. kc_status_update k w obj = (Inr fresh, w') \<longrightarrow> co_Spec fresh = co_Spec obj)"

lemma writes_keep_spec:
  assumes "status_keeps_spec (cn_kube R)"
  shows "co_Spec (fst (snd (conn_patch R conn cond s))) = co_Spec conn"
    and "co_Spec (fst (snd (conn_writeStatus R conn reason msg s))) = co_Spec conn"
    and "co_Spec (fst (snd (writeReadyAndLoggingHealthy R conn status reason msg lh s))) = co_Spec conn"
proof -
  show p: "co_Spec (fst (snd (conn_patch R conn cond s))) = co_Spec conn" for conn cond s
    using assms by (auto simp: conn_patch_def status_keeps_spec_def Let_def split: prod.splits sum.splits)
  show "co_Spec (fst (snd (conn_writeStatus R conn reason msg s))) = co_Spec conn"
    by (simp add: conn_writeStatus_def p Let_def)
  show "co_Spec (fst (snd (writeReadyAndLoggingHealthy R conn status reason msg lh s))) = co_Spec conn"
    by (simp add: writeReadyAndLoggingHealthy_def p Let_def split: prod.split)
qed

lemma conn_probe_publishes:
  assumes "status_keeps_spec (cn_kube R)"
  shows "Snapshot (r_cache (snd (conn_probe R conn masterKey s))) =
    (case fst (ProbeConnection (NewClient R (co_Spec conn) masterKey) s) of
       Inl err \<Rightarrow> unready (if as_auth401 err \<noteq> None then reasonBadMasterKey else reasonUnreachable)
     | Inr _ \<Rightarrow> \<lparr>snap_Ready = True, snap_Reason = reasonSynced, snap_Client = Some (NewClient R (co_Spec conn) masterKey),
         snap_MCPToolPrefixSeparator = cs_MCPToolPrefixSeparator (co_Spec conn),
         snap_RequeueOnRejectedAfter = cs_RequeueOnRejectedAfter (co_Spec conn)\<rparr>)"
  using writes_keep_spec(3) [OF assms]
  by (auto simp: conn_probe_def Let_def case_prod_beta emit_def split: sum.splits option.splits)

lemma conn_endpoint_refused:
  assumes "fst (conn_endpoint R conn s) = Return v"
  shows "Snapshot (r_cache (snd (conn_endpoint R conn s))) =
      (if ValidateEndpoint (cn_net R) (cs_Endpoint (co_Spec conn)) \<noteq> None then unready reasonInvalidEndpoint else unready reasonInsecureEndpoint)"
    and "ValidateEndpoint (cn_net R) (cs_Endpoint (co_Spec conn)) \<noteq> None \<or>
      ClassifyEndpointTransport (cn_net R) (cs_Endpoint (co_Spec conn)) \<and> equal_fold_ascii (cn_requireHTTPS R) ''true''"
  using assms by (auto simp: conn_endpoint_def conn_fail_snapshot split: option.splits if_splits)

text \<open>
  What a reconcile of a live connection publishes, from the Secret it read and the answer to its
  probe: not ready when the key is missing, the endpoint is refused or the probe failed, with the reason;
  and otherwise the client for exactly this spec's endpoint with exactly the key the Secret holds now.
\<close>

theorem conn_publishes:
  assumes "kc_get (cn_kube R) (world s) key = (Inr conn, w)" and "\<not> DeletionTimestamp (co_Meta conn)"
    and "ContainsFinalizer (cn_lib R) (Finalizers (co_Meta conn)) connectionFinalizer"
    and "status_keeps_spec (cn_kube R)"
    and "conn_enter R conn (set_world w s) = (conn1, s1)"
    and "cn_getSecret R (world s1) (fst key, cs_SecretName (co_Spec conn)) = (Inr dat, w2)"
  shows "Snapshot (r_cache (snd (conn_Reconcile R key s))) =
    expected_snapshot R (co_Spec conn) (map_of dat (cs_SecretKey (co_Spec conn)))
      (\<lambda>k. fst (ProbeConnection (NewClient R (co_Spec conn) k) (set_world w2 s1)))"
proof -
  have spec: "co_Spec conn1 = co_Spec conn"
    using assms(5) writes_keep_spec(2) [OF assms(4), of conn reasonConnecting "''probing endpoint''" "set_world w s"]
    by (auto simp: conn_enter_def Let_def case_prod_beta split: if_splits)
  have whole: "Snapshot (r_cache (snd (conn_Reconcile R key s))) = Snapshot (r_cache (snd (conn_live R (fst key) conn (set_world w s))))"
    using assms(1-3) by (auto simp: conn_Reconcile_def Let_def split: prod.splits flow.splits)
  note pub = conn_probe_publishes [OF assms(4), of conn1 _ "set_world w2 s1", unfolded spec]
  show ?thesis
  proof (cases "map_of dat (cs_SecretKey (co_Spec conn))")
    case None
    then show ?thesis
      using assms(5,6) by (auto simp: whole conn_live_def conn_secret_def spec Let_def expected_snapshot_def conn_fail_snapshot andThen_def
          conn_fail_fst case_prod_beta split: prod.splits flow.splits)
  next
    case (Some masterKey)
    have sec: "conn_secret R (fst key) conn1 s1 = (Next masterKey, set_world w2 s1)"
      using assms(6) Some by (simp add: conn_secret_def spec Let_def)
    have live: "conn_live R (fst key) conn (set_world w s) = andThen (conn_endpoint R conn1) (\<lambda>_. conn_probe R conn1 masterKey) (set_world w2 s1)"
      by (simp add: conn_live_def assms(5) andThen_def sec)
    show ?thesis
    proof (cases "fst (conn_endpoint R conn1 (set_world w2 s1))")
      case (Return v)
      have "snd (andThen (conn_endpoint R conn1) (\<lambda>_. conn_probe R conn1 masterKey) (set_world w2 s1)) = snd (conn_endpoint R conn1 (set_world w2 s1))"
        using Return by (simp add: andThen_def case_prod_beta)
      then show ?thesis
        using Return Some conn_endpoint_refused [OF Return] by (auto simp: whole live expected_snapshot_def spec)
    next
      case (Next u)
      then have ok: "ValidateEndpoint (cn_net R) (cs_Endpoint (co_Spec conn)) = None"
        "\<not> (ClassifyEndpointTransport (cn_net R) (cs_Endpoint (co_Spec conn)) \<and> equal_fold_ascii (cn_requireHTTPS R) ''true'')"
        by (auto simp: conn_endpoint_def conn_fail_fst spec split: option.splits if_splits)
      then have "conn_endpoint R conn1 (set_world w2 s1) = (Next (), set_world w2 s1)" by (auto simp: conn_endpoint_def spec)
      then show ?thesis using ok Some pub [of masterKey] by (auto simp: whole live andThen_def expected_snapshot_def)
    qed
  qed
qed

theorem conn_publishes_witness:
  "Snapshot (r_cache (snd (conn_Reconcile example_conn_R (''ns'', ''default'') example_conn_state))) =
     expected_snapshot example_conn_R (example_conn_spec ''a'') (Some ''k1'')
       (\<lambda>k. Inr \<lparr>pr_LoggingStatus = '''', pr_LoggingDetails = ''''\<rparr>)"
proof -
  obtain conn1 s1 where e: "conn_enter example_conn_R (example_conn 1 ''a'') example_conn_state = (conn1, s1)" by fastforce
  have same: "set_world (world s) s = s" for s :: "conn_world rstate" by (simp add: set_world_def)
  have "kc_get (cn_kube example_conn_R) (world example_conn_state) (''ns'', ''default'') = (Inr (example_conn 1 ''a''), world example_conn_state)"
    by (simp add: example_conn_fields example_conn_state_def)
  moreover have "status_keeps_spec (cn_kube example_conn_R)"
    by (auto simp: status_keeps_spec_def example_conn_fields split: if_splits)
  moreover have "\<not> DeletionTimestamp (co_Meta (example_conn 1 ''a''))"
    "ContainsFinalizer (cn_lib example_conn_R) (Finalizers (co_Meta (example_conn 1 ''a''))) connectionFinalizer"
    by (simp_all add: example_conn_def example_conn_meta_def example_conn_fields klib_std_def)
  ultimately have "Snapshot (r_cache (snd (conn_Reconcile example_conn_R (''ns'', ''default'') example_conn_state))) =
     expected_snapshot example_conn_R (co_Spec (example_conn 1 ''a'')) (map_of [(''key'', ''k1'')] (cs_SecretKey (co_Spec (example_conn 1 ''a''))))
       (\<lambda>k. fst (ProbeConnection (NewClient example_conn_R (co_Spec (example_conn 1 ''a'')) k) (set_world (world s1) s1)))"
    using e by (intro conn_publishes [where w = "world example_conn_state" and ?conn1.0 = conn1]) (simp_all add: example_conn_fields same)
  then show ?thesis by (simp add: example_conn_def example_conn_spec_def example_probe)
qed

text \<open>
  C31.  The window the entry step means to close can stay open.  After a probe whose final status patch
  failed, the object still says \<^verbatim>\<open>Connecting\<close> while the cache is ready; when its endpoint is then edited,
  the next reconcile finds the generation changed but the reason \<^verbatim>\<open>Connecting\<close>, publishes nothing, and
  probes the new endpoint while every other controller still sees a usable client of the old one.
\<close>

theorem stale_client_while_probing:
  "\<exists>s conn. conn_reachable s \<and> kc_get (cn_kube example_conn_R) (world s) (''ns'', ''default'') = (Inr conn, world s) \<and>
     \<not> DeletionTimestamp (co_Meta conn) \<and> connectionFinalizer \<in> set (Finalizers (co_Meta conn)) \<and>
     co_ObservedGeneration conn \<noteq> Generation (co_Meta conn) \<and> cs_Endpoint (co_Spec conn) = ''b'' \<and>
     Usable (Snapshot (r_cache (snd (conn_enter example_conn_R conn s)))) \<and>
     snap_Client (Snapshot (r_cache (snd (conn_enter example_conn_R conn s)))) = Some (NewClient example_conn_R (example_conn_spec ''a'') ''k1'')"
proof -
  let ?s = "snd (conn_Reconcile example_conn_R (''ns'', ''default'') example_conn_state)"
  let ?conn = "(fst (world ?s))\<lparr>co_Meta := example_conn_meta 2, co_Spec := example_conn_spec ''b''\<rparr>"
  let ?s' = "?s\<lparr>world := (?conn, snd (world ?s))\<rparr>"
  have enter: "snd (conn_enter example_conn_R ?conn ?s') = ?s'"
    by (simp add: conn_enter_def example_first_probe example_conn_fields klib_std_def buildReadyCondition_def conditionTypeReady_def Let_def)
  have "conn_reachable ?s'" by (rule conn_reachable.other [OF example_first_probe_reachable]) simp
  moreover have "Usable (Snapshot (r_cache ?s'))" "snap_Client (Snapshot (r_cache ?s')) = Some (NewClient example_conn_R (example_conn_spec ''a'') ''k1'')"
    by (simp_all add: example_first_probe Usable_def)
  moreover have "co_ObservedGeneration ?conn \<noteq> Generation (co_Meta ?conn)" "cs_Endpoint (co_Spec ?conn) = ''b''"
    "\<not> DeletionTimestamp (co_Meta ?conn)" "connectionFinalizer \<in> set (Finalizers (co_Meta ?conn))"
    by (simp_all add: example_first_probe example_conn_meta_def example_conn_spec_def)
  moreover have "kc_get (cn_kube example_conn_R) (world ?s') (''ns'', ''default'') = (Inr ?conn, world ?s')"
    by (simp add: example_conn_fields)
  ultimately show ?thesis
    by (intro exI [of _ ?s'] exI [of _ ?conn] conjI) (simp_all only: enter simp_thms)
qed

end
