(* ===== verification/Watches.thy ===== *)
theory Watches
  imports Connection_Controller
begin

text \<open>
  What wakes a controller: the watch predicates of \<^verbatim>\<open>predicates.go\<close>, the fan-in from the connection
  object and the Secret mapper (\<^verbatim>\<open>connection_fanin.go\<close>, \<^verbatim>\<open>mappers.go\<close>), the sweep at boot (\<^verbatim>\<open>bootsweep.go\<close>) and the
  interval of the safety relist (\<^verbatim>\<open>safety_relist.go\<close>).  The goroutines that copy a channel into a work
  queue are not modelled.
\<close>

subsection \<open>Predicates\<close>

text \<open>An event carries its objects after the type assertion: \<open>None\<close> is nil or another type.\<close>

datatype 'o watch_event = CreateEvent "'o option" | UpdateEvent "'o option" "'o option" | DeleteEvent "'o option" | GenericEvent "'o option"

record watched =
  wm_Generation :: int
  wm_Labels :: "string gomap"
  wm_Annotations :: "string gomap"

definition mapsEqual :: "string gomap \<Rightarrow> string gomap \<Rightarrow> bool" where
  "mapsEqual a b = (length a = length b \<and> list_all (\<lambda>(k, va). map_of b k = Some va) a)"

fun discoverySpecChanged :: "watched watch_event \<Rightarrow> bool" where
  "discoverySpecChanged (UpdateEvent (Some old) (Some new)) =
     (wm_Generation old \<noteq> wm_Generation new \<or> \<not> mapsEqual (wm_Labels old) (wm_Labels new)
      \<or> \<not> mapsEqual (wm_Annotations old) (wm_Annotations new))"
| "discoverySpecChanged (UpdateEvent _ _) = False"
| "discoverySpecChanged _ = True"

fun ownedChildSpecChanged :: "watched watch_event \<Rightarrow> bool" where
  "ownedChildSpecChanged (UpdateEvent (Some old) (Some new)) = (wm_Generation old \<noteq> wm_Generation new)"
| "ownedChildSpecChanged (UpdateEvent _ _) = False"
| "ownedChildSpecChanged _ = True"

definition isConnReady :: "LiteLLMConnection \<Rightarrow> bool" where
  "isConnReady c =
     (case find (\<lambda>cond. Type cond = conditionTypeReady) (co_Conditions c) of
        None \<Rightarrow> False | Some cond \<Rightarrow> Status cond = ConditionTrue)"

fun connectionReadyTransition :: "LiteLLMConnection watch_event \<Rightarrow> bool" where
  "connectionReadyTransition (CreateEvent (Some c)) = isConnReady c"
| "connectionReadyTransition (UpdateEvent (Some old) (Some new)) = (\<not> isConnReady old \<and> isConnReady new)"
| "connectionReadyTransition (GenericEvent (Some c)) = isConnReady c"
| "connectionReadyTransition _ = False"

text \<open>MCP servers wake their siblings when one appears or is gone, never on an update.\<close>

fun mcpServerSiblingCreateDelete :: "'o watch_event \<Rightarrow> bool" where
  "mcpServerSiblingCreateDelete (CreateEvent _) = True"
| "mcpServerSiblingCreateDelete (DeleteEvent _) = True"
| "mcpServerSiblingCreateDelete (UpdateEvent _ _) = False"
| "mcpServerSiblingCreateDelete (GenericEvent _) = False"

subsection \<open>Mappers\<close>

definition fanInNamespace :: "LiteLLMConnection option \<Rightarrow> string \<Rightarrow> string" where
  "fanInNamespace obj fallback = (case obj of Some conn \<Rightarrow> Namespace (co_Meta conn) | None \<Rightarrow> fallback)"

definition connectionFanIn ::
  "(string \<Rightarrow> kube_error + NamespacedName list) \<Rightarrow> LiteLLMConnection option \<Rightarrow> string \<Rightarrow> NamespacedName list" where
  "connectionFanIn list obj defaultNS =
     (let ns = fanInNamespace obj defaultNS in
      if ns = '''' then [] else case list ns of Inl _ \<Rightarrow> [] | Inr found \<Rightarrow> found)"

text \<open>The event of a rebuilt cache carries no object, so the mapper lists its own namespace.\<close>

definition rebuilt_requests :: "(string \<Rightarrow> kube_error + NamespacedName list) \<Rightarrow> string \<Rightarrow> NamespacedName list" where
  "rebuilt_requests list ns = connectionFanIn list None ns"

definition secretToRequests ::
  "(string \<Rightarrow> string \<Rightarrow> kube_error + NamespacedName list) \<Rightarrow> string \<Rightarrow> string \<Rightarrow> NamespacedName list" where
  "secretToRequests list ns name = (case list ns name of Inl _ \<Rightarrow> [] | Inr found \<Rightarrow> found)"

subsection \<open>The sweep at boot\<close>

datatype sweep_kind = SwTeam | SwModel | SwA2AAgent | SwMCPServer | SwModelDiscovery | SwMCPServerDiscovery | SwGuardRail
  | SwMCPToolset | SwAccessGroup

record swept =
  sw_Meta :: ObjectMeta
  sw_Conditions :: "Condition list"
  sw_ObservedGeneration :: int

text \<open>The type switch of \<^verbatim>\<open>isStuckReadyFalse\<close>: the kinds it has a case for.\<close>

fun has_case :: "sweep_kind \<Rightarrow> bool" where
  "has_case SwTeam = True"
| "has_case SwModel = True"
| "has_case SwA2AAgent = True"
| "has_case SwMCPServer = True"
| "has_case SwModelDiscovery = True"
| "has_case SwMCPServerDiscovery = True"
| "has_case SwGuardRail = True"
| "has_case _ = False"

definition isStuckReadyFalse :: "klib \<Rightarrow> sweep_kind \<Rightarrow> swept \<Rightarrow> bool" where
  "isStuckReadyFalse K k obj =
     (if \<not> has_case k then False
      else if sw_ObservedGeneration obj \<noteq> Generation (sw_Meta obj) then False
      else if DeletionTimestamp (sw_Meta obj) then False
      else case FindStatusCondition K (sw_Conditions obj) conditionTypeReady of
             None \<Rightarrow> True | Some ready \<Rightarrow> Status ready \<noteq> ConditionTrue)"

definition sweep_slots :: "sweep_kind list" where
  "sweep_slots = [SwTeam, SwModel, SwA2AAgent, SwMCPServer, SwModelDiscovery, SwMCPServerDiscovery, SwGuardRail, SwMCPToolset, SwAccessGroup]"

text \<open>
  \<open>room n\<close> says whether the buffered channel of the kind has room at the \<open>n\<close>-th attempt; the consumer
  drains it meanwhile.  A full channel drops the object.
\<close>

fun sweep_items :: "klib \<Rightarrow> sweep_kind \<Rightarrow> (nat \<Rightarrow> bool) \<Rightarrow> nat \<Rightarrow> swept list \<Rightarrow> swept list" where
  "sweep_items K k room n [] = []"
| "sweep_items K k room n (obj # objs) =
     (if isStuckReadyFalse K k obj
      then (if room n then obj # sweep_items K k room (Suc n) objs else sweep_items K k room (Suc n) objs)
      else sweep_items K k room n objs)"

definition BootSweeper_Start ::
  "klib \<Rightarrow> (sweep_kind \<Rightarrow> kube_error + swept list) \<Rightarrow> (sweep_kind \<Rightarrow> nat \<Rightarrow> bool) \<Rightarrow> (sweep_kind \<times> swept) list" where
  "BootSweeper_Start K list room =
     concat (map (\<lambda>k. case list k of Inl _ \<Rightarrow> [] | Inr objs \<Rightarrow> map (Pair k) (sweep_items K k (room k) 0 objs)) sweep_slots)"

subsection \<open>The safety relist interval\<close>

definition SafetyRelistFloor :: int where "SafetyRelistFloor = 5 * second"
definition DefaultSafetyRelistInterval :: int where "DefaultSafetyRelistInterval = 10 * minute"

text \<open>\<open>dur\<close> is \<^verbatim>\<open>time.ParseDuration\<close>; the texts around its error and the floor are left out.\<close>

datatype relist_error = InvalidInterval string | BelowFloor

definition ParseSafetyRelistInterval :: "(string \<Rightarrow> string + int) \<Rightarrow> string \<Rightarrow> relist_error + int" where
  "ParseSafetyRelistInterval dur raw =
     (if raw = '''' then Inr 0
      else
        case dur raw of
          Inl e \<Rightarrow> Inl (InvalidInterval e)
        | Inr d \<Rightarrow> (if d < SafetyRelistFloor then Inl BelowFloor else Inr d))"

definition ResolvedSafetyRelistInterval :: "(string \<Rightarrow> string + int) \<Rightarrow> string \<Rightarrow> relist_error + int" where
  "ResolvedSafetyRelistInterval dur raw =
     (case ParseSafetyRelistInterval dur raw of
        Inl e \<Rightarrow> Inl e
      | Inr d \<Rightarrow> Inr (if d = 0 then DefaultSafetyRelistInterval else d))"

subsection \<open>Properties\<close>

lemma mapsEqual_iff:
  assumes "map_inv a" and "map_inv b"
  shows "mapsEqual a b \<longleftrightarrow> map_of a = map_of b"
proof
  assume eq: "map_of a = map_of b"
  have "length a = card (dom (map_of a))" "length b = card (dom (map_of b))"
    using assms by (simp_all add: map_inv_def dom_map_of_conv_image_fst distinct_card flip: set_map)
  moreover have "map_of a k = Some v" if "(k, v) \<in> set a" for k v using that assms(1) by (simp add: map_inv_def)
  ultimately show "mapsEqual a b" using eq by (auto simp: mapsEqual_def list_all_iff)
next
  assume m: "mapsEqual a b"
  have sub: "map_of a \<subseteq>\<^sub>m map_of b"
    using m map_of_SomeD [of a] by (fastforce simp: mapsEqual_def list_all_iff map_le_def)
  have "card (dom (map_of a)) = card (dom (map_of b))"
    using m assms by (simp add: mapsEqual_def map_inv_def dom_map_of_conv_image_fst distinct_card flip: set_map)
  moreover have "dom (map_of a) \<subseteq> dom (map_of b)" using sub by (auto simp: map_le_def dom_def)
  ultimately have "dom (map_of a) = dom (map_of b)" by (metis card_subset_eq finite_dom_map_of)
  then show "map_of a = map_of b" using sub by (metis map_le_antisym map_le_def)
qed

text \<open>
  A discovery object does not wake itself: an update is dropped exactly when generation, labels and
  annotations are all unchanged, as they are after a status write.
\<close>

theorem discovery_update_wakes_iff:
  assumes "map_inv (wm_Labels old)" and "map_inv (wm_Labels new)" and "map_inv (wm_Annotations old)" and "map_inv (wm_Annotations new)"
  shows "\<not> discoverySpecChanged (UpdateEvent (Some old) (Some new)) \<longleftrightarrow>
    wm_Generation old = wm_Generation new \<and> map_of (wm_Labels old) = map_of (wm_Labels new) \<and>
    map_of (wm_Annotations old) = map_of (wm_Annotations new)"
  using mapsEqual_iff assms by auto

theorem discovery_update_wakes_iff_witness:
  "\<not> discoverySpecChanged (UpdateEvent
     (Some \<lparr>wm_Generation = 1, wm_Labels = [(''a'', ''1''), (''b'', ''2'')], wm_Annotations = []\<rparr>)
     (Some \<lparr>wm_Generation = 1, wm_Labels = [(''b'', ''2''), (''a'', ''1'')], wm_Annotations = []\<rparr>))"
  using discovery_update_wakes_iff [of "\<lparr>wm_Generation = 1, wm_Labels = [(''a'', ''1''), (''b'', ''2'')], wm_Annotations = []\<rparr>"
      "\<lparr>wm_Generation = 1, wm_Labels = [(''b'', ''2''), (''a'', ''1'')], wm_Annotations = []\<rparr>"]
  by (simp add: map_inv_def fun_upd_twist)

lemma sweep_items_all:
  "(\<And>n. room n) \<Longrightarrow> sweep_items K k room n objs = filter (isStuckReadyFalse K k) objs"
  by (induction K k room n objs rule: sweep_items.induct) auto

lemma sweep_items_sub: "set (sweep_items K k room n objs) \<subseteq> {obj \<in> set objs. isStuckReadyFalse K k obj}"
  by (induction K k room n objs rule: sweep_items.induct) auto

text \<open>
  The sweep lists toolsets and access groups but never wakes one: whatever their status, an object
  of these two kinds is not enqueued, while with room in the channels every stuck object of the other
  seven kinds is.
\<close>

theorem boot_sweep_skips_kinds:
  "(\<forall>k obj. (k, obj) \<in> set (BootSweeper_Start K list room) \<longrightarrow> k \<noteq> SwMCPToolset \<and> k \<noteq> SwAccessGroup) \<and>
   ((\<forall>k n. room k n) \<longrightarrow> (\<forall>k objs obj. k \<noteq> SwMCPToolset \<longrightarrow> k \<noteq> SwAccessGroup \<longrightarrow> list k = Inr objs \<longrightarrow> obj \<in> set objs \<longrightarrow>
      isStuckReadyFalse K k obj \<longrightarrow> (k, obj) \<in> set (BootSweeper_Start K list room)))"
proof (intro conjI allI impI)
  fix k obj assume "(k, obj) \<in> set (BootSweeper_Start K list room)"
  then obtain objs where "obj \<in> set (sweep_items K k (room k) 0 objs)"
    by (auto simp: BootSweeper_Start_def split: sum.splits)
  then have "isStuckReadyFalse K k obj" using sweep_items_sub by blast
  then show "k \<noteq> SwMCPToolset" "k \<noteq> SwAccessGroup" by (auto simp: isStuckReadyFalse_def split: if_splits)
next
  fix k objs obj
  assume all: "\<forall>k n. room k n" and l: "list k = Inr objs" "obj \<in> set objs" "isStuckReadyFalse K k obj"
  have "k \<in> set sweep_slots" by (cases k) (simp_all add: sweep_slots_def)
  moreover have "obj \<in> set (sweep_items K k (room k) 0 objs)" using l all by (simp add: sweep_items_all)
  ultimately show "(k, obj) \<in> set (BootSweeper_Start K list room)"
    using l(1) by (auto simp: BootSweeper_Start_def intro!: bexI [of _ k])
qed

definition example_stuck :: swept where
  "example_stuck = \<lparr>sw_Meta = \<lparr>Namespace = ''ns'', Name = ''g'', Generation = 1, DeletionTimestamp = False, Finalizers = [],
     Annotations = [], OwnerReferences = []\<rparr>, sw_Conditions = [], sw_ObservedGeneration = 1\<rparr>"

theorem boot_sweep_skips_kinds_witness:
  "(SwGuardRail, example_stuck) \<in> set (BootSweeper_Start klib_std (\<lambda>k. Inr [example_stuck]) (\<lambda>_ _. True)) \<and>
   (SwAccessGroup, example_stuck) \<notin> set (BootSweeper_Start klib_std (\<lambda>k. Inr [example_stuck]) (\<lambda>_ _. True))"
  using boot_sweep_skips_kinds [of klib_std "\<lambda>k. Inr [example_stuck]" "\<lambda>_ _. True"]
  by (auto simp: isStuckReadyFalse_def example_stuck_def klib_std_def)

end
