(* ===== verification/Secret_Steps.thy ===== *)
theory Secret_Steps
  imports Controller_Kit Params
begin

text \<open>
  The steps between the connection gate and the rendered body that the agent, MCP-server and guardrail
  controllers repeat: unique placeholder names, reading the Secrets, decoding the free-form fields,
  reporting a placeholder without a Secret and a Secret without a placeholder; and the deletion of a
  remote entry with its five outcomes.  As in \<^verbatim>\<open>model_controller.go\<close>, a decoding failure returns without
  counting the reconcile.
\<close>

subsection \<open>Steps\<close>

definition kit_secrets ::
  "'spec kit \<Rightarrow> ('w, 'spec) ctl \<Rightarrow> 'w secret_getter \<Rightarrow> string \<Rightarrow> SecretSubstitution list \<Rightarrow> 'w http ConnectionSnapshot \<Rightarrow> 'spec cr
   \<Rightarrow> 'w rstate \<Rightarrow> string gomap flow \<times> 'w rstate" where
  "kit_secrets k C getSecret phrase secrets snap obj s =
     (let msg = checkDuplicateSecretAs secrets phrase in
      if msg \<noteq> '''' then kit_park k C obj ''InvalidConfig'' msg no_requeue s
      else
        case resolveSecretMap getSecret (Namespace (cr_Meta obj)) secrets s of
          (SecretGetFailed e, s) \<Rightarrow> (Return (Inl (KubeErr e)), s)
        | (SecretMissing miss, s) \<Rightarrow>
            (if miss \<noteq> '''' then kit_park k C obj reasonSecretNotFound miss (requeue_rejected snap) s else (Next [], s))
        | (SecretsResolved m, s) \<Rightarrow> (Next m, s))"

definition kit_decode ::
  "'spec kit \<Rightarrow> ('w, 'spec) ctl \<Rightarrow> 'spec cr \<Rightarrow> string \<Rightarrow> raw_json \<Rightarrow> 'w rstate \<Rightarrow> json gomap option flow \<times> 'w rstate" where
  "kit_decode k C obj field raw s =
     (case decode_bag raw of
        Inl e \<Rightarrow>
          (let (_, s) = kit_writeStatus k C obj ConditionFalse ''InvalidConfig'' (field @ '': invalid JSON: '' @ e) s
           in (done_ok, s))
      | Inr m \<Rightarrow> (Next m, s))"

definition kit_missing ::
  "'spec kit \<Rightarrow> ('w, 'spec) ctl \<Rightarrow> 'w http ConnectionSnapshot \<Rightarrow> 'spec cr \<Rightarrow> string \<Rightarrow> string \<Rightarrow> 'w rstate \<Rightarrow> 'a flow \<times> 'w rstate" where
  "kit_missing k C snap obj name suff =
     kit_park k C obj reasonSecretNotFound (''placeholder {{'' @ name @ ''}} has no matching spec.secrets[].as'' @ suff)
       (requeue_rejected snap)"

fun kit_unused :: "string \<Rightarrow> string list \<Rightarrow> SecretSubstitution list \<Rightarrow> 'w rstate \<Rightarrow> 'w rstate" where
  "kit_unused wheres used [] s = s"
| "kit_unused wheres used (e # es) s =
     kit_unused wheres used es
       (if As e \<in> set used then s
        else emit (Event EventTypeNormal ''UnusedSecretRef''
          (''spec.secrets[].as '' @ quote (As e)
           @ '' is declared but unreferenced by any {{NAME}} placeholder in '' @ wheres)) s)"

text \<open>The delete call \<open>del\<close> and its outcomes; \<open>site\<close> names it in the texts.\<close>

definition kit_delete ::
  "'spec kit \<Rightarrow> 'spec cr \<Rightarrow> Policy \<Rightarrow> string \<Rightarrow> ('w rstate \<Rightarrow> (lerror + unit) \<times> 'w rstate) \<Rightarrow> 'w rstate \<Rightarrow> unit flow \<times> 'w rstate" where
  "kit_delete k obj policy site del s =
     (case del s of
        (Inl err, s) \<Rightarrow>
          (if as_auth401 err \<noteq> None then kit_ack k obj policy (''401 on '' @ site) False s
           else if is4xxStatus err then kit_ack k obj policy (''4xx on '' @ site @ '': '' @ lerror_text err) True s
           else (Return (Inl (LlmErr err)), s))
      | (Inr _, s) \<Rightarrow> kit_deleted k obj s)"

subsection \<open>Effects\<close>

lemma resolveSecretMap_log: "resolveSecretMap g ns secrets s = (r, s') \<Longrightarrow> log s' = log s"
  by (auto simp: resolveSecretMap_def set_world_def split: prod.splits)

lemma kit_secrets_setback: "emits is_setback s (snd (kit_secrets k C g phrase secrets snap obj s))"
proof -
  obtain r s1 where r: "resolveSecretMap g (Namespace (cr_Meta obj)) secrets s = (r, s1)" by fastforce
  have e: "emits is_setback s s1" using resolveSecretMap_log [OF r] by (rule emits_same_log)
  show ?thesis
    using e emits_trans [OF e kit_park_setback] kit_park_setback
    by (auto simp: kit_secrets_def r Let_def split: secret_result.splits)
qed

lemma kit_decode_setback: "emits is_setback s (snd (kit_decode k C obj field raw s))"
  using kit_writeStatus_setback by (auto simp: kit_decode_def case_prod_beta split: sum.splits)

lemma kit_missing_setback: "emits is_setback s (snd (kit_missing k C snap obj name suff s))"
  unfolding kit_missing_def by (rule kit_park_setback)

lemma kit_unused_setback: "emits is_setback s (kit_unused wheres used secrets s)"
proof (induction wheres used secrets s rule: kit_unused.induct)
  case (2 wheres used e es s)
  then show ?case by (cases "As e \<in> set used") (auto intro: emits_trans [rotated])
qed simp

lemma kit_delete_emits:
  assumes "emits P s (snd (del s))" and "\<And>e. is_setback e \<Longrightarrow> P e"
  shows "emits P s (snd (kit_delete k obj policy site del s))"
proof -
  obtain r s1 where d: "del s = (r, s1)" by fastforce
  then have e: "emits P s s1" using assms(1) by simp
  show ?thesis
    using e emits_trans [OF e setback_imp [OF kit_ack_setback assms(2)]]
      emits_trans [OF e setback_imp [OF kit_deleted_setback assms(2)]]
    by (auto simp: kit_delete_def d split: sum.splits)
qed

text \<open>When the deletion step lets the finalizer go.\<close>

definition delete_settles :: "Policy \<Rightarrow> lerror + unit \<Rightarrow> bool" where
  "delete_settles policy r \<longleftrightarrow>
     (case r of Inr _ \<Rightarrow> True | Inl err \<Rightarrow> policy = Orphan \<and> as_auth401 err = None \<and> is4xxStatus err)"

lemma kit_delete_Next:
  "fst (kit_delete k obj policy site del s) = Next () \<longleftrightarrow> delete_settles policy (fst (del s))"
proof -
  obtain r s1 where d: "del s = (r, s1)" by fastforce
  show ?thesis
    by (cases r) (auto simp: kit_delete_def delete_settles_def d kit_ack_Next kit_deleted_Next)
qed

end
