(* ===== verification/Team.thy ===== *)
theory Team
  imports Secret_Steps Access_Group Litellm_Endpoints
begin

text \<open>
  The team controller: \<^verbatim>\<open>internal/controller/team_controller.go\<close> with \<^verbatim>\<open>team_permission.go\<close> and the write
  calls of \<^verbatim>\<open>internal/litellm/team.go\<close>.  A team is always closed and opened only by the access groups it
  names; the team aliased \<^verbatim>\<open>default\<close> exists without an object and survives the deletion of one.

  The two fields the reconciler keeps for the implicit default team behind a mutex, the hash and the id
  last applied, are the record \<open>implicit\<close>, passed through the two functions that read and write it.  A
  budget is the JSON text of its number.
\<close>

subsection \<open>Client calls\<close>

definition DeleteTeam :: "'w http \<Rightarrow> string list \<Rightarrow> ('w, 'z, unit) call" where
  "DeleteTeam http teamIDs s =
     (case makeRequest http ''POST'' ''/team/delete'' (Some (JObj [(''team_ids'', strings_json teamIDs)])) s of
        (Inl e, s) \<Rightarrow> (Inl e, s)
      | (Inr _, s) \<Rightarrow> (Inr (), s))"

definition CreateTeamRaw :: "'w http \<Rightarrow> json gomap \<Rightarrow> ('w, 'z, TeamListEntry) call" where
  "CreateTeamRaw http body s =
     (case makeRequest http ''POST'' ''/team/new'' (Some (JObj body)) s of
        (Inl e, s) \<Rightarrow> (Inl e, s)
      | (Inr raw, s) \<Rightarrow> (unmarshal decode_team ''POST /team/new (raw)'' raw, s))"

definition UpdateTeamRaw :: "'w http \<Rightarrow> json gomap \<Rightarrow> ('w, 'z, TeamListEntry) call" where
  "UpdateTeamRaw http body s =
     (case makeRequest http ''POST'' ''/team/update'' (Some (JObj body)) s of
        (Inl e, s) \<Rightarrow> (Inl e, s)
      | (Inr raw, s) \<Rightarrow> (unmarshal decode_team ''POST /team/update (raw)'' raw, s))"

subsection \<open>The grant of a team\<close>

definition modelDenyAllSentinel :: string where "modelDenyAllSentinel = ''no-default-models''"
definition agentDenyAllSentinel :: string where "agentDenyAllSentinel = ''00000000-0000-0000-0000-000000000000''"

definition closed_permission :: json where
  "closed_permission = JObj
     [(''mcp_servers'', JArr []), (''mcp_access_groups'', JArr []), (''agents'', strings_json [agentDenyAllSentinel]),
      (''agent_access_groups'', JArr []), (''mcp_toolsets'', JArr [])]"

definition closedTeamGrant :: "string list \<Rightarrow> string list \<Rightarrow> json gomap" where
  "closedTeamGrant accessGroupIDs groupModels =
     [(''models'', strings_json (modelDenyAllSentinel # groupModels)),
      (''object_permission'', closed_permission),
      (''access_group_ids'', strings_json accessGroupIDs)]"

definition skip_model :: "string \<Rightarrow> bool" where
  "skip_model m \<longleftrightarrow> m = '''' \<or> m = modelDenyAllSentinel \<or> m = ''all-proxy-models'' \<or> CHR ''*'' \<in> set m"

definition attach_model :: "string \<Rightarrow> string list \<Rightarrow> string list" where
  "attach_model m out = (if skip_model m \<or> m \<in> set out then out else out @ [m])"

definition attachedGroupModels :: "string list \<Rightarrow> string list gomap \<Rightarrow> string list" where
  "attachedGroupModels names byName =
     sort (fold (\<lambda>n. fold attach_model (case map_of byName n of None \<Rightarrow> [] | Some ms \<Rightarrow> ms)) names [])"

subsection \<open>Rendering\<close>

record BudgetSpec =
  bs_Limit :: "string option"
  bs_Period :: string

record RateLimitsSpec =
  rl_RPM :: "int option"
  rl_TPM :: "int option"

record TeamSpec =
  tm_AccessGroups :: "string list"
  tm_Budget :: "BudgetSpec option"
  tm_RateLimits :: "RateLimitsSpec option"
  tm_DeletionPolicy :: string

definition teamAliasDefault :: string where "teamAliasDefault = ''default''"
definition rateLimitTypeBestEffort :: string where "rateLimitTypeBestEffort = ''best_effort_throughput''"

text \<open>A limit that is set comes with its type; an absent one is an explicit null without a type.\<close>

definition limit_fields :: "string \<Rightarrow> int option \<Rightarrow> json gomap" where
  "limit_fields key v =
     (case v of
        Some n \<Rightarrow> [(key, JNum (show_int n)), (key @ ''_type'', JStr rateLimitTypeBestEffort)]
      | None \<Rightarrow> [(key, JNull)])"

definition team_base :: "string \<Rightarrow> TeamSpec \<Rightarrow> json gomap" where
  "team_base name spec =
     [(''team_alias'', JStr name),
      (''max_budget'', case Option.bind (tm_Budget spec) bs_Limit of Some t \<Rightarrow> JNum t | None \<Rightarrow> JNull),
      (''budget_duration'',
        case tm_Budget spec of
          Some b \<Rightarrow> (if bs_Period b \<noteq> '''' then JStr (bs_Period b) else JNull) | None \<Rightarrow> JNull)]
     @ limit_fields ''rpm_limit'' (Option.bind (tm_RateLimits spec) rl_RPM)
     @ limit_fields ''tpm_limit'' (Option.bind (tm_RateLimits spec) rl_TPM)"

definition overlay :: "json gomap \<Rightarrow> json gomap \<Rightarrow> json gomap" where
  "overlay extra body = fold (\<lambda>(k, v). map_put k v) extra body"

definition implicitDefaultBody :: "json gomap" where
  "implicitDefaultBody =
     overlay (closedTeamGrant [] [])
       [(''team_alias'', JStr teamAliasDefault), (''max_budget'', JNull), (''budget_duration'', JNull),
        (''rpm_limit'', JNull), (''tpm_limit'', JNull)]"

text \<open>The body of a team from the groups LiteLLM lists, and the names it has no group for.\<close>

definition team_body :: "string \<Rightarrow> TeamSpec \<Rightarrow> AccessGroupEntry list \<Rightarrow> json gomap \<times> string list" where
  "team_body name spec groups =
     (let nameToID = index_by ge_AccessGroupName ge_AccessGroupID groups;
          nameToModels = fold (\<lambda>g. map_put (ge_AccessGroupName g) (ge_AccessModelNames g)) groups [];
          (groupIDs, missing) = resolveNames (tm_AccessGroups spec) nameToID
      in (overlay (closedTeamGrant (sort groupIDs) (attachedGroupModels (tm_AccessGroups spec) nameToModels)) (team_base name spec),
          missing))"

subsection \<open>The reconciler\<close>

record implicit =
  im_Hash :: string
  im_TeamID :: string

record 'w TeamReconciler =
  te_ctl :: "('w, TeamSpec) ctl"
  te_sha256hex :: "string \<Rightarrow> string"
  te_Namespace :: string

definition teamFinalizer :: string where "teamFinalizer = ''teams.litellm.ackstorm.ai/finalizer''"
definition teamKind :: string where "teamKind = ''LiteLLMTeam''"

definition team_kit :: "TeamSpec kit" where
  "team_kit = \<lparr>k_kind = teamKind, k_label = ''team'', k_probe = ''team'', k_finalizer = teamFinalizer, k_registered = ''team registered'',
     k_create = ''POST /team/new'', k_carry = (\<lambda>_ f. f)\<rparr>"

definition team_hash :: "'w TeamReconciler \<Rightarrow> json gomap \<Rightarrow> string" where
  "team_hash R body = te_sha256hex R (canonicalJSON (JObj body))"

definition with_id :: "string \<Rightarrow> json gomap \<Rightarrow> json gomap" where
  "with_id i body = map_put ''team_id'' (JStr i) body"

definition smallest_id :: "TeamListEntry list \<Rightarrow> string" where
  "smallest_id entries = (case sort_key tl_TeamID entries of [] \<Rightarrow> '''' | e # _ \<Rightarrow> tl_TeamID e)"

definition isTransientLiteLLMError :: "lerror \<Rightarrow> bool" where
  "isTransientLiteLLMError err \<longleftrightarrow> \<not> is4xxStatus err"

definition is4xxNon401Status :: "lerror \<Rightarrow> int \<Rightarrow> bool" where
  "is4xxNon401Status err wantStatus \<longleftrightarrow> rejectedStatus err = wantStatus"

text \<open>Without an object there is no status to write; every other effect of the classification stays.\<close>

definition classify_implicit :: "'w TeamReconciler \<Rightarrow> lerror \<Rightarrow> string \<Rightarrow> 'w rstate \<Rightarrow> verdict \<times> 'w rstate" where
  "classify_implicit R err opDesc s =
     classifyMutationError (ct_includeBody (te_ctl R)) err opDesc teamKind (\<lambda>_ _ _ s. (None, s))
       (NormalizedRequeueOnRejectedAfter (Snapshot (r_cache s))) s"

definition implicit_apply ::
  "'w TeamReconciler \<Rightarrow> implicit \<Rightarrow> 'w http \<Rightarrow> TeamListEntry list \<Rightarrow> 'w rstate \<Rightarrow> string flow \<times> 'w rstate" where
  "implicit_apply R mem client entries s =
     (let hash = team_hash R implicitDefaultBody;
          firstBootstrap = (im_Hash mem = '''' \<and> im_TeamID mem = '''')
      in if entries = [] then
           (case CreateTeamRaw client implicitDefaultBody s of
              (Inl cerr, s) \<Rightarrow> (let (v, s) = classify_implicit R cerr ''POST /team/new (implicit default)'' s in (Return v, s))
            | (Inr result, s) \<Rightarrow>
                (Next (tl_TeamID result),
                 if firstBootstrap then s else emit (Metric ''DriftCorrectedTotal'' [''team'', ''create_missing'']) s))
         else
           (let i = smallest_id entries in
            if im_Hash mem = hash \<and> im_TeamID mem = i then (done_ok, reconcile_total teamKind ''success'' s)
            else
              case UpdateTeamRaw client (with_id i implicitDefaultBody) s of
                (Inl uerr, s) \<Rightarrow> (let (v, s) = classify_implicit R uerr ''POST /team/update (implicit default)'' s in (Return v, s))
              | (Inr _, s) \<Rightarrow>
                  (Next i,
                   if \<not> firstBootstrap \<and> im_Hash mem \<noteq> hash
                   then emit (Metric ''DriftCorrectedTotal'' [''team'', ''update_drifted'']) s else s)))"

definition implicit_store ::
  "'w TeamReconciler \<Rightarrow> implicit \<Rightarrow> string flow \<times> 'w rstate \<Rightarrow> verdict \<times> implicit \<times> 'w rstate" where
  "implicit_store R mem applied =
     (case applied of
        (Return v, s) \<Rightarrow> (v, mem, s)
      | (Next i, s) \<Rightarrow>
          (Inr no_requeue, \<lparr>im_Hash = team_hash R implicitDefaultBody, im_TeamID = i\<rparr>, reconcile_total teamKind ''success'' s))"

definition reconcileImplicitDefault ::
  "'w TeamReconciler \<Rightarrow> implicit \<Rightarrow> 'w rstate \<Rightarrow> verdict \<times> implicit \<times> 'w rstate" where
  "reconcileImplicitDefault R mem s =
     (let snap = Snapshot (r_cache s) in
      case (snap_Ready snap, snap_Client snap) of
        (True, Some client) \<Rightarrow>
          (case ListTeamsByAlias client teamAliasDefault s of
             (Inl err, s1) \<Rightarrow>
               (if is_ErrNotFound err then implicit_store R mem (implicit_apply R mem client [] s1)
                else let (v, s) = classify_implicit R err ''GET /v2/team/list (implicit default)'' s1 in (v, mem, s))
           | (Inr entries, s1) \<Rightarrow> implicit_store R mem (implicit_apply R mem client entries s1))
      | _ \<Rightarrow> (Inr no_requeue, mem, reconcile_total teamKind ''success'' s))"

subsection \<open>Deletion\<close>

definition default_id :: "'w TeamReconciler \<Rightarrow> TeamSpec cr \<Rightarrow> 'w http \<Rightarrow> 'w rstate \<Rightarrow> string flow \<times> 'w rstate" where
  "default_id R team client s =
     (if cr_ID team \<noteq> '''' then (Next (cr_ID team), s)
      else
        case ListTeamsByAlias client teamAliasDefault s of
          (Inl err, s) \<Rightarrow>
            (if is_ErrNotFound err then (Next '''', s)
             else kit_classify team_kit (te_ctl R) team err ''GET /v2/team/list (default-deletion resolve)'' s)
        | (Inr entries, s) \<Rightarrow> (Next (smallest_id entries), s))"

definition release_default ::
  "'w TeamReconciler \<Rightarrow> TeamSpec cr \<Rightarrow> implicit \<Rightarrow> 'w rstate \<Rightarrow> unit flow \<times> implicit \<times> 'w rstate" where
  "release_default R team mem s =
     (let snap = Snapshot (r_cache s) in
      case (snap_Ready snap, snap_Client snap) of
        (True, Some client) \<Rightarrow>
          (case default_id R team client s of
             (Return v, s) \<Rightarrow> (Return v, mem, s)
           | (Next i, s) \<Rightarrow>
               (if i = '''' then (Next (), mem, s)
                else
                  case UpdateTeamRaw client (with_id i implicitDefaultBody) s of
                    (Inl uerr, s) \<Rightarrow>
                      (if as_auth401 uerr \<noteq> None then (Next (), mem, invalidate_cache s)
                       else if isTransientLiteLLMError uerr then (Return (Inl (LlmErr uerr)), mem, s)
                       else (Next (), mem, s))
                  | (Inr _, s) \<Rightarrow> (Next (), \<lparr>im_Hash = team_hash R implicitDefaultBody, im_TeamID = i\<rparr>, s)))
      | _ \<Rightarrow> (done_ok, mem, reconcile_total teamKind ''success'' s))"

definition team_mismatch ::
  "'w TeamReconciler \<Rightarrow> 'w http ConnectionSnapshot \<Rightarrow> TeamSpec cr \<Rightarrow> 'w rstate \<Rightarrow> 'a flow \<times> 'w rstate" where
  "team_mismatch R snap team =
     kit_park team_kit (te_ctl R) team ''LiteLLMRejected'' ''LiteLLM API surface mismatch on /v2/team/list'' (requeue_rejected snap)"

definition team_rejected ::
  "'w TeamReconciler \<Rightarrow> 'w http ConnectionSnapshot \<Rightarrow> TeamSpec cr \<Rightarrow> string \<Rightarrow> lerror \<Rightarrow> 'w rstate \<Rightarrow> 'a flow \<times> 'w rstate" where
  "team_rejected R snap team call err =
     kit_park team_kit (te_ctl R) team ''LiteLLMRejected'' (''LiteLLM rejected '' @ call @ '': '' @ lerror_text err) (requeue_rejected snap)"

definition team_id ::
  "'w TeamReconciler \<Rightarrow> 'w http ConnectionSnapshot \<Rightarrow> 'w http \<Rightarrow> Policy \<Rightarrow> TeamSpec cr \<Rightarrow> 'w rstate \<Rightarrow> string flow \<times> 'w rstate" where
  "team_id R snap client policy team s =
     (if cr_ID team \<noteq> '''' then (Next (cr_ID team), s)
      else
        case ListTeamsByAlias client (Name (cr_Meta team)) s of
          (Inl err, s) \<Rightarrow>
            (if as_auth401 err \<noteq> None then
               andThen (kit_ack team_kit team policy ''401 on ListTeamsByAlias'' False) (\<lambda>_ s. (Next '''', s)) s
             else if is4xxNon401Status err 404 \<or> is_ErrNotFound err then team_mismatch R snap team s
             else if isTransientLiteLLMError err then (Return (Inl (LlmErr err)), s)
             else team_rejected R snap team ''GET /v2/team/list'' err s)
        | (Inr entries, s) \<Rightarrow> (Next (smallest_id entries), s))"

definition team_gone :: "'w rstate \<Rightarrow> unit flow \<times> 'w rstate" where
  "team_gone s = (Next (), emit (Metric ''DriftCorrectedTotal'' [''team'', ''delete_vanished'']) s)"

definition delete_team ::
  "'w TeamReconciler \<Rightarrow> 'w http ConnectionSnapshot \<Rightarrow> 'w http \<Rightarrow> Policy \<Rightarrow> TeamSpec cr \<Rightarrow> string \<Rightarrow> 'w rstate \<Rightarrow> unit flow \<times> 'w rstate" where
  "delete_team R snap client policy team i s =
     (if i = '''' then (Next (), s)
      else
        case DeleteTeam client [i] s of
          (Inl err, s) \<Rightarrow>
            (if as_auth401 err \<noteq> None then kit_ack team_kit team policy ''401 on DeleteTeam'' False s
             else if is4xxNon401Status err 404 then team_gone s
             else if isTransientLiteLLMError err then (Return (Inl (LlmErr err)), s)
             else team_rejected R snap team ''POST /team/delete'' err s)
        | (Inr _, s) \<Rightarrow> team_gone s)"

definition release_team :: "'w TeamReconciler \<Rightarrow> TeamSpec cr \<Rightarrow> 'w rstate \<Rightarrow> unit flow \<times> 'w rstate" where
  "release_team R team s =
     (let policy = Resolve (cr_Meta team) (tm_DeletionPolicy (cr_Spec team));
          snap = Snapshot (r_cache s)
      in case (snap_Ready snap, snap_Client snap) of
           (True, Some client) \<Rightarrow> andThen (team_id R snap client policy team) (delete_team R snap client policy team) s
         | _ \<Rightarrow> (let (reason, permanent) = ackUnavailable snap in kit_ack team_kit team policy reason permanent s))"

text \<open>A conflicting or vanished object is left to the next event.\<close>

definition team_kube_error :: "verdict \<Rightarrow> verdict" where
  "team_kube_error v =
     (case v of Inl (KubeErr e) \<Rightarrow> (if IsConflict e \<or> IsNotFoundK e then Inr no_requeue else v) | _ \<Rightarrow> v)"

definition drop_team_finalizer :: "'w TeamReconciler \<Rightarrow> TeamSpec cr \<Rightarrow> 'w rstate \<Rightarrow> verdict \<times> 'w rstate" where
  "drop_team_finalizer R team s =
     (case kit_drop_finalizer team_kit (te_ctl R) team s of
        (Inl e, s) \<Rightarrow> (team_kube_error (Inl e), s)
      | (Inr r, s) \<Rightarrow> (Inr r, reconcile_total teamKind ''success'' s))"

definition reconcileDeletion ::
  "'w TeamReconciler \<Rightarrow> TeamSpec cr \<Rightarrow> implicit \<Rightarrow> 'w rstate \<Rightarrow> verdict \<times> implicit \<times> 'w rstate" where
  "reconcileDeletion R team mem s =
     (if \<not> ContainsFinalizer (ct_lib (te_ctl R)) (Finalizers (cr_Meta team)) teamFinalizer then (Inr no_requeue, mem, s)
      else
        let (f, mem, s) =
          (if Name (cr_Meta team) = teamAliasDefault then release_default R team mem s
           else let (f, s) = release_team R team s in (f, mem, s))
        in case f of
             Return v \<Rightarrow> (v, mem, s)
           | Next _ \<Rightarrow> (let (v, s) = drop_team_finalizer R team s in (v, mem, s)))"

subsection \<open>The live path\<close>

definition reasonAccessGroupNotFound :: string where "reasonAccessGroupNotFound = ''AccessGroupNotFound''"

definition team_groups ::
  "'w TeamReconciler \<Rightarrow> 'w http \<Rightarrow> TeamSpec cr \<Rightarrow> 'w rstate \<Rightarrow> AccessGroupEntry list flow \<times> 'w rstate" where
  "team_groups R client team s =
     (if tm_AccessGroups (cr_Spec team) = [] then (Next [], s)
      else
        case ListAccessGroups client s of
          (Inl err, s) \<Rightarrow>
            (if is_ErrNotFound err then (Next [], s)
             else kit_classify team_kit (te_ctl R) team err ''GET /v1/access_group'' s)
        | (Inr groups, s) \<Rightarrow> (Next groups, s))"

definition narrow ::
  "'w TeamReconciler \<Rightarrow> 'w http \<Rightarrow> json gomap \<Rightarrow> TeamSpec cr \<Rightarrow> 'w rstate \<Rightarrow> TeamSpec cr flow \<times> 'w rstate" where
  "narrow R client body team s =
     (if cr_ID team = '''' \<or> cr_Hash team = team_hash R body then (Next team, s)
      else
        case UpdateTeamRaw client (with_id (cr_ID team) body) s of
          (Inl uerr, s) \<Rightarrow>
            kit_classify team_kit (te_ctl R) team uerr ''POST /team/update (narrow to resolved access groups)'' s
        | (Inr _, s) \<Rightarrow>
            (let (now, s) = tick (te_ctl R) s in (Next (team\<lparr>cr_Hash := team_hash R body, cr_At := Some now\<rparr>), s)))"

definition narrowAndPark ::
  "'w TeamReconciler \<Rightarrow> 'w http ConnectionSnapshot \<Rightarrow> 'w http \<Rightarrow> json gomap \<Rightarrow> string list \<Rightarrow> TeamSpec cr \<Rightarrow> 'w rstate
   \<Rightarrow> unit flow \<times> 'w rstate" where
  "narrowAndPark R snap client body missing team =
     andThen (narrow R client body team) (\<lambda>team.
       kit_park team_kit (te_ctl R) team reasonAccessGroupNotFound
         (''spec.accessGroups not yet registered in LiteLLM: '' @ join '', '' missing) (requeue_rejected snap))"

definition team_lookup :: "'w http \<Rightarrow> TeamSpec cr \<Rightarrow> 'w rstate \<Rightarrow> (lerror + string) \<times> 'w rstate" where
  "team_lookup client team s =
     (case ListTeamsByAlias client (Name (cr_Meta team)) s of
        (Inl e, s) \<Rightarrow> (Inl e, s)
      | (Inr entries, s) \<Rightarrow> (Inr (if \<exists>e \<in> set entries. tl_TeamID e = cr_ID team then cr_ID team else ''''), s))"

definition create_team ::
  "'w TeamReconciler \<Rightarrow> NamespacedName \<Rightarrow> 'w http \<Rightarrow> json gomap \<Rightarrow> TeamSpec cr \<Rightarrow> 'w rstate \<Rightarrow> string flow \<times> 'w rstate" where
  "create_team R key client body team =
     andThen (kit_throttle team_kit (te_ctl R) key team) (\<lambda>_ s.
       case CreateTeamRaw client (with_id (Name (cr_Meta team)) body) s of
         (Inl cerr, s) \<Rightarrow> kit_classify team_kit (te_ctl R) team cerr ''POST /team/new'' s
       | (Inr _, s) \<Rightarrow> (Next (Name (cr_Meta team)), kit_created team_kit (te_ctl R) key team s))"

definition update_team ::
  "'w TeamReconciler \<Rightarrow> 'w http \<Rightarrow> json gomap \<Rightarrow> TeamSpec cr \<Rightarrow> TeamListEntry list \<Rightarrow> 'w rstate \<Rightarrow> string flow \<times> 'w rstate" where
  "update_team R client body team entries s =
     (case UpdateTeamRaw client (with_id (smallest_id entries) body) s of
        (Inl uerr, s) \<Rightarrow> kit_classify team_kit (te_ctl R) team uerr ''POST /team/update'' s
      | (Inr _, s) \<Rightarrow> (Next (smallest_id entries), kit_updated team_kit team s))"

definition team_mutate ::
  "'w TeamReconciler \<Rightarrow> NamespacedName \<Rightarrow> 'w http ConnectionSnapshot \<Rightarrow> 'w http \<Rightarrow> json gomap \<Rightarrow> TeamSpec cr \<Rightarrow> 'w rstate
   \<Rightarrow> string flow \<times> 'w rstate" where
  "team_mutate R key snap client body team s =
     (case ListTeamsByAlias client (Name (cr_Meta team)) s of
        (Inl err, s) \<Rightarrow>
          (if is_ErrNotFound err then create_team R key client body team s
           else if as_auth401 err = None \<and> is4xxNon401Status err 404 then team_mismatch R snap team s
           else kit_classify team_kit (te_ctl R) team err ''GET /v2/team/list'' s)
      | (Inr [], s) \<Rightarrow> create_team R key client body team s
      | (Inr (e # es), s) \<Rightarrow> update_team R client body team (e # es) s)"

definition team_live ::
  "'w TeamReconciler \<Rightarrow> NamespacedName \<Rightarrow> TeamSpec cr \<Rightarrow> 'w rstate \<Rightarrow> unit flow \<times> 'w rstate" where
  "team_live R key team =
     andThen (kit_gate team_kit (te_ctl R) team) (\<lambda>(snap, client).
     andThen (team_groups R client team) (\<lambda>groups.
       let (body, missing) = team_body (Name (cr_Meta team)) (cr_Spec team) groups in
       if length missing > 0 then narrowAndPark R snap client body missing team
       else kit_converge team_kit (te_ctl R) key (team_hash R body) (team_lookup client team)
              (team_mutate R key snap client body) team))"

definition team_Reconcile ::
  "'w TeamReconciler \<Rightarrow> NamespacedName \<Rightarrow> implicit \<Rightarrow> 'w rstate \<Rightarrow> verdict \<times> implicit \<times> 'w rstate" where
  "team_Reconcile R key mem s =
     (case kc_get (ct_kube (te_ctl R)) (world s) key of
        (Inl e, w) \<Rightarrow>
          (let s = set_world w s in
           if IsNotFoundK e then
             (if snd key = teamAliasDefault \<and> fst key = te_Namespace R then reconcileImplicitDefault R mem s
              else (Inr no_requeue, mem, s))
           else (Inl (KubeErr e), mem, s))
      | (Inr team, w) \<Rightarrow>
          (let s = set_world w s in
           if DeletionTimestamp (cr_Meta team) then reconcileDeletion R team mem s
           else if \<not> ContainsFinalizer (ct_lib (te_ctl R)) (Finalizers (cr_Meta team)) teamFinalizer then
             (let (v, s) = kit_update (te_ctl R) team
                (AddFinalizer (ct_lib (te_ctl R)) (Finalizers (cr_Meta team)) teamFinalizer) s
              in (team_kube_error v, mem, s))
           else (case team_live R key team s of
                   (Return v, s) \<Rightarrow> (v, mem, s) | (Next _, s) \<Rightarrow> (Inr no_requeue, mem, s))))"

definition ResetImplicitDefaultCache :: "implicit \<Rightarrow> implicit" where
  "ResetImplicitDefaultCache mem = \<lparr>im_Hash = '''', im_TeamID = ''''\<rparr>"

definition ListTeamRequests :: "kube_error + TeamSpec cr list \<Rightarrow> kube_error + NamespacedName list" where
  "ListTeamRequests listed = (case listed of Inl e \<Rightarrow> Inl e | Inr teams \<Rightarrow> Inr (map cr_key teams))"

definition accessGroupToTeams :: "kube_error + TeamSpec cr list \<Rightarrow> string \<Rightarrow> NamespacedName list" where
  "accessGroupToTeams listed name =
     (case listed of Inl _ \<Rightarrow> [] | Inr teams \<Rightarrow> map cr_key (filter (\<lambda>t. name \<in> set (tm_AccessGroups (cr_Spec t))) teams))"

subsection \<open>What a team write carries\<close>

text \<open>
  A closed body: every field LiteLLM would otherwise keep from an earlier write is present, nothing is
  granted directly but models that are no wildcard behind the sentinel, and the groups attached.
\<close>

definition required_fields :: "string list" where
  "required_fields = [''team_alias'', ''max_budget'', ''budget_duration'', ''rpm_limit'', ''tpm_limit'',
     ''models'', ''object_permission'', ''access_group_ids'']"

definition closed_body :: "json gomap \<Rightarrow> bool" where
  "closed_body body \<longleftrightarrow> set required_fields \<subseteq> set (keys body) \<and>
     map_of body ''object_permission'' = Some closed_permission \<and>
     (\<exists>ms. map_of body ''models'' = Some (strings_json (modelDenyAllSentinel # ms)) \<and> list_all (\<lambda>m. \<not> skip_model m) ms) \<and>
     (\<exists>ids. map_of body ''access_group_ids'' = Some (strings_json ids))"

text \<open>The requests a team reconcile may send, with \<open>D\<close> the deletions it may ask for.\<close>

fun team_ok :: "(string list \<Rightarrow> bool) \<Rightarrow> effect \<Rightarrow> bool" where
  "team_ok D (Http m p None) = (m = ''GET'')"
| "team_ok D (Http m p (Some j)) = (m = ''POST'' \<and>
     (p = ''/team/delete'' \<and> (\<exists>ids. j = JObj [(''team_ids'', strings_json ids)] \<and> D ids) \<or>
      (p = ''/team/new'' \<or> p = ''/team/update'') \<and> (\<exists>body. j = JObj body \<and> closed_body body)))"
| "team_ok D e = True"

lemma report_team_ok: "is_report e \<Longrightarrow> team_ok D e"
  by (cases e) auto

lemma reports_ok: "emits is_report s s' \<Longrightarrow> emits (team_ok D) s s'"
  by (erule emits_reports) (rule report_team_ok)

lemma setback_ok: "emits is_setback s s' \<Longrightarrow> emits (team_ok D) s s'"
  by (rule reports_ok) (rule setback_emits)

lemma mem_fold_attach:
  "m \<in> set (fold attach_model ms out) \<longleftrightarrow> m \<in> set out \<or> m \<in> set ms \<and> \<not> skip_model m"
  by (induction ms arbitrary: out) (auto simp: attach_model_def)

lemma distinct_fold_attach: "distinct out \<Longrightarrow> distinct (fold attach_model ms out)"
  by (induction ms arbitrary: out) (auto simp: attach_model_def)

lemma attachedGroupModels_exact:
  "attachedGroupModels names byName = sorted_list_of_set
     {m. \<not> skip_model m \<and> (\<exists>n \<in> set names. \<exists>ms. map_of byName n = Some ms \<and> m \<in> set ms)}"
proof -
  let ?f = "\<lambda>n. fold attach_model (case map_of byName n of None \<Rightarrow> [] | Some ms \<Rightarrow> ms)"
  have mem: "m \<in> set (fold ?f names out) \<longleftrightarrow>
      m \<in> set out \<or> \<not> skip_model m \<and> (\<exists>n \<in> set names. \<exists>ms. map_of byName n = Some ms \<and> m \<in> set ms)" for m out
    by (induction names arbitrary: out) (auto simp: mem_fold_attach split: option.splits)
  have "distinct out \<Longrightarrow> distinct (fold ?f names out)" for out
    by (induction names arbitrary: out) (auto simp: distinct_fold_attach split: option.splits)
  then have "sort (fold ?f names []) = sorted_list_of_set (set (fold ?f names []))"
    by (simp add: sorted_list_of_set_sort_remdups distinct_remdups_id)
  moreover have "set (fold ?f names []) =
      {m. \<not> skip_model m \<and> (\<exists>n \<in> set names. \<exists>ms. map_of byName n = Some ms \<and> m \<in> set ms)}"
    using mem [of _ "[]"] by auto
  ultimately show ?thesis
    by (simp add: attachedGroupModels_def)
qed

lemma attached_finite [simp]:
  "finite {m. \<not> skip_model m \<and> (\<exists>n \<in> set names. \<exists>ms. map_of byName n = Some ms \<and> m \<in> set ms)}"
proof (rule finite_subset)
  show "{m. \<not> skip_model m \<and> (\<exists>n \<in> set names. \<exists>ms. map_of byName n = Some ms \<and> m \<in> set ms)}
      \<subseteq> (\<Union>n \<in> set names. case map_of byName n of None \<Rightarrow> {} | Some ms \<Rightarrow> set ms)"
    by (force split: option.splits)
qed (auto split: option.splits)

lemma overlay_grant:
  "map_of (overlay (closedTeamGrant ids ms) base) =
     (map_of base)(''models'' \<mapsto> strings_json (modelDenyAllSentinel # ms), ''object_permission'' \<mapsto> closed_permission,
       ''access_group_ids'' \<mapsto> strings_json ids)"
  by (simp add: overlay_def closedTeamGrant_def map_of_put)

lemma keys_overlay: "set (keys (overlay extra base)) = set (keys extra) \<union> set (keys base)"
  by (induction extra arbitrary: base) (simp_all add: overlay_def case_prod_beta)

lemma closed_overlay:
  assumes "list_all (\<lambda>m. \<not> skip_model m) ms"
    and "{''team_alias'', ''max_budget'', ''budget_duration'', ''rpm_limit'', ''tpm_limit''} \<subseteq> set (keys base)"
  shows "closed_body (overlay (closedTeamGrant ids ms) base)"
proof -
  have "set required_fields \<subseteq> set (keys (overlay (closedTeamGrant ids ms) base))"
    unfolding keys_overlay using assms(2) by (simp add: required_fields_def closedTeamGrant_def)
  then show ?thesis using assms(1) unfolding closed_body_def overlay_grant by auto
qed

lemma closed_implicit: "closed_body implicitDefaultBody"
  unfolding implicitDefaultBody_def by (rule closed_overlay) simp_all

lemma closed_with_id: "closed_body body \<Longrightarrow> closed_body (with_id i body)"
  by (auto simp: closed_body_def with_id_def map_of_put required_fields_def)

lemma closed_team_body: "closed_body (fst (team_body name spec groups))"
proof -
  have "{''team_alias'', ''max_budget'', ''budget_duration'', ''rpm_limit'', ''tpm_limit''} \<subseteq> set (keys (team_base name spec))"
    by (auto simp: team_base_def limit_fields_def split: option.splits)
  then show ?thesis
    unfolding team_body_def Let_def case_prod_beta fst_conv
    by (rule closed_overlay [rotated]) (simp add: attachedGroupModels_exact list_all_iff)
qed

lemmas closed_bodies = closed_implicit closed_team_body closed_with_id

subsection \<open>Every step sends permitted requests only\<close>

lemma makeRequest_ok:
  fixes s :: "'w rstate"
  shows "team_ok D (Http m p b) \<Longrightarrow> emits (team_ok D) s (snd (makeRequest http m p b s))"
  by (simp add: emits_def makeRequest_parts)

lemma team_pages_ok:
  fixes s :: "'w rstate"
  shows "emits (team_ok D) s (snd (team_pages http al n page out s))"
proof (induction n arbitrary: page out s)
  case (Suc n)
  obtain r s1 where r: "makeRequest http ''GET'' (team_page_path al page) None s = (r, s1)" by fastforce
  then have e: "emits (team_ok D) s s1" using makeRequest_ok [of D "''GET''" "team_page_path al page" None s http] by simp
  then show ?case using emits_trans [OF e Suc.IH] by (auto simp: r Let_def split: sum.splits)
qed simp

lemma team_calls_ok:
  fixes s :: "'w rstate"
  shows "emits (team_ok D) s (snd (ListTeamsByAlias http al s))"
    and "emits (team_ok D) s (snd (ListAccessGroups http s))"
    and "closed_body body \<Longrightarrow> emits (team_ok D) s (snd (CreateTeamRaw http body s))"
    and "closed_body body \<Longrightarrow> emits (team_ok D) s (snd (UpdateTeamRaw http body s))"
    and "D ids \<Longrightarrow> emits (team_ok D) s (snd (DeleteTeam http ids s))"
proof -
  show "emits (team_ok D) s (snd (ListTeamsByAlias http al s))" by (simp add: ListTeamsByAlias_def team_pages_ok)
  have req: "emits (team_ok D) s (snd (case makeRequest http m p b s of (Inl e, s) \<Rightarrow> (Inl e, s) | (Inr raw, s) \<Rightarrow> (f raw, s)))"
    if "team_ok D (Http m p b)" for m p b and f :: "http_response \<Rightarrow> lerror + 'c"
    using makeRequest_ok [OF that, of s http] by (auto split: prod.splits sum.splits)
  show "emits (team_ok D) s (snd (ListAccessGroups http s))"
    unfolding ListAccessGroups_def by (rule req) simp
  show "closed_body body \<Longrightarrow> emits (team_ok D) s (snd (CreateTeamRaw http body s))"
    unfolding CreateTeamRaw_def by (rule req) simp
  show "closed_body body \<Longrightarrow> emits (team_ok D) s (snd (UpdateTeamRaw http body s))"
    unfolding UpdateTeamRaw_def by (rule req) simp
  show "D ids \<Longrightarrow> emits (team_ok D) s (snd (DeleteTeam http ids s))"
    unfolding DeleteTeam_def by (rule req) auto
qed

lemmas team_setbacks = setback_ok [OF kit_park_setback] setback_ok [OF kit_classify_setback] setback_ok [OF kit_ack_setback]

lemma team_live_ok: "emits (team_ok D) s (snd (team_live R key team s))"
proof -
  have groups: "emits (team_ok D) s (snd (team_groups R client team s))" for client s
    unfolding team_groups_def by (simp, intro impI after_call team_calls_ok) (auto intro: team_setbacks)
  have create: "emits (team_ok D) s (snd (create_team R key client body team s))"
    if "closed_body body" for client body team s
    unfolding create_team_def
    by (intro emits_andThen after_call team_calls_ok closed_with_id that setback_ok [OF kit_throttle_setback] team_setbacks)
      (simp add: setback_ok [OF kit_created_setback])
  have update: "emits (team_ok D) s (snd (update_team R client body team entries s))"
    if "closed_body body" for client body team entries s
    unfolding update_team_def
    by (intro after_call team_calls_ok closed_with_id that team_setbacks) (simp add: setback_ok [OF kit_updated_setback])
  have mutate: "emits (team_ok D) s (snd (team_mutate R key snap client body team s))"
    if "closed_body body" for snap client body team s
  proof -
    obtain r s1 where r: "ListTeamsByAlias client (Name (cr_Meta team)) s = (r, s1)" by fastforce
    then have e: "emits (team_ok D) s s1" using team_calls_ok(1) [of D s client "Name (cr_Meta team)"] by simp
    show ?thesis
      using emits_trans [OF e create [OF that]] emits_trans [OF e update [OF that]] emits_trans [OF e team_setbacks(1)]
        emits_trans [OF e team_setbacks(2)]
      by (auto simp: team_mutate_def r team_mismatch_def split: sum.splits list.splits)
  qed
  have lookup: "emits (team_ok D) s (snd (team_lookup client team s))" for client s
    unfolding team_lookup_def by (intro after_call team_calls_ok) simp_all
  have narrowed: "emits (team_ok D) s (snd (narrow R client body team s))" if "closed_body body" for client body team s
    unfolding narrow_def
    by (simp, intro impI after_call team_calls_ok closed_with_id that team_setbacks)
      (auto intro: emits_same_log dest: tick_log split: prod.splits)
  have "emits (team_ok D) s1 (snd ((let (body, missing) = team_body (Name (cr_Meta team)) (cr_Spec team) groups in
       if length missing > 0 then narrowAndPark R snap client body missing team
       else kit_converge team_kit (te_ctl R) key (team_hash R body) (team_lookup client team)
              (team_mutate R key snap client body) team) s1))" for snap client groups s1
  proof -
    obtain body missing where b: "team_body (Name (cr_Meta team)) (cr_Spec team) groups = (body, missing)" by fastforce
    then have c: "closed_body body" using closed_team_body [of "Name (cr_Meta team)" "cr_Spec team" groups] by simp
    have "emits (team_ok D) s1 (snd (narrowAndPark R snap client body missing team s1))"
      unfolding narrowAndPark_def by (intro emits_andThen narrowed c team_setbacks)
    moreover have "emits (team_ok D) s1 (snd (kit_converge team_kit (te_ctl R) key (team_hash R body) (team_lookup client team)
        (team_mutate R key snap client body) team s1))"
      by (intro kit_converge_emits lookup mutate c report_team_ok)
    ultimately show ?thesis by (simp add: b)
  qed
  then show ?thesis
    unfolding team_live_def
    by (intro emits_andThen [OF setback_ok [OF kit_gate_setback]]) (auto intro!: emits_andThen groups)
qed

lemma reconcile_total_ok: "emits (team_ok D) s (reconcile_total k l s)"
  by (simp add: reconcile_total_def)

lemma classify_implicit_ok: "emits (team_ok D) s (snd (classify_implicit R err op s))"
  unfolding classify_implicit_def by (intro setback_ok classifyMutationError_setback) simp

lemma implicit_ok: "emits (team_ok D) s (snd (snd (reconcileImplicitDefault R mem s)))"
proof -
  have store: "emits (team_ok D) s (snd (snd (implicit_store R mem p)))" if "emits (team_ok D) s (snd p)" for s p
    using that emits_trans [OF that reconcile_total_ok]
    by (auto simp: implicit_store_def split: prod.splits flow.splits)
  have create: "emits (team_ok D) s (snd (implicit_apply R mem client [] s))" for client s
    unfolding implicit_apply_def Let_def
    by (simp, intro after_call team_calls_ok closed_bodies) (auto simp: case_prod_beta intro: classify_implicit_ok)
  have upd: "emits (team_ok D) s (snd (implicit_apply R mem client entries s))" if "entries \<noteq> []" for client entries s
    using that unfolding implicit_apply_def Let_def
    by (simp add: reconcile_total_ok, intro impI after_call team_calls_ok closed_bodies)
      (auto simp: case_prod_beta intro: classify_implicit_ok)
  have applied: "emits (team_ok D) s (snd (implicit_apply R mem client entries s))" for client entries s
    using create upd by (cases "entries = []") auto
  have usable: "emits (team_ok D) s (snd (snd (reconcileImplicitDefault R mem s)))"
    if "connected s client" for client
  proof -
    obtain r s1 where r: "ListTeamsByAlias client teamAliasDefault s = (r, s1)" by fastforce
    then have e: "emits (team_ok D) s s1" using team_calls_ok(1) [of D s client teamAliasDefault] by simp
    show ?thesis
      using that emits_trans [OF e store [OF applied]] emits_trans [OF e classify_implicit_ok]
      by (auto simp: reconcileImplicitDefault_def r Let_def case_prod_beta split: sum.splits)
  qed
  then show ?thesis
    by (cases "\<exists>client. connected s client")
      (auto simp: reconcileImplicitDefault_def Let_def reconcile_total_ok split: bool.splits option.splits)
qed

lemma default_id_ok: "emits (team_ok D) s (snd (default_id R team client s))"
  unfolding default_id_def by (simp, intro impI after_call team_calls_ok) (auto intro: team_setbacks)

lemma release_default_ok: "emits (team_ok D) s (snd (snd (release_default R team mem s)))"
proof (cases "\<exists>client. connected s client")
  case True
  then obtain client where c: "connected s client" by blast
  obtain f s1 where i: "default_id R team client s = (f, s1)" by fastforce
  have e: "emits (team_ok D) s s1" using default_id_ok [of D s R team client] i by simp
  define r where "r j = fst (UpdateTeamRaw client (with_id j implicitDefaultBody) s1)" for j
  define s2 where "s2 j = snd (UpdateTeamRaw client (with_id j implicitDefaultBody) s1)" for j
  have u: "UpdateTeamRaw client (with_id j implicitDefaultBody) s1 = (r j, s2 j)" for j by (simp add: r_def s2_def)
  have "emits (team_ok D) s1 (s2 j)" for j
    using team_calls_ok(4) [OF closed_with_id [OF closed_implicit], of D s1 client j] by (simp add: u)
  then have "emits (team_ok D) s (s2 j)" for j by (rule emits_trans [OF e])
  then show ?thesis
    using c e by (auto simp: release_default_def i u Let_def intro: emits_trans [OF _ invalidate_cache_emits]
        split: flow.splits sum.splits)
next
  case False
  then show ?thesis by (auto simp: release_default_def Let_def reconcile_total_ok split: bool.splits option.splits)
qed

text \<open>The one deletion a reconcile may ask for: the persisted id, or the least one listed under the alias.\<close>

definition doomed :: "TeamSpec cr \<Rightarrow> 'w rstate \<Rightarrow> string list \<Rightarrow> bool" where
  "doomed team s ids \<longleftrightarrow> Name (cr_Meta team) \<noteq> teamAliasDefault \<and>
     (\<exists>client. connected s client \<and>
       (ids = [cr_ID team] \<and> cr_ID team \<noteq> '''' \<or>
        cr_ID team = '''' \<and> (\<exists>entries. fst (ListTeamsByAlias client (Name (cr_Meta team)) s) = Inr entries \<and> entries \<noteq> [] \<and>
           ids = [Min (set (map tl_TeamID entries))])))"

lemma smallest_id_Min:
  assumes "entries \<noteq> []"
  shows "smallest_id entries = Min (set (map tl_TeamID entries))"
proof -
  obtain e es where s: "sort_key tl_TeamID entries = e # es" using assms by (metis list.exhaust set_empty set_sort)
  have "sorted (tl_TeamID e # map tl_TeamID es)" using sorted_sort_key [of tl_TeamID entries] s by simp
  moreover have "set (map tl_TeamID entries) = tl_TeamID ` set (e # es)" by (metis s set_map set_sort)
  ultimately show ?thesis by (auto simp: smallest_id_def s intro!: Min_eqI [symmetric])
qed

lemma release_team_ok:
  assumes "Name (cr_Meta team) \<noteq> teamAliasDefault"
  shows "emits (team_ok (doomed team s)) s (snd (release_team R team s))"
proof (cases "\<exists>client. connected s client")
  case True
  then obtain client where c: "connected s client" by blast
  let ?D = "doomed team s"
  have ident: "emits (team_ok ?D) s (snd (team_id R snap client p team s))" for snap p
    unfolding team_id_def
    by (simp, intro impI after_call team_calls_ok)
      (auto simp: team_mismatch_def team_rejected_def intro: team_setbacks intro!: emits_andThen)
  have doom: "?D [i]" if run: "team_id R snap client p team s = (Next i, s1)" and ne: "i \<noteq> ''''" for snap p i s1
  proof (cases "cr_ID team = ''''")
    case True
    obtain r s2 where l: "ListTeamsByAlias client (Name (cr_Meta team)) s = (r, s2)" by fastforce
    have "fst (kit_ack team_kit team p m False s2) \<noteq> Next ()" for m by (simp add: kit_ack_Next)
    then have "andThen (kit_ack team_kit team p m False) (\<lambda>_ s. (Next '''', s)) s2 \<noteq> (Next i, s1)" for m
      using ne by (auto simp: andThen_def split: prod.splits flow.splits)
    then obtain entries where "r = Inr entries" "i = smallest_id entries"
      using run True by (auto simp: team_id_def l team_mismatch_def team_rejected_def kit_park_def split: sum.splits if_splits prod.splits)
    then show ?thesis
      using True ne c assms l smallest_id_Min [of entries]
      by (cases "entries = []") (auto simp: doomed_def smallest_id_def)
  next
    case False
    then show ?thesis using that c assms by (auto simp: doomed_def team_id_def)
  qed
  have del: "emits (team_ok ?D) s1 (snd (delete_team R snap client p team i s1))"
    if "i \<noteq> '''' \<Longrightarrow> ?D [i]" for snap p i s1
    using that unfolding delete_team_def team_gone_def
    by (cases "i = ''''") (auto simp: team_rejected_def intro!: after_call team_calls_ok team_setbacks)
  have "emits (team_ok ?D) s (snd (andThen (team_id R snap client p team) (delete_team R snap client p team) s))" for snap p
    by (rule emits_andThen, rule ident, rule del, rule doom)
  then show ?thesis using c by (simp add: release_team_def Let_def)
next
  case False
  then show ?thesis
    by (auto simp: release_team_def Let_def ackUnavailable_def intro: team_setbacks split: bool.splits option.splits)
qed

lemma drop_team_ok: "emits (team_ok D) s (snd (drop_team_finalizer R team s))"
proof -
  have "emits (team_ok D) s (snd (kit_drop_finalizer team_kit (te_ctl R) team s))"
    by (rule kit_drop_emits) (simp_all add: report_team_ok)
  then show ?thesis
    by (auto simp: drop_team_finalizer_def split: prod.splits sum.splits intro: emits_trans [OF _ reconcile_total_ok])
qed

lemma team_ok_mono: "emits (team_ok D) s s' \<Longrightarrow> (\<And>ids. D ids \<Longrightarrow> D' ids) \<Longrightarrow> emits (team_ok D') s s'"
proof (erule emits_mono)
  fix e assume "team_ok D e" and "\<And>ids. D ids \<Longrightarrow> D' ids"
  then show "team_ok D' e" by (cases e; cases "case e of Http m p b \<Rightarrow> b | _ \<Rightarrow> None") (auto split: option.splits)
qed

lemma reconcileDeletion_ok:
  "emits (team_ok (doomed team s)) s (snd (snd (reconcileDeletion R team mem s)))"
proof (cases "Name (cr_Meta team) = teamAliasDefault")
  case True
  obtain f mem1 s1 where r: "release_default R team mem s = (f, mem1, s1)" by (metis surj_pair)
  then have "emits (team_ok (doomed team s)) s s1" using release_default_ok [of "doomed team s" s R team mem] by simp
  then show ?thesis
    using True by (auto simp: reconcileDeletion_def r case_prod_beta split: flow.splits intro: emits_trans [OF _ drop_team_ok])
next
  case False
  obtain f s1 where r: "release_team R team s = (f, s1)" by fastforce
  then have "emits (team_ok (doomed team s)) s s1" using release_team_ok [OF False, of s R] by simp
  then show ?thesis
    using False by (auto simp: reconcileDeletion_def r case_prod_beta split: flow.splits intro: emits_trans [OF _ drop_team_ok])
qed

text \<open>What the handler may delete: only for the object it fetched, and only while that one is being deleted.\<close>

definition may_delete :: "'w TeamReconciler \<Rightarrow> NamespacedName \<Rightarrow> 'w rstate \<Rightarrow> string list \<Rightarrow> bool" where
  "may_delete R key s ids \<longleftrightarrow>
     (\<exists>team w. kc_get (ct_kube (te_ctl R)) (world s) key = (Inr team, w) \<and> DeletionTimestamp (cr_Meta team) \<and>
        doomed team (set_world w s) ids)"

lemma team_Reconcile_ok: "emits (team_ok (may_delete R key s)) s (snd (snd (team_Reconcile R key mem s)))"
proof -
  obtain r w where g: "kc_get (ct_kube (te_ctl R)) (world s) key = (r, w)" by fastforce
  let ?s = "set_world w s" and ?D = "may_delete R key s"
  have step: "emits (team_ok ?D) s s'" if "emits (team_ok ?D) ?s s'" for s' by (rule emits_trans [OF _ that]) simp
  show ?thesis
  proof (cases r)
    case (Inl e)
    then show ?thesis using step [OF implicit_ok] by (auto simp: team_Reconcile_def g Let_def)
  next
    case (Inr team)
    have "emits (team_ok ?D) s (snd (snd (reconcileDeletion R team mem ?s)))" if "DeletionTimestamp (cr_Meta team)"
      by (rule step, rule team_ok_mono [OF reconcileDeletion_ok]) (use that g Inr in \<open>auto simp: may_delete_def\<close>)
    moreover have "emits (team_ok ?D) s (snd (kit_update (te_ctl R) team fs ?s))" for fs
      by (rule step) (simp add: emits_def kit_update_log)
    moreover have "emits (team_ok ?D) s (snd (team_live R key team ?s))" by (rule step [OF team_live_ok])
    ultimately show ?thesis
      using Inr by (auto simp: team_Reconcile_def g Let_def case_prod_beta split: flow.splits prod.splits)
  qed
qed

subsection \<open>Properties\<close>


text \<open>
  C20.  A team is deleted only while its own object is being deleted, over a usable connection, one id at a
  time: the persisted one, or the least id of those LiteLLM lists under exactly this alias.  The team
  aliased \<^verbatim>\<open>default\<close> is never deleted.
\<close>

theorem team_deletes_only:
  assumes "Http ''POST'' ''/team/delete'' b \<in> set (drop (length (log s)) (log (snd (snd (team_Reconcile R key mem s)))))"
  shows "\<exists>team w client i. kc_get (ct_kube (te_ctl R)) (world s) key = (Inr team, w) \<and> DeletionTimestamp (cr_Meta team) \<and>
    Name (cr_Meta team) \<noteq> ''default'' \<and> connected s client \<and> b = Some (JObj [(''team_ids'', strings_json [i])]) \<and>
    (cr_ID team \<noteq> '''' \<and> i = cr_ID team \<or>
     cr_ID team = '''' \<and> (\<exists>entries. fst (ListTeamsByAlias client (Name (cr_Meta team)) (set_world w s)) = Inr entries \<and>
       entries \<noteq> [] \<and> i = Min (set (map tl_TeamID entries))))"
proof -
  have "team_ok (may_delete R key s) (Http ''POST'' ''/team/delete'' b)"
    using team_Reconcile_ok [of R key s mem] assms by (auto simp: emits_def list_all_iff)
  then obtain ids where b: "b = Some (JObj [(''team_ids'', strings_json ids)])" and d: "may_delete R key s ids"
    by (cases b) auto
  from d obtain team w where t: "kc_get (ct_kube (te_ctl R)) (world s) key = (Inr team, w)" "DeletionTimestamp (cr_Meta team)"
    "doomed team (set_world w s) ids" by (auto simp: may_delete_def)
  have "r_cache (set_world w s) = r_cache s" by (simp add: set_world_def)
  with t(3) show ?thesis
    using t(1,2) b unfolding doomed_def teamAliasDefault_def by auto
qed

definition example_team_spec :: TeamSpec where
  "example_team_spec = \<lparr>tm_AccessGroups = [''g'', ''h''], tm_Budget = None, tm_RateLimits = None, tm_DeletionPolicy = ''Delete''\<rparr>"

definition example_team_R :: "TeamSpec cr \<Rightarrow> unit TeamReconciler" where
  "example_team_R team = \<lparr>te_ctl = example_ctl team, te_sha256hex = (\<lambda>t. t), te_Namespace = ''ns''\<rparr>"

definition example_team :: "bool \<Rightarrow> TeamSpec cr" where
  "example_team deleting = example_cr example_team_spec ''t'' deleting teamFinalizer ''id1''"

lemma example_team_deleted:
  "log (snd (snd (team_Reconcile (example_team_R (example_team True)) (''ns'', ''t'') mem (example_online (answering 200 (JObj [])))))) =
     [Http ''POST'' ''/team/delete'' (Some (JObj [(''team_ids'', strings_json [''id1''])])),
      Metric ''DriftCorrectedTotal'' [''team'', ''delete_vanished''], Metric ''CRStatusAge.Forget'' [teamKind, ''t''],
      Metric ''DeletionBlocked.Forget'' [makeDeletionBlockedKey teamKind ''ns'' ''t''], ObjectUpdate [],
      Metric ''ReconcileTotal'' [teamKind, ''success'']]"
  by (simp add: team_Reconcile_def reconcileDeletion_def example_team_R_def example_ctl_def example_team_def example_cr_def
      klib_std_def team_kit_def release_team_def example_online_snapshot zero_snapshot_def team_id_def delete_team_def
      DeleteTeam_def answering_ok is2xx_def team_gone_def drop_team_finalizer_def kit_drop_finalizer_def kit_update_def
      kit_unblock_def DeletionBlocked_Forget_def reconcile_total_def emit_def teamAliasDefault_def andThen_def Let_def)

theorem team_deletes_only_witness:
  "\<exists>client. connected (example_online (answering 200 (JObj []))) client \<and> DeletionTimestamp (cr_Meta (example_team True))"
  using team_deletes_only [of "Some (JObj [(''team_ids'', strings_json [''id1''])])" "example_online (answering 200 (JObj []))"
      "example_team_R (example_team True)" "(''ns'', ''t'')" "\<lparr>im_Hash = '''', im_TeamID = ''''\<rparr>"]
  unfolding example_team_deleted
  by (auto simp: example_team_R_def example_ctl_def example_online_snapshot)

lemma resolveNames_ids: "set (fst (resolveNames names ids)) = {i. \<exists>n \<in> set names. map_of ids n = Some i}"
  by (induction names ids rule: resolveNames.induct) (auto simp: Let_def split: option.splits prod.splits)

lemma map_of_indexed:
  assumes "distinct (map f xs)"
  shows "map_of (fold (\<lambda>x. map_put (f x) (g x)) xs []) n = map_option g (find (\<lambda>x. f x = n) xs)"
proof -
  have "map_of (fold (\<lambda>x. map_put (f x) (g x)) xs out) n =
      (case find (\<lambda>x. f x = n) xs of None \<Rightarrow> map_of out n | Some x \<Rightarrow> Some (g x))" if "distinct (map f xs)" for xs out
    using that
  proof (induction xs arbitrary: out)
    case (Cons x xs)
    then have "find (\<lambda>y. f y = f x) xs = None" by (auto simp: find_None_iff image_iff)
    then show ?case using Cons by (auto simp: map_of_put split: option.splits)
  qed simp
  then show ?thesis using assms by (auto split: option.splits)
qed

lemma find_named:
  assumes "distinct (map f xs)"
  shows "find (\<lambda>x. f x = n) xs = Some x \<longleftrightarrow> x \<in> set xs \<and> f x = n" and "find (\<lambda>x. f x = n) xs = None \<longleftrightarrow> n \<notin> f ` set xs"
  using assms by (induction xs) (auto simp: image_iff)

lemma team_body_missing:
  assumes "distinct (map ge_AccessGroupName groups)"
  shows "snd (team_body name spec groups) = filter (\<lambda>n. n \<notin> ge_AccessGroupName ` set groups) (tm_AccessGroups spec)"
  by (simp add: team_body_def Let_def case_prod_beta resolveNames_partition index_by_def map_of_indexed [OF assms] find_named [OF assms])

text \<open>
  C21.  What a team is granted, for groups with distinct names: the ids of the groups its spec names and
  LiteLLM lists, and beside the sentinel exactly the models of those groups that are no wildcard;
  independent of the order in which spec and listing name them.  The names without a group are all
  reported.
\<close>

theorem team_grant_exact:
  assumes "distinct (map ge_AccessGroupName groups)"
  shows "map_of (fst (team_body name spec groups)) ''models'' = Some (strings_json (modelDenyAllSentinel #
      sorted_list_of_set {m. \<not> skip_model m \<and> (\<exists>g \<in> set groups. ge_AccessGroupName g \<in> set (tm_AccessGroups spec) \<and> m \<in> set (ge_AccessModelNames g))})) \<and>
    (\<exists>ids. map_of (fst (team_body name spec groups)) ''access_group_ids'' = Some (strings_json ids) \<and> sorted ids \<and>
       set ids = {ge_AccessGroupID g | g. g \<in> set groups \<and> ge_AccessGroupName g \<in> set (tm_AccessGroups spec)}) \<and>
    snd (team_body name spec groups) = filter (\<lambda>n. n \<notin> ge_AccessGroupName ` set groups) (tm_AccessGroups spec)"
proof -
  note ix = map_of_indexed [OF assms] and fd = find_named [OF assms]
  have models: "{m. \<not> skip_model m \<and> (\<exists>n \<in> set (tm_AccessGroups spec). \<exists>ms.
        map_of (fold (\<lambda>g. map_put (ge_AccessGroupName g) (ge_AccessModelNames g)) groups []) n = Some ms \<and> m \<in> set ms)} =
      {m. \<not> skip_model m \<and> (\<exists>g \<in> set groups. ge_AccessGroupName g \<in> set (tm_AccessGroups spec) \<and> m \<in> set (ge_AccessModelNames g))}"
    by (auto simp: ix fd)
  have "set (fst (resolveNames (tm_AccessGroups spec) (index_by ge_AccessGroupName ge_AccessGroupID groups))) =
      {ge_AccessGroupID g | g. g \<in> set groups \<and> ge_AccessGroupName g \<in> set (tm_AccessGroups spec)}"
    by (auto simp: resolveNames_ids index_by_def ix fd)
  moreover have "map_of (fst (team_body name spec groups)) ''access_group_ids'' = Some (strings_json
      (sort (fst (resolveNames (tm_AccessGroups spec) (index_by ge_AccessGroupName ge_AccessGroupID groups)))))"
    by (simp add: team_body_def Let_def case_prod_beta overlay_grant)
  ultimately have "\<exists>ids. map_of (fst (team_body name spec groups)) ''access_group_ids'' = Some (strings_json ids) \<and> sorted ids \<and>
       set ids = {ge_AccessGroupID g | g. g \<in> set groups \<and> ge_AccessGroupName g \<in> set (tm_AccessGroups spec)}"
    by (intro exI conjI) (assumption, simp_all)
  then show ?thesis
    unfolding team_body_missing [OF assms] using models by (simp add: team_body_def Let_def case_prod_beta overlay_grant attachedGroupModels_exact)
qed

definition example_entry :: "string \<Rightarrow> string \<Rightarrow> string list \<Rightarrow> AccessGroupEntry" where
  "example_entry name i models = \<lparr>ge_AccessGroupID = i, ge_AccessGroupName = name, ge_Description = '''', ge_AccessModelNames = models,
     ge_AccessMCPServerIDs = [], ge_AccessAgentIDs = [], ge_AssignedTeamIDs = [], ge_AssignedKeyIDs = []\<rparr>"

theorem team_grant_exact_witness:
  "map_of (fst (team_body ''t'' example_team_spec [example_entry ''g'' ''1'' [''m'', ''*''], example_entry ''x'' ''2'' [''p'']])) ''models''
     = Some (strings_json [modelDenyAllSentinel, ''m'']) \<and>
   snd (team_body ''t'' example_team_spec [example_entry ''g'' ''1'' [''m'', ''*''], example_entry ''x'' ''2'' [''p'']]) = [''h'']"
proof -
  let ?groups = "[example_entry ''g'' ''1'' [''m'', ''*''], example_entry ''x'' ''2'' [''p'']]"
  have "{m. \<not> skip_model m \<and> (\<exists>g \<in> set ?groups. ge_AccessGroupName g \<in> set (tm_AccessGroups example_team_spec) \<and> m \<in> set (ge_AccessModelNames g))}
      = {''m''}"
    by (auto simp: example_entry_def example_team_spec_def skip_model_def modelDenyAllSentinel_def)
  then show ?thesis
    using team_grant_exact [of ?groups "''t''" example_team_spec]
    by (simp add: example_entry_def example_team_spec_def)
qed

lemma kit_classify_Return: "\<exists>v s'. kit_classify k C obj err op s = (Return v, s')"
  by (simp add: kit_classify_def Let_def split: prod.split)

lemma emits_log: "emits P s s' \<Longrightarrow> \<exists>xs. log s' = log s @ xs \<and> list_all P xs"
  by (simp add: emits_def)

text \<open>
  A group that disappears takes its access with it.  When the spec names a group LiteLLM does not list,
  the reconcile neither creates a team nor reports it ready; and a team that exists and last carried
  another body is first updated to what the groups still listed grant.
\<close>

theorem missing_group_narrows:
  assumes "connected s client" and "ListAccessGroups client s = (Inr groups, s1)"
    and "n \<in> set (tm_AccessGroups (cr_Spec team))" and "n \<notin> ge_AccessGroupName ` set groups"
    and "distinct (map ge_AccessGroupName groups)"
    and "body = fst (team_body (Name (cr_Meta team)) (cr_Spec team) groups)"
  shows "\<exists>xs. log (snd (team_live R key team s)) = log s @ xs \<and>
    list_all (\<lambda>e. \<not> claims_ready e \<and> (\<forall>b. e \<noteq> Http ''POST'' ''/team/new'' b)) xs \<and>
    (cr_ID team \<noteq> '''' \<and> cr_Hash team \<noteq> team_hash R body \<longrightarrow>
       Http ''POST'' ''/team/update'' (Some (JObj (with_id (cr_ID team) body))) \<in> set xs)"
proof -
  let ?P = "\<lambda>e. \<not> claims_ready e \<and> (\<forall>b. e \<noteq> Http ''POST'' ''/team/new'' b)"
  have sb: "emits ?P s1 s2" if "emits is_setback s1 s2" for s1 s2 :: "'a rstate"
    by (rule emits_mono [OF that]) (metis is_setback.simps(4) setback_not_ready)
  have gate: "kit_gate team_kit (te_ctl R) team s = (Next (Snapshot (r_cache s), client), s)"
    using assms(1) by (simp add: kit_gate_def Let_def)
  have groups: "team_groups R client team s = (Next groups, s1)" using assms(2,3) by (auto simp: team_groups_def)
  obtain missing where b: "team_body (Name (cr_Meta team)) (cr_Spec team) groups = (body, missing)"
    using assms(6) by (metis prod.collapse)
  then have "missing \<noteq> []"
    using team_body_missing [OF assms(5), of "Name (cr_Meta team)" "cr_Spec team"] assms(3,4) by (auto simp: filter_empty_conv)
  then have run: "snd (team_live R key team s) = snd (narrowAndPark R (Snapshot (r_cache s)) client body missing team s1)"
    by (simp add: team_live_def gate groups b)
  have l1: "emits ?P s s1"
  proof -
    have "snd (ListAccessGroups client s) = snd (makeRequest client ''GET'' ''/v1/access_group'' None s)"
      by (simp add: ListAccessGroups_def split: prod.split sum.split)
    then have "log s1 = log s @ [Http ''GET'' ''/v1/access_group'' None]" using assms(2) by (simp add: makeRequest_parts)
    then show ?thesis by (auto intro!: emits_snoc)
  qed
  have park: "emits ?P s2 (snd (kit_park team_kit C t r m q s2 :: unit flow \<times> 'a rstate))" for C t r m q s2
    by (rule sb [OF kit_park_setback])
  show ?thesis
  proof (cases "cr_ID team = '''' \<or> cr_Hash team = team_hash R body")
    case True
    then have "emits ?P s (snd (narrowAndPark R (Snapshot (r_cache s)) client body missing team s1))"
      by (auto simp: narrowAndPark_def narrow_def intro: emits_trans [OF l1 park])
    then show ?thesis using run True emits_log by fastforce
  next
    case False
    let ?u = "Http ''POST'' ''/team/update'' (Some (JObj (with_id (cr_ID team) body)))"
    obtain r s2 where u: "UpdateTeamRaw client (with_id (cr_ID team) body) s1 = (r, s2)" by fastforce
    have "snd (UpdateTeamRaw client (with_id (cr_ID team) body) s1) =
        snd (makeRequest client ''POST'' ''/team/update'' (Some (JObj (with_id (cr_ID team) body))) s1)"
      by (simp add: UpdateTeamRaw_def split: prod.split sum.split)
    then have l2: "log s2 = log s1 @ [?u]" using u by (simp add: makeRequest_parts)
    have rest: "emits ?P s2 (snd (narrowAndPark R (Snapshot (r_cache s)) client body missing team s1))"
    proof (cases r)
      case (Inl e)
      let ?c = "kit_classify team_kit (te_ctl R) team e ''POST /team/update (narrow to resolved access groups)'' s2 :: TeamSpec cr flow \<times> 'a rstate"
      obtain v s3 where c: "?c = (Return v, s3)" using kit_classify_Return by blast
      have "emits is_setback s2 (snd ?c)" by (rule kit_classify_setback)
      then have "emits ?P s2 s3" unfolding c snd_conv by (rule sb)
      then show ?thesis using False u Inl c by (simp add: narrowAndPark_def narrow_def)
    next
      case (Inr x)
      obtain t s3 where t: "tick (te_ctl R) s2 = (t, s3)" by fastforce
      have "emits ?P s2 s3" using tick_log [OF t] by (rule emits_same_log)
      then show ?thesis using False u Inr t
        by (simp add: narrowAndPark_def narrow_def) (rule emits_trans [OF \<open>emits ?P s2 s3\<close> park])
    qed
    obtain xs ys where x: "log s1 = log s @ xs" "list_all ?P xs"
      and y: "log (snd (narrowAndPark R (Snapshot (r_cache s)) client body missing team s1)) = log s2 @ ys" "list_all ?P ys"
      using emits_log [OF l1] emits_log [OF rest] by blast
    then show ?thesis using run l2 by (intro exI [of _ "xs @ [?u] @ ys"]) auto
  qed
qed

theorem missing_group_narrows_witness:
  "Http ''POST'' ''/team/update'' (Some (JObj (with_id ''id1'' (fst (team_body ''t'' example_team_spec [])))))
     \<in> set (log (snd (team_live (example_team_R (example_team False)) (''ns'', ''t'') (example_team False)
         (example_online (answering 200 (JArr []))))))"
proof -
  let ?s = "example_online (answering 200 (JArr []))"
  let ?body = "fst (team_body ''t'' example_team_spec [])"
  have "\<exists>s1. ListAccessGroups (answering 200 (JArr [])) ?s = (Inr [], s1)"
    by (simp add: ListAccessGroups_def answering_ok is2xx_def unmarshal_def decode_list_def)
  then obtain s1 where l: "ListAccessGroups (answering 200 (JArr [])) ?s = (Inr [], s1)" by blast
  have "team_hash (example_team_R (example_team False)) ?body \<noteq> ''''"
    by (simp add: team_hash_def example_team_R_def canonicalJSON_def)
  then show ?thesis
    using missing_group_narrows [of ?s "answering 200 (JArr [])" "[]" s1 "''g''" "example_team False" ?body
        "example_team_R (example_team False)" "(''ns'', ''t'')"] l
    by (auto simp: example_online_snapshot zero_snapshot_def example_team_def example_cr_def example_team_spec_def)
qed

end
