(* ===== verification/Mcp_Server.thy ===== *)
theory Mcp_Server
  imports Secret_Steps Access_Group Conflict Litellm_Endpoints
begin

text \<open>
  The MCP-server controller: \<^verbatim>\<open>internal/controller/mcpserver_controller.go\<close> with the write calls of
  \<^verbatim>\<open>internal/litellm/mcp.go\<close>.  Two objects whose names sanitise to the same \<^verbatim>\<open>server_name\<close> compete for
  one LiteLLM entry: the one that sorts last owns it, the others only record the conflict, and a deleted
  object leaves an entry alone that a live sibling owns.

  The siblings in a namespace, the Secrets and the cached listing of \<^verbatim>\<open>list_cache.go\<close> are fields of the
  reconciler.  The twenty fields that both request structs copy from the extracted parameters are one
  component of the request.
\<close>

subsection \<open>Requests\<close>

record MCPServerRequest =
  mq_ServerID :: string
  mq_ServerName :: string
  mq_Alias :: string
  mq_Transport :: string
  mq_URL :: string
  mq_Params :: extractedMCPParams

text \<open>The fields of the request in the order of the structs; \<open>ident\<close> is the \<^verbatim>\<open>server_id\<close> field.\<close>

definition server_fields :: "json gomap \<Rightarrow> MCPServerRequest \<Rightarrow> json gomap" where
  "server_fields ident r =
     (let x = mq_Params r in
      ident @ omitempty ''server_name'' (mq_ServerName r) @ omitempty ''alias'' (mq_Alias r)
      @ omitempty ''description'' (xp_Description x) @ omitempty ''transport'' (mq_Transport r)
      @ omitempty ''auth_type'' (xp_AuthType x) @ omitmap ''credentials'' (xp_Credentials x)
      @ omitempty ''url'' (mq_URL r) @ omitmap ''mcp_info'' (xp_MCPInfo x)
      @ omitlist ''mcp_access_groups'' (xp_MCPAccessGroups x) @ omitlist ''allowed_tools'' (xp_AllowedTools x)
      @ omitmap ''tool_name_to_display_name'' (xp_ToolNameToDisplayName x)
      @ omitmap ''tool_name_to_description'' (xp_ToolNameToDescription x)
      @ omitany ''extra_headers'' (xp_ExtraHeaders x) @ omitmap ''static_headers'' (xp_StaticHeaders x)
      @ omitempty ''command'' (xp_Command x) @ omitlist ''args'' (xp_Args x) @ omitmap ''env'' (xp_Env x)
      @ omitempty ''authorization_url'' (xp_AuthorizationURL x) @ omitempty ''token_url'' (xp_TokenURL x)
      @ omitempty ''registration_url'' (xp_RegistrationURL x) @ omitempty ''oauth2_flow'' (xp_OAuth2Flow x)
      @ omitbool ''allow_all_keys'' (xp_AllowAllKeys x)
      @ omitbool ''available_on_public_internet'' (xp_AvailableOnPublicInternet x)
      @ omitbool ''oauth_passthrough'' (xp_OAuthPassthrough x))"

definition create_server_json :: "MCPServerRequest \<Rightarrow> json" where
  "create_server_json r = JObj (server_fields (omitempty ''server_id'' (mq_ServerID r)) r)"

definition update_server_json :: "MCPServerRequest \<Rightarrow> json" where
  "update_server_json r = JObj (server_fields [(''server_id'', JStr (mq_ServerID r))] r)"

definition CreateMCPServer :: "'w http \<Rightarrow> MCPServerRequest \<Rightarrow> ('w, 'z, MCPServerEntry) call" where
  "CreateMCPServer http r s =
     (case makeRequest http ''POST'' ''/v1/mcp/server'' (Some (create_server_json r)) s of
        (Inl e, s) \<Rightarrow> (Inl e, s)
      | (Inr raw, s) \<Rightarrow> (unmarshal decode_mcp_server ''POST /v1/mcp/server'' raw, s))"

definition UpdateMCPServer :: "'w http \<Rightarrow> MCPServerRequest \<Rightarrow> ('w, 'z, MCPServerEntry) call" where
  "UpdateMCPServer http r s =
     (case makeRequest http ''PUT'' ''/v1/mcp/server'' (Some (update_server_json r)) s of
        (Inl e, s) \<Rightarrow> (Inl e, s)
      | (Inr raw, s) \<Rightarrow> (unmarshal decode_mcp_server ''PUT /v1/mcp/server'' raw, s))"

definition server_path :: "string \<Rightarrow> string" where
  "server_path i = ''/v1/mcp/server/'' @ PathEscape i"

definition DeleteMCPServer :: "'w http \<Rightarrow> string \<Rightarrow> ('w, 'z, unit) call" where
  "DeleteMCPServer http i s =
     (if i = '''' then (Inl (ErrText ''litellm: DeleteMCPServer: empty server_id''), s)
      else
        case makeRequest http ''DELETE'' (server_path i) None s of
          (Inl e, s) \<Rightarrow> (Inl e, s)
        | (Inr _, s) \<Rightarrow> (Inr (), s))"

subsection \<open>The reconciler\<close>

record MCPServerSpec =
  ms_Endpoint :: string
  ms_Transport :: string
  ms_Params :: raw_json
  ms_Secrets :: "SecretSubstitution list"
  ms_DeletionPolicy :: string

record 'w MCPServerReconciler =
  mr_ctl :: "('w, MCPServerSpec) ctl"
  mr_sha256hex :: "string \<Rightarrow> string"
  mr_version :: string
  mr_getSecret :: "'w secret_getter"
  mr_cached :: "'w \<Rightarrow> MCPServerEntry list option"
  mr_list :: "'w \<Rightarrow> string \<Rightarrow> (kube_error + MCPServerSpec cr list) \<times> 'w"

definition mcpServerFinalizer :: string where "mcpServerFinalizer = ''mcpservers.litellm.ackstorm.ai/finalizer''"
definition mcpServerKind :: string where "mcpServerKind = ''LiteLLMMCPServer''"
definition mcpLoserHash :: string where "mcpLoserHash = ''conflict-loser''"
definition mcpRenderVersion :: string where "mcpRenderVersion = ''v2''"

definition server_kit :: "MCPServerSpec kit" where
  "server_kit = \<lparr>k_kind = mcpServerKind, k_label = ''mcp'', k_probe = ''mcpserver'', k_finalizer = mcpServerFinalizer,
     k_registered = ''mcp server registered'', k_create = ''POST /v1/mcp/server'', k_carry = (\<lambda>_ f. f)\<rparr>"

definition IndexMCPServerSecretRefs :: "MCPServerSpec cr \<Rightarrow> string list" where
  "IndexMCPServerSecretRefs mcp = secretRefNames (ms_Secrets (cr_Spec mcp))"

subsection \<open>Ownership of a shared name\<close>

definition candidates :: "string \<Rightarrow> string \<Rightarrow> MCPServerSpec cr list \<Rightarrow> MCPServerSpec cr list" where
  "candidates sanitizedName sep siblings =
     filter (\<lambda>c. \<not> DeletionTimestamp (cr_Meta c) \<and> SanitizeMCPServerName (Name (cr_Meta c)) sep = sanitizedName) siblings"

definition winner_of :: "MCPServerSpec cr list \<Rightarrow> MCPServerSpec cr option" where
  "winner_of cs =
     (case ResolveWinner (map cr_Meta cs) of None \<Rightarrow> None | Some m \<Rightarrow> find (\<lambda>c. cr_Meta c = m) cs)"

definition conflictWinner ::
  "'w MCPServerReconciler \<Rightarrow> string \<Rightarrow> string \<Rightarrow> string \<Rightarrow> 'w rstate \<Rightarrow> MCPServerSpec cr option flow \<times> 'w rstate" where
  "conflictWinner R ns sanitizedName sep s =
     (case mr_list R (world s) ns of
        (Inl e, w) \<Rightarrow> (Return (Inl (WrapErr ''list mcpservers for conflict resolution'' (KubeErr e))), set_world w s)
      | (Inr siblings, w) \<Rightarrow> (Next (winner_of (candidates sanitizedName sep siblings)), set_world w s))"

definition owner_of :: "MCPServerSpec cr \<Rightarrow> string \<Rightarrow> MCPServerSpec cr option \<Rightarrow> MCPServerSpec cr option" where
  "owner_of mcp sanitized winner =
     (case winner of None \<Rightarrow> None
      | Some owner \<Rightarrow>
          (if cr_ID mcp \<noteq> '''' \<and> cr_ID mcp \<noteq> sanitized \<and> cr_ID mcp \<noteq> cr_ID owner then None else Some owner))"

definition sharedEntryOwner ::
  "'w MCPServerReconciler \<Rightarrow> MCPServerSpec cr \<Rightarrow> string \<Rightarrow> string \<Rightarrow> 'w rstate \<Rightarrow> MCPServerSpec cr option flow \<times> 'w rstate" where
  "sharedEntryOwner R mcp sanitized sep =
     andThen (conflictWinner R (Namespace (cr_Meta mcp)) sanitized sep) (\<lambda>winner s. (Next (owner_of mcp sanitized winner), s))"

subsection \<open>Deletion\<close>

definition server_named :: "string \<Rightarrow> MCPServerEntry list \<Rightarrow> string option" where
  "server_named name entries = map_option me_ServerID (find (\<lambda>e. me_ServerName e = name) entries)"

definition pick_server :: "string \<Rightarrow> string \<Rightarrow> MCPServerEntry list \<Rightarrow> string" where
  "pick_server sanitizedName originalName entries =
     (case server_named sanitizedName entries of
        Some i \<Rightarrow> i
      | None \<Rightarrow>
          (if originalName \<noteq> '''' \<and> originalName \<noteq> sanitizedName
           then (case server_named originalName entries of Some i \<Rightarrow> i | None \<Rightarrow> '''') else ''''))"

definition resolveServerIDByName :: "'w http \<Rightarrow> string \<Rightarrow> string \<Rightarrow> 'w rstate \<Rightarrow> string \<times> 'w rstate" where
  "resolveServerIDByName llm sanitizedName originalName s =
     (case ListMCPServers llm s of
        (Inl err, s) \<Rightarrow>
          (if is_ErrNotFound err then ('''', s)
           else if as_auth401 err \<noteq> None then ('''', invalidate_cache s)
           else ('''', s))
      | (Inr entries, s) \<Rightarrow> (pick_server sanitizedName originalName entries, s))"

definition server_id :: "MCPServerSpec cr \<Rightarrow> 'w http \<Rightarrow> string \<Rightarrow> 'w rstate \<Rightarrow> string \<times> 'w rstate" where
  "server_id mcp client sanitized s =
     (if cr_ID mcp \<noteq> '''' then (cr_ID mcp, s) else resolveServerIDByName client sanitized (Name (cr_Meta mcp)) s)"

definition delete_server ::
  "MCPServerSpec cr \<Rightarrow> Policy \<Rightarrow> 'w http \<Rightarrow> string \<Rightarrow> 'w rstate \<Rightarrow> unit flow \<times> 'w rstate" where
  "delete_server mcp policy client sanitized s =
     (let (i, s) = server_id mcp client sanitized s in
      if i \<noteq> '''' then kit_delete server_kit mcp policy ''DeleteMCPServer'' (DeleteMCPServer client i) s
      else (Next (), kit_unblock server_kit mcp s))"

definition skip_delete :: "string \<Rightarrow> MCPServerSpec cr \<Rightarrow> 'w rstate \<Rightarrow> unit flow \<times> 'w rstate" where
  "skip_delete sanitized owner s =
     (Next (), emit (Event EventTypeNormal ''LiteLLMDeleteSkipped''
        (''LiteLLM entry for server_name '' @ quote sanitized @ '' kept: owned by '' @ Key (cr_Meta owner))) s)"

definition server_release ::
  "'w MCPServerReconciler \<Rightarrow> MCPServerSpec cr \<Rightarrow> 'w rstate \<Rightarrow> unit flow \<times> 'w rstate" where
  "server_release R mcp s =
     (let policy = Resolve (cr_Meta mcp) (ms_DeletionPolicy (cr_Spec mcp));
          snap = Snapshot (r_cache s);
          sep = snap_MCPToolPrefixSeparator snap;
          sanitized = SanitizeMCPServerName (Name (cr_Meta mcp)) sep
      in case (snap_Ready snap, snap_Client snap) of
           (True, Some client) \<Rightarrow>
             andThen (sharedEntryOwner R mcp sanitized sep) (\<lambda>owner.
               case owner of
                 Some o1 \<Rightarrow> skip_delete sanitized o1
               | None \<Rightarrow> delete_server mcp policy client sanitized) s
         | _ \<Rightarrow> (let (reason, permanent) = ackUnavailable snap in kit_ack server_kit mcp policy reason permanent s))"

subsection \<open>Winner and loser\<close>

definition prior_reason :: "klib \<Rightarrow> Condition list \<Rightarrow> string" where
  "prior_reason K conds = (case FindStatusCondition K conds conditionTypeReady of None \<Rightarrow> '''' | Some c \<Rightarrow> Reason c)"

text \<open>
  The loser's write replaces the status as it is in memory, in one attempt; a conflict asks for another
  pass.
\<close>

definition server_lose ::
  "'w MCPServerReconciler \<Rightarrow> MCPServerSpec cr \<Rightarrow> string \<Rightarrow> string \<Rightarrow> 'w rstate \<Rightarrow> 'a flow \<times> 'w rstate" where
  "server_lose R mcp winnerKey sanitizedName s =
     (let gen = Generation (cr_Meta mcp);
          K = ct_lib (mr_ctl R);
          s = emit (Event EventTypeNormal ''ConflictDetected''
                (''superseded by '' @ winnerKey @ '' for sanitized server_name '' @ quote sanitizedName)) s;
          s = (if prior_reason K (cr_Conditions mcp) \<noteq> ConditionReasonConflict
               then emit (Metric ''ConflictsTotal'' [''MCPServer'', ''loser'']) s else s);
          mcp = mcp\<lparr>cr_Conditions := ApplyLoserCondition K (cr_Conditions mcp) gen winnerKey,
                    cr_ObservedGeneration := gen, cr_Hash := mcpLoserHash\<rparr>;
          s = recordReconcileMetric mcpServerKind (Namespace (cr_Meta mcp)) ConditionReasonConflict s;
          s = emit (StatusWrite (NewLoserCondition gen winnerKey) (cr_ID mcp)) s;
          (r, w) = kc_status_update (ct_kube (mr_ctl R)) (world s) mcp
      in (Return (case r of
            Inl e \<Rightarrow> (if IsConflict e then Inr \<lparr>RequeueAfter = 0, Requeue = True\<rparr>
                      else Inl (WrapErr ''set Conflict condition'' (KubeErr e)))
          | Inr _ \<Rightarrow> Inr no_requeue), set_world w s))"

definition server_win ::
  "'w MCPServerReconciler \<Rightarrow> MCPServerSpec cr \<Rightarrow> string \<Rightarrow> 'w rstate \<Rightarrow> MCPServerSpec cr flow \<times> 'w rstate" where
  "server_win R mcp sanitizedName s =
     (let K = ct_lib (mr_ctl R);
          s = (if prior_reason K (cr_Conditions mcp) = ConditionReasonConflict
               then emit (Metric ''ConflictsTotal'' [''MCPServer'', ''winner''])
                      (emit (Event EventTypeNormal ''ConflictWon''
                        (''promoted to winner for sanitized server_name '' @ quote sanitizedName)) s)
               else s)
      in (Next (mcp\<lparr>cr_Conditions := ClearLoserCondition K (cr_Conditions mcp)\<rparr>), s))"

definition server_contest ::
  "'w MCPServerReconciler \<Rightarrow> MCPServerSpec cr \<Rightarrow> string \<Rightarrow> string \<Rightarrow> 'w rstate \<Rightarrow> MCPServerSpec cr flow \<times> 'w rstate" where
  "server_contest R mcp sanitizedName sep =
     andThen (conflictWinner R (Namespace (cr_Meta mcp)) sanitizedName sep) (\<lambda>winner.
       case winner of
         Some w \<Rightarrow> (if IsLoser (cr_Meta mcp) (Some (cr_Meta w)) then server_lose R mcp (Key (cr_Meta w)) sanitizedName
                    else server_win R mcp sanitizedName)
       | None \<Rightarrow> server_win R mcp sanitizedName)"

subsection \<open>Rendering\<close>

definition drop_reserved :: "json gomap option \<Rightarrow> json gomap option" where
  "drop_reserved p = map_option (filter (\<lambda>(k, v). k \<notin> set reservedMCPParamKeys)) p"

definition server_params ::
  "'w MCPServerReconciler \<Rightarrow> 'w http ConnectionSnapshot \<Rightarrow> MCPServerSpec cr \<Rightarrow> 'w rstate \<Rightarrow> json gomap option flow \<times> 'w rstate" where
  "server_params R snap mcp =
     (let secrets = ms_Secrets (cr_Spec mcp) in
      andThen (kit_secrets server_kit (mr_ctl R) (mr_getSecret R) ''SEC-03: must be unique within a LiteLLMMCPServer'' secrets snap mcp)
        (\<lambda>secretMap.
      andThen (kit_decode server_kit (mr_ctl R) mcp ''spec.params'' (ms_Params (cr_Spec mcp))) (\<lambda>raw s.
        let (params, used, missing) = substitute_bag (drop_reserved raw) secretMap in
        case missing of
          m # _ \<Rightarrow> kit_missing server_kit (mr_ctl R) snap mcp m '''' s
        | [] \<Rightarrow> (Next params, kit_unused ''spec.params'' used secrets s))))"

definition server_hash :: "'w MCPServerReconciler \<Rightarrow> string \<Rightarrow> MCPServerSpec \<Rightarrow> json gomap option \<Rightarrow> string" where
  "server_hash R sanitizedName spec params = mr_sha256hex R (canonicalJSON (JObj
     [(''render_version'', JStr mcpRenderVersion), (''server_name'', JStr sanitizedName), (''url'', JStr (ms_Endpoint spec)),
      (''transport'', JStr (ms_Transport spec)),
      (''params'', case params of None \<Rightarrow> JNull | Some m \<Rightarrow> JObj m)]))"

definition stampMCPIdentity :: "string \<Rightarrow> json gomap option \<Rightarrow> bool \<Rightarrow> json gomap option" where
  "stampMCPIdentity ident mcpInfo includeCreatedBy =
     (let m = bag mcpInfo;
          m = (if includeCreatedBy then map_put ''created_by'' (JStr ident) m else m)
      in Some (map_put ''updated_by'' (JStr ident) m))"

definition stamped :: "'w MCPServerReconciler \<Rightarrow> bool \<Rightarrow> extractedMCPParams \<Rightarrow> extractedMCPParams" where
  "stamped R create x = x\<lparr>xp_MCPInfo := stampMCPIdentity (Operator (mr_version R)) (xp_MCPInfo x) create\<rparr>"

definition server_create_request :: "'w MCPServerReconciler \<Rightarrow> string \<Rightarrow> MCPServerSpec \<Rightarrow> json gomap option \<Rightarrow> MCPServerRequest" where
  "server_create_request R sanitizedName spec params = \<lparr>mq_ServerID = sanitizedName, mq_ServerName = sanitizedName,
     mq_Alias = sanitizedName, mq_Transport = ms_Transport spec, mq_URL = ms_Endpoint spec,
     mq_Params = stamped R True (extractMCPParams params)\<rparr>"

definition server_update_request ::
  "'w MCPServerReconciler \<Rightarrow> string \<Rightarrow> string \<Rightarrow> MCPServerSpec \<Rightarrow> json gomap option \<Rightarrow> MCPServerRequest" where
  "server_update_request R i sanitizedName spec params = \<lparr>mq_ServerID = i, mq_ServerName = sanitizedName,
     mq_Alias = '''', mq_Transport = ms_Transport spec, mq_URL = ms_Endpoint spec,
     mq_Params = stamped R False (extractMCPParams params)\<rparr>"

subsection \<open>Probe, create, update\<close>

definition server_lookup ::
  "'w MCPServerReconciler \<Rightarrow> 'w http \<Rightarrow> string \<Rightarrow> string \<Rightarrow> 'w rstate \<Rightarrow> (lerror + string) \<times> 'w rstate" where
  "server_lookup R client sanitizedName name s =
     (case or_cached (mr_cached R (world s)) (ListMCPServers client) s of
        (Inl e, s) \<Rightarrow> (Inl e, s)
      | (Inr entries, s) \<Rightarrow>
          (Inr (case find (\<lambda>e. me_ServerName e = sanitizedName \<or> name \<noteq> sanitizedName \<and> me_ServerName e = name) entries of
                  Some e \<Rightarrow> me_ServerID e | None \<Rightarrow> ''''), s))"

definition adopt_server ::
  "'w http \<Rightarrow> string \<Rightarrow> MCPServerSpec cr \<Rightarrow> 'w rstate \<Rightarrow> MCPServerSpec cr \<times> 'w rstate" where
  "adopt_server client sanitizedName mcp s =
     (if cr_ID mcp = '''' then
        let (adopted, s) = resolveServerIDByName client sanitizedName (Name (cr_Meta mcp)) s
        in (if adopted \<noteq> '''' then mcp\<lparr>cr_ID := adopted\<rparr> else mcp, s)
      else (mcp, s))"

definition create_server ::
  "'w MCPServerReconciler \<Rightarrow> NamespacedName \<Rightarrow> 'w http \<Rightarrow> string \<Rightarrow> json gomap option \<Rightarrow> MCPServerSpec cr \<Rightarrow> 'w rstate
   \<Rightarrow> string flow \<times> 'w rstate" where
  "create_server R key client sanitizedName params mcp =
     andThen (kit_throttle server_kit (mr_ctl R) key mcp) (\<lambda>_ s.
       case CreateMCPServer client (server_create_request R sanitizedName (cr_Spec mcp) params) s of
         (Inl err, s) \<Rightarrow> kit_classify server_kit (mr_ctl R) mcp err ''POST /v1/mcp/server'' s
       | (Inr _, s) \<Rightarrow> (Next sanitizedName, kit_created server_kit (mr_ctl R) key mcp s))"

definition update_server ::
  "'w MCPServerReconciler \<Rightarrow> 'w http \<Rightarrow> string \<Rightarrow> json gomap option \<Rightarrow> MCPServerSpec cr \<Rightarrow> 'w rstate \<Rightarrow> string flow \<times> 'w rstate" where
  "update_server R client sanitizedName params mcp s =
     (case UpdateMCPServer client (server_update_request R (cr_ID mcp) sanitizedName (cr_Spec mcp) params) s of
        (Inl err, s) \<Rightarrow> kit_classify server_kit (mr_ctl R) mcp err ''PUT /v1/mcp/server'' s
      | (Inr _, s) \<Rightarrow> (Next (cr_ID mcp), kit_updated server_kit mcp s))"

definition server_mutate ::
  "'w MCPServerReconciler \<Rightarrow> NamespacedName \<Rightarrow> 'w http \<Rightarrow> string \<Rightarrow> json gomap option \<Rightarrow> MCPServerSpec cr \<Rightarrow> 'w rstate
   \<Rightarrow> string flow \<times> 'w rstate" where
  "server_mutate R key client sanitizedName params mcp s =
     (let (mcp, s) = adopt_server client sanitizedName mcp s in
      if cr_ID mcp = '''' then create_server R key client sanitizedName params mcp s
      else update_server R client sanitizedName params mcp s)"

definition server_live ::
  "'w MCPServerReconciler \<Rightarrow> NamespacedName \<Rightarrow> MCPServerSpec cr \<Rightarrow> 'w rstate \<Rightarrow> unit flow \<times> 'w rstate" where
  "server_live R key mcp =
     andThen (kit_gate server_kit (mr_ctl R) mcp) (\<lambda>(snap, client).
       let sep = snap_MCPToolPrefixSeparator snap;
           sanitizedName = SanitizeMCPServerName (Name (cr_Meta mcp)) sep
       in andThen (server_contest R mcp sanitizedName sep) (\<lambda>mcp.
          andThen (server_params R snap mcp) (\<lambda>params.
            kit_converge server_kit (mr_ctl R) key (server_hash R sanitizedName (cr_Spec mcp) params)
              (server_lookup R client sanitizedName (Name (cr_Meta mcp)))
              (server_mutate R key client sanitizedName params) mcp)))"

definition server_Reconcile :: "'w MCPServerReconciler \<Rightarrow> NamespacedName \<Rightarrow> 'w rstate \<Rightarrow> verdict \<times> 'w rstate" where
  "server_Reconcile R key s =
     (case kc_get (ct_kube (mr_ctl R)) (world s) key of
        (Inl e, w) \<Rightarrow> (if IsNotFoundK e then Inr no_requeue else Inl (KubeErr e), set_world w s)
      | (Inr mcp, w) \<Rightarrow> kit_object server_kit (mr_ctl R) (server_release R) (server_live R key) mcp (set_world w s))"

subsection \<open>Watches\<close>

text \<open>Siblings are told apart by uid, which is not part of the metadata modelled here.\<close>

definition enqueueMCPServerSiblings ::
  "(MCPServerSpec cr \<Rightarrow> string) \<Rightarrow> kube_error + MCPServerSpec cr list \<Rightarrow> MCPServerSpec cr \<Rightarrow> NamespacedName list" where
  "enqueueMCPServerSiblings uid listed me =
     (case listed of Inl _ \<Rightarrow> [] | Inr items \<Rightarrow> map cr_key (filter (\<lambda>i. uid i \<noteq> uid me) items))"

definition ListMCPServerRequests :: "kube_error + MCPServerSpec cr list \<Rightarrow> kube_error + NamespacedName list" where
  "ListMCPServerRequests listed = (case listed of Inl e \<Rightarrow> Inl e | Inr items \<Rightarrow> Inr (map cr_key items))"

subsection \<open>Effects\<close>

lemma list_servers_asks:
  fixes s :: "'w rstate"
  shows "emits (\<lambda>e. e = Http ''GET'' ''/v1/mcp/server'' None) s (snd (ListMCPServers http s))"
  by (simp add: ListMCPServers_def makeRequest_parts emits_def case_prod_beta split: sum.splits)

lemma resolve_server_asks:
  "emits (\<lambda>e. e = Http ''GET'' ''/v1/mcp/server'' None) s (snd (resolveServerIDByName llm n n' s))"
  using list_servers_asks [of s llm]
  by (auto simp: resolveServerIDByName_def split: prod.splits sum.splits intro: emits_trans [OF _ invalidate_cache_emits])

lemma conflictWinner_silent: "emits P s (snd (conflictWinner R ns n sep s))"
  by (simp add: conflictWinner_def split: prod.split sum.split)

lemma sharedEntryOwner_silent: "emits P s (snd (sharedEntryOwner R mcp n sep s))"
  unfolding sharedEntryOwner_def by (rule emits_andThen [OF conflictWinner_silent]) simp

lemma server_lose_setback: "emits is_setback s (snd (server_lose R mcp wk n s))"
  by (auto simp: server_lose_def Let_def case_prod_beta recordReconcileMetric_def NewLoserCondition_def
      intro!: emits_set_world emits_then_emit)

lemma server_win_setback: "emits is_setback s (snd (server_win R mcp n s))"
  by (auto simp: server_win_def Let_def intro!: emits_then_emit)

lemma server_contest_setback: "emits is_setback s (snd (server_contest R mcp n sep s))"
  unfolding server_contest_def
  by (rule emits_andThen [OF conflictWinner_silent]) (simp add: server_lose_setback server_win_setback split: option.split)

lemma server_params_setback: "emits is_setback s (snd (server_params R snap mcp s))"
proof -
  have "emits is_setback s1 (snd (let (params, used, missing) = x in case missing of
          m # _ \<Rightarrow> kit_missing server_kit (mr_ctl R) snap mcp m '''' s1
        | [] \<Rightarrow> (Next params, kit_unused ''spec.params'' used secrets s1)))"
    for x :: "json gomap option \<times> string list \<times> string list" and secrets s1
    by (simp add: kit_missing_setback kit_unused_setback split: prod.split list.split)
  then show ?thesis
    unfolding server_params_def Let_def by (intro emits_andThen kit_secrets_setback kit_decode_setback)
qed

lemma winner_of_greatest:
  assumes "c \<in> set cs"
  shows "\<exists>w. winner_of cs = Some w \<and> w \<in> set cs \<and> Key (cr_Meta c) \<le> Key (cr_Meta w)"
proof -
  obtain m where m: "ResolveWinner (map cr_Meta cs) = Some m" "m \<in> cr_Meta ` set cs" "\<forall>x \<in> cr_Meta ` set cs. Key x \<le> Key m"
    using winner.pick_max [of "map cr_Meta cs"] assms by fastforce
  then obtain w where w: "find (\<lambda>c. cr_Meta c = m) cs = Some w"
    by (cases "find (\<lambda>c. cr_Meta c = m) cs") (auto simp: find_None_iff)
  then have "w \<in> set cs" "cr_Meta w = m" by (auto simp: find_Some_iff)
  then show ?thesis using m assms w by (auto simp: winner_of_def)
qed

definition is_winner :: "MCPServerSpec cr \<Rightarrow> MCPServerSpec cr list \<Rightarrow> bool" where
  "is_winner mcp cs \<longleftrightarrow> (\<forall>c \<in> set cs. Key (cr_Meta c) \<le> Key (cr_Meta mcp))"

lemma server_contest_Next:
  assumes "server_contest R mcp n sep s = (Next mcp', s1)"
  shows "\<exists>siblings w. mr_list R (world s) (Namespace (cr_Meta mcp)) = (Inr siblings, w) \<and> is_winner mcp (candidates n sep siblings) \<and>
    cr_Meta mcp' = cr_Meta mcp \<and> cr_Spec mcp' = cr_Spec mcp"
proof -
  obtain siblings w where l: "mr_list R (world s) (Namespace (cr_Meta mcp)) = (Inr siblings, w)"
    using assms by (auto simp: server_contest_def conflictWinner_def andThen_def split: prod.splits sum.splits)
  let ?cs = "candidates n sep siblings"
  have run: "server_contest R mcp n sep s = (case winner_of ?cs of
         Some w \<Rightarrow> (if IsLoser (cr_Meta mcp) (Some (cr_Meta w)) then server_lose R mcp (Key (cr_Meta w)) n
                    else server_win R mcp n)
       | None \<Rightarrow> server_win R mcp n) (set_world w s)"
    by (simp add: server_contest_def conflictWinner_def l andThen_def)
  have lose: "(server_lose R mcp wk n s2 :: MCPServerSpec cr flow \<times> 'a rstate) \<noteq> (Next x, s3)" for wk s2 s3 x
    by (simp add: server_lose_def Let_def case_prod_beta)
  have win: "server_win R mcp n (set_world w s) = (Next mcp', s1)"
    and top: "\<And>w. winner_of ?cs = Some w \<Longrightarrow> Key (cr_Meta mcp) = Key (cr_Meta w)"
    using assms lose unfolding run by (auto simp: IsLoser_def split: option.splits if_splits)
  have "is_winner mcp ?cs" unfolding is_winner_def using winner_of_greatest [of _ ?cs] top by fastforce
  with win l show ?thesis by (auto simp: server_win_def Let_def)
qed

subsection \<open>What a write carries\<close>

definition field :: "string \<Rightarrow> json option" where
  "field t = (if t = '''' then None else Some (JStr t))"

text \<open>The structural fields come from the object and its name, whatever the parameters say.\<close>

definition server_body :: "string \<Rightarrow> MCPServerSpec \<Rightarrow> json \<Rightarrow> bool" where
  "server_body name spec j \<longleftrightarrow> (\<exists>fs. j = JObj fs \<and> map_of fs ''server_name'' = field name \<and>
     map_of fs ''url'' = field (ms_Endpoint spec) \<and> map_of fs ''transport'' = field (ms_Transport spec))"

lemma server_fields_body:
  assumes "\<And>k. k \<noteq> ''server_id'' \<Longrightarrow> map_of ident k = None"
  shows "map_of (server_fields ident r) ''server_name'' = field (mq_ServerName r)"
    and "map_of (server_fields ident r) ''url'' = field (mq_URL r)"
    and "map_of (server_fields ident r) ''transport'' = field (mq_Transport r)"
  using assms by (simp_all add: server_fields_def Let_def map_add_def field_def)

lemma server_bodies:
  "server_body n spec (create_server_json (server_create_request R n spec params))"
  "server_body n spec (update_server_json (server_update_request R i n spec params))"
  by (simp_all add: server_body_def create_server_json_def update_server_json_def server_fields_body
      server_create_request_def server_update_request_def)

definition server_sends :: "string \<Rightarrow> MCPServerSpec \<Rightarrow> effect \<Rightarrow> bool" where
  "server_sends n spec e \<longleftrightarrow> is_report e \<or> e = Http ''GET'' ''/v1/mcp/server'' None \<or>
     (\<exists>m j. e = Http m ''/v1/mcp/server'' (Some j) \<and> m \<noteq> ''DELETE'' \<and> server_body n spec j)"

lemma server_sends_report: "is_report e \<Longrightarrow> server_sends n spec e"
  by (simp add: server_sends_def)

lemma setback_sends: "emits is_setback s s' \<Longrightarrow> emits (server_sends n spec) s s'"
  by (drule setback_emits, erule emits_mono) (rule server_sends_report)

lemma get_sends: "emits (\<lambda>e. e = Http ''GET'' ''/v1/mcp/server'' None) s s' \<Longrightarrow> emits (server_sends n spec) s s'"
  by (erule emits_mono) (simp add: server_sends_def)

lemma server_writes_send:
  fixes s :: "'w rstate"
  shows "emits (server_sends n spec) s (snd (CreateMCPServer http (server_create_request R n spec params) s))"
    and "emits (server_sends n spec) s (snd (UpdateMCPServer http (server_update_request R i n spec params) s))"
  by (auto simp: CreateMCPServer_def UpdateMCPServer_def makeRequest_parts emits_def server_sends_def server_bodies
      case_prod_beta split: sum.splits)

lemma server_lookup_sends: "emits (server_sends n spec) s (snd (server_lookup R client n' name s))"
  using get_sends [OF list_servers_asks [of s client]]
  by (auto simp: server_lookup_def or_cached_def split: prod.splits sum.splits option.splits)

lemma adopt_server_parts:
  "emits (server_sends n spec) s (snd (adopt_server client n' mcp s))" "cr_Spec (fst (adopt_server client n' mcp s)) = cr_Spec mcp"
  using get_sends [OF resolve_server_asks [of s client n' "Name (cr_Meta mcp)"]]
  by (auto simp: adopt_server_def case_prod_beta)

lemma server_mutate_sends:
  "emits (server_sends n (cr_Spec mcp)) s (snd (server_mutate R key client n params mcp s))"
proof -
  obtain mcp' s1 where a: "adopt_server client n mcp s = (mcp', s1)" by fastforce
  have e: "emits (server_sends n (cr_Spec mcp)) s s1" and sp: "cr_Spec mcp' = cr_Spec mcp"
    using adopt_server_parts [where client = client and n' = n and mcp = mcp and s = s] a by auto
  have "emits (server_sends n (cr_Spec mcp)) s1 (snd (create_server R key client n params mcp' s1))"
    unfolding create_server_def sp
    by (intro emits_andThen setback_sends kit_throttle_setback after_call server_writes_send)
      (simp_all add: setback_sends kit_classify_setback kit_created_setback)
  moreover have "emits (server_sends n (cr_Spec mcp)) s1 (snd (update_server R client n params mcp' s1))"
    unfolding update_server_def sp
    by (intro after_call server_writes_send) (simp_all add: setback_sends kit_classify_setback kit_updated_setback)
  ultimately show ?thesis using emits_trans [OF e] by (simp add: server_mutate_def a)
qed

text \<open>What a reconcile of a live object sends goes out only past the contest.\<close>

lemma server_live_sends:
  assumes "\<And>snap client siblings w e. \<lbrakk>connected s client; snap = Snapshot (r_cache s);
      mr_list R (world s) (Namespace (cr_Meta mcp)) = (Inr siblings, w);
      is_winner mcp (candidates (SanitizeMCPServerName (Name (cr_Meta mcp)) (snap_MCPToolPrefixSeparator snap))
        (snap_MCPToolPrefixSeparator snap) siblings);
      server_sends (SanitizeMCPServerName (Name (cr_Meta mcp)) (snap_MCPToolPrefixSeparator snap)) (cr_Spec mcp) e\<rbrakk> \<Longrightarrow> P e"
    and "\<And>e. is_report e \<Longrightarrow> P e"
  shows "emits P s (snd (server_live R key mcp s))"
  unfolding server_live_def
proof (rule emits_andThen [OF setback_imp [OF kit_gate_setback]])
  show "is_setback e \<Longrightarrow> P e" for e using assms(2) by (cases e) auto
  fix x s1
  assume "kit_gate server_kit (mr_ctl R) mcp s = (Next x, s1)"
  then obtain snap client where x: "x = (snap, client)" "s1 = s" "snap = Snapshot (r_cache s)" "connected s client"
    using kit_gate_Next [of server_kit "mr_ctl R" mcp s x s1] by (cases x) (auto simp: Usable_def)
  let ?sep = "snap_MCPToolPrefixSeparator snap" and ?n = "SanitizeMCPServerName (Name (cr_Meta mcp)) (snap_MCPToolPrefixSeparator snap)"
  have "emits P s (snd (andThen (server_contest R mcp ?n ?sep) (\<lambda>mcp. andThen (server_params R snap mcp) (\<lambda>params.
            kit_converge server_kit (mr_ctl R) key (server_hash R ?n (cr_Spec mcp) params)
              (server_lookup R client ?n (Name (cr_Meta mcp))) (server_mutate R key client ?n params) mcp)) s))"
  proof (rule emits_andThen [OF emits_mono [OF setback_emits [OF server_contest_setback] assms(2)]])
    fix mcp' s2
    assume c: "server_contest R mcp ?n ?sep s = (Next mcp', s2)"
    then obtain siblings w where w: "mr_list R (world s) (Namespace (cr_Meta mcp)) = (Inr siblings, w)"
      "is_winner mcp (candidates ?n ?sep siblings)" "cr_Spec mcp' = cr_Spec mcp"
      using server_contest_Next [OF c] by blast
    have ok: "emits P s3 s4" if "emits (server_sends ?n (cr_Spec mcp)) s3 s4" for s3 s4 :: "'a rstate"
      by (rule emits_mono [OF that]) (rule assms(1) [OF x(4,3) w(1,2)])
    show "emits P s2 (snd (andThen (server_params R snap mcp') (\<lambda>params.
            kit_converge server_kit (mr_ctl R) key (server_hash R ?n (cr_Spec mcp') params)
              (server_lookup R client ?n (Name (cr_Meta mcp'))) (server_mutate R key client ?n params) mcp') s2))"
    proof (rule ok, rule emits_andThen [OF setback_sends [OF server_params_setback]])
      fix params s3
      show "emits (server_sends ?n (cr_Spec mcp)) s3
         (snd (kit_converge server_kit (mr_ctl R) key (server_hash R ?n (cr_Spec mcp') params)
              (server_lookup R client ?n (Name (cr_Meta mcp'))) (server_mutate R key client ?n params) mcp' s3))"
      proof (rule kit_converge_emits_same [OF server_sends_report server_lookup_sends])
        show "emits (server_sends ?n (cr_Spec mcp)) s4 (snd (server_mutate R key client ?n params obj s4))"
          if "cr_Spec obj = cr_Spec mcp'" for obj s4
          using server_mutate_sends [where mcp = obj] that w(3) by simp
      qed simp
    qed
  qed
  then show "emits P s1 (snd ((case x of (snap, client) \<Rightarrow> let sep = snap_MCPToolPrefixSeparator snap;
           sanitizedName = SanitizeMCPServerName (Name (cr_Meta mcp)) sep
       in andThen (server_contest R mcp sanitizedName sep) (\<lambda>mcp. andThen (server_params R snap mcp) (\<lambda>params.
            kit_converge server_kit (mr_ctl R) key (server_hash R sanitizedName (cr_Spec mcp) params)
              (server_lookup R client sanitizedName (Name (cr_Meta mcp)))
              (server_mutate R key client sanitizedName params) mcp))) s1))"
    by (simp add: x Let_def)
qed

subsection \<open>What a deletion withdraws\<close>

lemma delete_call_log:
  fixes s :: "'w rstate"
  shows "emits (\<lambda>e. e = Http ''DELETE'' (server_path i) None) s (snd (DeleteMCPServer http i s))"
  by (simp add: DeleteMCPServer_def makeRequest_parts emits_def case_prod_beta split: sum.splits)

text \<open>
  An id may go when no live sibling shares the name, or when it is a persisted one that is neither the
  shared \<^verbatim>\<open>server_name\<close> nor the id the owner points at.
\<close>

definition may_withdraw :: "MCPServerSpec cr \<Rightarrow> string \<Rightarrow> MCPServerSpec cr list \<Rightarrow> string \<Rightarrow> bool" where
  "may_withdraw mcp sanitized cs i \<longleftrightarrow>
     (\<forall>owner. winner_of cs = Some owner \<longrightarrow> i = cr_ID mcp \<and> i \<noteq> '''' \<and> i \<noteq> sanitized \<and> i \<noteq> cr_ID owner)"

lemma delete_server_emits:
  assumes "\<And>i. owner_of mcp sanitized (winner_of cs) = None \<Longrightarrow> may_withdraw mcp sanitized cs i \<Longrightarrow> P (Http ''DELETE'' (server_path i) None)"
    and "owner_of mcp sanitized (winner_of cs) = None"
    and "P (Http ''GET'' ''/v1/mcp/server'' None)" and "\<And>e. is_report e \<Longrightarrow> P e"
  shows "emits P s (snd (delete_server mcp policy client sanitized s))"
proof -
  obtain i s1 where i: "server_id mcp client sanitized s = (i, s1)" by fastforce
  have e: "emits P s s1"
    using emits_mono [OF resolve_server_asks [of s client sanitized "Name (cr_Meta mcp)"], of P] i assms(3)
    by (auto simp: server_id_def split: if_splits)
  have sb: "is_setback e \<Longrightarrow> P e" for e using assms(4) by (cases e) auto
  have own: "may_withdraw mcp sanitized cs i"
    using assms(2) i by (auto simp: may_withdraw_def owner_of_def server_id_def split: if_splits)
  have del: "emits P s1 (snd (kit_delete server_kit mcp policy ''DeleteMCPServer'' (DeleteMCPServer client i) s1))"
    by (rule kit_delete_emits [OF emits_mono [OF delete_call_log] sb]) (use assms(1,2) own in simp_all)
  have "emits P s1 (kit_unblock server_kit mcp s1)" by (rule setback_imp [OF kit_unblock_setback sb])
  then show ?thesis using emits_trans [OF e del] emits_trans [OF e] by (auto simp: delete_server_def i)
qed

lemma server_release_emits:
  assumes "\<And>client siblings w i. \<lbrakk>connected s client; mr_list R (world s) (Namespace (cr_Meta mcp)) = (Inr siblings, w);
      may_withdraw mcp (SanitizeMCPServerName (Name (cr_Meta mcp)) (snap_MCPToolPrefixSeparator (Snapshot (r_cache s))))
        (candidates (SanitizeMCPServerName (Name (cr_Meta mcp)) (snap_MCPToolPrefixSeparator (Snapshot (r_cache s))))
          (snap_MCPToolPrefixSeparator (Snapshot (r_cache s))) siblings) i\<rbrakk> \<Longrightarrow> P (Http ''DELETE'' (server_path i) None)"
    and "Usable (Snapshot (r_cache s)) \<Longrightarrow> P (Http ''GET'' ''/v1/mcp/server'' None)" and "\<And>e. is_report e \<Longrightarrow> P e"
  shows "emits P s (snd (server_release R mcp s))"
proof (cases "Usable (Snapshot (r_cache s))")
  case False
  have sb: "is_setback e \<Longrightarrow> P e" for e using assms(3) by (cases e) auto
  have "emits P s (snd (kit_ack server_kit mcp p m q s))" for p m q by (rule setback_imp [OF kit_ack_setback sb])
  with False show ?thesis
    by (auto simp: server_release_def Usable_def ackUnavailable_def Let_def split: bool.splits option.splits)
next
  case True
  then obtain client where c: "connected s client" by (auto simp: Usable_def)
  let ?sep = "snap_MCPToolPrefixSeparator (Snapshot (r_cache s))"
  let ?n = "SanitizeMCPServerName (Name (cr_Meta mcp)) ?sep"
  have "emits P s (snd (andThen (sharedEntryOwner R mcp ?n ?sep) (\<lambda>owner. case owner of
       Some o1 \<Rightarrow> skip_delete ?n o1 | None \<Rightarrow> delete_server mcp policy client ?n) s))" for policy
  proof (rule emits_andThen [OF sharedEntryOwner_silent])
    fix owner s1
    assume "sharedEntryOwner R mcp ?n ?sep s = (Next owner, s1)"
    then obtain siblings w where l: "mr_list R (world s) (Namespace (cr_Meta mcp)) = (Inr siblings, w)"
      and o: "owner = owner_of mcp ?n (winner_of (candidates ?n ?sep siblings))"
      by (auto simp: sharedEntryOwner_def conflictWinner_def andThen_def split: prod.splits sum.splits)
    show "emits P s1 (snd ((case owner of Some o1 \<Rightarrow> skip_delete ?n o1 | None \<Rightarrow> delete_server mcp policy client ?n) s1))"
    proof (cases owner)
      case None
      then have "emits P s1 (snd (delete_server mcp policy client ?n s1))"
        using o assms(1) [OF c l] assms(2) [OF True] by (intro delete_server_emits [of mcp ?n]) (auto simp: assms(3))
      then show ?thesis using None by simp
    qed (simp add: skip_delete_def assms(3))
  qed
  then show ?thesis using c by (simp add: server_release_def Let_def)
qed

interpretation srv: handler server_kit "mr_ctl R" "server_release R" "server_live R key"
  for R :: "'w MCPServerReconciler" and key
proof unfold_locales
  fix s :: "'w rstate" and obj
  have rep: "is_report e \<Longrightarrow> (\<forall>fs. e \<noteq> ObjectUpdate fs)" "is_report e \<Longrightarrow> \<not> is_http e" for e
    by (cases e; simp)+
  show "emits (\<lambda>e. \<forall>fs. e \<noteq> ObjectUpdate fs) s (snd (server_release R obj s))"
    by (rule server_release_emits) (simp_all add: rep)
  show "emits (\<lambda>e. \<forall>fs. e \<noteq> ObjectUpdate fs) s (snd (server_live R key obj s))"
    by (rule server_live_sends) (auto simp: rep server_sends_def)
  assume off: "\<not> Usable (Snapshot (r_cache s))"
  show "emits (\<lambda>e. \<not> is_http e) s (snd (server_release R obj s))"
    by (rule server_release_emits) (use off in \<open>auto simp: rep Usable_def\<close>)
  show "emits (\<lambda>e. \<not> is_http e) s (snd (server_live R key obj s))"
    by (rule server_live_sends) (use off in \<open>auto simp: rep Usable_def\<close>)
qed

subsection \<open>Properties\<close>

definition separator :: "'w rstate \<Rightarrow> string" where
  "separator s = snap_MCPToolPrefixSeparator (Snapshot (r_cache s))"

definition wire_name :: "MCPServerSpec cr \<Rightarrow> 'w rstate \<Rightarrow> string" where
  "wire_name mcp s = SanitizeMCPServerName (Name (cr_Meta mcp)) (separator s)"

lemma server_Reconcile_emits:
  assumes "\<And>mcp w siblings w' e. \<lbrakk>kc_get (ct_kube (mr_ctl R)) (world s) key = (Inr mcp, w); \<not> DeletionTimestamp (cr_Meta mcp);
      mr_list R w (Namespace (cr_Meta mcp)) = (Inr siblings, w'); is_winner mcp (candidates (wire_name mcp s) (separator s) siblings);
      server_sends (wire_name mcp s) (cr_Spec mcp) e\<rbrakk> \<Longrightarrow> P e"
    and "\<And>mcp w client siblings w' i. \<lbrakk>kc_get (ct_kube (mr_ctl R)) (world s) key = (Inr mcp, w); DeletionTimestamp (cr_Meta mcp);
      connected s client; mr_list R w (Namespace (cr_Meta mcp)) = (Inr siblings, w');
      may_withdraw mcp (wire_name mcp s) (candidates (wire_name mcp s) (separator s) siblings) i\<rbrakk>
      \<Longrightarrow> P (Http ''DELETE'' (server_path i) None)"
    and "P (Http ''GET'' ''/v1/mcp/server'' None)" and "\<And>e. is_report e \<Longrightarrow> P e" and "\<And>fs. P (ObjectUpdate fs)"
  shows "emits P s (snd (server_Reconcile R key s))"
  unfolding server_Reconcile_def
proof (rule fetch_emits, rule kit_object_emits)
  fix mcp w
  assume g: "kc_get (ct_kube (mr_ctl R)) (world s) key = (Inr mcp, w)"
  have sep: "r_cache (set_world w s) = r_cache s" "world (set_world w s) = w" by (simp_all add: set_world_def)
  show "emits P (set_world w s) (snd (server_release R mcp (set_world w s)))" if "DeletionTimestamp (cr_Meta mcp)"
    by (rule server_release_emits) (use assms(2-4) g that in \<open>auto simp: sep wire_name_def separator_def\<close>)
  show "emits P (set_world w s) (snd (server_live R key mcp (set_world w s)))" if "\<not> DeletionTimestamp (cr_Meta mcp)"
    by (rule server_live_sends) (use assms(1,4) g that in \<open>auto simp: sep wire_name_def separator_def\<close>)
qed (simp_all add: assms(4,5))

text \<open>
  C10.  Several objects may claim one LiteLLM entry; only the one that sorts last writes it.  A request with a
  body goes out only for a live object, only when the listing of its namespace was read and shows no live
  object of the same \<^verbatim>\<open>server_name\<close> with a greater \<^verbatim>\<open>namespace/name\<close>, and the name, address and transport it
  carries are the object's own, whatever the parameters contain.
\<close>

theorem server_writes_only_winner:
  assumes "Http m p (Some j) \<in> set (drop (length (log s)) (log (snd (server_Reconcile R key s))))"
  shows "\<exists>mcp w siblings w'. kc_get (ct_kube (mr_ctl R)) (world s) key = (Inr mcp, w) \<and> \<not> DeletionTimestamp (cr_Meta mcp) \<and>
    mr_list R w (Namespace (cr_Meta mcp)) = (Inr siblings, w') \<and>
    (\<forall>c \<in> set siblings. \<not> DeletionTimestamp (cr_Meta c) \<and> wire_name c s = wire_name mcp s \<longrightarrow> Key (cr_Meta c) \<le> Key (cr_Meta mcp)) \<and>
    server_body (wire_name mcp s) (cr_Spec mcp) j"
proof (rule ccontr)
  assume no: "\<not> ?thesis"
  have "emits (\<lambda>e. e \<noteq> Http m p (Some j)) s (snd (server_Reconcile R key s))"
  proof (rule server_Reconcile_emits)
    fix mcp w siblings w' e
    assume a: "kc_get (ct_kube (mr_ctl R)) (world s) key = (Inr mcp, w)" "\<not> DeletionTimestamp (cr_Meta mcp)"
      "mr_list R w (Namespace (cr_Meta mcp)) = (Inr siblings, w')" "is_winner mcp (candidates (wire_name mcp s) (separator s) siblings)"
      "server_sends (wire_name mcp s) (cr_Spec mcp) e"
    then have "\<forall>c \<in> set siblings. \<not> DeletionTimestamp (cr_Meta c) \<and> wire_name c s = wire_name mcp s \<longrightarrow> Key (cr_Meta c) \<le> Key (cr_Meta mcp)"
      by (auto simp: is_winner_def candidates_def wire_name_def)
    with no a have "\<not> server_body (wire_name mcp s) (cr_Spec mcp) j" by blast
    with a(5) show "e \<noteq> Http m p (Some j)" by (auto simp: server_sends_def)
  qed auto
  then show False using new_effects_mem [of "\<lambda>e. e = Http m p (Some j)"] assms by auto
qed

text \<open>
  C18.  Deleting one of several claimants leaves the shared entry to its owner.  A DELETE goes out only for an
  object that is being deleted, over a usable connection, and when a live sibling of the same
  \<^verbatim>\<open>server_name\<close> exists, only for a persisted id of this object's own: not the shared name and not the id
  the owning sibling points at.
\<close>

theorem server_delete_spares_owner:
  assumes "Http ''DELETE'' p b \<in> set (drop (length (log s)) (log (snd (server_Reconcile R key s))))"
  shows "\<exists>mcp w client siblings w' i. kc_get (ct_kube (mr_ctl R)) (world s) key = (Inr mcp, w) \<and> DeletionTimestamp (cr_Meta mcp) \<and>
    connected s client \<and> mr_list R w (Namespace (cr_Meta mcp)) = (Inr siblings, w') \<and> p = server_path i \<and> b = None \<and>
    (\<forall>owner. winner_of (candidates (wire_name mcp s) (separator s) siblings) = Some owner \<longrightarrow>
       i = cr_ID mcp \<and> i \<noteq> '''' \<and> i \<noteq> wire_name mcp s \<and> i \<noteq> cr_ID owner)"
proof (rule ccontr)
  assume no: "\<not> ?thesis"
  have "emits (\<lambda>e. e \<noteq> Http ''DELETE'' p b) s (snd (server_Reconcile R key s))"
  proof (rule server_Reconcile_emits)
    fix mcp w client siblings w' i
    assume "kc_get (ct_kube (mr_ctl R)) (world s) key = (Inr mcp, w)" "DeletionTimestamp (cr_Meta mcp)"
      "connected s client" "mr_list R w (Namespace (cr_Meta mcp)) = (Inr siblings, w')"
      "may_withdraw mcp (wire_name mcp s) (candidates (wire_name mcp s) (separator s) siblings) i"
    with no show "Http ''DELETE'' (server_path i) None \<noteq> Http ''DELETE'' p b" unfolding may_withdraw_def by blast
  qed (auto simp: server_sends_def)
  then show False using new_effects_mem [of "\<lambda>e. e = Http ''DELETE'' p b"] assms by auto
qed

subsection \<open>Instances\<close>

definition example_server_spec :: MCPServerSpec where
  "example_server_spec = \<lparr>ms_Endpoint = ''http://h'', ms_Transport = ''sse'', ms_Params = RawEmpty, ms_Secrets = [],
     ms_DeletionPolicy = ''Delete''\<rparr>"

definition example_server :: "bool \<Rightarrow> string \<Rightarrow> MCPServerSpec cr" where
  "example_server deleting i = example_cr example_server_spec ''a'' deleting mcpServerFinalizer i"

definition example_server_R :: "MCPServerSpec cr \<Rightarrow> MCPServerSpec cr list \<Rightarrow> unit MCPServerReconciler" where
  "example_server_R mcp siblings = \<lparr>mr_ctl = example_ctl mcp, mr_sha256hex = (\<lambda>t. t), mr_version = ''dev'',
     mr_getSecret = (\<lambda>w k. (Inl KNotFound, w)), mr_cached = (\<lambda>w. None), mr_list = (\<lambda>w ns. (Inr siblings, w))\<rparr>"

lemmas example_server_defs = example_server_R_def example_ctl_def example_server_def example_cr_def klib_std_def
  example_online_snapshot zero_snapshot_def server_kit_def set_world_def

lemma example_name: "SanitizeMCPServerName ''a'' '''' = ''a''"
  by (simp add: SanitizeMCPServerName_def MCPToolPrefixSeparatorDefault_def ReplaceChar_def Let_def)


lemma example_server_created:
  "\<exists>j. Http ''POST'' ''/v1/mcp/server'' (Some j) \<in> set (log (snd (server_Reconcile (example_server_R (example_server False '''') [])
     (''ns'', ''a'') (example_online (answering 200 (JArr []))))))"
  by (simp add: example_server_defs server_Reconcile_def kit_object_def server_live_def kit_gate_def andThen_def server_contest_def
      conflictWinner_def winner_of_def ResolveWinner_def candidates_def server_win_def Let_def example_name
      prior_reason_def ConditionReasonConflict_def conditionTypeReady_def ClearLoserCondition_def
      server_params_def kit_secrets_def checkDuplicateSecretAs_def resolveSecretMap_def kit_decode_def drop_reserved_def
      substitute_bag_def Substitute_empty example_server_spec_def kit_converge_def kit_probe_def kit_is_steady_def server_mutate_def
      adopt_server_def resolveServerIDByName_def ListMCPServers_def answering_ok is2xx_def unmarshal_def decode_list_def nonempty_list_def
      create_server_def kit_throttle_def kit_first_def CreateMCPServer_def decode_mcp_server_def kit_classify_def classifyMutationError_def
      is4xxStatus_def rejectedStatus_def reconcile_total_def emit_def)

lemma example_server_deleted:
  "Http ''DELETE'' (server_path ''x'') None \<in> set (log (snd (server_Reconcile (example_server_R (example_server True ''x'') [example_server False ''y''])
     (''ns'', ''a'') (example_online (answering 200 (JObj []))))))"
  by (simp add: example_server_defs server_Reconcile_def kit_object_def server_release_def andThen_def sharedEntryOwner_def
      conflictWinner_def winner_of_def ResolveWinner_def candidates_def owner_of_def Let_def example_name
      delete_server_def server_id_def kit_delete_def DeleteMCPServer_def answering_ok is2xx_def kit_deleted_def kit_unblock_def
      DeletionBlocked_Forget_def kit_drop_finalizer_def kit_update_def emit_def)

theorem server_writes_only_winner_witness:
  "\<exists>j. Http ''POST'' ''/v1/mcp/server'' (Some j) \<in> set (log (snd (server_Reconcile (example_server_R (example_server False '''') [])
       (''ns'', ''a'') (example_online (answering 200 (JArr [])))))) \<and> server_body ''a'' example_server_spec j"
proof -
  let ?R = "example_server_R (example_server False '''') []" and ?s = "example_online (answering 200 (JArr []))"
  obtain j where "Http ''POST'' ''/v1/mcp/server'' (Some j) \<in> set (log (snd (server_Reconcile ?R (''ns'', ''a'') ?s)))"
    using example_server_created by blast
  moreover from this have "server_body ''a'' example_server_spec j"
    using server_writes_only_winner [of "''POST''" "''/v1/mcp/server''" j ?s ?R "(''ns'', ''a'')"]
    by (auto simp: example_server_defs wire_name_def separator_def example_name)
  ultimately show ?thesis by blast
qed

theorem server_delete_spares_owner_witness:
  "\<exists>i. server_path ''x'' = server_path i \<and> i \<noteq> '''' \<and> i \<noteq> ''a'' \<and> i \<noteq> ''y''"
proof -
  let ?R = "example_server_R (example_server True ''x'') [example_server False ''y'']" and ?s = "example_online (answering 200 (JObj []))"
  have "winner_of (candidates ''a'' '''' [example_server False ''y'']) = Some (example_server False ''y'')"
    by (simp add: example_server_defs winner_of_def ResolveWinner_def candidates_def example_name)
  then show ?thesis
    using server_delete_spares_owner [of "server_path ''x''" None ?s ?R "(''ns'', ''a'')"] example_server_deleted
    by (auto simp: example_server_defs wire_name_def separator_def example_name)
qed

end
