(* ===== verification/A2a_Agent.thy ===== *)
theory A2a_Agent
  imports Secret_Steps Access_Group
begin

text \<open>
  The A2A-agent controller: \<^verbatim>\<open>internal/controller/a2aagent_controller.go\<close> with the write calls of
  \<^verbatim>\<open>internal/litellm/agents.go\<close>.  Name and address of an agent come from the object; the free-form
  parameters reach LiteLLM only through the fields of \<^verbatim>\<open>AgentConfig\<close>, and a key that is none of them is
  reported by an event.

  Go ranges over the parameter map in no fixed order; the events for unknown keys come in the order of
  the association list.
\<close>

subsection \<open>Requests\<close>

record AgentConfig =
  ac_AgentName :: string
  ac_AgentCardParams :: "json gomap"
  ac_LiteLLMParams :: "json gomap option"
  ac_ObjectPermission :: "json gomap option"
  ac_TPMLimit :: "int option"
  ac_RPMLimit :: "int option"
  ac_SessionTPMLimit :: "int option"
  ac_SessionRPMLimit :: "int option"
  ac_StaticHeaders :: "json gomap option"
  ac_ExtraHeaders :: "json gomap option"
  ac_AgentAccessGroups :: "string list"

definition omitint :: "string \<Rightarrow> int option \<Rightarrow> json gomap" where
  "omitint tag n = (case n of None \<Rightarrow> [] | Some i \<Rightarrow> [(tag, JNum (show_int i))])"

definition agent_fields :: "AgentConfig \<Rightarrow> json gomap" where
  "agent_fields c =
     [(''agent_name'', JStr (ac_AgentName c)), (''agent_card_params'', JObj (ac_AgentCardParams c))]
     @ omitmap ''litellm_params'' (ac_LiteLLMParams c) @ omitmap ''object_permission'' (ac_ObjectPermission c)
     @ omitint ''tpm_limit'' (ac_TPMLimit c) @ omitint ''rpm_limit'' (ac_RPMLimit c)
     @ omitint ''session_tpm_limit'' (ac_SessionTPMLimit c) @ omitint ''session_rpm_limit'' (ac_SessionRPMLimit c)
     @ omitmap ''static_headers'' (ac_StaticHeaders c) @ omitmap ''extra_headers'' (ac_ExtraHeaders c)
     @ omitlist ''agent_access_groups'' (ac_AgentAccessGroups c)"

text \<open>The JSON tags of the struct, and the alias the controller folds.\<close>

definition agentConfigFields :: "string list" where
  "agentConfigFields = [''agent_name'', ''agent_card_params'', ''litellm_params'', ''object_permission'', ''tpm_limit'', ''rpm_limit'',
     ''session_tpm_limit'', ''session_rpm_limit'', ''static_headers'', ''extra_headers'', ''agent_access_groups'']"

definition IsAgentConfigKey :: "string \<Rightarrow> bool" where
  "IsAgentConfigKey key \<longleftrightarrow> key \<in> set agentConfigFields \<or> key = ''access_groups''"

definition agent_path :: "string \<Rightarrow> string" where
  "agent_path i = ''/v1/agents/'' @ PathEscape i"

definition CreateAgent :: "'w http \<Rightarrow> AgentConfig \<Rightarrow> ('w, 'z, AgentEntry) call" where
  "CreateAgent http c s =
     (case makeRequest http ''POST'' ''/v1/agents'' (Some (JObj (agent_fields c))) s of
        (Inl e, s) \<Rightarrow> (Inl e, s)
      | (Inr raw, s) \<Rightarrow> (unmarshal decode_agent ''POST /v1/agents'' raw, s))"

definition UpdateAgent :: "'w http \<Rightarrow> string \<Rightarrow> AgentConfig \<Rightarrow> ('w, 'z, AgentEntry) call" where
  "UpdateAgent http i c s =
     (if i = '''' then (Inl (ErrText ''litellm: UpdateAgent: empty agent_id''), s)
      else
        case makeRequest http ''PUT'' (agent_path i) (Some (JObj (agent_fields c))) s of
          (Inl e, s) \<Rightarrow> (Inl e, s)
        | (Inr raw, s) \<Rightarrow> (unmarshal decode_agent ''PUT /v1/agents/{id}'' raw, s))"

definition DeleteAgent :: "'w http \<Rightarrow> string \<Rightarrow> ('w, 'z, unit) call" where
  "DeleteAgent http i s =
     (if i = '''' then (Inl (ErrText ''litellm: DeleteAgent: empty agent_id''), s)
      else
        case makeRequest http ''DELETE'' (agent_path i) None s of
          (Inl e, s) \<Rightarrow> (Inl e, s)
        | (Inr _, s) \<Rightarrow> (Inr (), s))"

subsection \<open>Numbers\<close>

text \<open>
  The conversion of a decoded number to \<^verbatim>\<open>int\<close>: truncation, and the least value for what does not fit, as
  on amd64.  \<^verbatim>\<open>encoding/json\<close> prints an exponent only below 1e-6 and from 1e21 on.
\<close>

definition minInt64 :: int where "minInt64 = - (2 ^ 63)"

definition float_to_int :: "string \<Rightarrow> int" where
  "float_to_int t =
     (let neg = (take 1 t = ''-'');
          whole = int (digits_value (takeWhile is_digit (if neg then drop 1 t else t)));
          n = (if neg then - whole else whole)
      in if CHR ''e'' \<in> set t
         then (if CHR ''-'' \<in> set (dropWhile (\<lambda>c. c \<noteq> CHR ''e'') t) then 0 else minInt64)
         else if minInt64 \<le> n \<and> n < 2 ^ 63 then n else minInt64)"

fun toInt :: "json \<Rightarrow> int option" where
  "toInt (JNum t) = Some (float_to_int t)"
| "toInt _ = None"

subsection \<open>The reconciler\<close>

record A2AAgentSpec =
  aa_Endpoint :: string
  aa_AgentCard :: raw_json
  aa_Params :: raw_json
  aa_Secrets :: "SecretSubstitution list"
  aa_DeletionPolicy :: string

record 'w A2AAgentReconciler =
  ar_ctl :: "('w, A2AAgentSpec) ctl"
  ar_sha256hex :: "string \<Rightarrow> string"
  ar_version :: string
  ar_getSecret :: "'w secret_getter"
  ar_cached :: "'w \<Rightarrow> AgentEntry list option"

definition a2aAgentFinalizer :: string where "a2aAgentFinalizer = ''a2aagents.litellm.ackstorm.ai/finalizer''"
definition a2aAgentKind :: string where "a2aAgentKind = ''LiteLLMA2AAgent''"

definition agent_kit :: "A2AAgentSpec kit" where
  "agent_kit = \<lparr>k_kind = a2aAgentKind, k_label = ''a2a'', k_probe = ''a2aagent'', k_finalizer = a2aAgentFinalizer,
     k_registered = ''a2a agent registered'', k_create = ''POST /v1/agents'', k_carry = (\<lambda>_ f. f)\<rparr>"

definition IndexA2AAgentSecretRefs :: "A2AAgentSpec cr \<Rightarrow> string list" where
  "IndexA2AAgentSecretRefs a = secretRefNames (aa_Secrets (cr_Spec a))"

subsection \<open>Deletion\<close>

definition agent_named :: "string \<Rightarrow> AgentEntry list \<Rightarrow> string" where
  "agent_named name entries = (case find (\<lambda>e. gn_AgentName e = name) entries of Some e \<Rightarrow> gn_AgentID e | None \<Rightarrow> '''')"

definition resolveAgentIDByName :: "'w http \<Rightarrow> string \<Rightarrow> 'w rstate \<Rightarrow> string \<times> 'w rstate" where
  "resolveAgentIDByName llm name s =
     (case ListAgents llm s of
        (Inl err, s) \<Rightarrow>
          (if is_ErrNotFound err then ('''', s)
           else if as_auth401 err \<noteq> None then ('''', invalidate_cache s)
           else ('''', s))
      | (Inr entries, s) \<Rightarrow> (agent_named name entries, s))"

definition agent_release :: "A2AAgentSpec cr \<Rightarrow> 'w rstate \<Rightarrow> unit flow \<times> 'w rstate" where
  "agent_release a s =
     (let policy = Resolve (cr_Meta a) (aa_DeletionPolicy (cr_Spec a));
          snap = Snapshot (r_cache s)
      in case (snap_Ready snap, snap_Client snap) of
           (True, Some client) \<Rightarrow>
             (let (i, s) = (if cr_ID a \<noteq> '''' then (cr_ID a, s) else resolveAgentIDByName client (Name (cr_Meta a)) s) in
              if i \<noteq> '''' then kit_delete agent_kit a policy ''DeleteAgent'' (DeleteAgent client i) s
              else (Next (), kit_unblock agent_kit a s))
         | _ \<Rightarrow> (let (reason, permanent) = ackUnavailable snap in kit_ack agent_kit a policy reason permanent s))"

subsection \<open>Rendering\<close>

definition section_sign :: string where "section_sign = [CHR 0xC2, CHR 0xA7]"
definition em_dash :: string where "em_dash = [CHR 0xE2, CHR 0x80, CHR 0x94]"

definition override_event :: "bool \<Rightarrow> string \<Rightarrow> string \<Rightarrow> 'w rstate \<Rightarrow> 'w rstate" where
  "override_event present key msg s =
     (if present then emit (Event EventTypeWarning ''ProjectionOverride'' (''key '' @ quote key @ msg)) s else s)"

definition overlays :: "string \<Rightarrow> string" where
  "overlays what = '' overridden by typed-field projection (operator overlays '' @ what @ '' per spec '' @ section_sign @ ''6.6)''"

definition override_events :: "json gomap option \<Rightarrow> json gomap option \<Rightarrow> 'w rstate \<Rightarrow> 'w rstate" where
  "override_events params agentCard s =
     override_event (param params ''model_info'' \<noteq> None) ''model_info''
       ('' is reserved by LiteLLM per spec '' @ section_sign @ ''6.6 '' @ em_dash
        @ '' operator forwards user value verbatim; LiteLLM behavior is undefined'')
     (override_event (param agentCard ''url'' \<noteq> None) ''agent_card_params.url'' (overlays ''spec.endpoint'')
     (override_event (param params ''agent_card_params'' \<noteq> None) ''agent_card_params'' (overlays ''spec.agentCard'')
     (override_event (param params ''agent_name'' \<noteq> None) ''agent_name'' (overlays ''metadata.name'') s)))"

definition unknown_event :: "string \<Rightarrow> effect" where
  "unknown_event k = Event EventTypeWarning ''UnknownParamKey''
     (''key '' @ quote k @ '' in spec.params is not a field LiteLLM's AgentConfig accepts '' @ em_dash
      @ '' the operator drops it and LiteLLM never sees it; it has NO effect'')"

fun unknown_events :: "string list \<Rightarrow> 'w rstate \<Rightarrow> 'w rstate" where
  "unknown_events [] s = s"
| "unknown_events (k # ks) s =
     unknown_events ks (if k = ''model_info'' \<or> IsAgentConfigKey k then s else emit (unknown_event k) s)"

text \<open>The parameters with the three overlays, and the card with its address.\<close>

definition merged_body :: "string \<Rightarrow> json gomap \<Rightarrow> json gomap option \<Rightarrow> json gomap" where
  "merged_body name agentCard params =
     map_put ''agent_card_params'' (JObj agentCard) (map_put ''agent_name'' (JStr name) (bag params))"

definition agent_render ::
  "'w A2AAgentReconciler \<Rightarrow> 'w http ConnectionSnapshot \<Rightarrow> A2AAgentSpec cr \<Rightarrow> 'w rstate \<Rightarrow> (json gomap \<times> json gomap) flow \<times> 'w rstate" where
  "agent_render R snap a =
     (let spec = cr_Spec a; C = ar_ctl R in
      andThen (kit_secrets agent_kit C (ar_getSecret R) ''SEC-03: must be unique within an A2AAgent'' (aa_Secrets spec) snap a) (\<lambda>secretMap.
      andThen (kit_decode agent_kit C a ''spec.params'' (aa_Params spec)) (\<lambda>params.
      andThen (kit_decode agent_kit C a ''spec.agentCard'' (aa_AgentCard spec)) (\<lambda>agentCard s.
        let (params, used, missing) = substitute_bag params secretMap;
            (agentCard, usedCard, missingCard) = substitute_bag agentCard secretMap
        in case (missing, missingCard) of
             (m # _, _) \<Rightarrow> kit_missing agent_kit C snap a m '' (in spec.params)'' s
           | ([], m # _) \<Rightarrow> kit_missing agent_kit C snap a m '' (in spec.agentCard)'' s
           | ([], []) \<Rightarrow>
               (let s = kit_unused ''spec.params or spec.agentCard'' (used @ usedCard) (aa_Secrets spec) s;
                    s = override_events params agentCard s;
                    s = unknown_events (keys (bag params)) s
                in case agentCard of
                     None \<Rightarrow> (Return (Inl (GoPanic ''assignment to entry in nil map'')), s)
                   | Some agentCard \<Rightarrow>
                       (let agentCard = map_put ''url'' (JStr (aa_Endpoint spec)) agentCard
                        in (Next (merged_body (Name (cr_Meta a)) agentCard params, agentCard), s)))))))"

definition buildAgentConfigFromMerged :: "json gomap \<Rightarrow> string \<Rightarrow> json gomap \<Rightarrow> AgentConfig" where
  "buildAgentConfigFromMerged merged name agentCard = \<lparr>
     ac_AgentName = name, ac_AgentCardParams = agentCard,
     ac_LiteLLMParams = map_param (Some merged) ''litellm_params'',
     ac_ObjectPermission = map_param (Some merged) ''object_permission'',
     ac_TPMLimit = Option.bind (map_of merged ''tpm_limit'') toInt,
     ac_RPMLimit = Option.bind (map_of merged ''rpm_limit'') toInt,
     ac_SessionTPMLimit = Option.bind (map_of merged ''session_tpm_limit'') toInt,
     ac_SessionRPMLimit = Option.bind (map_of merged ''session_rpm_limit'') toInt,
     ac_StaticHeaders = map_param (Some merged) ''static_headers'',
     ac_ExtraHeaders = map_param (Some merged) ''extra_headers'',
     ac_AgentAccessGroups = agentAccessGroupsFromParams (Some merged)\<rparr>"

definition stampA2AIdentity :: "string \<Rightarrow> bool \<Rightarrow> AgentConfig \<Rightarrow> AgentConfig" where
  "stampA2AIdentity ident includeCreatedBy c =
     (let agentCard = ac_AgentCardParams c;
          agentCard = (if includeCreatedBy then map_put ''created_by'' (JStr ident) agentCard else agentCard)
      in c\<lparr>ac_AgentCardParams := map_put ''updated_by'' (JStr ident) agentCard\<rparr>)"

subsection \<open>Create and update\<close>

definition agent_lookup :: "'w A2AAgentReconciler \<Rightarrow> 'w http \<Rightarrow> string \<Rightarrow> 'w rstate \<Rightarrow> (lerror + string) \<times> 'w rstate" where
  "agent_lookup R client name s =
     (case or_cached (ar_cached R (world s)) (ListAgents client) s of
        (Inl e, s) \<Rightarrow> (Inl e, s)
      | (Inr entries, s) \<Rightarrow> (Inr (agent_named name entries), s))"

definition adopt_agent ::
  "'w A2AAgentReconciler \<Rightarrow> 'w http \<Rightarrow> AgentConfig \<Rightarrow> A2AAgentSpec cr \<Rightarrow> lerror \<Rightarrow> 'w rstate \<Rightarrow> string flow \<times> 'w rstate" where
  "adopt_agent R client c a cerr s =
     (let (adopted, s) = resolveAgentIDByName client (Name (cr_Meta a)) s in
      if adopted = '''' then kit_classify agent_kit (ar_ctl R) a cerr ''POST /v1/agents'' s
      else
        case UpdateAgent client adopted c s of
          (Inl uerr, s) \<Rightarrow> kit_classify agent_kit (ar_ctl R) a uerr ''PUT /v1/agents/<id> (adopt)'' s
        | (Inr _, s) \<Rightarrow> (Next adopted, emit (Metric ''DriftCorrectedTotal'' [''a2a'', ''adopted_by_name'']) s))"

definition create_agent ::
  "'w A2AAgentReconciler \<Rightarrow> NamespacedName \<Rightarrow> 'w http \<Rightarrow> AgentConfig \<Rightarrow> A2AAgentSpec cr \<Rightarrow> 'w rstate \<Rightarrow> string flow \<times> 'w rstate" where
  "create_agent R key client c a =
     andThen (kit_throttle agent_kit (ar_ctl R) key a) (\<lambda>_ s.
       case CreateAgent client c s of
         (Inl cerr, s) \<Rightarrow>
           (if is4xxStatus cerr then adopt_agent R client c a cerr s
            else kit_classify agent_kit (ar_ctl R) a cerr ''POST /v1/agents'' s)
       | (Inr result, s) \<Rightarrow> (Next (gn_AgentID result), kit_created agent_kit (ar_ctl R) key a s))"

definition agent_mutate ::
  "'w A2AAgentReconciler \<Rightarrow> NamespacedName \<Rightarrow> 'w http \<Rightarrow> AgentConfig \<Rightarrow> A2AAgentSpec cr \<Rightarrow> 'w rstate \<Rightarrow> string flow \<times> 'w rstate" where
  "agent_mutate R key client c a s =
     (let ident = Operator (ar_version R) in
      if cr_ID a = '''' then create_agent R key client (stampA2AIdentity ident True c) a s
      else
        case UpdateAgent client (cr_ID a) (stampA2AIdentity ident False c) s of
          (Inl err, s) \<Rightarrow> kit_classify agent_kit (ar_ctl R) a err ''PUT /v1/agents/<id>'' s
        | (Inr _, s) \<Rightarrow> (Next (cr_ID a), kit_updated agent_kit a s))"

definition agent_live ::
  "'w A2AAgentReconciler \<Rightarrow> NamespacedName \<Rightarrow> A2AAgentSpec cr \<Rightarrow> 'w rstate \<Rightarrow> unit flow \<times> 'w rstate" where
  "agent_live R key a =
     andThen (kit_gate agent_kit (ar_ctl R) a) (\<lambda>(snap, client).
     andThen (agent_render R snap a) (\<lambda>(merged, agentCard).
       kit_converge agent_kit (ar_ctl R) key (ar_sha256hex R (canonicalJSON (JObj merged)))
         (agent_lookup R client (Name (cr_Meta a)))
         (agent_mutate R key client (buildAgentConfigFromMerged merged (Name (cr_Meta a)) agentCard)) a))"

definition agent_Reconcile :: "'w A2AAgentReconciler \<Rightarrow> NamespacedName \<Rightarrow> 'w rstate \<Rightarrow> verdict \<times> 'w rstate" where
  "agent_Reconcile R key s =
     (case kc_get (ct_kube (ar_ctl R)) (world s) key of
        (Inl e, w) \<Rightarrow> (if IsNotFoundK e then Inr no_requeue else Inl (KubeErr e), set_world w s)
      | (Inr a, w) \<Rightarrow> kit_object agent_kit (ar_ctl R) agent_release (agent_live R key) a (set_world w s))"

definition ListA2AAgentRequests :: "kube_error + A2AAgentSpec cr list \<Rightarrow> kube_error + NamespacedName list" where
  "ListA2AAgentRequests listed = (case listed of Inl e \<Rightarrow> Inl e | Inr items \<Rightarrow> Inr (map cr_key items))"

subsection \<open>What an agent write carries\<close>

text \<open>
  Name and address come from the object, and no key outside \<^verbatim>\<open>AgentConfig\<close> reaches the wire.
\<close>

definition agent_body :: "string \<Rightarrow> string \<Rightarrow> json \<Rightarrow> bool" where
  "agent_body name endpoint j \<longleftrightarrow> (\<exists>fs crd. j = JObj fs \<and> set (keys fs) \<subseteq> set agentConfigFields \<and>
     map_of fs ''agent_name'' = Some (JStr name) \<and> map_of fs ''agent_card_params'' = Some (JObj crd) \<and>
     map_of crd ''url'' = Some (JStr endpoint))"

lemma keys_omit:
  "set (keys (omitmap t m)) \<subseteq> {t}" "set (keys (omitlist t xs)) \<subseteq> {t}" "set (keys (omitint t n)) \<subseteq> {t}"
  by (auto simp: omitmap_def omitlist_def omitint_def split: option.splits list.splits)

lemma agent_fields_keys: "set (keys (agent_fields c)) \<subseteq> set agentConfigFields"
proof -
  have sub: "t \<in> set agentConfigFields \<Longrightarrow> set (keys (omitmap t m)) \<subseteq> set agentConfigFields"
    "t \<in> set agentConfigFields \<Longrightarrow> set (keys (omitlist t xs)) \<subseteq> set agentConfigFields"
    "t \<in> set agentConfigFields \<Longrightarrow> set (keys (omitint t n)) \<subseteq> set agentConfigFields" for t m xs n
    using keys_omit by fast+
  show ?thesis
    unfolding agent_fields_def map_append set_append Un_subset_iff
    by (intro conjI sub) (simp_all add: agentConfigFields_def)
qed

lemma agent_fields_body:
  assumes "ac_AgentName c = name" and "map_of (ac_AgentCardParams c) ''url'' = Some (JStr endpoint)"
  shows "agent_body name endpoint (JObj (agent_fields c))"
  unfolding agent_body_def
  using assms agent_fields_keys [of c] by (intro exI [of _ "agent_fields c"] exI [of _ "ac_AgentCardParams c"]) (simp add: agent_fields_def)

lemma stamped_body:
  assumes "ac_AgentName c = name" and "map_of (ac_AgentCardParams c) ''url'' = Some (JStr endpoint)"
  shows "agent_body name endpoint (JObj (agent_fields (stampA2AIdentity ident create c)))"
  using assms by (intro agent_fields_body) (simp_all add: stampA2AIdentity_def Let_def map_of_put)

lemma agent_render_card:
  assumes "agent_render R snap a s = (Next (merged, crd), s1)"
  shows "map_of crd ''url'' = Some (JStr (aa_Endpoint (cr_Spec a)))"
  using assms
  by (auto simp: agent_render_def andThen_def Let_def map_of_put kit_missing_def kit_park_def
      split: prod.splits flow.splits list.splits option.splits)

lemma override_events_setback: "emits is_setback s (override_events params crd s)"
  unfolding override_events_def override_event_def by (auto intro!: emits_then_emit)

lemma unknown_events_setback: "emits is_setback s (unknown_events ks s)"
proof (induction ks s rule: unknown_events.induct)
  case (2 k ks s)
  have "emits is_setback s (if k = ''model_info'' \<or> IsAgentConfigKey k then s else emit (unknown_event k) s)"
    by (simp add: unknown_event_def)
  with 2 show ?case by (auto intro: emits_trans)
qed simp

lemma agent_render_setback: "emits is_setback s (snd (agent_render R snap a s))"
proof -
  have fin: "emits is_setback s1 (unknown_events ks (override_events params crd (kit_unused w used secrets s1)))"
    for s1 :: "'a rstate" and ks params crd w used secrets
    by (rule emits_trans [OF emits_trans [OF kit_unused_setback override_events_setback] unknown_events_setback])
  show ?thesis
    unfolding agent_render_def Let_def
    by (intro emits_andThen kit_secrets_setback kit_decode_setback)
      (auto simp: kit_missing_setback fin split: prod.split list.split option.split)
qed

subsection \<open>Effects\<close>

definition agent_sends :: "string \<Rightarrow> string \<Rightarrow> effect \<Rightarrow> bool" where
  "agent_sends name endpoint e \<longleftrightarrow> is_report e \<or> e = Http ''GET'' ''/v1/agents?health_check=false'' None \<or>
     (\<exists>m p j. e = Http m p (Some j) \<and> m \<noteq> ''DELETE'' \<and> agent_body name endpoint j)"

lemma list_agents_asks:
  fixes s :: "'w rstate"
  shows "emits (\<lambda>e. e = Http ''GET'' ''/v1/agents?health_check=false'' None) s (snd (ListAgents http s))"
  by (simp add: ListAgents_def makeRequest_parts emits_def case_prod_beta split: sum.splits)

lemma resolve_agent_asks:
  "emits (\<lambda>e. e = Http ''GET'' ''/v1/agents?health_check=false'' None) s (snd (resolveAgentIDByName llm n s))"
  using list_agents_asks [of s llm]
  by (auto simp: resolveAgentIDByName_def split: prod.splits sum.splits intro: emits_trans [OF _ invalidate_cache_emits])

lemma agent_setback: "emits is_setback s s' \<Longrightarrow> emits (agent_sends n u) s s'"
  by (drule setback_emits, erule emits_mono) (simp add: agent_sends_def)

lemma agent_get: "emits (\<lambda>e. e = Http ''GET'' ''/v1/agents?health_check=false'' None) s s' \<Longrightarrow> emits (agent_sends n u) s s'"
  by (erule emits_mono) (simp add: agent_sends_def)

lemma agent_writes_send:
  fixes s :: "'w rstate"
  assumes "agent_body n u (JObj (agent_fields c))"
  shows "emits (agent_sends n u) s (snd (CreateAgent http c s))" and "emits (agent_sends n u) s (snd (UpdateAgent http i c s))"
  using assms by (auto simp: CreateAgent_def UpdateAgent_def makeRequest_parts emits_def agent_sends_def case_prod_beta split: sum.splits)

lemma agent_lookup_sends: "emits (agent_sends n u) s (snd (agent_lookup R client name s))"
  using agent_get [OF list_agents_asks [of s client]]
  by (auto simp: agent_lookup_def or_cached_def split: prod.splits sum.splits option.splits)

lemma adopt_agent_sends:
  assumes "agent_body n u (JObj (agent_fields c))"
  shows "emits (agent_sends n u) s (snd (adopt_agent R client c a cerr s))"
proof -
  obtain i s1 where i: "resolveAgentIDByName client (Name (cr_Meta a)) s = (i, s1)" by fastforce
  have e: "emits (agent_sends n u) s s1" using agent_get [OF resolve_agent_asks [of s client "Name (cr_Meta a)"]] i by simp
  have "emits (agent_sends n u) s1 (snd (case UpdateAgent client i c s1 of
          (Inl uerr, s) \<Rightarrow> kit_classify agent_kit (ar_ctl R) a uerr ''PUT /v1/agents/<id> (adopt)'' s
        | (Inr _, s) \<Rightarrow> (Next i, emit (Metric ''DriftCorrectedTotal'' [''a2a'', ''adopted_by_name'']) s)))"
    by (intro after_call agent_writes_send assms) (simp_all add: agent_setback kit_classify_setback agent_sends_def)
  moreover have "emits (agent_sends n u) s (snd (kit_classify agent_kit (ar_ctl R) a cerr op s1 :: string flow \<times> _))" for op
    by (rule emits_trans [OF e agent_setback [OF kit_classify_setback]])
  ultimately show ?thesis using emits_trans [OF e] by (simp add: adopt_agent_def i)
qed

lemma agent_mutate_sends:
  assumes "ac_AgentName c = n" and "map_of (ac_AgentCardParams c) ''url'' = Some (JStr u)"
  shows "emits (agent_sends n u) s (snd (agent_mutate R key client c a s))"
proof -
  note b = stamped_body [OF assms]
  have "emits (agent_sends n u) s (snd (create_agent R key client (stampA2AIdentity ident True c) a s))" for ident
    unfolding create_agent_def
    by (intro emits_andThen [OF agent_setback [OF kit_throttle_setback]] after_call agent_writes_send b)
      (simp_all add: agent_setback kit_classify_setback kit_created_setback adopt_agent_sends b)
  moreover have "emits (agent_sends n u) s (snd (case UpdateAgent client (cr_ID a) (stampA2AIdentity ident False c) s of
          (Inl err, s) \<Rightarrow> kit_classify agent_kit (ar_ctl R) a err ''PUT /v1/agents/<id>'' s
        | (Inr _, s) \<Rightarrow> (Next (cr_ID a), kit_updated agent_kit a s)))" for ident
    by (intro after_call agent_writes_send b) (simp_all add: agent_setback kit_classify_setback kit_updated_setback)
  ultimately show ?thesis by (simp add: agent_mutate_def Let_def)
qed

lemma agent_live_sends:
  assumes "\<And>client e. connected s client \<Longrightarrow> agent_sends (Name (cr_Meta a)) (aa_Endpoint (cr_Spec a)) e \<Longrightarrow> P e"
    and "\<And>e. is_report e \<Longrightarrow> P e"
  shows "emits P s (snd (agent_live R key a s))"
  unfolding agent_live_def
proof (rule emits_andThen [OF setback_imp [OF kit_gate_setback]])
  show "is_setback e \<Longrightarrow> P e" for e using assms(2) by (cases e) auto
  fix x s1
  assume "kit_gate agent_kit (ar_ctl R) a s = (Next x, s1)"
  then obtain snap client where x: "x = (snap, client)" "s1 = s" "connected s client"
    using kit_gate_Next [of agent_kit "ar_ctl R" a s x s1] by (cases x) (auto simp: Usable_def)
  let ?S = "agent_sends (Name (cr_Meta a)) (aa_Endpoint (cr_Spec a))"
  have "emits ?S s (snd (andThen (agent_render R snap a) (\<lambda>(merged, agentCard).
       kit_converge agent_kit (ar_ctl R) key (ar_sha256hex R (canonicalJSON (JObj merged)))
         (agent_lookup R client (Name (cr_Meta a)))
         (agent_mutate R key client (buildAgentConfigFromMerged merged (Name (cr_Meta a)) agentCard)) a) s))"
  proof (rule emits_andThen [OF agent_setback [OF agent_render_setback]])
    fix y s2
    assume r: "agent_render R snap a s = (Next y, s2)"
    obtain merged crd where y: "y = (merged, crd)" by fastforce
    have "emits ?S s2 (snd (kit_converge agent_kit (ar_ctl R) key h (agent_lookup R client (Name (cr_Meta a)))
         (agent_mutate R key client (buildAgentConfigFromMerged merged (Name (cr_Meta a)) crd)) a s2))" for h
      using agent_render_card [of R snap a s merged crd s2] r y
      by (intro kit_converge_emits agent_lookup_sends agent_mutate_sends) (simp_all add: agent_sends_def buildAgentConfigFromMerged_def)
    then show "emits ?S s2 (snd ((case y of (merged, agentCard) \<Rightarrow>
         kit_converge agent_kit (ar_ctl R) key (ar_sha256hex R (canonicalJSON (JObj merged)))
           (agent_lookup R client (Name (cr_Meta a)))
           (agent_mutate R key client (buildAgentConfigFromMerged merged (Name (cr_Meta a)) agentCard)) a) s2))"
      by (simp add: y)
  qed
  then have "emits P s (snd (andThen (agent_render R snap a) (\<lambda>(merged, agentCard).
       kit_converge agent_kit (ar_ctl R) key (ar_sha256hex R (canonicalJSON (JObj merged)))
         (agent_lookup R client (Name (cr_Meta a)))
         (agent_mutate R key client (buildAgentConfigFromMerged merged (Name (cr_Meta a)) agentCard)) a) s))"
    by (rule emits_mono) (rule assms(1) [OF x(3)])
  then show "emits P s1 (snd ((case x of (snap, client) \<Rightarrow> andThen (agent_render R snap a) (\<lambda>(merged, agentCard).
       kit_converge agent_kit (ar_ctl R) key (ar_sha256hex R (canonicalJSON (JObj merged)))
         (agent_lookup R client (Name (cr_Meta a)))
         (agent_mutate R key client (buildAgentConfigFromMerged merged (Name (cr_Meta a)) agentCard)) a)) s1))"
    by (simp add: x)
qed

lemma agent_release_emits:
  assumes "\<And>client i. connected s client \<Longrightarrow> P (Http ''DELETE'' (agent_path i) None)"
    and "Usable (Snapshot (r_cache s)) \<Longrightarrow> P (Http ''GET'' ''/v1/agents?health_check=false'' None)" and "\<And>e. is_report e \<Longrightarrow> P e"
  shows "emits P s (snd (agent_release a s))"
proof (cases "Usable (Snapshot (r_cache s))")
  case False
  have sb: "is_setback e \<Longrightarrow> P e" for e using assms(3) by (cases e) auto
  have "emits P s (snd (kit_ack agent_kit a p m q s))" for p m q by (rule setback_imp [OF kit_ack_setback sb])
  with False show ?thesis
    by (auto simp: agent_release_def Usable_def ackUnavailable_def Let_def split: bool.splits option.splits)
next
  case True
  have sb: "is_setback e \<Longrightarrow> P e" for e using assms(3) by (cases e) auto
  obtain client where c: "connected s client" using True by (auto simp: Usable_def)
  obtain i s1 where i: "(if cr_ID a \<noteq> '''' then (cr_ID a, s) else resolveAgentIDByName client (Name (cr_Meta a)) s) = (i, s1)"
    by fastforce
  have e: "emits P s s1"
    using emits_mono [OF resolve_agent_asks [of s client "Name (cr_Meta a)"], of P] i assms(2) [OF True] by (auto split: if_splits)
  have "emits (\<lambda>e. e = Http ''DELETE'' (agent_path i) None) s1 (snd (DeleteAgent client i s1))"
    by (simp add: DeleteAgent_def makeRequest_parts emits_def case_prod_beta split: sum.splits)
  then have "emits P s1 (snd (DeleteAgent client i s1))" by (rule emits_mono) (use assms(1) [OF c] in simp)
  then have "emits P s1 (snd (kit_delete agent_kit a p ''DeleteAgent'' (DeleteAgent client i) s1))" for p
    by (rule kit_delete_emits) (rule sb)
  moreover have "emits P s1 (kit_unblock agent_kit a s1)" by (rule setback_imp [OF kit_unblock_setback sb])
  ultimately show ?thesis using emits_trans [OF e] c i by (auto simp: agent_release_def Let_def)
qed

interpretation agt: handler agent_kit "ar_ctl R" agent_release "agent_live R key"
  for R :: "'w A2AAgentReconciler" and key
proof unfold_locales
  fix s :: "'w rstate" and obj
  have rep: "is_report e \<Longrightarrow> (\<forall>fs. e \<noteq> ObjectUpdate fs)" "is_report e \<Longrightarrow> \<not> is_http e" for e
    by (cases e; simp)+
  show "emits (\<lambda>e. \<forall>fs. e \<noteq> ObjectUpdate fs) s (snd (agent_release obj s))"
    by (rule agent_release_emits) (simp_all add: rep)
  show "emits (\<lambda>e. \<forall>fs. e \<noteq> ObjectUpdate fs) s (snd (agent_live R key obj s))"
    by (rule agent_live_sends) (auto simp: rep agent_sends_def)
  assume off: "\<not> Usable (Snapshot (r_cache s))"
  show "emits (\<lambda>e. \<not> is_http e) s (snd (agent_release obj s))"
    by (rule agent_release_emits) (use off in \<open>auto simp: rep Usable_def\<close>)
  show "emits (\<lambda>e. \<not> is_http e) s (snd (agent_live R key obj s))"
    by (rule agent_live_sends) (use off in \<open>auto simp: rep Usable_def\<close>)
qed

subsection \<open>Properties\<close>

text \<open>
  C29.  Whatever \<^verbatim>\<open>spec.params\<close> and \<^verbatim>\<open>spec.agentCard\<close> contain, a write for an agent carries the object's own
  name and the endpoint of its spec as the address of the card, and no key but those of \<^verbatim>\<open>AgentConfig\<close>.  In
  particular \<^verbatim>\<open>model_info\<close> is never sent, although the event raised for it says that it is forwarded.
\<close>

theorem agent_write_overlaid:
  assumes "Http m p (Some (JObj fs)) \<in> set (drop (length (log s)) (log (snd (agent_Reconcile R key s))))"
  shows "\<exists>a w crd. kc_get (ct_kube (ar_ctl R)) (world s) key = (Inr a, w) \<and> \<not> DeletionTimestamp (cr_Meta a) \<and>
    map_of fs ''agent_name'' = Some (JStr (Name (cr_Meta a))) \<and> map_of fs ''agent_card_params'' = Some (JObj crd) \<and>
    map_of crd ''url'' = Some (JStr (aa_Endpoint (cr_Spec a))) \<and>
    set (keys fs) \<subseteq> set agentConfigFields \<and> ''model_info'' \<notin> set (keys fs)"
proof (rule ccontr)
  assume no: "\<not> ?thesis"
  let ?P = "\<lambda>e. e \<noteq> Http m p (Some (JObj fs))"
  have mi: "\<not> fst ` set fs \<subseteq> set agentConfigFields" if "(''model_info'', b) \<in> set fs" for b
  proof
    assume "fst ` set fs \<subseteq> set agentConfigFields"
    then have "''model_info'' \<in> set agentConfigFields" using imageI [OF that, of fst] by (simp add: subset_iff)
    then show False by (simp add: agentConfigFields_def)
  qed
  have "emits ?P s (snd (agent_Reconcile R key s))"
    unfolding agent_Reconcile_def
  proof (rule fetch_emits, rule kit_object_emits)
    fix a w
    assume g: "kc_get (ct_kube (ar_ctl R)) (world s) key = (Inr a, w)"
    show "emits ?P (set_world w s) (snd (agent_release a (set_world w s)))" by (rule agent_release_emits) auto
    show "emits ?P (set_world w s) (snd (agent_live R key a (set_world w s)))" if "\<not> DeletionTimestamp (cr_Meta a)"
    proof (rule agent_live_sends)
      show "?P e" if "agent_sends (Name (cr_Meta a)) (aa_Endpoint (cr_Spec a)) e" for e
        using that no g \<open>\<not> DeletionTimestamp (cr_Meta a)\<close> mi by (auto simp: agent_sends_def agent_body_def)
    qed auto
  qed auto
  then show False using new_effects_mem [of "\<lambda>e. e = Http m p (Some (JObj fs))"] assms by auto
qed

definition example_agent_spec :: A2AAgentSpec where
  "example_agent_spec = \<lparr>aa_Endpoint = ''http://h'', aa_AgentCard = RawEmpty,
     aa_Params = RawValue (JObj [(''agent_name'', JStr ''x''), (''model_info'', JBool True)]), aa_Secrets = [], aa_DeletionPolicy = ''Delete''\<rparr>"

definition example_agent :: "A2AAgentSpec cr" where
  "example_agent = example_cr example_agent_spec ''a'' False a2aAgentFinalizer ''id1''"

definition example_agent_R :: "unit A2AAgentReconciler" where
  "example_agent_R = \<lparr>ar_ctl = example_ctl example_agent, ar_sha256hex = (\<lambda>t. t), ar_version = ''dev'',
     ar_getSecret = (\<lambda>w k. (Inl KNotFound, w)), ar_cached = (\<lambda>w. None)\<rparr>"

lemma example_substitute:
  "Substitute [(''agent_name'', JStr ''x''), (''model_info'', JBool True)] [] =
     ([(''agent_name'', JStr ''x''), (''model_info'', JBool True)], [], [])"
  by code_simp

lemma example_agent_updated:
  "\<exists>fs. Http ''PUT'' (agent_path ''id1'') (Some (JObj fs)) \<in>
     set (log (snd (agent_Reconcile example_agent_R (''ns'', ''a'') (example_online (answering 200 (JArr []))))))"
  by (simp add: example_agent_R_def example_ctl_def example_agent_def example_cr_def klib_std_def example_online_snapshot zero_snapshot_def
      agent_kit_def set_world_def agent_Reconcile_def kit_object_def agent_live_def kit_gate_def andThen_def agent_render_def
      kit_secrets_def checkDuplicateSecretAs_def resolveSecretMap_def kit_decode_def substitute_bag_def Substitute_empty example_substitute
      example_agent_spec_def override_events_def override_event_def IsAgentConfigKey_def agentConfigFields_def param_def
      kit_converge_def kit_probe_def kit_is_steady_def agent_mutate_def UpdateAgent_def answering_ok is2xx_def unmarshal_def
      decode_agent_def kit_classify_def classifyMutationError_def is4xxStatus_def rejectedStatus_def reconcile_total_def
      emit_def Let_def canonicalJSON_def) blast

theorem agent_write_overlaid_witness:
  "\<exists>fs. Http ''PUT'' (agent_path ''id1'') (Some (JObj fs)) \<in>
       set (log (snd (agent_Reconcile example_agent_R (''ns'', ''a'') (example_online (answering 200 (JArr [])))))) \<and>
     map_of fs ''agent_name'' = Some (JStr ''a'') \<and> ''model_info'' \<notin> set (keys fs)"
proof -
  let ?s = "example_online (answering 200 (JArr []))"
  obtain fs where fs: "Http ''PUT'' (agent_path ''id1'') (Some (JObj fs)) \<in> set (log (snd (agent_Reconcile example_agent_R (''ns'', ''a'') ?s)))"
    using example_agent_updated by blast
  then have "map_of fs ''agent_name'' = Some (JStr ''a'') \<and> ''model_info'' \<notin> set (keys fs)"
    using agent_write_overlaid [of "''PUT''" "agent_path ''id1''" fs ?s example_agent_R "(''ns'', ''a'')"]
    by (auto simp: example_agent_R_def example_ctl_def example_agent_def example_cr_def example_online_snapshot)
  with fs show ?thesis by blast
qed

end
