(* ===== verification/Guardrail.thy ===== *)
theory Guardrail
  imports Secret_Steps Access_Group
begin

text \<open>
  The guardrail controller: \<^verbatim>\<open>internal/controller/litellmguardrail_controller.go\<close> with the calls of
  \<^verbatim>\<open>internal/litellm/guardrail.go\<close>.  Several objects may share one guardrail name and form a pool, each with
  its own LiteLLM row; a row loaded from LiteLLM's configuration file is never touched.

  The uid of an object and the two fields of its recorded state that other kinds lack, the definition
  location and the pool size, are kept beside the spec; the status writer carries the latter two over.
  Mode names are the ASCII names of the admission enum.
\<close>

subsection \<open>Wire types and calls\<close>

record GuardrailBody =
  gb_GuardrailID :: string
  gb_GuardrailName :: string
  gb_LitellmParams :: "json gomap"
  gb_GuardrailInfo :: "json gomap option"
  gb_PolicyTemplate :: string

definition guardrail_json :: "GuardrailBody \<Rightarrow> json" where
  "guardrail_json b = JObj [(''guardrail'', JObj
     (omitempty ''guardrail_id'' (gb_GuardrailID b)
      @ [(''guardrail_name'', JStr (gb_GuardrailName b)), (''litellm_params'', JObj (gb_LitellmParams b))]
      @ omitmap ''guardrail_info'' (gb_GuardrailInfo b) @ omitempty ''policy_template'' (gb_PolicyTemplate b)))]"

record GuardrailEntry =
  gx_GuardrailID :: string
  gx_GuardrailName :: string
  gx_DefinitionLocation :: string

definition decode_guardrail :: "json \<Rightarrow> GuardrailEntry option" where
  "decode_guardrail v =
     (case dec_object (Some v) of None \<Rightarrow> None
      | Some m \<Rightarrow>
        (case (dec_string (struct_field ''guardrail_id'' m), dec_string (struct_field ''guardrail_name'' m),
               dec_object (struct_field ''litellm_params'' m), dec_object (struct_field ''guardrail_info'' m),
               dec_string (struct_field ''policy_template'' m), dec_string (struct_field ''created_at'' m),
               dec_string (struct_field ''updated_at'' m), dec_string (struct_field ''guardrail_definition_location'' m)) of
           (Some i, Some n, Some _, Some _, Some _, Some _, Some _, Some l) \<Rightarrow>
             Some \<lparr>gx_GuardrailID = i, gx_GuardrailName = n, gx_DefinitionLocation = l\<rparr>
         | _ \<Rightarrow> None))"

definition decode_guardrails :: "json \<Rightarrow> GuardrailEntry list option" where
  "decode_guardrails v =
     (case dec_object (Some v) of None \<Rightarrow> None
      | Some m \<Rightarrow> Option.bind (dec_array (struct_field ''guardrails'' m)) (dec_all decode_guardrail))"

text \<open>The wrapped shape when it decodes and has a name, the flat one otherwise.\<close>

definition decode_wrapped :: "json \<Rightarrow> GuardrailEntry option" where
  "decode_wrapped v =
     (case dec_object (Some v) of None \<Rightarrow> None
      | Some m \<Rightarrow>
        (case struct_field ''guardrail'' m of
           None \<Rightarrow> None | Some JNull \<Rightarrow> None | Some g \<Rightarrow> decode_guardrail g))"

definition decodeGuardrailResponse :: "json \<Rightarrow> GuardrailEntry option" where
  "decodeGuardrailResponse v =
     (case decode_wrapped v of
        Some e \<Rightarrow> (if gx_GuardrailName e \<noteq> '''' then Some e else decode_guardrail v)
      | None \<Rightarrow> decode_guardrail v)"

definition guardrail_path :: "string \<Rightarrow> string" where
  "guardrail_path i = ''/guardrails/'' @ PathEscape i"

definition CreateGuardrail :: "'w http \<Rightarrow> GuardrailBody \<Rightarrow> ('w, 'z, GuardrailEntry) call" where
  "CreateGuardrail http b s =
     (case makeRequest http ''POST'' ''/guardrails'' (Some (guardrail_json b)) s of
        (Inl e, s) \<Rightarrow> (Inl e, s)
      | (Inr raw, s) \<Rightarrow> (unmarshal decodeGuardrailResponse ''POST /guardrails'' raw, s))"

definition UpdateGuardrail :: "'w http \<Rightarrow> string \<Rightarrow> GuardrailBody \<Rightarrow> ('w, 'z, GuardrailEntry) call" where
  "UpdateGuardrail http i b s =
     (if i = '''' then (Inl (ErrText ''litellm: UpdateGuardrail: empty guardrail_id''), s)
      else
        case makeRequest http ''PUT'' (guardrail_path i) (Some (guardrail_json b)) s of
          (Inl e, s) \<Rightarrow> (Inl e, s)
        | (Inr raw, s) \<Rightarrow> (unmarshal decodeGuardrailResponse ''PUT /guardrails/{id}'' raw, s))"

definition DeleteGuardrail :: "'w http \<Rightarrow> string \<Rightarrow> ('w, 'z, unit) call" where
  "DeleteGuardrail http i s =
     (if i = '''' then (Inl (ErrText ''litellm: DeleteGuardrail: empty guardrail_id''), s)
      else
        case makeRequest http ''DELETE'' (guardrail_path i) None s of
          (Inl e, s) \<Rightarrow> (Inl e, s)
        | (Inr _, s) \<Rightarrow> (Inr (), s))"

definition ListGuardrails :: "'w http \<Rightarrow> ('w, 'z, GuardrailEntry list) call" where
  "ListGuardrails http s =
     (case makeRequest http ''GET'' ''/v2/guardrails/list'' None s of
        (Inl e, s) \<Rightarrow> (Inl e, s)
      | (Inr raw, s) \<Rightarrow> (unmarshal decode_guardrails ''GET /v2/guardrails/list'' raw, s))"

definition GetGuardrailByName :: "'w http \<Rightarrow> string \<Rightarrow> ('w, 'z, GuardrailEntry option) call" where
  "GetGuardrailByName http name s =
     (case ListGuardrails http s of
        (Inl e, s) \<Rightarrow> (Inl e, s)
      | (Inr rows, s) \<Rightarrow> (Inr (find (\<lambda>r. gx_GuardrailName r = name) rows), s))"

definition GetGuardrailByID :: "'w http \<Rightarrow> string \<Rightarrow> ('w, 'z, GuardrailEntry option) call" where
  "GetGuardrailByID http i s =
     (case ListGuardrails http s of
        (Inl e, s) \<Rightarrow> (Inl e, s)
      | (Inr rows, s) \<Rightarrow> (Inr (find (\<lambda>r. gx_GuardrailID r = i) rows), s))"

definition NormalizeGuardrailMode :: "string \<Rightarrow> string" where
  "NormalizeGuardrailMode m = map lower_byte m"

subsection \<open>The reconciler\<close>

record GuardRailSpec =
  gd_GuardrailName :: string
  gd_Provider :: string
  gd_Mode :: "string list"
  gd_DefaultOn :: "bool option"
  gd_PolicyTemplate :: string
  gd_Params :: raw_json
  gd_Info :: raw_json
  gd_Secrets :: "SecretSubstitution list"
  gd_DeletionPolicy :: string
  gd_UID :: string
  gd_DefinitionLocation :: string
  gd_PoolSize :: int

record 'w GuardRailReconciler =
  gl_ctl :: "('w, GuardRailSpec) ctl"
  gl_sha256hex :: "string \<Rightarrow> string"
  gl_getSecret :: "'w secret_getter"
  gl_list :: "'w \<Rightarrow> string \<Rightarrow> (kube_error + GuardRailSpec cr list) \<times> 'w"

definition guardrailFinalizer :: string where "guardrailFinalizer = ''guardrails.litellm.ackstorm.ai/finalizer''"
definition guardrailKind :: string where "guardrailKind = ''LiteLLMGuardRail''"
definition locationDB :: string where "locationDB = ''db''"
definition locationConfig :: string where "locationConfig = ''config''"

definition carry_rendered :: "GuardRailSpec cr \<Rightarrow> GuardRailSpec cr \<Rightarrow> GuardRailSpec cr" where
  "carry_rendered gr f = f\<lparr>cr_Spec := (cr_Spec f)\<lparr>gd_DefinitionLocation := gd_DefinitionLocation (cr_Spec gr),
     gd_PoolSize := gd_PoolSize (cr_Spec gr)\<rparr>\<rparr>"

definition guardrail_kit :: "GuardRailSpec kit" where
  "guardrail_kit = \<lparr>k_kind = guardrailKind, k_label = ''guardrail'', k_probe = ''guardrail'', k_finalizer = guardrailFinalizer,
     k_registered = ''guardrail registered'', k_create = ''POST /guardrails'', k_carry = carry_rendered\<rparr>"

definition IndexGuardrailSecretRefs :: "GuardRailSpec cr \<Rightarrow> string list" where
  "IndexGuardrailSecretRefs gr = secretRefNames (gd_Secrets (cr_Spec gr))"

subsection \<open>Deletion\<close>

definition delete_guardrail ::
  "GuardRailSpec cr \<Rightarrow> Policy \<Rightarrow> 'w http \<Rightarrow> 'w rstate \<Rightarrow> unit flow \<times> 'w rstate" where
  "delete_guardrail gr policy client s =
     (case DeleteGuardrail client (cr_ID gr) s of
        (Inl err, s) \<Rightarrow>
          (if as_auth401 err \<noteq> None then kit_ack guardrail_kit gr policy ''401 on DeleteGuardrail'' False s
           else if is4xxStatus err then (Next (), kit_unblock guardrail_kit gr s)
           else (Return (Inl (LlmErr err)), s))
      | (Inr _, s) \<Rightarrow> kit_deleted guardrail_kit gr s)"

definition guardrail_release :: "GuardRailSpec cr \<Rightarrow> 'w rstate \<Rightarrow> unit flow \<times> 'w rstate" where
  "guardrail_release gr s =
     (let policy = Resolve (cr_Meta gr) (gd_DeletionPolicy (cr_Spec gr));
          snap = Snapshot (r_cache s)
      in case (snap_Ready snap, snap_Client snap) of
           (True, Some client) \<Rightarrow>
             (if cr_ID gr \<noteq> '''' then delete_guardrail gr policy client s
              else (Next (), kit_unblock guardrail_kit gr s))
         | _ \<Rightarrow> (let (reason, permanent) = ackUnavailable snap in kit_ack guardrail_kit gr policy reason permanent s))"

subsection \<open>Rendering\<close>

definition validateGuardrailMode :: "string list \<Rightarrow> string option" where
  "validateGuardrailMode modes =
     (if length modes = 0 then Some ''spec.mode must contain at least one entry''
      else if \<exists>m \<in> set modes. m = ''realtime_input_transcription'' \<and> length modes > 1
      then Some ''spec.mode: realtime_input_transcription is mutually exclusive with other slots''
      else None)"

definition reservedGuardrailKeys :: "string list" where
  "reservedGuardrailKeys = [''guardrail'', ''mode'', ''default_on'', ''policy_template'', ''guardrail_name'']"

definition stripReservedGuardrailKeys :: "json gomap option \<Rightarrow> 'w rstate \<Rightarrow> json gomap option \<times> 'w rstate" where
  "stripReservedGuardrailKeys params s =
     (let stripped = filter (\<lambda>k. param params k \<noteq> None) reservedGuardrailKeys
      in (map_option (filter (\<lambda>(k, v). k \<notin> set stripped)) params,
          if length stripped > 0
          then emit (Event EventTypeWarning ''ReservedKeyStripped''
                 (''reserved key(s) '' @ join '', '' stripped @ '' removed from spec.params; canonical source is the typed spec field'')) s
          else s))"

definition mode_json :: "string list \<Rightarrow> json" where
  "mode_json modes =
     (case modes of
        [m] \<Rightarrow> JStr (NormalizeGuardrailMode m)
      | _ \<Rightarrow> JArr (map (\<lambda>m. JStr (NormalizeGuardrailMode m)) modes))"

definition renderGuardrailBody :: "GuardRailSpec \<Rightarrow> json gomap option \<Rightarrow> json gomap option \<Rightarrow> GuardrailBody" where
  "renderGuardrailBody spec params info =
     (let ps = map_put ''mode'' (mode_json (gd_Mode spec)) (map_put ''guardrail'' (JStr (gd_Provider spec)) (bag params));
          ps = (case gd_DefaultOn spec of Some b \<Rightarrow> map_put ''default_on'' (JBool b) ps | None \<Rightarrow> ps)
      in \<lparr>gb_GuardrailID = '''', gb_GuardrailName = gd_GuardrailName spec, gb_LitellmParams = ps,
          gb_GuardrailInfo = (if length (bag info) > 0 then info else None), gb_PolicyTemplate = gd_PolicyTemplate spec\<rparr>)"

definition guardrail_hash :: "'w GuardRailReconciler \<Rightarrow> GuardrailBody \<Rightarrow> string" where
  "guardrail_hash R b = gl_sha256hex R (canonicalJSON (JObj
     [(''guardrail_name'', JStr (gb_GuardrailName b)), (''litellm_params'', JObj (gb_LitellmParams b)),
      (''guardrail_info'', case gb_GuardrailInfo b of None \<Rightarrow> JNull | Some m \<Rightarrow> JObj m),
      (''policy_template'', JStr (gb_PolicyTemplate b))]))"

definition guardrail_body ::
  "'w GuardRailReconciler \<Rightarrow> 'w http ConnectionSnapshot \<Rightarrow> GuardRailSpec cr \<Rightarrow> 'w rstate \<Rightarrow> GuardrailBody flow \<times> 'w rstate" where
  "guardrail_body R snap gr =
     (let spec = cr_Spec gr; C = gl_ctl R in
      case validateGuardrailMode (gd_Mode spec) of
        Some msg \<Rightarrow> kit_park guardrail_kit C gr ''InvalidMode'' msg (requeue_rejected snap)
      | None \<Rightarrow>
          andThen (kit_secrets guardrail_kit C (gl_getSecret R) ''must be unique within a LiteLLMGuardRail'' (gd_Secrets spec) snap gr)
            (\<lambda>secretMap.
          andThen (kit_decode guardrail_kit C gr ''spec.params'' (gd_Params spec)) (\<lambda>params.
          andThen (kit_decode guardrail_kit C gr ''spec.info'' (gd_Info spec)) (\<lambda>info s.
            let (params, used, missing) = substitute_bag params secretMap;
                (info, usedInfo, missingInfo) = substitute_bag info secretMap
            in case missing @ missingInfo of
                 m # _ \<Rightarrow> kit_missing guardrail_kit C snap gr m '''' s
               | [] \<Rightarrow>
                   (let (params, s) = stripReservedGuardrailKeys params s
                    in (Next (renderGuardrailBody spec params info),
                        kit_unused ''spec.params or spec.info'' (used @ usedInfo) (gd_Secrets spec) s))))))"

subsection \<open>Discovery and pool\<close>

definition find_row ::
  "'w GuardRailReconciler \<Rightarrow> GuardRailSpec cr \<Rightarrow> string \<Rightarrow> 'w http \<Rightarrow> 'w rstate \<Rightarrow> GuardrailEntry option flow \<times> 'w rstate" where
  "find_row R gr op client s =
     (case GetGuardrailByName client (gd_GuardrailName (cr_Spec gr)) s of
        (Inl err, s) \<Rightarrow> kit_classify guardrail_kit (gl_ctl R) gr err op s
      | (Inr row, s) \<Rightarrow> (Next row, s))"

definition probe_row ::
  "'w GuardRailReconciler \<Rightarrow> 'w http \<Rightarrow> GuardrailEntry option \<Rightarrow> GuardRailSpec cr \<Rightarrow> 'w rstate
   \<Rightarrow> (GuardRailSpec cr \<times> GuardrailEntry option) flow \<times> 'w rstate" where
  "probe_row R client existing gr s =
     (if cr_ID gr \<noteq> '''' \<and> cr_Hash gr \<noteq> '''' then
        (case GetGuardrailByID client (cr_ID gr) s of
           (Inl err, s) \<Rightarrow> kit_classify guardrail_kit (gl_ctl R) gr err ''GET /v2/guardrails/list (existence probe)'' s
         | (Inr (Some _), s) \<Rightarrow> (Next (gr, existing), s)
         | (Inr None, s) \<Rightarrow>
             (let gr = gr\<lparr>cr_ID := ''''\<rparr> in
              andThen (find_row R gr ''GET /v2/guardrails/list (post-probe refresh)'' client) (\<lambda>row s. (Next (gr, row), s)) s))
      else (Next (gr, existing), s))"

definition maxInt32 :: int where "maxInt32 = 2 ^ 31 - 1"

definition pool_step :: "GuardRailSpec cr \<Rightarrow> GuardRailSpec cr \<Rightarrow> int \<times> bool \<times> bool \<Rightarrow> int \<times> bool \<times> bool" where
  "pool_step gr sib acc =
     (let (poolSize, providerMismatch, anySiblingOwns) = acc in
      if gd_GuardrailName (cr_Spec sib) \<noteq> gd_GuardrailName (cr_Spec gr) then acc
      else if DeletionTimestamp (cr_Meta sib) then acc
      else
        let other = (gd_UID (cr_Spec sib) \<noteq> gd_UID (cr_Spec gr)) in
        (if poolSize < maxInt32 then poolSize + 1 else poolSize,
         providerMismatch \<or> other \<and> gd_Provider (cr_Spec sib) \<noteq> gd_Provider (cr_Spec gr),
         anySiblingOwns \<or> other \<and> cr_ID sib \<noteq> ''''))"

definition checkGuardrailPool :: "GuardRailSpec cr \<Rightarrow> GuardRailSpec cr list \<Rightarrow> int \<times> bool \<times> bool" where
  "checkGuardrailPool gr siblings = fold (pool_step gr) siblings (0, False, False)"

text \<open>A failed listing of the objects takes the default arm of the classification: returned and counted.\<close>

definition guardrail_pool ::
  "'w GuardRailReconciler \<Rightarrow> 'w http ConnectionSnapshot \<Rightarrow> GuardRailSpec cr \<Rightarrow> 'w rstate \<Rightarrow> (int \<times> bool) flow \<times> 'w rstate" where
  "guardrail_pool R snap gr s =
     (case gl_list R (world s) (Namespace (cr_Meta gr)) of
        (Inl e, w) \<Rightarrow> (Return (Inl (KubeErr e)), reconcile_total guardrailKind ''error'' (set_world w s))
      | (Inr siblings, w) \<Rightarrow>
          (let (poolSize, providerMismatch, anySiblingOwns) = checkGuardrailPool gr siblings; s = set_world w s in
           if providerMismatch
           then kit_park guardrail_kit (gl_ctl R) gr ''PoolProviderMismatch''
                  (''guardrail_name '' @ quote (gd_GuardrailName (cr_Spec gr)) @ '' is shared with a sibling CR declaring a different spec.provider; LiteLLM cannot load-balance across heterogeneous providers'')
                  (requeue_rejected snap) s
           else (Next (poolSize, anySiblingOwns), s)))"

definition guardrail_config ::
  "'w GuardRailReconciler \<Rightarrow> 'w http ConnectionSnapshot \<Rightarrow> GuardRailSpec cr \<Rightarrow> GuardrailEntry option \<Rightarrow> 'w rstate \<Rightarrow> unit flow \<times> 'w rstate" where
  "guardrail_config R snap gr existing s =
     (case existing of
        Some row \<Rightarrow>
          (if gx_DefinitionLocation row = locationConfig
           then kit_park guardrail_kit (gl_ctl R) (gr\<lparr>cr_Spec := (cr_Spec gr)\<lparr>gd_DefinitionLocation := locationConfig\<rparr>\<rparr>)
                  ''ConflictsWithConfigGuardrail''
                  (''guardrail_name '' @ quote (gd_GuardrailName (cr_Spec gr)) @ '' is loaded from the LiteLLM config file (definition_location=config); operator cannot mutate config-loaded rows'')
                  (requeue_rejected snap) s
           else (Next (), s))
      | None \<Rightarrow> (Next (), s))"

definition adopted_id :: "GuardRailSpec cr \<Rightarrow> GuardrailEntry option \<Rightarrow> int \<Rightarrow> bool \<Rightarrow> string" where
  "adopted_id gr existing poolSize anySiblingOwns =
     (case existing of
        Some row \<Rightarrow>
          (if cr_ID gr = '''' \<and> gx_GuardrailID row \<noteq> '''' \<and> \<not> anySiblingOwns \<and> poolSize \<le> 1 then gx_GuardrailID row else cr_ID gr)
      | None \<Rightarrow> cr_ID gr)"

subsection \<open>Steady state, create, update\<close>

text \<open>
  The refresh of the pool size rewrites the status it has just read; its effect is the Ready condition
  found there.
\<close>

definition ready_of :: "klib \<Rightarrow> GuardRailSpec cr \<Rightarrow> Condition" where
  "ready_of K f =
     (case FindStatusCondition K (cr_Conditions f) conditionTypeReady of
        Some c \<Rightarrow> c
      | None \<Rightarrow> \<lparr>Type = conditionTypeReady, Status = ConditionUnknown, Reason = '''', Message = '''', ObservedGeneration = 0\<rparr>)"

definition refresh_pool :: "'w GuardRailReconciler \<Rightarrow> GuardRailSpec cr \<Rightarrow> int \<Rightarrow> 'w rstate \<Rightarrow> 'w rstate" where
  "refresh_pool R gr poolSize s =
     (if poolSize \<noteq> gd_PoolSize (cr_Spec gr)
      then snd (writeStatusWithRetry (ct_retries (gl_ctl R)) (ct_kube (gl_ctl R)) (cr_key gr)
             (\<lambda>f. StatusWrite (ready_of (ct_lib (gl_ctl R)) f) (cr_ID f))
             (\<lambda>(_::unit) f. (f\<lparr>cr_Spec := (cr_Spec f)\<lparr>gd_PoolSize := poolSize\<rparr>\<rparr>, ())) () s)
      else s)"

definition guardrail_steady ::
  "'w GuardRailReconciler \<Rightarrow> GuardRailSpec cr \<Rightarrow> int \<Rightarrow> 'w rstate \<Rightarrow> unit flow \<times> 'w rstate" where
  "guardrail_steady R gr poolSize s =
     (case (if kit_synced (ct_lib (gl_ctl R)) gr then (None, s)
            else kit_writeStatus guardrail_kit (gl_ctl R) gr ConditionTrue reasonSynced (k_registered guardrail_kit) s) of
        (Some e, s) \<Rightarrow> (Return (kit_status_failed e), s)
      | (None, s) \<Rightarrow>
          (done_ok, reconcile_total guardrailKind ''success''
             (refresh_pool R gr poolSize (emit (Metric ''CRStatusAge.RecordSuccess'' [guardrailKind, Name (cr_Meta gr)]) s))))"

definition guardrail_drift :: "GuardRailSpec cr \<Rightarrow> string \<Rightarrow> 'w rstate \<Rightarrow> 'w rstate" where
  "guardrail_drift gr action s =
     (if kit_first gr then s else emit (Metric ''DriftCorrectedTotal'' [''guardrail'', action]) s)"

definition guardrail_apply ::
  "'w GuardRailReconciler \<Rightarrow> 'w http \<Rightarrow> GuardRailSpec cr \<Rightarrow> GuardrailBody \<Rightarrow> string \<Rightarrow> 'w rstate \<Rightarrow> string flow \<times> 'w rstate" where
  "guardrail_apply R client gr body persistedID s =
     (if persistedID = '''' then
        (case CreateGuardrail client body s of
           (Inl cerr, s) \<Rightarrow> kit_classify guardrail_kit (gl_ctl R) gr cerr ''POST /guardrails'' s
         | (Inr created, s) \<Rightarrow> (Next (gx_GuardrailID created), guardrail_drift gr ''create_missing'' s))
      else
        case UpdateGuardrail client persistedID (body\<lparr>gb_GuardrailID := persistedID\<rparr>) s of
          (Inl uerr, s) \<Rightarrow> kit_classify guardrail_kit (gl_ctl R) gr uerr ''PUT /guardrails/{id}'' s
        | (Inr _, s) \<Rightarrow> (Next persistedID, guardrail_drift gr ''update_drifted'' s))"

definition guardrail_finish ::
  "'w GuardRailReconciler \<Rightarrow> GuardRailSpec cr \<Rightarrow> string \<Rightarrow> int \<Rightarrow> int \<Rightarrow> string \<Rightarrow> 'w rstate \<Rightarrow> unit flow \<times> 'w rstate" where
  "guardrail_finish R gr hash poolSize now newID s =
     (let gr = gr\<lparr>cr_Hash := hash, cr_ID := newID, cr_At := Some now,
            cr_Spec := (cr_Spec gr)\<lparr>gd_DefinitionLocation := locationDB, gd_PoolSize := poolSize\<rparr>\<rparr>;
          (err, s) = kit_writeStatus guardrail_kit (gl_ctl R) gr ConditionTrue reasonSynced (k_registered guardrail_kit) s
      in case err of
           Some e \<Rightarrow> (Return (kit_status_failed e), s)
         | None \<Rightarrow>
             (done_ok, reconcile_total guardrailKind ''success''
                (emit (Metric ''CRStatusAge.RecordSuccess'' [guardrailKind, Name (cr_Meta gr)]) s)))"

definition guardrail_settle ::
  "'w GuardRailReconciler \<Rightarrow> 'w http \<Rightarrow> GuardRailSpec cr \<Rightarrow> GuardrailBody \<Rightarrow> int \<Rightarrow> string \<Rightarrow> 'w rstate \<Rightarrow> unit flow \<times> 'w rstate" where
  "guardrail_settle R client gr body poolSize persistedID s =
     (if persistedID \<noteq> '''' \<and> cr_Hash gr = guardrail_hash R body \<and> cr_ObservedGeneration gr = Generation (cr_Meta gr)
      then guardrail_steady R gr poolSize s
      else
        let (now, s) = tick (gl_ctl R) s in
        andThen (guardrail_apply R client gr body persistedID) (guardrail_finish R gr (guardrail_hash R body) poolSize now) s)"

definition guardrail_live ::
  "'w GuardRailReconciler \<Rightarrow> GuardRailSpec cr \<Rightarrow> 'w rstate \<Rightarrow> unit flow \<times> 'w rstate" where
  "guardrail_live R gr =
     andThen (kit_gate guardrail_kit (gl_ctl R) gr) (\<lambda>(snap, client).
     andThen (guardrail_body R snap gr) (\<lambda>body.
     andThen (find_row R gr ''GET /v2/guardrails/list'' client) (\<lambda>existing.
     andThen (probe_row R client existing gr) (\<lambda>(gr, existing).
     andThen (guardrail_config R snap gr existing) (\<lambda>_.
     andThen (guardrail_pool R snap gr) (\<lambda>(poolSize, anySiblingOwns).
       guardrail_settle R client gr body poolSize (adopted_id gr existing poolSize anySiblingOwns)))))))"

definition guardrail_Reconcile :: "'w GuardRailReconciler \<Rightarrow> NamespacedName \<Rightarrow> 'w rstate \<Rightarrow> verdict \<times> 'w rstate" where
  "guardrail_Reconcile R key s =
     (case kc_get (ct_kube (gl_ctl R)) (world s) key of
        (Inl e, w) \<Rightarrow> (if IsNotFoundK e then Inr no_requeue else Inl (KubeErr e), set_world w s)
      | (Inr gr, w) \<Rightarrow> kit_object guardrail_kit (gl_ctl R) guardrail_release (guardrail_live R) gr (set_world w s))"

definition ListGuardRailRequests :: "kube_error + GuardRailSpec cr list \<Rightarrow> kube_error + NamespacedName list" where
  "ListGuardRailRequests listed = (case listed of Inl e \<Rightarrow> Inl e | Inr items \<Rightarrow> Inr (map cr_key items))"

subsection \<open>Effects\<close>

abbreviation asks_list :: "effect \<Rightarrow> bool" where
  "asks_list e \<equiv> e = Http ''GET'' ''/v2/guardrails/list'' None"

lemma guardrail_reads:
  fixes s :: "'w rstate"
  shows "emits asks_list s (snd (ListGuardrails http s))" and "emits asks_list s (snd (GetGuardrailByName http name s))"
    and "emits asks_list s (snd (GetGuardrailByID http i s))"
proof -
  show l: "emits asks_list s (snd (ListGuardrails http s))"
    by (simp add: ListGuardrails_def makeRequest_parts emits_def case_prod_beta split: sum.splits)
  then show "emits asks_list s (snd (GetGuardrailByName http name s))" "emits asks_list s (snd (GetGuardrailByID http i s))"
    by (simp_all add: GetGuardrailByName_def GetGuardrailByID_def case_prod_beta split: sum.splits)
qed

text \<open>
  What the live path may send, with \<open>U\<close> the rows it may update and \<open>C\<close> whether it may create.
\<close>

definition guardrail_sends :: "(string \<Rightarrow> bool) \<Rightarrow> bool \<Rightarrow> effect \<Rightarrow> bool" where
  "guardrail_sends U C e \<longleftrightarrow> is_report e \<or> asks_list e \<or> (\<exists>b. C \<and> e = Http ''POST'' ''/guardrails'' (Some b)) \<or>
     (\<exists>i b. U i \<and> e = Http ''PUT'' (guardrail_path i) (Some b))"

lemma guardrail_setback: "emits is_setback s s' \<Longrightarrow> emits (guardrail_sends U C) s s'"
  by (drule setback_emits, erule emits_mono) (simp add: guardrail_sends_def)

lemma guardrail_report: "emits is_report s s' \<Longrightarrow> emits (guardrail_sends U C) s s'"
  by (erule emits_mono) (simp add: guardrail_sends_def)

lemma guardrail_asks: "emits asks_list s s' \<Longrightarrow> emits (guardrail_sends U C) s s'"
  by (erule emits_mono) (simp add: guardrail_sends_def)

lemma guardrail_body_setback: "emits is_setback s (snd (guardrail_body R snap gr s))"
proof -
  have strip: "emits is_setback s1 (snd (stripReservedGuardrailKeys p s1))" for p and s1 :: "'a rstate"
    by (simp add: stripReservedGuardrailKeys_def Let_def)
  have unused: "emits is_setback s1 (kit_unused w used secrets (snd (stripReservedGuardrailKeys p s1)))"
    for p w used secrets and s1 :: "'a rstate"
    by (rule emits_trans [OF strip kit_unused_setback])
  show ?thesis
    unfolding guardrail_body_def Let_def
    by (cases "validateGuardrailMode (gd_Mode (cr_Spec gr))")
      (auto simp: kit_park_setback kit_missing_setback case_prod_beta unused split: list.split
        intro!: emits_andThen kit_secrets_setback kit_decode_setback)
qed

lemma find_row_sends: "emits (guardrail_sends U C) s (snd (find_row R gr op client s))"
  unfolding find_row_def
  by (rule after_call [OF guardrail_asks [OF guardrail_reads(2)]]) (simp_all add: guardrail_setback kit_classify_setback)

lemma probe_row_sends: "emits (guardrail_sends U C) s (snd (probe_row R client existing gr s))"
proof -
  obtain r s1 where g: "GetGuardrailByID client (cr_ID gr) s = (r, s1)" by fastforce
  have e: "emits (guardrail_sends U C) s s1" using guardrail_asks [OF guardrail_reads(3) [of s client "cr_ID gr"]] g by simp
  have "emits (guardrail_sends U C) s (snd (andThen (find_row R gr' op client) (\<lambda>row s. (Next (gr', row), s)) s1))" for gr' op
    by (rule emits_trans [OF e]) (rule emits_andThen [OF find_row_sends], simp)
  moreover have "emits (guardrail_sends U C) s (snd (kit_classify guardrail_kit (gl_ctl R) gr err op s1 :: (GuardRailSpec cr \<times> GuardrailEntry option) flow \<times> _))"
    for err op by (rule emits_trans [OF e guardrail_setback [OF kit_classify_setback]])
  ultimately show ?thesis using e by (auto simp: probe_row_def g Let_def split: sum.split option.split)
qed

lemma refresh_pool_reports: "emits is_report s (refresh_pool R gr n s)"
  unfolding refresh_pool_def by (auto intro!: writeStatusWithRetry_emits)

lemma guardrail_steady_reports: "emits is_report s (snd (guardrail_steady R gr n s))"
proof -
  obtain e s1 where w: "(if kit_synced (ct_lib (gl_ctl R)) gr then (None, s)
      else kit_writeStatus guardrail_kit (gl_ctl R) gr ConditionTrue reasonSynced (k_registered guardrail_kit) s) = (e, s1)" by fastforce
  then have "emits is_report s s1"
    using kit_writeStatus_reports [of s guardrail_kit "gl_ctl R" gr ConditionTrue reasonSynced "k_registered guardrail_kit"]
    by (auto split: if_splits)
  then show ?thesis
    by (cases e) (auto simp: guardrail_steady_def w reconcile_total_def intro!: emits_then_emit emits_trans [OF _ refresh_pool_reports])
qed

lemma guardrail_apply_sends:
  assumes "pid = '''' \<Longrightarrow> C" and "pid \<noteq> '''' \<Longrightarrow> U pid"
  shows "emits (guardrail_sends U C) s (snd (guardrail_apply R client gr body pid s))"
proof -
  have drift: "emits (guardrail_sends U' C') s1 (guardrail_drift gr a s1)" for U' C' a s1
    by (auto simp: guardrail_drift_def guardrail_sends_def)
  have c: "emits (guardrail_sends U C) s (snd (CreateGuardrail client body s))" if "C"
    using that by (auto simp: CreateGuardrail_def makeRequest_parts emits_def guardrail_sends_def case_prod_beta split: sum.splits)
  have u: "emits (guardrail_sends U C) s (snd (UpdateGuardrail client pid b s))" if "U pid" for b
    using that by (auto simp: UpdateGuardrail_def makeRequest_parts emits_def guardrail_sends_def case_prod_beta split: sum.splits)
  show ?thesis
    unfolding guardrail_apply_def using assms c u
    by (cases "pid = ''''") (auto intro!: after_call simp: guardrail_setback kit_classify_setback drift)
qed

lemma guardrail_finish_reports: "emits is_report s (snd (guardrail_finish R gr hash n now i s))"
proof -
  have "emits is_report s (snd (kit_writeStatus guardrail_kit (gl_ctl R) gr' ConditionTrue reasonSynced m s))" for gr' m
    by (rule kit_writeStatus_reports)
  then show ?thesis
    by (auto simp: guardrail_finish_def Let_def reconcile_total_def case_prod_beta split: option.splits intro!: emits_then_emit)
qed

lemma guardrail_settle_sends:
  assumes "pid = '''' \<Longrightarrow> C" and "pid \<noteq> '''' \<Longrightarrow> U pid"
  shows "emits (guardrail_sends U C) s (snd (guardrail_settle R client gr body n pid s))"
proof -
  obtain t s1 where t: "tick (gl_ctl R) s = (t, s1)" by fastforce
  have e: "emits (guardrail_sends U C) s s1" using tick_log [OF t] by (rule emits_same_log)
  have "emits (guardrail_sends U C) s1 (snd (andThen (guardrail_apply R client gr body pid) (guardrail_finish R gr h n t) s1))" for h
    using assms by (intro emits_andThen guardrail_apply_sends) (simp_all add: guardrail_report guardrail_finish_reports)
  then show ?thesis
    using emits_trans [OF e] by (simp add: guardrail_settle_def t guardrail_report guardrail_steady_reports)
qed

subsection \<open>The pool\<close>

definition pool :: "GuardRailSpec cr \<Rightarrow> GuardRailSpec cr list \<Rightarrow> GuardRailSpec cr list" where
  "pool gr siblings =
     filter (\<lambda>c. gd_GuardrailName (cr_Spec c) = gd_GuardrailName (cr_Spec gr) \<and> \<not> DeletionTimestamp (cr_Meta c)) siblings"

definition rivals :: "GuardRailSpec cr \<Rightarrow> GuardRailSpec cr list \<Rightarrow> GuardRailSpec cr set" where
  "rivals gr siblings = {c \<in> set (pool gr siblings). gd_UID (cr_Spec c) \<noteq> gd_UID (cr_Spec gr)}"

lemma pool_fold:
  assumes "n \<le> maxInt32"
  shows "fold (pool_step gr) siblings (n, a, b) =
    (min (n + int (length (pool gr siblings))) maxInt32,
     a \<or> (\<exists>c \<in> rivals gr siblings. gd_Provider (cr_Spec c) \<noteq> gd_Provider (cr_Spec gr)),
     b \<or> (\<exists>c \<in> rivals gr siblings. cr_ID c \<noteq> ''''))"
  using assms
proof (induction siblings arbitrary: n a b)
  case Nil
  then show ?case by (simp add: pool_def rivals_def)
next
  case (Cons c cs)
  show ?case
  proof (cases "gd_GuardrailName (cr_Spec c) = gd_GuardrailName (cr_Spec gr) \<and> \<not> DeletionTimestamp (cr_Meta c)")
    case True
    let ?m = "if n < maxInt32 then n + 1 else n"
    have "?m \<le> maxInt32" using Cons.prems by simp
    moreover have "min (?m + int (length (pool gr cs))) maxInt32 = min (n + int (length (pool gr (c # cs)))) maxInt32"
      using Cons.prems True by (simp add: pool_def add.assoc)
    ultimately show ?thesis
      using True Cons.IH [of ?m] by (auto simp: pool_step_def Let_def pool_def rivals_def)
  next
    case False
    then have "pool gr (c # cs) = pool gr cs" "pool_step gr c (n, a, b) = (n, a, b)"
      by (auto simp: pool_def pool_step_def)
    then show ?thesis using Cons by (simp add: rivals_def)
  qed
qed

text \<open>The loop over the objects computes the size of the pool, capped, and the two questions about its other members.\<close>

lemma checkGuardrailPool_spec:
  "checkGuardrailPool gr siblings =
    (min (int (length (pool gr siblings))) maxInt32,
     \<exists>c \<in> rivals gr siblings. gd_Provider (cr_Spec c) \<noteq> gd_Provider (cr_Spec gr),
     \<exists>c \<in> rivals gr siblings. cr_ID c \<noteq> '''')"
  using pool_fold [of 0 gr siblings False False] by (simp add: checkGuardrailPool_def maxInt32_def)

text \<open>An object alone under its name in some listing of the namespace, with no other owner there.\<close>

definition sole_claimant :: "'w GuardRailReconciler \<Rightarrow> GuardRailSpec cr \<Rightarrow> bool" where
  "sole_claimant R gr \<longleftrightarrow> (\<exists>w siblings w'. gl_list R w (Namespace (cr_Meta gr)) = (Inr siblings, w') \<and>
     length (pool gr siblings) \<le> 1 \<and> (\<forall>c \<in> rivals gr siblings. cr_ID c = ''''))"

lemma guardrail_pool_Next:
  assumes "guardrail_pool R snap gr s = (Next (n, owns), s1)"
  shows "\<exists>siblings w. gl_list R (world s) (Namespace (cr_Meta gr)) = (Inr siblings, w) \<and>
    n = min (int (length (pool gr siblings))) maxInt32 \<and> owns = (\<exists>c \<in> rivals gr siblings. cr_ID c \<noteq> '''')"
  using assms
  by (auto simp: guardrail_pool_def checkGuardrailPool_spec kit_park_def Let_def split: prod.splits sum.splits if_splits)

lemma guardrail_pool_sends: "emits (guardrail_sends U C) s (snd (guardrail_pool R snap gr s))"
proof -
  obtain r w where l: "gl_list R (world s) (Namespace (cr_Meta gr)) = (r, w)" by fastforce
  have e: "emits (guardrail_sends U C) s (set_world w s)" by simp
  have "emits (guardrail_sends U C) s (snd (kit_park guardrail_kit (gl_ctl R) gr m p q (set_world w s) :: (int \<times> bool) flow \<times> _))" for m p q
    by (rule emits_trans [OF e guardrail_setback [OF kit_park_setback]])
  then show ?thesis
    by (auto simp: guardrail_pool_def l reconcile_total_def guardrail_sends_def Let_def intro!: emits_then_emit split: sum.split prod.split)
qed

lemma probe_row_same:
  assumes "probe_row R client existing gr s = (Next (gr', row), s1)"
  shows "cr_Meta gr' = cr_Meta gr \<and> cr_Spec gr' = cr_Spec gr \<and> (cr_ID gr' = cr_ID gr \<or> cr_ID gr' = '''')"
  using assms
  by (auto simp: probe_row_def andThen_def kit_classify_def Let_def split: if_splits prod.splits sum.splits option.splits flow.splits)

lemma adopted_id_claim:
  assumes "adopted_id gr existing n owns \<noteq> cr_ID gr" and "guardrail_pool R snap gr s = (Next (n, owns), s1)"
  shows "sole_claimant R gr"
proof -
  obtain siblings w where l: "gl_list R (world s) (Namespace (cr_Meta gr)) = (Inr siblings, w)"
    and n: "n = min (int (length (pool gr siblings))) maxInt32" and o: "owns = (\<exists>c \<in> rivals gr siblings. cr_ID c \<noteq> '''')"
    using guardrail_pool_Next [OF assms(2)] by blast
  have "n \<le> 1" "\<not> owns" using assms(1) by (auto simp: adopted_id_def split: option.splits if_splits)
  then have "length (pool gr siblings) \<le> 1" using n by (simp add: maxInt32_def min_def split: if_splits)
  then show ?thesis using l o \<open>\<not> owns\<close> unfolding sole_claimant_def by blast
qed

lemma guardrail_config_setback: "emits is_setback s (snd (guardrail_config R snap gr existing s))"
  by (auto simp: guardrail_config_def kit_park_setback split: option.split)

lemma sole_claimant_cong:
  "cr_Meta gr' = cr_Meta gr \<Longrightarrow> cr_Spec gr' = cr_Spec gr \<Longrightarrow> sole_claimant R gr' = sole_claimant R gr"
  by (simp add: sole_claimant_def pool_def rivals_def)

lemma guardrail_rest_sends:
  fixes s :: "'w rstate"
  shows "emits (guardrail_sends (\<lambda>i. i = cr_ID gr \<or> sole_claimant R gr) True) s (snd (andThen (probe_row R client existing gr) (\<lambda>(gr, existing).
     andThen (guardrail_config R snap gr existing) (\<lambda>_.
     andThen (guardrail_pool R snap gr) (\<lambda>(poolSize, anySiblingOwns).
       guardrail_settle R client gr body poolSize (adopted_id gr existing poolSize anySiblingOwns)))) s))"
    (is "emits ?S s _")
proof (rule emits_andThen [OF probe_row_sends])
  fix x and s1 :: "'w rstate"
  assume p: "probe_row R client existing gr s = (Next x, s1)"
  obtain gr' row where x: "x = (gr', row)" by fastforce
  note same = probe_row_same [of R client existing gr s gr' row s1]
  have "emits ?S s2 (snd (guardrail_settle R client gr' body n (adopted_id gr' row n owns) s2))"
    if q: "guardrail_pool R snap gr' s3 = (Next (n, owns), s2)" for n owns s2 s3
  proof (rule guardrail_settle_sends)
    assume ne: "adopted_id gr' row n owns \<noteq> ''''"
    show "adopted_id gr' row n owns = cr_ID gr \<or> sole_claimant R gr"
    proof (cases "adopted_id gr' row n owns = cr_ID gr'")
      case True
      then show ?thesis using ne same p x by auto
    next
      case False
      then have "sole_claimant R gr'" using q by (rule adopted_id_claim)
      then show ?thesis using same p x sole_claimant_cong by blast
    qed
  qed simp
  then have "emits ?S s1 (snd (andThen (guardrail_config R snap gr' row) (\<lambda>_.
     andThen (guardrail_pool R snap gr') (\<lambda>(poolSize, anySiblingOwns).
       guardrail_settle R client gr' body poolSize (adopted_id gr' row poolSize anySiblingOwns))) s1))"
    by (intro emits_andThen [OF guardrail_setback [OF guardrail_config_setback]] emits_andThen [OF guardrail_pool_sends])
      (auto simp: case_prod_beta)
  then show "emits ?S s1 (snd ((case x of (gr, existing) \<Rightarrow> andThen (guardrail_config R snap gr existing) (\<lambda>_.
     andThen (guardrail_pool R snap gr) (\<lambda>(poolSize, anySiblingOwns).
       guardrail_settle R client gr body poolSize (adopted_id gr existing poolSize anySiblingOwns)))) s1))"
    by (simp add: x)
qed

lemma guardrail_live_sends:
  "emits (\<lambda>e. is_report e \<or> Usable (Snapshot (r_cache s)) \<and> guardrail_sends (\<lambda>i. i = cr_ID gr \<or> sole_claimant R gr) True e) s
     (snd (guardrail_live R gr s))"
  unfolding guardrail_live_def
proof (rule emits_andThen [OF setback_imp [OF kit_gate_setback]])
  show "is_setback e \<Longrightarrow> is_report e \<or> Usable (Snapshot (r_cache s)) \<and> guardrail_sends (\<lambda>i. i = cr_ID gr \<or> sole_claimant R gr) True e" for e
    by (cases e) auto
  fix x s1
  assume "kit_gate guardrail_kit (gl_ctl R) gr s = (Next x, s1)"
  then obtain snap client where x: "x = (snap, client)" "s1 = s" "Usable (Snapshot (r_cache s))"
    using kit_gate_Next [of guardrail_kit "gl_ctl R" gr s x s1] by (cases x) auto
  let ?S = "guardrail_sends (\<lambda>i. i = cr_ID gr \<or> sole_claimant R gr) True"
  let ?run = "andThen (guardrail_body R snap gr) (\<lambda>body.
     andThen (find_row R gr ''GET /v2/guardrails/list'' client) (\<lambda>existing.
     andThen (probe_row R client existing gr) (\<lambda>(gr, existing).
     andThen (guardrail_config R snap gr existing) (\<lambda>_.
     andThen (guardrail_pool R snap gr) (\<lambda>(poolSize, anySiblingOwns).
       guardrail_settle R client gr body poolSize (adopted_id gr existing poolSize anySiblingOwns))))))"
  have "emits ?S s (snd (?run s))"
    by (rule emits_andThen [OF guardrail_setback [OF guardrail_body_setback]],
        rule emits_andThen [OF find_row_sends], rule guardrail_rest_sends)
  then have "emits (\<lambda>e. is_report e \<or> Usable (Snapshot (r_cache s)) \<and> ?S e) s (snd (?run s))"
    by (rule emits_mono) (simp add: x)
  then show "emits (\<lambda>e. is_report e \<or> Usable (Snapshot (r_cache s)) \<and> ?S e) s1 (snd ((case x of (snap, client) \<Rightarrow>
     andThen (guardrail_body R snap gr) (\<lambda>body.
     andThen (find_row R gr ''GET /v2/guardrails/list'' client) (\<lambda>existing.
     andThen (probe_row R client existing gr) (\<lambda>(gr, existing).
     andThen (guardrail_config R snap gr existing) (\<lambda>_.
     andThen (guardrail_pool R snap gr) (\<lambda>(poolSize, anySiblingOwns).
       guardrail_settle R client gr body poolSize (adopted_id gr existing poolSize anySiblingOwns))))))) s1))"
    by (simp only: x prod.case)
qed

lemma guardrail_release_sends:
  "emits (\<lambda>e. is_report e \<or> Usable (Snapshot (r_cache s)) \<and> cr_ID gr \<noteq> '''' \<and> e = Http ''DELETE'' (guardrail_path (cr_ID gr)) None) s
     (snd (guardrail_release gr s))"
    (is "emits ?P s _")
proof -
  have sb: "emits ?P s1 s2" if "emits is_setback s1 s2" for s1 s2 :: "'a rstate"
    by (rule emits_mono [OF setback_emits [OF that]]) simp
  have del: "emits ?P s (snd (delete_guardrail gr p client s))" if "Usable (Snapshot (r_cache s))" "cr_ID gr \<noteq> ''''" for p client
  proof -
    obtain r s1 where d: "DeleteGuardrail client (cr_ID gr) s = (r, s1)" by fastforce
    have "emits ?P s (snd (DeleteGuardrail client (cr_ID gr) s))"
      using that by (simp add: DeleteGuardrail_def makeRequest_parts emits_def case_prod_beta split: sum.splits)
    then have e: "emits ?P s s1" using d by simp
    show ?thesis
      using e emits_trans [OF e sb [OF kit_ack_setback]] emits_trans [OF e sb [OF kit_unblock_setback]]
        emits_trans [OF e sb [OF kit_deleted_setback]]
      by (auto simp: delete_guardrail_def d split: sum.splits)
  qed
  have "emits ?P s (snd (kit_ack guardrail_kit gr p m q s))" for p m q by (rule sb [OF kit_ack_setback])
  moreover have "emits ?P s (kit_unblock guardrail_kit gr s)" by (rule sb [OF kit_unblock_setback])
  ultimately show ?thesis
    using del by (auto simp: guardrail_release_def Usable_def ackUnavailable_def Let_def split: bool.splits option.splits)
qed

interpretation grd: handler guardrail_kit "gl_ctl R" guardrail_release "guardrail_live R"
  for R :: "'w GuardRailReconciler"
proof unfold_locales
  fix s :: "'w rstate" and obj
  have rep: "is_report e \<Longrightarrow> (\<forall>fs. e \<noteq> ObjectUpdate fs)" "is_report e \<Longrightarrow> \<not> is_http e" for e
    by (cases e; simp)+
  show "emits (\<lambda>e. \<forall>fs. e \<noteq> ObjectUpdate fs) s (snd (guardrail_release obj s))"
    by (rule emits_mono [OF guardrail_release_sends]) (auto simp: rep)
  show "emits (\<lambda>e. \<forall>fs. e \<noteq> ObjectUpdate fs) s (snd (guardrail_live R obj s))"
    by (rule emits_mono [OF guardrail_live_sends]) (auto simp: rep guardrail_sends_def)
  assume off: "\<not> Usable (Snapshot (r_cache s))"
  show "emits (\<lambda>e. \<not> is_http e) s (snd (guardrail_release obj s))"
    by (rule emits_mono [OF guardrail_release_sends]) (use off in \<open>auto simp: rep\<close>)
  show "emits (\<lambda>e. \<not> is_http e) s (snd (guardrail_live R obj s))"
    by (rule emits_mono [OF guardrail_live_sends]) (use off in \<open>auto simp: rep\<close>)
qed

subsection \<open>Properties\<close>

text \<open>
  C19.  Objects that share a guardrail name each keep their own row.  An update goes out only for the row the
  object has recorded, or, when it adopts a row, only if some listing of its namespace showed it alone
  under the name with no other owner; and a row is deleted only by the object that has recorded it.
\<close>

theorem guardrail_touches_own_row:
  assumes "Http m p b \<in> set (drop (length (log s)) (log (snd (guardrail_Reconcile R key s))))" and "m \<noteq> ''GET''"
  shows "\<exists>gr w. kc_get (ct_kube (gl_ctl R)) (world s) key = (Inr gr, w) \<and>
    (if DeletionTimestamp (cr_Meta gr) then m = ''DELETE'' \<and> p = guardrail_path (cr_ID gr) \<and> cr_ID gr \<noteq> ''''
     else m = ''POST'' \<and> p = ''/guardrails'' \<or>
          m = ''PUT'' \<and> (\<exists>i. p = guardrail_path i \<and> (i = cr_ID gr \<or> sole_claimant R gr)))"
proof (rule ccontr)
  assume no: "\<not> ?thesis"
  let ?P = "\<lambda>e. e \<noteq> Http m p b"
  have "emits ?P s (snd (guardrail_Reconcile R key s))"
    unfolding guardrail_Reconcile_def
  proof (rule fetch_emits, rule kit_object_emits)
    fix gr w
    assume g: "kc_get (ct_kube (gl_ctl R)) (world s) key = (Inr gr, w)"
    show "emits ?P (set_world w s) (snd (guardrail_release gr (set_world w s)))" if "DeletionTimestamp (cr_Meta gr)"
      by (rule emits_mono [OF guardrail_release_sends]) (use no g that in auto)
    show "emits ?P (set_world w s) (snd (guardrail_live R gr (set_world w s)))" if "\<not> DeletionTimestamp (cr_Meta gr)"
      by (rule emits_mono [OF guardrail_live_sends]) (use no g that assms(2) in \<open>auto simp: guardrail_sends_def\<close>)
  qed auto
  then show False using new_effects_mem [of "\<lambda>e. e = Http m p b"] assms(1) by auto
qed

text \<open>Listings that always answer with the same rows.\<close>

definition lists_rows :: "'w http \<Rightarrow> GuardrailEntry list \<Rightarrow> bool" where
  "lists_rows client rows \<longleftrightarrow> (\<forall>s :: 'w rstate. fst (ListGuardrails client s) = Inr rows)"

lemma lists_rowsD:
  fixes s :: "'w rstate"
  assumes "lists_rows client rows"
  shows "\<exists>s1. GetGuardrailByName client name s = (Inr (find (\<lambda>r. gx_GuardrailName r = name) rows), s1) \<and> emits asks_list s s1"
    and "\<exists>s1. GetGuardrailByID client i s = (Inr (find (\<lambda>r. gx_GuardrailID r = i) rows), s1) \<and> emits asks_list s s1"
proof -
  obtain s1 where "ListGuardrails client s = (Inr rows, s1)" using assms by (metis lists_rows_def prod.collapse)
  then show "\<exists>s1. GetGuardrailByName client name s = (Inr (find (\<lambda>r. gx_GuardrailName r = name) rows), s1) \<and> emits asks_list s s1"
    "\<exists>s1. GetGuardrailByID client i s = (Inr (find (\<lambda>r. gx_GuardrailID r = i) rows), s1) \<and> emits asks_list s s1"
    using guardrail_reads(1) [of s client] by (simp_all add: GetGuardrailByName_def GetGuardrailByID_def)
qed

lemma adoption_steps:
  assumes "lists_rows client rows" and "cr_ID gr \<noteq> ''''" and "cr_Hash gr \<noteq> ''''"
    and "find (\<lambda>r. gx_GuardrailID r = cr_ID gr) rows = None"
    and "find (\<lambda>r. gx_GuardrailName r = gd_GuardrailName (cr_Spec gr)) rows = Some row"
  shows "\<exists>s1. find_row R gr op client s = (Next (Some row), s1) \<and> emits asks_list s s1"
    and "\<exists>s1. probe_row R client existing gr s = (Next (gr\<lparr>cr_ID := ''''\<rparr>, Some row), s1) \<and> emits asks_list s s1"
proof -
  have f: "\<exists>s1. find_row R g op client s = (Next (Some row), s1) \<and> emits asks_list s s1"
    if "cr_Spec g = cr_Spec gr" for g op s
    using lists_rowsD(1) [OF assms(1), of "gd_GuardrailName (cr_Spec gr)" s] assms(5) that by (auto simp: find_row_def)
  then show "\<exists>s1. find_row R gr op client s = (Next (Some row), s1) \<and> emits asks_list s s1" by simp
  obtain s2 where g: "GetGuardrailByID client (cr_ID gr) s = (Inr None, s2)" "emits asks_list s s2"
    using lists_rowsD(2) [OF assms(1), of "cr_ID gr" s] assms(4) by auto
  obtain s3 where "find_row R (gr\<lparr>cr_ID := ''''\<rparr>) ''GET /v2/guardrails/list (post-probe refresh)'' client s2 = (Next (Some row), s3)"
    "emits asks_list s2 s3"
    using f [of "gr\<lparr>cr_ID := ''''\<rparr>" "''GET /v2/guardrails/list (post-probe refresh)''" s2] by auto
  then show "\<exists>s1. probe_row R client existing gr s = (Next (gr\<lparr>cr_ID := ''''\<rparr>, Some row), s1) \<and> emits asks_list s s1"
    using g assms(2,3) emits_trans [OF g(2)] by (auto simp: probe_row_def)
qed

lemma steady_keeps_id:
  assumes "\<And>w f w'. kc_get (ct_kube (gl_ctl R)) w (cr_key gr) = (Inr f, w') \<Longrightarrow> cr_ID f = i" and "cr_ID gr = '''' \<or> cr_ID gr = i"
  shows "emits (\<lambda>e. \<not> is_http e \<and> (\<forall>c j. e = StatusWrite c j \<longrightarrow> j = i)) s (snd (guardrail_steady R gr n s))"
    (is "emits ?P s _")
proof -
  have refresh: "emits ?P s1 (refresh_pool R gr n s1)" for s1
    unfolding refresh_pool_def using assms(1) by (auto intro!: writeStatusWithRetry_emits)
  have k: "emits ?P s (snd (kit_writeStatus guardrail_kit (gl_ctl R) gr st reason msg s))" for st reason msg
    using assms
    by (auto simp: kit_writeStatus_def recordReconcileMetric_def kit_status_def keepPersistedID_def Let_def case_prod_beta
        split: if_splits intro!: emits_then_emit writeStatusWithRetry_emits_inv [where I = "\<lambda>a. a = '''' \<or> a = i"])
  obtain e s1 where w: "(if kit_synced (ct_lib (gl_ctl R)) gr then (None, s)
      else kit_writeStatus guardrail_kit (gl_ctl R) gr ConditionTrue reasonSynced (k_registered guardrail_kit) s) = (e, s1)" by fastforce
  have "emits ?P s (snd (if kit_synced (ct_lib (gl_ctl R)) gr then (None, s)
      else kit_writeStatus guardrail_kit (gl_ctl R) gr ConditionTrue reasonSynced (k_registered guardrail_kit) s))"
    by (cases "kit_synced (ct_lib (gl_ctl R)) gr") (simp_all only: k if_True if_False snd_conv emits_refl)
  then have "emits ?P s s1" by (simp only: w snd_conv)
  then show ?thesis
    by (cases e) (auto simp: guardrail_steady_def w reconcile_total_def intro!: emits_then_emit emits_trans [OF _ refresh])
qed


subsection \<open>Instances\<close>

definition example_guardrail :: "bool \<Rightarrow> GuardRailSpec cr" where
  "example_guardrail deleting = (example_cr \<lparr>gd_GuardrailName = ''n'', gd_Provider = ''p'', gd_Mode = [''pre_call''], gd_DefaultOn = None,
     gd_PolicyTemplate = '''', gd_Params = RawEmpty, gd_Info = RawEmpty, gd_Secrets = [], gd_DeletionPolicy = ''Delete'', gd_UID = ''u'',
     gd_DefinitionLocation = '''', gd_PoolSize = 0\<rparr> ''a'' deleting guardrailFinalizer ''gone'')\<lparr>cr_Hash := ''h''\<rparr>"

definition example_guardrail_R :: "GuardRailSpec cr \<Rightarrow> unit GuardRailReconciler" where
  "example_guardrail_R gr = \<lparr>gl_ctl = example_ctl gr, gl_sha256hex = (\<lambda>t. ''h''), gl_getSecret = (\<lambda>w k. (Inl KNotFound, w)),
     gl_list = (\<lambda>w ns. (Inr [gr], w))\<rparr>"

definition example_rows :: json where
  "example_rows = JObj [(''guardrails'', JArr [JObj [(''guardrail_id'', JStr ''other''), (''guardrail_name'', JStr ''n'')]])]"

lemmas example_guardrail_defs = example_guardrail_R_def example_ctl_def example_guardrail_def example_cr_def klib_std_def
  example_online_snapshot zero_snapshot_def guardrail_kit_def set_world_def

lemma example_guardrail_deleted:
  "Http ''DELETE'' (guardrail_path ''gone'') None \<in> set (log (snd (guardrail_Reconcile (example_guardrail_R (example_guardrail True))
     (''ns'', ''a'') (example_online (answering 200 (JObj []))))))"
  by (simp add: example_guardrail_defs guardrail_Reconcile_def kit_object_def guardrail_release_def andThen_def
      delete_guardrail_def DeleteGuardrail_def answering_ok is2xx_def kit_deleted_def kit_unblock_def
      DeletionBlocked_Forget_def kit_drop_finalizer_def kit_update_def emit_def Let_def)

theorem guardrail_touches_own_row_witness:
  "\<exists>gr w. kc_get (ct_kube (gl_ctl (example_guardrail_R (example_guardrail True)))) () (''ns'', ''a'') = (Inr gr, w) \<and>
     guardrail_path ''gone'' = guardrail_path (cr_ID gr) \<and> DeletionTimestamp (cr_Meta gr)"
proof -
  have "Http ''DELETE'' (guardrail_path ''gone'') None \<in> set (drop (length (log (example_online (answering 200 (JObj [])))))
    (log (snd (guardrail_Reconcile (example_guardrail_R (example_guardrail True)) (''ns'', ''a'') (example_online (answering 200 (JObj [])))))))"
    using example_guardrail_deleted by (simp add: example_online_snapshot(2))
  from guardrail_touches_own_row [OF this] show ?thesis by (auto simp: example_online_snapshot(3) split: if_splits)
qed

lemma example_lists:
  "lists_rows (answering 200 example_rows) [\<lparr>gx_GuardrailID = ''other'', gx_GuardrailName = ''n'', gx_DefinitionLocation = ''''\<rparr>]"
proof -
  have "decode_guardrails example_rows = Some [\<lparr>gx_GuardrailID = ''other'', gx_GuardrailName = ''n'', gx_DefinitionLocation = ''''\<rparr>]"
    by code_simp
  then show ?thesis by (simp add: lists_rows_def ListGuardrails_def answering_ok is2xx_def unmarshal_def)
qed

lemma example_body:
  "\<exists>body. guardrail_body (example_guardrail_R (example_guardrail False)) snap (example_guardrail False) s = (Next body, s)"
  by (simp add: example_guardrail_defs guardrail_body_def validateGuardrailMode_def kit_secrets_def checkDuplicateSecretAs_def
      resolveSecretMap_def kit_decode_def andThen_def substitute_bag_def Let_def Substitute_empty stripReservedGuardrailKeys_def param_def)


end
