(* ===== verification/Discovery_Base.thy ===== *)
theory Discovery_Base
  imports Model_Alias Shared_Helpers
begin

text \<open>
  What the two discovery controllers share.  \<^verbatim>\<open>modeldiscovery_controller.go\<close> and
  \<^verbatim>\<open>mcpserverdiscovery_controller.go\<close> repeat the same cycle over the objects they generate: wait for
  the children on deletion, recognise children whose owner reference the user stripped, check the owner of
  a name before every write, apply, and delete the children that vanished.  Each step is one definition over
  children with an arbitrary spec; what differs between the two copies is the record \<open>dkit\<close>.

  The discovery controllers never call LiteLLM, so their state is smaller than \<open>rstate\<close>: the world, the log
  of effects and the throttle table of the drain message.  The Kubernetes API is the parameter \<open>dapi\<close>.
\<close>

subsection \<open>Objects\<close>

record OwnerRef =
  ow_Kind :: string
  ow_Name :: string
  ow_UID :: string
  ow_Controller :: "bool option"

record 'c child =
  ch_Namespace :: string
  ch_Name :: string
  ch_UID :: string
  ch_ResourceVersion :: string
  ch_DeletionTimestamp :: bool
  ch_GeneratedBy :: string
  ch_OwnerReferences :: "OwnerRef list"
  ch_Finalizers :: "string list"
  ch_Spec :: 'c

record SkippedCandidate =
  sk_Name :: string
  sk_Reason :: string
  sk_OwnedBy :: string
  sk_Message :: string

record FailedCandidate =
  fc_Name :: string
  fc_Reason :: string
  fc_Message :: string

record DiscoveryStatus =
  ds_GeneratedChildren :: "string list"
  ds_GeneratedCount :: int
  ds_DiscoveredCount :: int
  ds_SkippedCandidates :: "SkippedCandidate list"
  ds_FailedCandidates :: "FailedCandidate list"
  ds_LastRefreshAt :: "int option"
  ds_ObservedGeneration :: int
  ds_Conditions :: "Condition list"

record 'd discovery =
  d_Meta :: ObjectMeta
  d_UID :: string
  d_Spec :: 'd
  d_Status :: DiscoveryStatus

definition int32 :: "nat \<Rightarrow> int" where
  "int32 n = (int n + 2 ^ 31) mod 2 ^ 32 - 2 ^ 31"

subsection \<open>State and effects\<close>

text \<open>A delete carries whether it is bound to the UID and resource version of the object in hand.\<close>

datatype 'c deffect =
    ChildApply "'c child"
  | ChildDelete "'c child" bool
  | AliasCall alias_call
  | DStatusWrite DiscoveryStatus
  | DObjectUpdate "string list"
  | DEvent EventType string string
  | DMetric string "string list"

record drain_state =
  dr_lastRemaining :: int
  dr_startedAt :: int
  dr_lastWarnAt :: "int option"  \<comment> \<open>\<open>None\<close> is the zero time\<close>

record ('w, 'c) dstate =
  d_world :: 'w
  d_log :: "'c deffect list"
  d_drain :: "drain_state gomap"

record ('w, 'd, 'c) dapi =
  da_kube :: "('w, 'd discovery) kclient"
  da_children :: "'w \<Rightarrow> string \<Rightarrow> string \<Rightarrow> (kube_error + 'c child list) \<times> 'w"  \<comment> \<open>cached list by label\<close>
  da_read :: "'w \<Rightarrow> string \<Rightarrow> (kube_error + 'c child) \<times> 'w"  \<comment> \<open>uncached read by name\<close>
  da_apply :: "'w \<Rightarrow> 'c child \<Rightarrow> kube_error option \<times> 'w"
  da_delete :: "'w \<Rightarrow> 'c child \<Rightarrow> bool \<Rightarrow> kube_error option \<times> 'w"
  da_now :: "'w \<Rightarrow> int \<times> 'w"
  da_lib :: klib
  da_errtext :: "kube_error \<Rightarrow> string"
  da_Namespace :: string

record 'c dkit =
  dk_kind :: string
  dk_finalizer :: string
  dk_child :: string  \<comment> \<open>the word for a child in messages\<close>
  dk_explicit :: string  \<comment> \<open>the reason for a child without a controller\<close>
  dk_waits :: bool  \<comment> \<open>whether a foreign child being deleted is waited for\<close>
  dk_protects :: bool  \<comment> \<open>whether a retryable collision is kept from the vanish step\<close>
  dk_counts_failed :: bool  \<comment> \<open>whether \<^verbatim>\<open>DiscoveryFailedTotal\<close> is incremented\<close>

definition demit :: "'c deffect \<Rightarrow> ('w, 'c) dstate \<Rightarrow> ('w, 'c) dstate" where
  "demit e s = s\<lparr>d_log := d_log s @ [e]\<rparr>"

definition in_world :: "('w \<Rightarrow> 'a \<times> 'w) \<Rightarrow> ('w, 'c) dstate \<Rightarrow> 'a \<times> ('w, 'c) dstate" where
  "in_world f s = (let (r, w) = f (d_world s) in (r, s\<lparr>d_world := w\<rparr>))"

subsection \<open>Ownership\<close>

definition ownedByThisDiscovery :: "string \<Rightarrow> 'd discovery \<Rightarrow> 'c child \<Rightarrow> bool" where
  "ownedByThisDiscovery kind md child =
     list_ex (\<lambda>r. ow_Controller r = Some True \<and> ow_Kind r = kind \<and> ow_UID r = d_UID md) (ch_OwnerReferences child)"

definition ownedByDiscovery :: "string \<Rightarrow> 'c child \<Rightarrow> bool" where
  "ownedByDiscovery uid child = list_ex (\<lambda>r. ow_UID r = uid) (ch_OwnerReferences child)"

datatype classified =
    Skip SkippedCandidate
  | Retryable string  \<comment> \<open>the resource version to apply over; empty when there is no object\<close>
  | ReadFailed kube_error
  | ChildDeleting

definition classify_existing :: "'c dkit \<Rightarrow> 'd discovery \<Rightarrow> string \<Rightarrow> 'c child \<Rightarrow> classified" where
  "classify_existing k md childName existing =
     (if dk_waits k \<and> ch_DeletionTimestamp existing \<and> \<not> ownedByThisDiscovery (dk_kind k) md existing then ChildDeleting
      else
        case find (\<lambda>r. ow_Controller r = Some True) (ch_OwnerReferences existing) of
          None \<Rightarrow> Skip \<lparr>sk_Name = childName, sk_Reason = dk_explicit k, sk_OwnedBy = ch_Name existing, sk_Message = ''''\<rparr>
        | Some r \<Rightarrow>
            (if ow_Kind r = dk_kind k \<and> ow_UID r = d_UID md then Retryable (ch_ResourceVersion existing)
             else Skip \<lparr>sk_Name = childName, sk_Reason = ''Conflict'',
                    sk_OwnedBy = ow_Kind r @ ''/'' @ ow_Name r @ ''/'' @ ow_UID r, sk_Message = ''''\<rparr>))"

definition classifyAlreadyExists ::
  "'c dkit \<Rightarrow> ('w, 'd, 'c) dapi \<Rightarrow> 'd discovery \<Rightarrow> string \<Rightarrow> ('w, 'c) dstate \<Rightarrow> classified \<times> ('w, 'c) dstate" where
  "classifyAlreadyExists k D md childName s =
     (case in_world (\<lambda>w. da_read D w childName) s of
        (Inl e, s) \<Rightarrow> (if IsNotFoundK e then Retryable '''' else ReadFailed e, s)
      | (Inr existing, s) \<Rightarrow> (classify_existing k md childName existing, s))"

subsection \<open>Waiting for the children on deletion\<close>

definition cascadeDrainDeadline :: int where "cascadeDrainDeadline = 5 * minute"

text \<open>A difference to the zero time saturates far above the deadline.\<close>

definition logCascadeDrain ::
  "'c dkit \<Rightarrow> ('w, 'd, 'c) dapi \<Rightarrow> string \<Rightarrow> nat \<Rightarrow> ('w, 'c) dstate \<Rightarrow> bool \<times> ('w, 'c) dstate" where
  "logCascadeDrain k D name remaining s =
     (let (now, s) = in_world (da_now D) s;
          prev = (case map_of (d_drain s) name of
                    Some p \<Rightarrow> p | None \<Rightarrow> \<lparr>dr_lastRemaining = -1, dr_startedAt = now, dr_lastWarnAt = None\<rparr>);
          overdue = (now - dr_startedAt prev \<ge> cascadeDrainDeadline \<and>
                     (case dr_lastWarnAt prev of None \<Rightarrow> True | Some t \<Rightarrow> now - t \<ge> cascadeDrainDeadline));
          s = (if overdue then demit (DMetric ''CascadeDrainOverdueTotal'' [dk_kind k]) s else s);
          prev = (if overdue then prev\<lparr>dr_lastWarnAt := Some now\<rparr> else prev)
      in (overdue, s\<lparr>d_drain := map_put name (prev\<lparr>dr_lastRemaining := int remaining\<rparr>) (d_drain s)\<rparr>))"

definition forgetCascadeDrain :: "string \<Rightarrow> ('w, 'c) dstate \<Rightarrow> ('w, 'c) dstate" where
  "forgetCascadeDrain name s = s\<lparr>d_drain := map_del name (d_drain s)\<rparr>"

fun cascade_delete ::
  "('w, 'd, 'c) dapi \<Rightarrow> 'c child list \<Rightarrow> ('w, 'c) dstate \<Rightarrow> kube_error option \<times> ('w, 'c) dstate" where
  "cascade_delete D [] s = (None, s)"
| "cascade_delete D (c # cs) s =
     (if ch_DeletionTimestamp c then cascade_delete D cs s
      else
        case in_world (\<lambda>w. da_delete D w c False) (demit (ChildDelete c False) s) of
          (Some e, s) \<Rightarrow> (if IsNotFoundK e then cascade_delete D cs s else (Some e, s))
        | (None, s) \<Rightarrow> cascade_delete D cs s)"

definition reasonDeleting :: string where "reasonDeleting = ''Deleting''"
definition reasonSyncing :: string where "reasonSyncing = ''Syncing''"

definition drain_noted :: "klib \<Rightarrow> Condition list \<Rightarrow> bool" where
  "drain_noted K conds =
     (case FindStatusCondition K conds conditionTypeReady of
        None \<Rightarrow> False | Some c \<Rightarrow> Status c = ConditionFalse \<and> Reason c = reasonDeleting)"

text \<open>\<open>note\<close> writes the Ready condition with the given message.\<close>

definition drain_step ::
  "'c dkit \<Rightarrow> ('w, 'd, 'c) dapi \<Rightarrow> ('d discovery \<Rightarrow> string \<Rightarrow> ('w, 'c) dstate \<Rightarrow> ('w, 'c) dstate) \<Rightarrow> 'd discovery \<Rightarrow> 'c child list
   \<Rightarrow> ('w, 'c) dstate \<Rightarrow> verdict \<times> ('w, 'c) dstate" where
  "drain_step k D note md owned s =
     (case cascade_delete D owned s of
        (Some e, s) \<Rightarrow> (Inl (KubeErr e), s)
      | (None, s) \<Rightarrow>
          (let (overdue, s) = logCascadeDrain k D (Name (d_Meta md)) (length owned) s;
               s = (if overdue then demit (DEvent EventTypeWarning ''CascadeDrainOverdue''
                      (''cascade-delete still draining '' @ show_nat (length owned) @ '' child '' @ dk_child k
                       @ ''(s) past deadline; check finalizer state on the children'')) s else s);
               s = (if drain_noted (da_lib D) (ds_Conditions (d_Status md)) then s
                    else note md (''cascade-delete draining '' @ show_nat (length owned) @ '' child '' @ dk_child k @ ''(s)'') s)
           in (Inr (requeue_after (5 * second)), s)))"

definition update_object ::
  "('w, 'd, 'c) dapi \<Rightarrow> 'd discovery \<Rightarrow> ('w, 'c) dstate \<Rightarrow> kube_error option \<times> ('w, 'c) dstate" where
  "update_object D md s =
     in_world (\<lambda>w. kc_update (da_kube D) w md) (demit (DObjectUpdate (Finalizers (d_Meta md))) s)"

definition disco_finalizers :: "string list \<Rightarrow> 'd discovery \<Rightarrow> 'd discovery" where
  "disco_finalizers fs md = md\<lparr>d_Meta := (d_Meta md)\<lparr>Finalizers := fs\<rparr>\<rparr>"

definition discovery_deletion ::
  "'c dkit \<Rightarrow> ('w, 'd, 'c) dapi \<Rightarrow> ('d discovery \<Rightarrow> string \<Rightarrow> ('w, 'c) dstate \<Rightarrow> ('w, 'c) dstate) \<Rightarrow> 'd discovery
   \<Rightarrow> ('w, 'c) dstate \<Rightarrow> verdict \<times> ('w, 'c) dstate" where
  "discovery_deletion k D note md s =
     (if \<not> ContainsFinalizer (da_lib D) (Finalizers (d_Meta md)) (dk_finalizer k) then (Inr no_requeue, s)
      else
        case in_world (\<lambda>w. da_children D w (da_Namespace D) (Name (d_Meta md))) s of
          (Inl e, s) \<Rightarrow> (Inl (KubeErr e), s)
        | (Inr owned, s) \<Rightarrow>
            (if length owned > 0 then drain_step k D note md owned s
             else
               let s = demit (DMetric ''CRStatusAge.Forget'' [dk_kind k, Name (d_Meta md)]) s;
                   s = forgetCascadeDrain (Name (d_Meta md)) s;
                   (err, s) = update_object D
                     (disco_finalizers (RemoveFinalizer (da_lib D) (Finalizers (d_Meta md)) (dk_finalizer k)) md) s
               in case err of Some e \<Rightarrow> (Inl (KubeErr e), s) | None \<Rightarrow> (Inr no_requeue, s)))"

subsection \<open>Status writes\<close>

definition disco_condition :: "'d discovery \<Rightarrow> string \<Rightarrow> ConditionStatus \<Rightarrow> string \<Rightarrow> string \<Rightarrow> Condition" where
  "disco_condition md typ status reason msg =
     \<lparr>Type = typ, Status = status, Reason = reason, Message = msg, ObservedGeneration = Generation (d_Meta md)\<rparr>"

definition set_condition :: "klib \<Rightarrow> string \<Rightarrow> ConditionStatus \<Rightarrow> string \<Rightarrow> string \<Rightarrow> 'd discovery \<Rightarrow> 'd discovery" where
  "set_condition K typ status reason msg md =
     md\<lparr>d_Status := (d_Status md)\<lparr>ds_Conditions :=
       SetStatusCondition K (ds_Conditions (d_Status md)) (disco_condition md typ status reason msg)\<rparr>\<rparr>"

definition observe :: "'d discovery \<Rightarrow> 'd discovery" where
  "observe md = md\<lparr>d_Status := (d_Status md)\<lparr>ds_ObservedGeneration := Generation (d_Meta md)\<rparr>\<rparr>"

text \<open>A status update; on success the object in hand becomes what the server returned.\<close>

definition status_update ::
  "('w, 'd, 'c) dapi \<Rightarrow> 'd discovery \<Rightarrow> ('w, 'c) dstate \<Rightarrow> kube_error option \<times> 'd discovery \<times> ('w, 'c) dstate" where
  "status_update D md s =
     (case in_world (\<lambda>w. kc_status_update (da_kube D) w md) (demit (DStatusWrite (d_Status md)) s) of
        (Inl e, s) \<Rightarrow> (Some e, md, s)
      | (Inr md', s) \<Rightarrow> (None, md', s))"

definition writeBothConditionsObj ::
  "('w, 'd, 'c) dapi \<Rightarrow> 'd discovery \<Rightarrow> ConditionStatus \<Rightarrow> string \<Rightarrow> string \<Rightarrow> ConditionStatus \<Rightarrow> string \<Rightarrow> string \<Rightarrow> ('w, 'c) dstate
   \<Rightarrow> kube_error option \<times> 'd discovery \<times> ('w, 'c) dstate" where
  "writeBothConditionsObj D md readyStatus readyReason readyMessage sourceStatus sourceReason sourceMessage =
     status_update D (observe (set_condition (da_lib D) ''SourceReachable'' sourceStatus sourceReason sourceMessage
       (set_condition (da_lib D) conditionTypeReady readyStatus readyReason readyMessage md)))"

definition writeBothConditions ::
  "('w, 'd, 'c) dapi \<Rightarrow> 'd discovery \<Rightarrow> ConditionStatus \<Rightarrow> string \<Rightarrow> string \<Rightarrow> ConditionStatus \<Rightarrow> string \<Rightarrow> string \<Rightarrow> ('w, 'c) dstate
   \<Rightarrow> ('w, 'c) dstate" where
  "writeBothConditions D md rs rr rm ss sr sm s = snd (snd (writeBothConditionsObj D md rs rr rm ss sr sm s))"

text \<open>Whether the entry write is due: no Ready yet, or a new generation, and not already syncing.\<close>

definition sync_due :: "klib \<Rightarrow> 'd discovery \<Rightarrow> bool" where
  "sync_due K md =
     (case FindStatusCondition K (ds_Conditions (d_Status md)) conditionTypeReady of
        None \<Rightarrow> True
      | Some c \<Rightarrow> ds_ObservedGeneration (d_Status md) \<noteq> Generation (d_Meta md) \<and> Reason c \<noteq> reasonSyncing)"

subsection \<open>The write cycle over the candidates\<close>

record tally =
  ty_skipped :: "SkippedCandidate list"
  ty_failed :: "FailedCandidate list"
  ty_generated :: "string list"
  ty_pending :: "string list"
  ty_deleting :: bool
  ty_stale :: bool

type_synonym ('w, 'c) cycle = "tally \<times> ('w, 'c) dstate"

definition write_metric :: "'c dkit \<Rightarrow> string \<Rightarrow> string \<Rightarrow> ('w, 'c) dstate \<Rightarrow> ('w, 'c) dstate" where
  "write_metric k action result = demit (DMetric ''ChildCRWritesTotal'' [dk_kind k, action, result])"

definition fail_candidate :: "'c dkit \<Rightarrow> string \<Rightarrow> string \<Rightarrow> string \<Rightarrow> ('w, 'c) cycle \<Rightarrow> ('w, 'c) cycle" where
  "fail_candidate k action name msg ts =
     (let (t, s) = ts;
          s = write_metric k action ''error'' s;
          s = (if dk_counts_failed k then demit (DMetric ''DiscoveryFailedTotal'' [dk_kind k, ''ChildCRWriteFailed'']) s else s)
      in (t\<lparr>ty_failed := ty_failed t @ [\<lparr>fc_Name = name, fc_Reason = ''ChildCRWriteFailed'', fc_Message = msg\<rparr>]\<rparr>, s))"

definition skip_candidate :: "'c dkit \<Rightarrow> string \<Rightarrow> SkippedCandidate \<Rightarrow> ('w, 'c) cycle \<Rightarrow> ('w, 'c) cycle" where
  "skip_candidate k action sk ts =
     (let (t, s) = ts in (t\<lparr>ty_skipped := ty_skipped t @ [sk]\<rparr>, write_metric k action ''conflict'' s))"

definition after_exists ::
  "'c dkit \<Rightarrow> ('w, 'd, 'c) dapi \<Rightarrow> 'd discovery \<Rightarrow> string \<Rightarrow> string \<Rightarrow> ('w, 'c) cycle \<Rightarrow> ('w, 'c) cycle" where
  "after_exists k D md action name ts =
     (let (t, s) = ts in
      case classifyAlreadyExists k D md name s of
        (ChildDeleting, s) \<Rightarrow> (t\<lparr>ty_deleting := True\<rparr>, s)
      | (ReadFailed e, s) \<Rightarrow> fail_candidate k action name (da_errtext D e) (t, s)
      | (Retryable _, s) \<Rightarrow>
          (if dk_protects k then t\<lparr>ty_pending := ty_pending t @ [name]\<rparr> else t, write_metric k action ''conflict'' s)
      | (Skip sk, s) \<Rightarrow> skip_candidate k action sk (t, s))"

definition write_child ::
  "'c dkit \<Rightarrow> ('w, 'd, 'c) dapi \<Rightarrow> 'd discovery \<Rightarrow> string \<Rightarrow> string \<Rightarrow> 'c child \<Rightarrow> ('w, 'c) cycle \<Rightarrow> ('w, 'c) cycle" where
  "write_child k D md action name child ts =
     (let (t, s) = ts in
      case in_world (\<lambda>w. da_apply D w child) (demit (ChildApply child) s) of
        (None, s) \<Rightarrow> (t\<lparr>ty_generated := ty_generated t @ [name]\<rparr>, write_metric k action ''success'' s)
      | (Some e, s) \<Rightarrow>
          (if IsConflict e
           then (t\<lparr>ty_pending := ty_pending t @ [name], ty_stale := True\<rparr>, write_metric k action ''conflict'' s)
           else if IsAlreadyExists e then after_exists k D md action name (t, s)
           else fail_candidate k action name (da_errtext D e) (t, s)))"

definition try_child ::
  "'c dkit \<Rightarrow> ('w, 'd, 'c) dapi \<Rightarrow> 'd discovery \<Rightarrow> string \<Rightarrow> string \<Rightarrow> 'c child \<Rightarrow> ('w, 'c) cycle \<Rightarrow> ('w, 'c) cycle" where
  "try_child k D md action name child ts =
     (let (t, s) = ts in
      case classifyAlreadyExists k D md name s of
        (ChildDeleting, s) \<Rightarrow> (t\<lparr>ty_deleting := True\<rparr>, s)
      | (ReadFailed e, s) \<Rightarrow> fail_candidate k action name (da_errtext D e) (t, s)
      | (Skip sk, s) \<Rightarrow> skip_candidate k action sk (t, s)
      | (Retryable rv, s) \<Rightarrow> write_child k D md action name (child\<lparr>ch_ResourceVersion := rv\<rparr>) (t, s))"

definition adopted :: "'c dkit \<Rightarrow> 'd discovery \<Rightarrow> 'c child list \<Rightarrow> 'c child list" where
  "adopted k md children = filter (\<lambda>c. \<not> ownedByThisDiscovery (dk_kind k) md c) children"

definition adopted_skip :: "'c dkit \<Rightarrow> 'c child \<Rightarrow> SkippedCandidate" where
  "adopted_skip k c = \<lparr>sk_Name = ch_Name c, sk_Reason = dk_explicit k, sk_OwnedBy = ch_Name c,
     sk_Message = ''ownerRef stripped; child adopted by user''\<rparr>"

text \<open>\<^verbatim>\<open>sort.Slice\<close> leaves the order of equal names open; here they keep their order.\<close>

definition sort_tally :: "tally \<Rightarrow> tally" where
  "sort_tally t = t\<lparr>ty_generated := sort (ty_generated t), ty_failed := sort_key fc_Name (ty_failed t),
     ty_skipped := sort_key sk_Name (ty_skipped t)\<rparr>"

definition start_tally :: "'c dkit \<Rightarrow> 'd discovery \<Rightarrow> 'c child list \<Rightarrow> tally" where
  "start_tally k md children = \<lparr>ty_skipped = map (adopted_skip k) (adopted k md children), ty_failed = [], ty_generated = [],
     ty_pending = [], ty_deleting = False, ty_stale = False\<rparr>"

subsection \<open>Vanished children\<close>

definition desired_names :: "tally \<Rightarrow> string list" where
  "desired_names t = ty_generated t @ map sk_Name (ty_skipped t) @ ty_pending t"

definition vanished :: "'c dkit \<Rightarrow> ('c child \<Rightarrow> bool) \<Rightarrow> 'd discovery \<Rightarrow> 'c child list \<Rightarrow> tally \<Rightarrow> 'c child \<Rightarrow> bool" where
  "vanished k owned md children t c \<longleftrightarrow>
     ch_Name c \<notin> set (desired_names t) \<and> ch_Name c \<notin> ch_Name ` set (adopted k md children) \<and> owned c"

definition delete_vanished ::
  "'c dkit \<Rightarrow> ('w, 'd, 'c) dapi \<Rightarrow> 'c child \<Rightarrow> bool \<times> ('w, 'c) dstate \<Rightarrow> bool \<times> ('w, 'c) dstate" where
  "delete_vanished k D c bs =
     (let (stale, s) = bs in
      case in_world (\<lambda>w. da_delete D w c True) (demit (ChildDelete c True) s) of
        (None, s) \<Rightarrow> (stale, write_metric k ''delete'' ''success'' s)
      | (Some e, s) \<Rightarrow>
          (if IsConflict e then (True, s)
           else (stale, write_metric k ''delete'' (if IsNotFoundK e then ''success'' else ''error'') s)))"

definition vanish ::
  "'c dkit \<Rightarrow> ('w, 'd, 'c) dapi \<Rightarrow> ('c child \<Rightarrow> bool) \<Rightarrow> 'd discovery \<Rightarrow> 'c child list \<Rightarrow> tally \<Rightarrow> ('w, 'c) dstate
   \<Rightarrow> tally \<times> ('w, 'c) dstate" where
  "vanish k D owned md children t s =
     (let (stale, s) = fold (\<lambda>c bs. if vanished k owned md children t c then delete_vanished k D c bs else bs) children (ty_stale t, s)
      in (t\<lparr>ty_stale := stale\<rparr>, s))"

definition set_counts :: "tally \<Rightarrow> nat \<Rightarrow> int \<Rightarrow> 'd discovery \<Rightarrow> 'd discovery" where
  "set_counts t kept now md = md\<lparr>d_Status := (d_Status md)\<lparr>
     ds_GeneratedChildren := ty_generated t, ds_GeneratedCount := int32 (length (ty_generated t)),
     ds_DiscoveredCount := int32 kept, ds_SkippedCandidates := ty_skipped t, ds_FailedCandidates := ty_failed t,
     ds_LastRefreshAt := Some now, ds_ObservedGeneration := Generation (d_Meta md)\<rparr>\<rparr>"

definition ready_verdict :: "tally \<Rightarrow> nat \<Rightarrow> ConditionStatus \<times> string \<times> string" where
  "ready_verdict t kept =
     (if length (ty_failed t) > 0
      then (ConditionFalse, ''ChildCRWriteFailed'',
            show_nat (length (ty_failed t)) @ ''/'' @ show_nat kept @ '' children failed to write to apiserver'')
      else (ConditionTrue, reasonSynced, show_nat (length (ty_generated t)) @ ''/'' @ show_nat kept @ '' children generated''))"

definition childDeletingRequeue :: int where "childDeletingRequeue = 5 * second"

text \<open>The whole handler: fetch, deletion, finalizer, and the live path \<open>live\<close>.\<close>

definition discovery_Reconcile ::
  "'c dkit \<Rightarrow> ('w, 'd, 'c) dapi \<Rightarrow> ('d discovery \<Rightarrow> string \<Rightarrow> ('w, 'c) dstate \<Rightarrow> ('w, 'c) dstate)
   \<Rightarrow> ('d discovery \<Rightarrow> ('w, 'c) dstate \<Rightarrow> verdict \<times> ('w, 'c) dstate) \<Rightarrow> NamespacedName \<Rightarrow> ('w, 'c) dstate
   \<Rightarrow> verdict \<times> ('w, 'c) dstate" where
  "discovery_Reconcile k D note live key s =
     (case in_world (\<lambda>w. kc_get (da_kube D) w key) s of
        (Inl e, s) \<Rightarrow> (if IsNotFoundK e then Inr no_requeue else Inl (KubeErr e), s)
      | (Inr md, s) \<Rightarrow>
          (if DeletionTimestamp (d_Meta md) then discovery_deletion k D note md s
           else if \<not> ContainsFinalizer (da_lib D) (Finalizers (d_Meta md)) (dk_finalizer k) then
             (case update_object D (disco_finalizers (AddFinalizer (da_lib D) (Finalizers (d_Meta md)) (dk_finalizer k)) md) s of
                (Some e, s) \<Rightarrow> (Inl (KubeErr e), s)
              | (None, s) \<Rightarrow> (Inr \<lparr>RequeueAfter = 0, Requeue = True\<rparr>, s))
           else live md s))"

subsection \<open>What a run appended to the log\<close>

definition d_emits :: "('c deffect \<Rightarrow> bool) \<Rightarrow> ('w, 'c) dstate \<Rightarrow> ('w, 'c) dstate \<Rightarrow> bool" where
  "d_emits P s s' \<longleftrightarrow> (\<exists>xs. d_log s' = d_log s @ xs \<and> list_all P xs)"

lemma d_emits_refl [intro!, simp]: "d_emits P s s"
  by (simp add: d_emits_def)

lemma d_emits_trans [trans]: "d_emits P s s1 \<Longrightarrow> d_emits P s1 s2 \<Longrightarrow> d_emits P s s2"
  unfolding d_emits_def by (metis append.assoc list_all_append)

lemma d_emits_mono: "d_emits P s s' \<Longrightarrow> (\<And>e. P e \<Longrightarrow> Q e) \<Longrightarrow> d_emits Q s s'"
  unfolding d_emits_def by (metis list_all_iff)

lemma d_emits_demit [simp]: "d_emits P s (demit e s) \<longleftrightarrow> P e"
  by (simp add: d_emits_def demit_def)

lemma d_emits_then: "d_emits P s s' \<Longrightarrow> P e \<Longrightarrow> d_emits P s (demit e s')"
  by (erule d_emits_trans) simp

lemma in_world_log: "in_world f s = (r, s') \<Longrightarrow> d_log s' = d_log s \<and> d_world s' = snd (f (d_world s)) \<and> r = fst (f (d_world s))"
  by (auto simp: in_world_def split: prod.splits)

lemma in_world_emits: "in_world f s = (r, s') \<Longrightarrow> d_emits P s s'"
  by (drule in_world_log) (simp add: d_emits_def)

lemma d_emits_drain [simp]: "d_emits P s (s\<lparr>d_drain := x\<rparr>)"
  by (simp add: d_emits_def)

lemma d_emits_mem:
  "d_emits P s s' \<Longrightarrow> e \<in> set (drop (length (d_log s)) (d_log s')) \<Longrightarrow> P e"
  by (auto simp: d_emits_def list_all_iff)

fun is_note :: "'c deffect \<Rightarrow> bool" where
  "is_note (DStatusWrite _) = True"
| "is_note (DMetric _ _) = True"
| "is_note (DEvent _ _ _) = True"
| "is_note _ = False"

lemma write_metric_emits: "P (DMetric ''ChildCRWritesTotal'' [dk_kind k, action, result]) \<Longrightarrow> d_emits P s (write_metric k action result s)"
  by (simp add: write_metric_def)

lemma status_update_notes: "d_emits is_note s (snd (snd (status_update D md s)))"
proof -
  obtain r s1 where w: "in_world (\<lambda>w. kc_status_update (da_kube D) w md) (demit (DStatusWrite (d_Status md)) s) = (r, s1)" by fastforce
  then have "d_emits is_note s s1" by (intro d_emits_trans [OF _ in_world_emits [OF w]]) simp
  then show ?thesis by (simp add: status_update_def w split: sum.split)
qed

lemma writeBoth_notes:
  "d_emits is_note s (snd (snd (writeBothConditionsObj D md a b c d e f s)))"
  "d_emits is_note s (writeBothConditions D md a b c d e f s)"
  by (simp_all add: writeBothConditions_def writeBothConditionsObj_def status_update_notes)

lemma andThen_emits:
  assumes "\<And>s. d_emits P s (snd (m s))" and "\<And>a s. d_emits P s (snd (f a s))"
  shows "d_emits P s (snd (andThen m f s))"
proof -
  obtain r s1 where m: "m s = (r, s1)" by fastforce
  then have "d_emits P s s1" using assms(1) [of s] by simp
  then show ?thesis using assms(2) [of s1] by (auto simp: andThen_def m split: flow.split intro: d_emits_trans)
qed

text \<open>
  The \<^verbatim>\<open>status\<close> subresource: an update through it returns the object with the identity and the spec it had.
\<close>

definition same_discovery :: "'d discovery \<Rightarrow> 'd discovery \<Rightarrow> bool" where
  "same_discovery md md' \<longleftrightarrow> d_UID md' = d_UID md \<and> Name (d_Meta md') = Name (d_Meta md) \<and> d_Spec md' = d_Spec md"

definition status_stable :: "('w, 'd, 'c) dapi \<Rightarrow> bool" where
  "status_stable D \<longleftrightarrow> (\<forall>w md md' w'. kc_status_update (da_kube D) w md = (Inr md', w') \<longrightarrow> same_discovery md md')"

lemma status_update_same:
  assumes "status_stable D"
  shows "same_discovery md (fst (snd (status_update D md s)))"
proof -
  obtain r w where u: "kc_status_update (da_kube D) (d_world s) md = (r, w)" by fastforce
  then show ?thesis
    using assms by (cases r) (auto simp: status_update_def in_world_def demit_def same_discovery_def status_stable_def)
qed

subsection \<open>The write cycle\<close>

text \<open>
  The write of a child is sanctioned by a read of its name: there was no such object, or it has this
  discovery for its controller and the write is bound to the version read.
\<close>

definition sanctioned :: "'c dkit \<Rightarrow> ('w, 'd, 'c) dapi \<Rightarrow> 'd discovery \<Rightarrow> string \<Rightarrow> string \<Rightarrow> bool" where
  "sanctioned k D md name rv \<longleftrightarrow> (\<exists>w. case fst (da_read D w name) of
     Inl e \<Rightarrow> IsNotFoundK e \<and> rv = ''''
   | Inr x \<Rightarrow> (\<exists>r. find (\<lambda>r. ow_Controller r = Some True) (ch_OwnerReferences x) = Some r \<and>
                 ow_Kind r = dk_kind k \<and> ow_UID r = d_UID md \<and> rv = ch_ResourceVersion x))"

lemma classify_log: "classifyAlreadyExists k D md name s = (r, s1) \<Longrightarrow> d_log s1 = d_log s"
  by (auto simp: classifyAlreadyExists_def dest!: in_world_log split: prod.splits sum.splits)

lemma classify_existing_Retryable:
  "classify_existing k md name x = Retryable rv \<Longrightarrow>
   \<exists>r. find (\<lambda>r. ow_Controller r = Some True) (ch_OwnerReferences x) = Some r \<and>
     ow_Kind r = dk_kind k \<and> ow_UID r = d_UID md \<and> rv = ch_ResourceVersion x"
  by (auto simp: classify_existing_def split: if_splits option.splits)

lemma classify_sanctions: "classifyAlreadyExists k D md name s = (Retryable rv, s1) \<Longrightarrow> sanctioned k D md name rv"
  unfolding sanctioned_def
  by (rule exI [of _ "d_world s"])
    (auto simp: classifyAlreadyExists_def in_world_def dest!: classify_existing_Retryable split: prod.splits sum.splits if_splits)

definition applies :: "'c dkit \<Rightarrow> ('w, 'd, 'c) dapi \<Rightarrow> 'd discovery \<Rightarrow> string \<Rightarrow> 'c child \<Rightarrow> 'c deffect \<Rightarrow> bool" where
  "applies k D md name child e \<longleftrightarrow> is_note e \<or> (\<exists>rv. sanctioned k D md name rv \<and> e = ChildApply (child\<lparr>ch_ResourceVersion := rv\<rparr>))"

lemma fail_candidate_notes: "d_emits is_note (snd ts) (snd (fail_candidate k action name msg ts))"
  by (cases ts) (auto simp: fail_candidate_def write_metric_def Let_def intro!: d_emits_then)

lemma skip_candidate_notes: "d_emits is_note (snd ts) (snd (skip_candidate k action sk ts))"
  by (cases ts) (simp add: skip_candidate_def write_metric_emits)

lemma after_exists_notes: "d_emits is_note (snd ts) (snd (after_exists k D md action name ts))"
proof (cases ts)
  case (Pair t s)
  obtain c s1 where c: "classifyAlreadyExists k D md name s = (c, s1)" by fastforce
  then have "d_emits is_note s s1" by (simp add: d_emits_def classify_log)
  then show ?thesis
    using fail_candidate_notes [of "(t, s1)"] skip_candidate_notes [of "(t, s1)"] write_metric_emits [of is_note _ _ _ s1]
    by (auto simp: Pair after_exists_def c split: classified.splits intro: d_emits_trans)
qed

lemma write_child_emits:
  assumes "sanctioned k D md name rv"
  shows "d_emits (applies k D md name child) (snd ts) (snd (write_child k D md action name (child\<lparr>ch_ResourceVersion := rv\<rparr>) ts))"
    (is "d_emits ?P _ _")
proof (cases ts)
  case (Pair t s)
  let ?c = "child\<lparr>ch_ResourceVersion := rv\<rparr>"
  obtain r s1 where w: "in_world (\<lambda>w. da_apply D w ?c) (demit (ChildApply ?c) s) = (r, s1)" by fastforce
  have e: "d_emits ?P s s1"
    by (rule d_emits_trans [OF _ in_world_emits [OF w]]) (use assms in \<open>auto simp: applies_def\<close>)
  have n: "d_emits ?P s s2" if "d_emits is_note s1 s2" for s2
    by (rule d_emits_trans [OF e]) (rule d_emits_mono [OF that], simp add: applies_def)
  have "d_emits is_note s1 (write_metric k action res s1)" for res by (simp add: write_metric_emits)
  then show ?thesis
    using n after_exists_notes [of "(t, s1)" k D md action name] fail_candidate_notes [of "(t, s1)"]
    by (auto simp: Pair write_child_def w split: option.splits)
qed

lemma try_child_emits: "d_emits (applies k D md name child) (snd ts) (snd (try_child k D md action name child ts))"
    (is "d_emits ?P _ _")
proof (cases ts)
  case (Pair t s)
  obtain c s1 where c: "classifyAlreadyExists k D md name s = (c, s1)" by fastforce
  have e: "d_emits ?P s s1" using classify_log [OF c] by (simp add: d_emits_def)
  have n: "d_emits ?P s s2" if "d_emits is_note s1 s2" for s2
    by (rule d_emits_trans [OF e]) (rule d_emits_mono [OF that], simp add: applies_def)
  show ?thesis
  proof (cases c)
    case (Retryable rv)
    then have "sanctioned k D md name rv" using classify_sanctions c by metis
    then show ?thesis using d_emits_trans [OF e] write_child_emits [of k D md name rv child "(t, s1)" action]
      by (simp add: Pair try_child_def c Retryable)
  qed (use n e fail_candidate_notes [of "(t, s1)"] skip_candidate_notes [of "(t, s1)"] in \<open>auto simp: Pair try_child_def c\<close>)
qed

subsection \<open>The vanish step\<close>

lemma delete_vanished_log:
  "\<exists>xs. d_log (snd (delete_vanished k D c (b, s))) = d_log s @ ChildDelete c True # xs \<and> list_all is_note xs"
proof -
  obtain r s1 where w: "in_world (\<lambda>w. da_delete D w c True) (demit (ChildDelete c True) s) = (r, s1)" by fastforce
  then have "d_log s1 = d_log s @ [ChildDelete c True]" by (auto dest: in_world_log simp: demit_def)
  moreover have "d_log (write_metric k a r' s1) = d_log s1 @ [DMetric ''ChildCRWritesTotal'' [dk_kind k, a, r']]" for a r'
    by (simp add: write_metric_def demit_def)
  ultimately show ?thesis by (simp add: delete_vanished_def w split: option.split)
qed

lemma vanish_fold:
  "\<exists>xs. d_log (snd (fold (\<lambda>c bs. if P c then delete_vanished k D c bs else bs) cs bs)) = d_log (snd bs) @ xs \<and>
     list_all (\<lambda>e. is_note e \<or> (\<exists>c \<in> set cs. P c \<and> e = ChildDelete c True)) xs \<and> (\<forall>c \<in> set cs. P c \<longrightarrow> ChildDelete c True \<in> set xs)"
proof (induction cs arbitrary: bs)
  case (Cons c cs)
  let ?bs = "if P c then delete_vanished k D c bs else bs"
  obtain xs where xs: "d_log (snd ?bs) = d_log (snd bs) @ xs"
    "list_all (\<lambda>e. is_note e \<or> P c \<and> e = ChildDelete c True) xs" "P c \<longrightarrow> ChildDelete c True \<in> set xs"
    using delete_vanished_log [of k D c "fst bs" "snd bs"] by (cases "P c") (auto simp: list_all_iff)
  obtain ys where ys: "d_log (snd (fold (\<lambda>c bs. if P c then delete_vanished k D c bs else bs) cs ?bs)) = d_log (snd ?bs) @ ys"
    "list_all (\<lambda>e. is_note e \<or> (\<exists>c \<in> set cs. P c \<and> e = ChildDelete c True)) ys" "\<forall>c \<in> set cs. P c \<longrightarrow> ChildDelete c True \<in> set ys"
    using Cons.IH [of ?bs] by blast
  show ?case by (rule exI [of _ "xs @ ys"]) (use xs ys in \<open>auto simp: list_all_iff\<close>)
qed simp

lemma vanish_log:
  "\<exists>xs. d_log (snd (vanish k D owned md children t s)) = d_log s @ xs \<and>
     list_all (\<lambda>e. is_note e \<or> (\<exists>c \<in> set children. vanished k owned md children t c \<and> e = ChildDelete c True)) xs \<and>
     (\<forall>c \<in> set children. vanished k owned md children t c \<longrightarrow> ChildDelete c True \<in> set xs)"
  using vanish_fold [of "vanished k owned md children t" k D children "(ty_stale t, s)"]
  by (simp add: vanish_def case_prod_beta Let_def)

lemma vanish_emits:
  "d_emits (\<lambda>e. is_note e \<or> (\<exists>c \<in> set children. vanished k owned md children t c \<and> e = ChildDelete c True)) s
     (snd (vanish k D owned md children t s))"
  using vanish_log [of k D owned md children t s] unfolding d_emits_def by blast

lemma vanished_owned:
  "vanished k owned md children t c \<Longrightarrow> c \<in> set children \<Longrightarrow> ownedByThisDiscovery (dk_kind k) md c"
  by (auto simp: vanished_def adopted_def)

text \<open>What the two controllers may do to children on the live path; \<open>P\<close> describes a child as rendered.\<close>

definition writes_own :: "'c dkit \<Rightarrow> ('w, 'd, 'c) dapi \<Rightarrow> 'd discovery \<Rightarrow> ('c child \<Rightarrow> bool) \<Rightarrow> 'c deffect \<Rightarrow> bool" where
  "writes_own k D md P e \<longleftrightarrow> is_note e \<or>
     (\<exists>c. e = ChildApply c \<and> P c \<and> sanctioned k D md (ch_Name c) (ch_ResourceVersion c))"

definition deletes_own :: "'c dkit \<Rightarrow> ('w, 'd, 'c) dapi \<Rightarrow> 'd discovery \<Rightarrow> 'c deffect \<Rightarrow> bool" where
  "deletes_own k D md e \<longleftrightarrow>
     (\<exists>c w children w'. e = ChildDelete c True \<and> da_children D w (da_Namespace D) (Name (d_Meta md)) = (Inr children, w') \<and>
        c \<in> set children \<and> ownedByThisDiscovery (dk_kind k) md c)"

lemma try_child_writes_own:
  assumes "\<And>rv. P (child\<lparr>ch_ResourceVersion := rv\<rparr>)" and "ch_Name child = name"
  shows "d_emits (writes_own k D md P) (snd ts) (snd (try_child k D md action name child ts))"
  by (rule d_emits_mono [OF try_child_emits]) (use assms in \<open>auto simp: writes_own_def applies_def\<close>)

lemma vanish_deletes_own:
  assumes "da_children D w (da_Namespace D) (Name (d_Meta md)) = (Inr children, w')"
  shows "d_emits (\<lambda>e. is_note e \<or> deletes_own k D md e) s (snd (vanish k D owned md children t s))"
proof (rule d_emits_mono [OF vanish_emits])
  fix e assume "is_note e \<or> (\<exists>c \<in> set children. vanished k owned md children t c \<and> e = ChildDelete c True)"
  then show "is_note e \<or> deletes_own k D md e" using assms vanished_owned unfolding deletes_own_def by metis
qed

lemma same_discovery_writes: "same_discovery md md' \<Longrightarrow> writes_own k D md' P e = writes_own k D md P e"
  by (simp add: same_discovery_def writes_own_def sanctioned_def cong: sum.case_cong)

lemma same_discovery_deletes: "same_discovery md md' \<Longrightarrow> deletes_own k D md' e = deletes_own k D md e"
  by (simp add: same_discovery_def deletes_own_def ownedByThisDiscovery_def)

subsection \<open>When the API server refuses every write\<close>

definition refuses_writes :: "('w, 'd, 'c) dapi \<Rightarrow> bool" where
  "refuses_writes D \<longleftrightarrow> (\<forall>w c. \<exists>m. fst (da_apply D w c) = Some (KOther m))"

definition reads_own :: "'c dkit \<Rightarrow> ('w, 'd, 'c) dapi \<Rightarrow> 'd discovery \<Rightarrow> string \<Rightarrow> bool" where
  "reads_own k D md name \<longleftrightarrow> (\<forall>w. \<exists>x r. fst (da_read D w name) = Inr x \<and>
     find (\<lambda>r. ow_Controller r = Some True) (ch_OwnerReferences x) = Some r \<and> ow_Kind r = dk_kind k \<and> ow_UID r = d_UID md)"

lemma refused_write:
  assumes "refuses_writes D"
  shows "desired_names (fst (write_child k D md action name child ts)) = desired_names (fst ts)"
proof (cases ts)
  case (Pair t s)
  obtain r s1 where w: "in_world (\<lambda>w. da_apply D w child) (demit (ChildApply child) s) = (r, s1)" by fastforce
  then obtain m where "r = Some (KOther m)" using assms by (metis in_world_log refuses_writes_def)
  then show ?thesis by (simp add: Pair write_child_def w fail_candidate_def desired_names_def Let_def)
qed

lemma own_retryable:
  assumes "reads_own k D md name"
  shows "\<exists>rv s1. classifyAlreadyExists k D md name s = (Retryable rv, s1)"
proof -
  obtain x r where x: "fst (da_read D (d_world s) name) = Inr x"
    "find (\<lambda>r. ow_Controller r = Some True) (ch_OwnerReferences x) = Some r" "ow_Kind r = dk_kind k" "ow_UID r = d_UID md"
    using assms unfolding reads_own_def by blast
  have "r \<in> set (ch_OwnerReferences x)" "ow_Controller r = Some True" using x(2) by (auto simp: find_Some_iff)
  then have "ownedByThisDiscovery (dk_kind k) md x" using x by (auto simp: ownedByThisDiscovery_def list_ex_iff)
  then show ?thesis using x by (cases "da_read D (d_world s) name") (auto simp: classifyAlreadyExists_def in_world_def classify_existing_def)
qed

lemma refused_try:
  assumes "refuses_writes D"
  shows "set (desired_names (fst (try_child k D md action name child ts))) \<subseteq> insert name (set (desired_names (fst ts)))"
    and "reads_own k D md name \<Longrightarrow> desired_names (fst (try_child k D md action name child ts)) = desired_names (fst ts)"
proof -
  obtain t s where ts: "ts = (t, s)" by fastforce
  obtain c s1 where c: "classifyAlreadyExists k D md name s = (c, s1)" by fastforce
  have sk: "sk_Name sk = name" if "c = Skip sk" for sk
    using c that by (auto simp: classifyAlreadyExists_def classify_existing_def split: prod.splits sum.splits if_splits option.splits)
  show "set (desired_names (fst (try_child k D md action name child ts))) \<subseteq> insert name (set (desired_names (fst ts)))"
    using sk refused_write [OF assms]
    by (cases c) (auto simp: ts try_child_def c skip_candidate_def fail_candidate_def desired_names_def Let_def)
  assume "reads_own k D md name"
  then obtain rv where "c = Retryable rv" using own_retryable [of k D md name s] c by auto
  then show "desired_names (fst (try_child k D md action name child ts)) = desired_names (fst ts)"
    using refused_write [OF assms] by (simp add: ts try_child_def c)
qed

subsection \<open>Deletion\<close>

lemma cascade_delete_emits: "d_emits (\<lambda>e. \<exists>c \<in> set cs. e = ChildDelete c False) s (snd (cascade_delete D cs s))"
proof (induction cs arbitrary: s)
  case (Cons c cs)
  obtain r s1 where w: "in_world (\<lambda>w. da_delete D w c False) (demit (ChildDelete c False) s) = (r, s1)" by fastforce
  have e: "d_emits (\<lambda>e. \<exists>c' \<in> set (c # cs). e = ChildDelete c' False) s s1"
    by (rule d_emits_trans [OF _ in_world_emits [OF w]]) simp
  have i: "d_emits (\<lambda>e. \<exists>c' \<in> set (c # cs). e = ChildDelete c' False) s2 (snd (cascade_delete D cs s2))" for s2
    by (rule d_emits_mono [OF Cons.IH]) auto
  show ?case using i e d_emits_trans [OF e i] by (auto simp: w split: option.split)
qed simp

text \<open>Where no delete fails, every labelled child not yet being deleted is deleted, whoever its controller is.\<close>

lemma cascade_delete_all:
  assumes "\<And>w c. fst (da_delete D w c False) = None"
  shows "\<exists>s'. cascade_delete D cs s = (None, s') \<and>
    d_log s' = d_log s @ map (\<lambda>c. ChildDelete c False) (filter (\<lambda>c. \<not> ch_DeletionTimestamp c) cs)"
proof (induction cs arbitrary: s)
  case (Cons c cs)
  obtain r s1 where w: "in_world (\<lambda>w. da_delete D w c False) (demit (ChildDelete c False) s) = (r, s1)" by fastforce
  then have "r = None" "d_log s1 = d_log s @ [ChildDelete c False]"
    using assms in_world_log [OF w] by (auto simp: demit_def)
  then show ?case using Cons.IH [of s] Cons.IH [of s1] by (auto simp: w)
qed simp

lemma logCascadeDrain_notes: "d_emits is_note s (snd (logCascadeDrain k D name n s))"
proof -
  obtain now s1 where w: "in_world (da_now D) s = (now, s1)" by fastforce
  then have "d_log s1 = d_log s" by (blast dest: in_world_log)
  then show ?thesis by (simp add: logCascadeDrain_def w Let_def d_emits_def demit_def)
qed

text \<open>
  The contract of a discovery controller: what its two kind-specific parts may do.  The note on the drain
  writes status and metrics only; the live path never touches the finalizers and never deletes a child
  without binding the delete to the version it judged.
\<close>

locale discovery_handler =
  fixes k :: "'c dkit" and D :: "('w, 'd, 'c) dapi"
    and note_drain :: "'d discovery \<Rightarrow> string \<Rightarrow> ('w, 'c) dstate \<Rightarrow> ('w, 'c) dstate"
    and live :: "'d discovery \<Rightarrow> ('w, 'c) dstate \<Rightarrow> verdict \<times> ('w, 'c) dstate"
  assumes note_quiet: "d_emits is_note s (note_drain md m s)"
    and live_bound: "d_emits (\<lambda>e. (\<forall>fs. e \<noteq> DObjectUpdate fs) \<and> (\<forall>c. e \<noteq> ChildDelete c False)) s (snd (live md s))"
begin

lemma drain_step_emits:
  "d_emits (\<lambda>e. is_note e \<or> (\<exists>c \<in> set owned. e = ChildDelete c False)) s (snd (drain_step k D note_drain md owned s))"
    (is "d_emits ?P s _")
proof -
  obtain r s1 where c: "cascade_delete D owned s = (r, s1)" by fastforce
  have e: "d_emits ?P s s1" using d_emits_mono [OF cascade_delete_emits [of owned s D], of ?P] c by simp
  obtain b s2 where l: "logCascadeDrain k D (Name (d_Meta md)) (length owned) s1 = (b, s2)" by fastforce
  have e2: "d_emits is_note s1 s2" using logCascadeDrain_notes [of s1 k D "Name (d_Meta md)" "length owned"] l by simp
  have ev: "d_emits is_note s1 (demit (DEvent a b' c') s2)" for a b' c' using d_emits_then [OF e2] by simp
  then have "d_emits is_note s1 (note_drain md m s2)" "d_emits is_note s1 (demit (DEvent a b' c') s2)"
    "d_emits is_note s1 (note_drain md m (demit (DEvent a b' c') s2))" for m a b' c'
    using d_emits_trans [OF e2 note_quiet] d_emits_trans [OF ev note_quiet] by auto
  then have "d_emits ?P s s1 \<and> d_emits is_note s1 (snd (drain_step k D note_drain md owned s)) \<or> snd (drain_step k D note_drain md owned s) = s1"
    using e e2 by (auto simp: drain_step_def c l Let_def split: option.splits)
  then show ?thesis using e by (auto intro: d_emits_trans [OF _ d_emits_mono])
qed

text \<open>
  Between two states of a reconcile, \<open>Q\<close> holds of every effect if it holds of those of the live path and of
  the drain of the children listed under the label.
\<close>

lemma Reconcile_emits:
  assumes "\<And>md w s'. kc_get (da_kube D) (d_world s) key = (Inr md, w) \<Longrightarrow> \<not> DeletionTimestamp (d_Meta md) \<Longrightarrow>
      ContainsFinalizer (da_lib D) (Finalizers (d_Meta md)) (dk_finalizer k) \<Longrightarrow> d_emits Q s' (snd (live md s'))"
    and "\<And>md w owned w' c. kc_get (da_kube D) (d_world s) key = (Inr md, w) \<Longrightarrow> DeletionTimestamp (d_Meta md) \<Longrightarrow>
      da_children D w (da_Namespace D) (Name (d_Meta md)) = (Inr owned, w') \<Longrightarrow> c \<in> set owned \<Longrightarrow> Q (ChildDelete c False)"
    and "\<And>e. is_note e \<Longrightarrow> Q e"
    and "\<And>md w w' fs. kc_get (da_kube D) (d_world s) key = (Inr md, w) \<Longrightarrow>
      DeletionTimestamp (d_Meta md) \<and> da_children D w (da_Namespace D) (Name (d_Meta md)) = (Inr [], w') \<and>
        fs = RemoveFinalizer (da_lib D) (Finalizers (d_Meta md)) (dk_finalizer k) \<or>
      \<not> DeletionTimestamp (d_Meta md) \<and> fs = AddFinalizer (da_lib D) (Finalizers (d_Meta md)) (dk_finalizer k) \<Longrightarrow>
      Q (DObjectUpdate fs)"
  shows "d_emits Q s (snd (discovery_Reconcile k D note_drain live key s))"
proof -
  obtain r s1 where g: "in_world (\<lambda>w. kc_get (da_kube D) w key) s = (r, s1)" by fastforce
  have s1: "d_log s1 = d_log s" "d_world s1 = snd (kc_get (da_kube D) (d_world s) key)" "r = fst (kc_get (da_kube D) (d_world s) key)"
    using in_world_log [OF g] by blast+
  have e1: "d_emits Q s s1" using s1(1) by (simp add: d_emits_def)
  have upd: "d_emits Q s' (snd (update_object D md s'))" if "Q (DObjectUpdate (Finalizers (d_Meta md)))" for md s'
  proof -
    obtain e s2 where u: "in_world (\<lambda>w. kc_update (da_kube D) w md) (demit (DObjectUpdate (Finalizers (d_Meta md))) s') = (e, s2)" by fastforce
    have "d_emits Q s' s2" by (rule d_emits_trans [OF _ in_world_emits [OF u]]) (use that in simp)
    then show ?thesis by (simp add: update_object_def u)
  qed
  have del: "d_emits Q s1 (snd (discovery_deletion k D note_drain md s1))" if r: "r = Inr md" and d: "DeletionTimestamp (d_Meta md)" for md
  proof -
    obtain l s2 where l: "in_world (\<lambda>w. da_children D w (da_Namespace D) (Name (d_Meta md))) s1 = (l, s2)" by fastforce
    have l': "d_emits Q s1 s2" "da_children D (d_world s1) (da_Namespace D) (Name (d_Meta md)) = (l, d_world s2)"
      using in_world_log [OF l] by (auto simp: d_emits_def)
    have g': "kc_get (da_kube D) (d_world s) key = (Inr md, d_world s1)" using s1 r by (metis prod.collapse)
    have "d_emits Q s2 (snd (drain_step k D note_drain md owned s2))" if "l = Inr owned" for owned
      by (rule d_emits_mono [OF drain_step_emits]) (use assms(2,3) g' d l' that in auto)
    moreover have "d_emits Q s2 (snd (update_object D (disco_finalizers (RemoveFinalizer (da_lib D) (Finalizers (d_Meta md)) (dk_finalizer k)) md)
        (forgetCascadeDrain n (demit (DMetric a b) s2))))" if "l = Inr []" for n a b
      by (rule d_emits_trans [OF _ upd])
        (use assms(3,4) g' d l' that in \<open>auto simp: disco_finalizers_def forgetCascadeDrain_def intro: d_emits_trans [OF _ d_emits_drain]\<close>)
    ultimately show ?thesis
      using l'(1) by (auto simp: discovery_deletion_def l Let_def case_prod_beta split: sum.splits option.splits intro: d_emits_trans)
  qed
  show ?thesis
  proof (cases r)
    case (Inl e)
    then show ?thesis using e1 by (simp add: discovery_Reconcile_def g)
  next
    case (Inr md)
    have g': "kc_get (da_kube D) (d_world s) key = (Inr md, d_world s1)" using s1 Inr by (metis prod.collapse)
    have "d_emits Q s1 (snd (update_object D (disco_finalizers (AddFinalizer (da_lib D) (Finalizers (d_Meta md)) (dk_finalizer k)) md) s1))"
      if "\<not> DeletionTimestamp (d_Meta md)"
      by (rule upd) (use assms(4) g' that in \<open>auto simp: disco_finalizers_def\<close>)
    then show ?thesis
      using del Inr assms(1) g' d_emits_trans [OF e1]
      by (auto simp: discovery_Reconcile_def g case_prod_beta split: option.splits)
  qed
qed

text \<open>The finalizer goes only when the object is being deleted and no labelled child is left.\<close>

lemma releases_only_drained:
  assumes "klib_laws (da_lib D)"
    and "DObjectUpdate fs \<in> set (drop (length (d_log s)) (d_log (snd (discovery_Reconcile k D note_drain live key s))))"
    and "dk_finalizer k \<notin> set fs"
  shows "\<exists>md w w'. kc_get (da_kube D) (d_world s) key = (Inr md, w) \<and> DeletionTimestamp (d_Meta md) \<and>
    da_children D w (da_Namespace D) (Name (d_Meta md)) = (Inr [], w')"
proof (rule ccontr)
  assume no: "\<not> ?thesis"
  have "d_emits (\<lambda>e. e \<noteq> DObjectUpdate fs) s (snd (discovery_Reconcile k D note_drain live key s))"
  proof (rule Reconcile_emits)
    show "d_emits (\<lambda>e. e \<noteq> DObjectUpdate fs) s' (snd (live md s'))" for md s' by (rule d_emits_mono [OF live_bound]) simp
    fix md w w' gs
    assume "kc_get (da_kube D) (d_world s) key = (Inr md, w)"
      "DeletionTimestamp (d_Meta md) \<and> da_children D w (da_Namespace D) (Name (d_Meta md)) = (Inr [], w') \<and>
        gs = RemoveFinalizer (da_lib D) (Finalizers (d_Meta md)) (dk_finalizer k) \<or>
      \<not> DeletionTimestamp (d_Meta md) \<and> gs = AddFinalizer (da_lib D) (Finalizers (d_Meta md)) (dk_finalizer k)"
    then show "DObjectUpdate gs \<noteq> DObjectUpdate fs" using no assms(3) klib_lawsD(7) [OF assms(1)] by auto
  qed auto
  then show False using assms(2) d_emits_mem by fastforce
qed

text \<open>An unbound delete is only issued while the discovery itself is being deleted.\<close>

lemma unbound_only_cascading:
  assumes "ChildDelete c False \<in> set (drop (length (d_log s)) (d_log (snd (discovery_Reconcile k D note_drain live key s))))"
  shows "\<exists>md w owned w'. kc_get (da_kube D) (d_world s) key = (Inr md, w) \<and> DeletionTimestamp (d_Meta md) \<and>
    da_children D w (da_Namespace D) (Name (d_Meta md)) = (Inr owned, w') \<and> c \<in> set owned"
proof (rule ccontr)
  assume no: "\<not> ?thesis"
  have "d_emits (\<lambda>e. e \<noteq> ChildDelete c False) s (snd (discovery_Reconcile k D note_drain live key s))"
  proof (rule Reconcile_emits)
    show "d_emits (\<lambda>e. e \<noteq> ChildDelete c False) s' (snd (live md s'))" for md s' by (rule d_emits_mono [OF live_bound]) simp
  qed (use no in auto)
  then show False using assms d_emits_mem by fastforce
qed

end

subsection \<open>A concrete API\<close>

text \<open>One discovery, a fixed set of children, and an answer for every apply.\<close>

definition example_dapi :: "'d discovery \<Rightarrow> 'c child list \<Rightarrow> kube_error option \<Rightarrow> (unit, 'd, 'c) dapi" where
  "example_dapi md children applied = \<lparr>
     da_kube = \<lparr>kc_get = (\<lambda>w k. (Inr md, w)), kc_update = (\<lambda>w x. (None, w)), kc_status_update = (\<lambda>w x. (Inr x, w))\<rparr>,
     da_children = (\<lambda>w ns n. (Inr children, w)),
     da_read = (\<lambda>w n. (case find (\<lambda>c. ch_Name c = n) children of None \<Rightarrow> Inl KNotFound | Some c \<Rightarrow> Inr c, w)),
     da_apply = (\<lambda>w c. (applied, w)), da_delete = (\<lambda>w c b. (None, w)), da_now = (\<lambda>w. (0, w)), da_lib = klib_std,
     da_errtext = (\<lambda>e. ''refused''), da_Namespace = ''ns''\<rparr>"

definition disco_meta :: "string \<Rightarrow> string list \<Rightarrow> bool \<Rightarrow> ObjectMeta" where
  "disco_meta name fs deleting = \<lparr>Namespace = ''ns'', Name = name, Generation = 1, DeletionTimestamp = deleting,
     Finalizers = fs, Annotations = [], OwnerReferences = []\<rparr>"

definition example_dstatus :: DiscoveryStatus where
  "example_dstatus = \<lparr>ds_GeneratedChildren = [], ds_GeneratedCount = 0, ds_DiscoveredCount = 0, ds_SkippedCandidates = [],
     ds_FailedCandidates = [], ds_LastRefreshAt = None, ds_ObservedGeneration = 0, ds_Conditions = []\<rparr>"

definition empty_dstate :: "(unit, 'c) dstate" where
  "empty_dstate = \<lparr>d_world = (), d_log = [], d_drain = []\<rparr>"

lemma example_dapi_sel [simp]:
  "kc_get (da_kube (example_dapi md cs a)) w k = (Inr md, w)" "da_children (example_dapi md cs a) w ns n = (Inr cs, w)"
  "da_delete (example_dapi md cs a) w c b = (None, w)" "da_apply (example_dapi md cs a) w c = (a, w)"
  "da_read (example_dapi md cs a) w n = (case find (\<lambda>c. ch_Name c = n) cs of None \<Rightarrow> Inl KNotFound | Some c \<Rightarrow> Inr c, w)"
  "da_lib (example_dapi md cs a) = klib_std" "da_Namespace (example_dapi md cs a) = ''ns''"
  "d_world empty_dstate = ()" "d_log empty_dstate = []"
  by (simp_all add: example_dapi_def empty_dstate_def)

lemma example_dapi_stable [simp]: "status_stable (example_dapi md cs a)"
  by (simp add: status_stable_def example_dapi_def same_discovery_def)

end
