(* ===== verification/Providers.thy ===== *)
theory Providers
  imports Litellm_Endpoints Endpoint
begin

text \<open>
  Package \<^verbatim>\<open>internal/providers\<close>: the upstream catalogues a model discovery lists.  Each provider is a
  function from the world to candidates or an error; the registry picks one by the type of the discovery.

  The HTTP client, the AWS SDK, the OAuth exchange, the parsers of PEM keys and of JSON texts, and the
  Kubernetes reader of the A2A provider are the parameter \<open>provlib\<close>.  A reply carries the body as read under
  the 4 MB limit and decoded: a body cut off by the limit is one that does not decode.  The state threads the
  requests sent, so that theorems can speak of the addresses asked.
\<close>

subsection \<open>Candidates, configuration, errors\<close>

record Candidate =
  cd_ID :: string
  cd_DisplayName :: string
  cd_ModelID :: string
  cd_Params :: "string gomap"

record AWSCredentials =
  aws_AccessKeyID :: string
  aws_SecretAccessKey :: string
  aws_SessionToken :: string

record ProviderConfig =
  cf_Type :: string
  cf_BaseURL :: string
  cf_Region :: string
  cf_Regions :: "string list"
  cf_InferenceProfiles :: "string list"
  cf_APIKey :: string
  cf_AWSCreds :: "AWSCredentials option"
  cf_VertexCredentials :: string
  cf_HTTPClient :: bool  \<comment> \<open>set or nil\<close>
  cf_Reader :: bool  \<comment> \<open>set or nil\<close>
  cf_Namespace :: string

datatype provider_error = ProviderAuthError string string | ProviderError string

fun provider_text :: "provider_error \<Rightarrow> string" where
  "provider_text (ProviderAuthError provider cause) = ''providers: '' @ provider @ '' auth failed: '' @ cause"
| "provider_text (ProviderError e) = e"

fun is_auth :: "provider_error \<Rightarrow> bool" where
  "is_auth (ProviderAuthError _ _) = True"
| "is_auth (ProviderError _) = False"

subsection \<open>The libraries\<close>

record request =
  rq_url :: string
  rq_headers :: "string gomap"

datatype body = BodyFailed string | BodyNoJson string | BodyJson json

datatype reply = BuildFailed string | TransportFailed string | Reply int body

record aws_error =
  ae_code :: "string option"
  ae_text :: string

record FoundationModelSummary =
  fm_ModelId :: string
  fm_ModelName :: string
  fm_Lifecycle :: "string option"
  fm_InferenceTypes :: "string list"
  fm_OutputModalities :: "string list"

record InferenceProfile =
  ip_Id :: string
  ip_Status :: string

datatype token_result = Token string | RetrieveError int string | TokenError string

record RegisteredAgent =
  ra_Name :: string
  ra_AgentID :: string
  ra_Deleting :: bool

text \<open>\<open>pl_profiles\<close> gives the pages of the SDK paginator in order, the last one an error if a page failed.\<close>

record 'w provlib =
  pl_http :: "'w \<Rightarrow> request \<Rightarrow> reply \<times> 'w"
  pl_overrides :: "string gomap"  \<comment> \<open>the test seam; empty in production\<close>
  pl_json :: "string \<Rightarrow> json option"
  pl_pem :: "string \<Rightarrow> bool"
  pl_jwt :: "'w \<Rightarrow> string \<Rightarrow> string \<Rightarrow> string \<Rightarrow> token_result \<times> 'w"
  pl_awsconfig :: "AWSCredentials option \<Rightarrow> string \<Rightarrow> aws_error option"
  pl_models :: "'w \<Rightarrow> AWSCredentials option \<Rightarrow> string \<Rightarrow> bool \<Rightarrow> (aws_error + FoundationModelSummary list) \<times> 'w"
  pl_profiles :: "'w \<Rightarrow> AWSCredentials option \<Rightarrow> string \<Rightarrow> (aws_error + InferenceProfile list) list \<times> 'w"
  pl_agents :: "'w \<Rightarrow> string \<Rightarrow> (string + RegisteredAgent list) \<times> 'w"

type_synonym 'w pstate = "'w \<times> request list"
type_synonym 'w provider = "'w pstate \<Rightarrow> (provider_error + Candidate list) \<times> 'w pstate"

definition send :: "'w provlib \<Rightarrow> request \<Rightarrow> 'w pstate \<Rightarrow> reply \<times> 'w pstate" where
  "send L rq st = (let (w, sent) = st; (r, w) = pl_http L w rq in (r, w, sent @ [rq]))"

subsection \<open>Base addresses\<close>

definition defaultBaseURLs :: "string gomap" where
  "defaultBaseURLs =
     [(''anthropic'', ''https://api.anthropic.com/v1''), (''elevenlabs'', ''https://api.elevenlabs.io/v1''),
      (''gemini'', ''https://generativelanguage.googleapis.com/v1beta''), (''openai'', ''https://api.openai.com/v1'')]"

definition TrimRightSlash :: "string \<Rightarrow> string" where
  "TrimRightSlash s = rev (dropWhile (\<lambda>c. c = CHR ''/'') (rev s))"

definition baseURLFor :: "'w provlib \<Rightarrow> string \<Rightarrow> string \<Rightarrow> string" where
  "baseURLFor L providerType cfgBaseURL =
     TrimRightSlash
       (if cfgBaseURL \<noteq> '''' then cfgBaseURL
        else case map_of (pl_overrides L) providerType of
               Some v \<Rightarrow> v
             | None \<Rightarrow> (case map_of defaultBaseURLs providerType of Some v \<Rightarrow> v | None \<Rightarrow> ''''))"

text \<open>\<^verbatim>\<open>net.ParseIP\<close> is the parameter \<open>ParseIP\<close>; it gives the sixteen-byte form.\<close>

type_synonym ip = "nat list"

definition To4 :: "ip \<Rightarrow> ip option" where
  "To4 ip = (if take 12 ip = replicate 10 0 @ [255, 255] then Some (drop 12 ip) else None)"

definition IsLoopback :: "ip \<Rightarrow> bool" where
  "IsLoopback ip = (case To4 ip of Some v \<Rightarrow> v ! 0 = 127 | None \<Rightarrow> ip = replicate 15 0 @ [1])"

definition IsLinkLocalUnicast :: "ip \<Rightarrow> bool" where
  "IsLinkLocalUnicast ip =
     (case To4 ip of Some v \<Rightarrow> v ! 0 = 169 \<and> v ! 1 = 254 | None \<Rightarrow> ip ! 0 = 254 \<and> ip ! 1 div 64 = 2)"

definition IsLinkLocalMulticast :: "ip \<Rightarrow> bool" where
  "IsLinkLocalMulticast ip =
     (case To4 ip of Some v \<Rightarrow> v ! 0 = 224 \<and> v ! 1 = 0 \<and> v ! 2 = 0 | None \<Rightarrow> ip ! 0 = 255 \<and> ip ! 1 mod 16 = 2)"

definition isCloudMetadataIP :: "(string \<Rightarrow> ip option) \<Rightarrow> ip \<Rightarrow> bool" where
  "isCloudMetadataIP ParseIP ip = list_ex (\<lambda>m. ParseIP m = Some ip) [''169.254.169.254'', ''fd00:ec2::254'']"

definition ValidateBaseURL :: "netlib \<Rightarrow> (string \<Rightarrow> ip option) \<Rightarrow> string \<Rightarrow> string option" where
  "ValidateBaseURL N ParseIP raw =
     (if only_spaces (map byte raw) \<or> raw = ''/'' then Some ''empty baseUrl''
      else
        case url_Parse N raw of
          Inl e \<Rightarrow> Some (''parse baseUrl: '' @ e)
        | Inr u \<Rightarrow>
            (if Scheme u \<noteq> ''http'' \<and> Scheme u \<noteq> ''https'' then Some ''scheme must be http or https''
             else if Opaque u \<noteq> '''' then Some ''opaque baseUrl (use scheme://host[:port][/path])''
             else if User u then Some ''userinfo not allowed in baseUrl''
             else if RawQuery u \<noteq> '''' then Some ''query string not allowed in baseUrl''
             else if Fragment u \<noteq> '''' then Some ''fragment not allowed in baseUrl''
             else if Hostname u = '''' then Some ''host required''
             else if Port u \<noteq> '''' \<and> (atoi 0 (Port u) < 1 \<or> atoi 0 (Port u) > 65535) then Some ''invalid port (must be 1-65535)''
             else
               case ParseIP (Hostname u) of
                 None \<Rightarrow> None
               | Some ip \<Rightarrow>
                   (if IsLoopback ip then Some (''baseUrl host '' @ quote (Hostname u) @ '' is loopback (denied)'')
                    else if IsLinkLocalUnicast ip \<or> IsLinkLocalMulticast ip
                    then Some (''baseUrl host '' @ quote (Hostname u) @ '' is link-local (denied)'')
                    else if isCloudMetadataIP ParseIP ip
                    then Some (''baseUrl host '' @ quote (Hostname u) @ '' is a cloud metadata address (denied)'')
                    else None)))"

subsection \<open>HTTP catalogues\<close>

definition classify_reply :: "string \<Rightarrow> reply \<Rightarrow> provider_error + json" where
  "classify_reply label r =
     (case r of
        BuildFailed e \<Rightarrow> Inl (ProviderError (label @ '': build request: '' @ e))
      | TransportFailed e \<Rightarrow> Inl (ProviderError (label @ '': transport error: '' @ e))
      | Reply st b \<Rightarrow>
          (if st = 401 \<or> st = 403 then Inl (ProviderAuthError label (''status '' @ show_int st))
           else if st \<ge> 400 then Inl (ProviderError (label @ '': list models: status '' @ show_int st))
           else
             case b of
               BodyFailed e \<Rightarrow> Inl (ProviderError (label @ '': read response: '' @ e))
             | BodyNoJson e \<Rightarrow> Inl (ProviderError (label @ '': decode response: '' @ e))
             | BodyJson j \<Rightarrow> Inr j))"

definition fetch_json ::
  "'w provlib \<Rightarrow> string \<Rightarrow> request \<Rightarrow> (json \<Rightarrow> 'a option) \<Rightarrow> 'w pstate \<Rightarrow> (provider_error + 'a) \<times> 'w pstate" where
  "fetch_json L label rq decode st =
     (let (r, st) = send L rq st in
      case classify_reply label r of
        Inl e \<Rightarrow> (Inl e, st)
      | Inr j \<Rightarrow>
          (case decode j of
             None \<Rightarrow> (Inl (ProviderError (label @ '': decode response: json'')), st)
           | Some x \<Rightarrow> (Inr x, st)))"

definition plain_candidate :: "string \<Rightarrow> string \<Rightarrow> Candidate" where
  "plain_candidate i display = \<lparr>cd_ID = i, cd_DisplayName = display, cd_ModelID = '''', cd_Params = []\<rparr>"

definition decode_pair :: "string \<Rightarrow> string \<Rightarrow> json \<Rightarrow> (string \<times> string) option" where
  "decode_pair a b v =
     (case dec_object (Some v) of None \<Rightarrow> None
      | Some m \<Rightarrow>
        (case (dec_string (struct_field a m), dec_string (struct_field b m)) of
           (Some x, Some y) \<Rightarrow> Some (x, y)
         | _ \<Rightarrow> None))"

definition decode_one :: "string \<Rightarrow> json \<Rightarrow> string option" where
  "decode_one a v = (case dec_object (Some v) of None \<Rightarrow> None | Some m \<Rightarrow> dec_string (struct_field a m))"

definition decode_openai :: "json \<Rightarrow> Candidate list option" where
  "decode_openai v =
     (case dec_object (Some v) of None \<Rightarrow> None
      | Some m \<Rightarrow> map_option (map (\<lambda>i. plain_candidate i ''''))
          (Option.bind (dec_array (struct_field ''data'' m)) (dec_all (decode_one ''id''))))"

definition openai_List :: "'w provlib \<Rightarrow> string \<Rightarrow> string \<Rightarrow> string \<Rightarrow> 'w provider" where
  "openai_List L typeLabel apiKey baseURL =
     fetch_json L typeLabel
       \<lparr>rq_url = baseURLFor L typeLabel baseURL @ ''/models'',
        rq_headers = [(''Accept'', ''application/json'')]
          @ (if apiKey \<noteq> '''' then [(''Authorization'', ''Bearer '' @ apiKey)] else [])\<rparr>
       decode_openai"

definition decode_elevenlabs :: "json \<Rightarrow> Candidate list option" where
  "decode_elevenlabs v =
     map_option (map (\<lambda>(i, n). plain_candidate i n)) (Option.bind (dec_array (Some v)) (dec_all (decode_pair ''model_id'' ''name'')))"

definition elevenlabs_List :: "'w provlib \<Rightarrow> string \<Rightarrow> string \<Rightarrow> 'w provider" where
  "elevenlabs_List L apiKey baseURL =
     fetch_json L ''elevenlabs''
       \<lparr>rq_url = baseURLFor L ''elevenlabs'' baseURL @ ''/models'',
        rq_headers = [(''xi-api-key'', apiKey), (''Accept'', ''application/json'')]\<rparr>
       decode_elevenlabs"

subsection \<open>Paged catalogues\<close>

definition maxPages_provider :: nat where "maxPages_provider = 1000"

text \<open>
  The loop the three paged providers share.  A page gives its candidates and the token of the next page, the
  empty string for none; \<open>n\<close> pages are left before the cap.
\<close>

type_synonym 'w page = "string \<Rightarrow> 'w pstate \<Rightarrow> (provider_error + Candidate list \<times> string) \<times> 'w pstate"

fun page_loop :: "string \<Rightarrow> 'w page \<Rightarrow> nat \<Rightarrow> string \<Rightarrow> Candidate list \<Rightarrow> 'w provider" where
  "page_loop label page 0 token acc st =
     (Inl (ProviderError (label @ '': model list exceeded '' @ show_nat maxPages_provider @ '' pages; refusing truncated result'')), st)"
| "page_loop label page (Suc n) token acc st =
     (case page token st of
        (Inl e, st) \<Rightarrow> (Inl e, st)
      | (Inr (cs, next), st) \<Rightarrow>
          (if next = '''' then (Inr (acc @ cs), st) else page_loop label page n next (acc @ cs) st))"

definition with_token :: "string \<Rightarrow> string \<Rightarrow> string \<Rightarrow> string" where
  "with_token base key token = (if token \<noteq> '''' then base @ ''?'' @ key @ ''='' @ QueryEscape token else base)"

definition decode_anthropic :: "json \<Rightarrow> (Candidate list \<times> string) option" where
  "decode_anthropic v =
     (case dec_object (Some v) of None \<Rightarrow> None
      | Some m \<Rightarrow>
        (case (Option.bind (dec_array (struct_field ''data'' m)) (dec_all (decode_pair ''id'' ''display_name'')),
               dec_bool (struct_field ''has_more'' m), dec_string (struct_field ''last_id'' m)) of
           (Some ps, Some hasMore, Some lastID) \<Rightarrow>
             Some (map (\<lambda>(i, n). plain_candidate i n) ps, if hasMore then lastID else '''')
         | _ \<Rightarrow> None))"

definition anthropic_page :: "'w provlib \<Rightarrow> string \<Rightarrow> string \<Rightarrow> 'w page" where
  "anthropic_page L apiKey baseURL afterID =
     fetch_json L ''anthropic''
       \<lparr>rq_url = with_token (baseURLFor L ''anthropic'' baseURL @ ''/models'') ''after_id'' afterID,
        rq_headers = [(''x-api-key'', apiKey), (''anthropic-version'', ''2023-06-01''), (''Accept'', ''application/json'')]\<rparr>
       decode_anthropic"

definition anthropic_List :: "'w provlib \<Rightarrow> string \<Rightarrow> string \<Rightarrow> 'w provider" where
  "anthropic_List L apiKey baseURL = page_loop ''anthropic'' (anthropic_page L apiKey baseURL) maxPages_provider '''' []"

definition TrimPrefix :: "string \<Rightarrow> string \<Rightarrow> string" where
  "TrimPrefix p s = (if prefix p s then drop (length p) s else s)"

definition decode_gemini :: "json \<Rightarrow> (Candidate list \<times> string) option" where
  "decode_gemini v =
     (case dec_object (Some v) of None \<Rightarrow> None
      | Some m \<Rightarrow>
        (case (Option.bind (dec_array (struct_field ''models'' m)) (dec_all (decode_pair ''name'' ''displayName'')),
               dec_string (struct_field ''nextPageToken'' m)) of
           (Some ps, Some next) \<Rightarrow> Some (map (\<lambda>(i, n). plain_candidate (TrimPrefix ''models/'' i) n) ps, next)
         | _ \<Rightarrow> None))"

definition gemini_page :: "'w provlib \<Rightarrow> string \<Rightarrow> string \<Rightarrow> 'w page" where
  "gemini_page L apiKey baseURL pageToken =
     fetch_json L ''gemini''
       \<lparr>rq_url = with_token (baseURLFor L ''gemini'' baseURL @ ''/models'') ''pageToken'' pageToken,
        rq_headers = [(''x-goog-api-key'', apiKey), (''Accept'', ''application/json'')]\<rparr>
       decode_gemini"

definition gemini_List :: "'w provlib \<Rightarrow> string \<Rightarrow> string \<Rightarrow> 'w provider" where
  "gemini_List L apiKey baseURL = page_loop ''gemini'' (gemini_page L apiKey baseURL) maxPages_provider '''' []"

subsection \<open>Vertex\<close>

record vertexKey =
  vk_ClientEmail :: string
  vk_PrivateKey :: string
  vk_ProjectID :: string

definition vertexLocation :: "string \<Rightarrow> bool" where
  "vertexLocation s \<longleftrightarrow> s \<noteq> '''' \<and> list_all (\<lambda>c. CHR ''a'' \<le> c \<and> c \<le> CHR ''z'' \<or> is_digit c \<or> c = CHR ''-'') s"

definition decode_vertexKey :: "json \<Rightarrow> vertexKey option" where
  "decode_vertexKey v =
     (case dec_object (Some v) of None \<Rightarrow> None
      | Some m \<Rightarrow>
        (case (dec_string (struct_field ''client_email'' m), dec_string (struct_field ''private_key'' m),
               dec_string (struct_field ''project_id'' m)) of
           (Some e, Some p, Some i) \<Rightarrow> Some \<lparr>vk_ClientEmail = e, vk_PrivateKey = p, vk_ProjectID = i\<rparr>
         | _ \<Rightarrow> None))"

definition vertexBaseURL :: "string \<Rightarrow> string" where
  "vertexBaseURL location =
     (if location = ''global'' then ''https://aiplatform.googleapis.com''
      else if location = ''eu'' \<or> location = ''us'' then ''https://aiplatform.'' @ location @ ''.rep.googleapis.com''
      else ''https://'' @ location @ ''-aiplatform.googleapis.com'')"

definition googleTokenURL :: string where "googleTokenURL = ''https://oauth2.googleapis.com/token''"

definition vertex_token :: "'w provlib \<Rightarrow> vertexKey \<Rightarrow> 'w pstate \<Rightarrow> (provider_error + string) \<times> 'w pstate" where
  "vertex_token L k st =
     (let (w, sent) = st;
          tokenURL = baseURLFor L ''vertex-token'' '''';
          tokenURL = (if tokenURL = '''' then googleTokenURL else tokenURL);
          (r, w) = pl_jwt L w (vk_ClientEmail k) (vk_PrivateKey k) tokenURL
      in (case r of
            Token t \<Rightarrow> Inr t
          | RetrieveError status code \<Rightarrow> Inl (ProviderAuthError ''vertex'' (''token exchange: status '' @ show_int status @ '' '' @ code))
          | TokenError e \<Rightarrow> Inl (ProviderError (''vertex: token exchange: '' @ e)), w, sent))"

text \<open>\<^verbatim>\<open>path.Base\<close>.\<close>

definition path_Base :: "string \<Rightarrow> string" where
  "path_Base p =
     (if p = '''' then ''.''
      else let q = TrimRightSlash p in if q = '''' then ''/'' else rev (takeWhile (\<lambda>c. c \<noteq> CHR ''/'') (rev q)))"

definition vertex_kept :: "string \<Rightarrow> bool" where
  "vertex_kept i \<longleftrightarrow> prefix ''gemini-'' i \<and> \<not> Contains i ''embedding''"

definition decode_vertex :: "string gomap \<Rightarrow> json \<Rightarrow> (Candidate list \<times> string) option" where
  "decode_vertex params v =
     (case dec_object (Some v) of None \<Rightarrow> None
      | Some m \<Rightarrow>
        (case (Option.bind (dec_array (struct_field ''publisherModels'' m)) (dec_all (decode_one ''name'')),
               dec_string (struct_field ''nextPageToken'' m)) of
           (Some names, Some next) \<Rightarrow>
             Some (map (\<lambda>i. (plain_candidate i '''')\<lparr>cd_Params := params\<rparr>) (filter vertex_kept (map path_Base names)), next)
         | _ \<Rightarrow> None))"

definition vertex_page :: "'w provlib \<Rightarrow> vertexKey \<Rightarrow> string \<Rightarrow> string \<Rightarrow> 'w page" where
  "vertex_page L k location tok pageToken =
     (let base = baseURLFor L ''vertex'' '''';
          base = (if base = '''' then vertexBaseURL location else base) @ ''/v1beta1/publishers/google/models''
      in fetch_json L ''vertex''
           \<lparr>rq_url = base @ ''?pageSize=100'' @ (if pageToken \<noteq> '''' then ''&pageToken='' @ QueryEscape pageToken else ''''),
            rq_headers = [(''Authorization'', ''Bearer '' @ tok), (''x-goog-user-project'', vk_ProjectID k), (''Accept'', ''application/json'')]\<rparr>
           (decode_vertex [(''vertex_location'', location), (''vertex_project'', vk_ProjectID k)]))"

definition vertex_List :: "'w provlib \<Rightarrow> vertexKey \<Rightarrow> string \<Rightarrow> 'w provider" where
  "vertex_List L k location st =
     (case vertex_token L k st of
        (Inl e, st) \<Rightarrow> (Inl e, st)
      | (Inr tok, st) \<Rightarrow> page_loop ''vertex'' (vertex_page L k location tok) maxPages_provider '''' [] st)"

subsection \<open>Bedrock\<close>

definition awsAuthErrorCodes :: "string list" where
  "awsAuthErrorCodes = [''AccessDeniedException'', ''InvalidSignatureException'', ''ExpiredTokenException'',
     ''UnrecognizedClientException'', ''UnauthorizedException'']"

text \<open>
  \<^verbatim>\<open>ReplaceAllString\<close> for an expression that is a literal followed by one or more characters of a class.
\<close>

function redact :: "string \<Rightarrow> (char \<Rightarrow> bool) \<Rightarrow> string \<Rightarrow> string \<Rightarrow> string" where
  "redact lit cls rep s =
     (case s of
        [] \<Rightarrow> []
      | c # cs \<Rightarrow>
          (if prefix lit s \<and> takeWhile cls (drop (length lit) s) \<noteq> []
           then rep @ redact lit cls rep (dropWhile cls (drop (length lit) s))
           else c # redact lit cls rep cs))"
  by pat_completeness auto
termination
proof (relation "measure (\<lambda>(lit, cls, rep, s). length s)")
  fix lit rep s :: string and cls c cs
  assume s: "s = c # cs" and m: "prefix lit s \<and> takeWhile cls (drop (length lit) s) \<noteq> []"
  let ?d = "drop (length lit) s"
  have "length (takeWhile cls ?d) + length (dropWhile cls ?d) = length ?d"
    by (metis length_append takeWhile_dropWhile_id)
  moreover have "0 < length (takeWhile cls ?d)" using m by simp
  moreover have "length ?d \<le> length s" by simp
  ultimately have "length (dropWhile cls ?d) < length s" by linarith
  then show "((lit, cls, rep, dropWhile cls ?d), lit, cls, rep, s) \<in> measure (\<lambda>(lit, cls, rep, s). length s)" by simp
qed auto

declare redact.simps [simp del]

definition aws_space :: "char \<Rightarrow> bool" where
  "aws_space c \<longleftrightarrow> c \<in> {CHR 0x09, CHR 0x0A, CHR 0x0C, CHR 0x0D, CHR 0x20}"

definition aws_alnum :: "char \<Rightarrow> bool" where
  "aws_alnum c \<longleftrightarrow> CHR ''A'' \<le> c \<and> c \<le> CHR ''Z'' \<or> CHR ''a'' \<le> c \<and> c \<le> CHR ''z'' \<or> is_digit c"

definition sanitizeAWSError :: "string \<Rightarrow> string" where
  "sanitizeAWSError orig =
     redact ''Credential='' (\<lambda>c. c \<noteq> CHR '','' \<and> \<not> aws_space c) ''Credential=<redacted>''
       (redact ''AWS_ACCESS_KEY_ID='' aws_alnum ''AWS_ACCESS_KEY_ID=<redacted>'' orig)"

definition classifyBedrockError :: "string \<Rightarrow> aws_error \<Rightarrow> provider_error" where
  "classifyBedrockError region err =
     (if \<exists>c \<in> set awsAuthErrorCodes. ae_code err = Some c
      then ProviderAuthError ''bedrock'' (''region '' @ region @ '': '' @ sanitizeAWSError (ae_text err))
      else ProviderError (''bedrock: region '' @ region @ '': list foundation models: '' @ sanitizeAWSError (ae_text err)))"

definition isActiveNonEmbedding :: "FoundationModelSummary \<Rightarrow> bool" where
  "isActiveNonEmbedding m \<longleftrightarrow> fm_Lifecycle m = Some ''ACTIVE'' \<and> ''EMBEDDING'' \<notin> set (fm_OutputModalities m)"

definition shouldKeep :: "FoundationModelSummary \<Rightarrow> bool" where
  "shouldKeep m \<longleftrightarrow> isActiveNonEmbedding m \<and> ''ON_DEMAND'' \<in> set (fm_InferenceTypes m)"

fun active_ids :: "string \<Rightarrow> (aws_error + InferenceProfile list) list \<Rightarrow> string list \<Rightarrow> provider_error + string list" where
  "active_ids region [] ids = Inr ids"
| "active_ids region (Inl e # pages) ids = Inl (classifyBedrockError region e)"
| "active_ids region (Inr ps # pages) ids =
     active_ids region pages (ids @ map ip_Id (filter (\<lambda>p. ip_Status p = ''ACTIVE'') ps))"

definition activeProfiles ::
  "'w provlib \<Rightarrow> AWSCredentials option \<Rightarrow> string \<Rightarrow> 'w pstate \<Rightarrow> (provider_error + string list) \<times> 'w pstate" where
  "activeProfiles L creds region st =
     (let (w, sent) = st; (pages, w) = pl_profiles L w creds region in (active_ids region pages [], w, sent))"

definition bedrock_candidate :: "string \<Rightarrow> string list \<Rightarrow> string list \<Rightarrow> FoundationModelSummary \<Rightarrow> Candidate option" where
  "bedrock_candidate region profiles active m =
     (let i = fm_ModelId m;
          c = \<lparr>cd_ID = i, cd_DisplayName = fm_ModelName m, cd_ModelID = '''', cd_Params = [(''aws_region_name'', region)]\<rparr>
      in if shouldKeep m then Some c
         else if \<not> isActiveNonEmbedding m then None
         else
           case find (\<lambda>geo. geo @ ''.'' @ i \<in> set active) profiles of
             None \<Rightarrow> None
           | Some geo \<Rightarrow> Some (c\<lparr>cd_ModelID := geo @ ''.'' @ i\<rparr>))"

definition bedrock_region ::
  "'w provlib \<Rightarrow> AWSCredentials option \<Rightarrow> string list \<Rightarrow> string \<Rightarrow> 'w provider" where
  "bedrock_region L creds profiles region st =
     (let (w, sent) = st; (r, w) = pl_models L w creds region (length profiles = 0) in
      case r of
        Inl e \<Rightarrow> (Inl (classifyBedrockError region e), w, sent)
      | Inr models \<Rightarrow>
          (case (if length profiles > 0 then activeProfiles L creds region (w, sent) else (Inr [], w, sent)) of
             (Inl e, st) \<Rightarrow> (Inl e, st)
           | (Inr active, st) \<Rightarrow> (Inr (List.map_filter (bedrock_candidate region profiles active) models), st)))"

fun bedrock_regions ::
  "'w provlib \<Rightarrow> AWSCredentials option \<Rightarrow> string list \<Rightarrow> string list \<Rightarrow> Candidate list \<Rightarrow> 'w provider" where
  "bedrock_regions L creds profiles [] acc st = (Inr acc, st)"
| "bedrock_regions L creds profiles (r # rs) acc st =
     (case bedrock_region L creds profiles r st of
        (Inl e, st) \<Rightarrow> (Inl e, st)
      | (Inr cs, st) \<Rightarrow> bedrock_regions L creds profiles rs (acc @ cs) st)"

definition bedrock_List :: "'w provlib \<Rightarrow> AWSCredentials option \<Rightarrow> string list \<Rightarrow> string list \<Rightarrow> 'w provider" where
  "bedrock_List L creds profiles regions = bedrock_regions L creds profiles regions []"

subsection \<open>A2A agents\<close>

definition a2a_List :: "'w provlib \<Rightarrow> string \<Rightarrow> 'w provider" where
  "a2a_List L namespace st =
     (let (w, sent) = st; (r, w) = pl_agents L w namespace in
      case r of
        Inl e \<Rightarrow> (Inl (ProviderError (''a2a: list LiteLLMA2AAgent: '' @ e)), w, sent)
      | Inr agents \<Rightarrow>
          (Inr (map (\<lambda>a. plain_candidate (ra_Name a) (ra_Name a))
             (filter (\<lambda>a. ra_AgentID a \<noteq> '''' \<and> \<not> ra_Deleting a) agents)), w, sent))"

subsection \<open>Constructors and the registry\<close>

definition needs_key :: "ProviderConfig \<Rightarrow> 'w provider \<Rightarrow> string + 'w provider" where
  "needs_key cfg p =
     (if cf_APIKey cfg = '''' then Inl ''providers: APIKey is required''
      else if \<not> cf_HTTPClient cfg then Inl ''providers: HTTPClient is required''
      else Inr p)"

definition newKubeAI :: "'w provlib \<Rightarrow> ProviderConfig \<Rightarrow> string + 'w provider" where
  "newKubeAI L cfg =
     (if cf_BaseURL cfg = '''' then Inl ''kubeai: spec.baseUrl is required (no production default)''
      else if \<not> cf_HTTPClient cfg then Inl ''providers: HTTPClient is required''
      else Inr (openai_List L ''kubeai'' (cf_APIKey cfg) (cf_BaseURL cfg)))"

definition newVertexImpl :: "'w provlib \<Rightarrow> ProviderConfig \<Rightarrow> string + 'w provider" where
  "newVertexImpl L cfg =
     (let bad = ''vertex: VERTEX_CREDENTIALS is not a service-account JSON key (needs client_email, project_id and a PEM PKCS#8/PKCS#1 private_key)'' in
      if \<not> vertexLocation (cf_Region cfg) then Inl ''vertex: spec.region must be a Vertex location (e.g. eu, us, global, europe-west1)''
      else if \<not> cf_HTTPClient cfg then Inl ''providers: HTTPClient is required''
      else
        case Option.bind (pl_json L (cf_VertexCredentials cfg)) decode_vertexKey of
          None \<Rightarrow> Inl bad
        | Some k \<Rightarrow>
            (if vk_ClientEmail k = '''' \<or> vk_ProjectID k = '''' \<or> \<not> pl_pem L (vk_PrivateKey k) then Inl bad
             else Inr (vertex_List L k (cf_Region cfg))))"

definition newBedrock :: "'w provlib \<Rightarrow> ProviderConfig \<Rightarrow> string + 'w provider" where
  "newBedrock L cfg =
     (if length (cf_Regions cfg) = 0 then Inl ''bedrock: spec.regions is required''
      else
        case List.map_filter (pl_awsconfig L (cf_AWSCreds cfg)) (cf_Regions cfg) of
          e # _ \<Rightarrow> Inl (''bedrock: aws config: '' @ sanitizeAWSError (ae_text e))
        | [] \<Rightarrow> Inr (bedrock_List L (cf_AWSCreds cfg) (cf_InferenceProfiles cfg) (cf_Regions cfg)))"

definition newA2A :: "'w provlib \<Rightarrow> ProviderConfig \<Rightarrow> string + 'w provider" where
  "newA2A L cfg =
     (if \<not> cf_Reader cfg then Inl ''a2a: nil Reader''
      else if cf_Namespace cfg = '''' then Inl ''a2a: empty Namespace''
      else Inr (a2a_List L (cf_Namespace cfg)))"

definition Registry :: "'w provlib \<Rightarrow> (ProviderConfig \<Rightarrow> string + 'w provider) gomap" where
  "Registry L =
     [(''a2a'', newA2A L),
      (''anthropic'', \<lambda>cfg. needs_key cfg (anthropic_List L (cf_APIKey cfg) (cf_BaseURL cfg))),
      (''bedrock'', newBedrock L),
      (''elevenlabs'', \<lambda>cfg. needs_key cfg (elevenlabs_List L (cf_APIKey cfg) (cf_BaseURL cfg))),
      (''gemini'', \<lambda>cfg. needs_key cfg (gemini_List L (cf_APIKey cfg) (cf_BaseURL cfg))),
      (''kubeai'', newKubeAI L),
      (''openai'', \<lambda>cfg. needs_key cfg (openai_List L ''openai'' (cf_APIKey cfg) (cf_BaseURL cfg))),
      (''vertex'', newVertexImpl L)]"

definition Lookup :: "'w provlib \<Rightarrow> string \<Rightarrow> (ProviderConfig \<Rightarrow> string + 'w provider) option" where
  "Lookup L providerType = map_of (Registry L) providerType"

subsection \<open>Properties\<close>

definition sends :: "nat \<Rightarrow> (request \<Rightarrow> bool) \<Rightarrow> 'w pstate \<Rightarrow> 'w pstate \<Rightarrow> bool" where
  "sends n P st st' \<longleftrightarrow> (\<exists>rqs. snd st' = snd st @ rqs \<and> length rqs \<le> n \<and> list_all P rqs)"

lemma sends_refl [simp]: "sends n P st st"
  by (simp add: sends_def)

lemma sends_trans: "sends m P st st1 \<Longrightarrow> sends n P st1 st2 \<Longrightarrow> sends (m + n) P st st2"
  unfolding sends_def by (metis append.assoc length_append add_mono list_all_append)

lemma sends_mono: "sends m P st st' \<Longrightarrow> m \<le> n \<Longrightarrow> sends n P st st'"
  unfolding sends_def using le_trans by blast

lemma fetch_json_sends: "P rq \<Longrightarrow> sends 1 P st (snd (fetch_json L label rq decode st))"
  by (auto simp: fetch_json_def send_def sends_def Let_def split: prod.splits sum.splits option.splits)

lemma page_loop_sends:
  assumes "\<And>token st. sends 1 P st (snd (page token st))"
  shows "sends n P st (snd (page_loop label page n token acc st))"
proof (induction n arbitrary: token acc st)
  case (Suc n)
  obtain r st1 where p: "page token st = (r, st1)" by (metis surj_pair)
  have s: "sends 1 P st st1" using assms [of st token] p by simp
  then have "sends (Suc n) P st st1" "sends (Suc n) P st (snd (page_loop label page n tok acc' st1))" for tok acc'
    using sends_mono [OF s] sends_trans [OF s Suc.IH [where st = st1]] by simp_all
  then show ?case by (auto simp: p split: sum.splits)
qed simp

definition keyed_types :: "string list" where
  "keyed_types = [''anthropic'', ''elevenlabs'', ''gemini'', ''kubeai'', ''openai'']"

definition asks_models :: "string \<Rightarrow> request \<Rightarrow> bool" where
  "asks_models base rq \<longleftrightarrow> (\<exists>p \<in> {''after_id'', ''pageToken''}. \<exists>token. rq_url rq = with_token (base @ ''/models'') p token)"

lemma asks_plain: "asks_models base \<lparr>rq_url = base @ ''/models'', rq_headers = h\<rparr>"
  unfolding asks_models_def with_token_def by (rule bexI [of _ "''after_id''"], rule exI [of _ "''''"]) simp_all


definition example_provlib :: "unit provlib" where
  "example_provlib = \<lparr>pl_http = (\<lambda>w rq. (Reply 200 (BodyJson (JObj [(''nextPageToken'', JStr ''more'')])), w)), pl_overrides = [],
     pl_json = (\<lambda>t. None), pl_pem = (\<lambda>t. False), pl_jwt = (\<lambda>w e k u. (TokenError '''', w)), pl_awsconfig = (\<lambda>c r. None),
     pl_models = (\<lambda>w c r b. (Inr [], w)), pl_profiles = (\<lambda>w c r. ([], w)), pl_agents = (\<lambda>w n. (Inr [], w))\<rparr>"

definition example_config :: ProviderConfig where
  "example_config = \<lparr>cf_Type = ''gemini'', cf_BaseURL = '''', cf_Region = '''', cf_Regions = [], cf_InferenceProfiles = [],
     cf_APIKey = ''k'', cf_AWSCreds = None, cf_VertexCredentials = '''', cf_HTTPClient = True, cf_Reader = False, cf_Namespace = ''''\<rparr>"


text \<open>The pages a server holds: page \<open>i\<close> is asked with token \<open>tok i\<close> and names the next one, except the last.\<close>

definition pages_of :: "'w page \<Rightarrow> (nat \<Rightarrow> string) \<Rightarrow> (nat \<Rightarrow> Candidate list) \<Rightarrow> nat \<Rightarrow> bool" where
  "pages_of page tok cs N \<longleftrightarrow> (\<forall>i < N. \<forall>st. fst (page (tok i) st) = Inr (cs i, if Suc i = N then '''' else tok (Suc i)) \<and>
     (Suc i < N \<longrightarrow> tok (Suc i) \<noteq> ''''))"

lemma page_loop_complete:
  assumes "pages_of page tok cs N" and "i < N"
  shows "fst (page_loop label page n (tok i) acc st) =
    (if N - i \<le> n then Inr (acc @ concat (map cs [i..<N]))
     else Inl (ProviderError (label @ '': model list exceeded '' @ show_nat maxPages_provider @ '' pages; refusing truncated result'')))"
  using assms(2)
proof (induction n arbitrary: i acc st)
  case 0
  then show ?case by simp
next
  case (Suc n)
  obtain r st1 where p: "page (tok i) st = (r, st1)" by (metis surj_pair)
  then have r: "r = Inr (cs i, if Suc i = N then '''' else tok (Suc i))" and t: "Suc i < N \<Longrightarrow> tok (Suc i) \<noteq> ''''"
    using assms(1) Suc.prems unfolding pages_of_def by (metis fst_conv)+
  show ?case
  proof (cases "Suc i = N")
    case True
    then show ?thesis using p r by auto
  next
    case False
    then have "Suc i < N" using Suc.prems by simp
    moreover have "[i..<N] = i # [Suc i..<N]" using Suc.prems by (simp add: upt_conv_Cons)
    ultimately show ?thesis using p r t Suc.IH [of "Suc i" "acc @ cs i" st1] False by (auto simp: Suc_diff_Suc)
  qed
qed

text \<open>
  A paged catalogue is never truncated silently: the models of all pages in order if there are at most a
  thousand, and an error otherwise.
\<close>

theorem gemini_List_complete:
  assumes "pages_of (gemini_page L key base) tok cs N" and "0 < N" and "tok 0 = ''''"
  shows "fst (gemini_List L key base st) =
    (if N \<le> 1000 then Inr (concat (map cs [0..<N]))
     else Inl (ProviderError ''gemini: model list exceeded 1000 pages; refusing truncated result''))"
proof -
  have "show_nat 1000 = ''1000''" by code_simp
  then show ?thesis
    using page_loop_complete [OF assms(1,2), of "''gemini''" 1000 "[]" st] assms(3)
    by (simp add: gemini_List_def maxPages_provider_def)
qed

definition example_catalogue :: json where
  "example_catalogue = JObj [(''models'', JArr [JObj [(''name'', JStr ''models/g''), (''displayName'', JStr ''G'')]])]"

theorem gemini_List_complete_witness:
  "fst (gemini_List (example_provlib\<lparr>pl_http := (\<lambda>w rq. (Reply 200 (BodyJson example_catalogue), w))\<rparr>) ''k'' '''' ((), []))
     = Inr [plain_candidate ''g'' ''G'']"
proof -
  let ?L = "example_provlib\<lparr>pl_http := (\<lambda>w rq. (Reply 200 (BodyJson example_catalogue), w))\<rparr>"
  have "decode_gemini example_catalogue = Some ([plain_candidate ''g'' ''G''], '''')" by code_simp
  then have "pages_of (gemini_page ?L ''k'' '''') (\<lambda>_. '''') (\<lambda>_. [plain_candidate ''g'' ''G'']) 1"
    by (simp add: pages_of_def gemini_page_def fetch_json_def send_def classify_reply_def case_prod_beta Let_def)
  from gemini_List_complete [OF this, of "((), [])"] show ?thesis by simp
qed

end
