(* ===== verification/Model_Discovery.thy ===== *)
theory Model_Discovery
  imports Discovery_Base Providers Normalize Model_Controller Watches
begin

text \<open>
  The controller of LiteLLMModelDiscovery objects, \<^verbatim>\<open>internal/controller/modeldiscovery_controller.go\<close>: it
  asks a provider for its models, filters and names them, and keeps one LiteLLMModel object for each.

  The provider libraries, the Kubernetes client, the alias client, the regular expressions, the URL and IP
  parsers and the DNS-1123 check are parameters.  The log lines are not modelled.
\<close>

subsection \<open>Types\<close>

record ModelDiscoverySpec =
  dp_Type :: string
  dp_LitellmProvider :: string
  dp_Prefix :: string
  dp_DisablePrefix :: bool
  dp_Aliases :: "AliasRule list"
  dp_CredentialsSecretRef :: "string option"  \<comment> \<open>the name in the reference\<close>
  dp_Region :: string
  dp_Regions :: "string list"
  dp_InferenceProfiles :: "string list"
  dp_BaseURL :: string
  dp_Params :: raw_json
  dp_Info :: raw_json
  dp_Secrets :: "SecretSubstitution list"
  dp_Filters :: "ModelDiscoveryFilters option"
  dp_Interval :: int

type_synonym ModelDiscoveryObject = "ModelDiscoverySpec discovery"
type_synonym model_child = "ModelSpec child"
type_synonym 'w mdstate = "('w, ModelSpec) dstate"

record 'w ModelDiscoveryReconciler =
  mg_api :: "('w, ModelDiscoverySpec, ModelSpec) dapi"
  mg_prov :: "'w provlib"
  mg_getSecret :: "'w secret_getter"
  mg_aliases :: "'w alias_api"
  mg_compile :: compiler
  mg_net :: netlib
  mg_ParseIP :: "string \<Rightarrow> ip option"
  mg_dns :: "string \<Rightarrow> string list"
  mg_env :: string  \<comment> \<open>the value of \<^verbatim>\<open>A2A_MODEL_PROVIDER\<close>, empty when unset\<close>
  mg_HTTPClient :: bool

definition modelDiscoveryFinalizer :: string where
  "modelDiscoveryFinalizer = ''modeldiscoveries.litellm.ackstorm.ai/finalizer''"

definition modelDiscoveryKind :: string where "modelDiscoveryKind = ''LiteLLMModelDiscovery''"

definition model_dkit :: "ModelSpec dkit" where
  "model_dkit = \<lparr>dk_kind = modelDiscoveryKind, dk_finalizer = modelDiscoveryFinalizer, dk_child = ''Model'',
     dk_explicit = ''ExplicitModelExists'', dk_waits = True, dk_protects = False, dk_counts_failed = True\<rparr>"

lemma model_dkit_sel [simp]:
  "dk_kind model_dkit = modelDiscoveryKind" "dk_finalizer model_dkit = modelDiscoveryFinalizer"
  "dk_child model_dkit = ''Model''" "dk_explicit model_dkit = ''ExplicitModelExists''"
  "dk_waits model_dkit" "\<not> dk_protects model_dkit" "dk_counts_failed model_dkit"
  by (simp_all add: model_dkit_def)

subsection \<open>Status\<close>

definition reconcile_metric :: "ModelDiscoveryObject \<Rightarrow> string \<Rightarrow> 'w mdstate \<Rightarrow> 'w mdstate" where
  "reconcile_metric md reason =
     demit (DMetric ''LitellmOperatorReconcileTotal''
       [modelDiscoveryKind, Namespace (d_Meta md), ReasonToReconcileResult reason])"

definition refresh_metric :: "ModelDiscoveryObject \<Rightarrow> string \<Rightarrow> 'w mdstate \<Rightarrow> 'w mdstate" where
  "refresh_metric md result = demit (DMetric ''DiscoveryRefreshTotal'' [modelDiscoveryKind, dp_Type (d_Spec md), result])"

definition writeReady ::
  "'w ModelDiscoveryReconciler \<Rightarrow> ModelDiscoveryObject \<Rightarrow> ConditionStatus \<Rightarrow> string \<Rightarrow> string \<Rightarrow> 'w mdstate
   \<Rightarrow> ModelDiscoveryObject \<times> 'w mdstate" where
  "writeReady R md status reason msg s =
     (let (_, md, s) = status_update (mg_api R)
            (observe (set_condition (da_lib (mg_api R)) conditionTypeReady status reason msg md)) s
      in (md, reconcile_metric md reason s))"

definition writeReadyAndSource ::
  "'w ModelDiscoveryReconciler \<Rightarrow> ModelDiscoveryObject \<Rightarrow> string \<Rightarrow> string \<Rightarrow> 'w mdstate \<Rightarrow> 'w mdstate" where
  "writeReadyAndSource R md reason msg s =
     (let (_, md, s) = writeBothConditionsObj (mg_api R) md ConditionFalse reason msg ConditionFalse reason msg s
      in reconcile_metric md reason s)"

definition model_note_drain ::
  "'w ModelDiscoveryReconciler \<Rightarrow> ModelDiscoveryObject \<Rightarrow> string \<Rightarrow> 'w mdstate \<Rightarrow> 'w mdstate" where
  "model_note_drain R md msg s = snd (writeReady R md ConditionFalse reasonDeleting msg s)"

subsection \<open>Credentials\<close>

datatype 'a resolved = KeyFound 'a | KeyMissing string | KeyFailed kube_error

definition resolveStringKey ::
  "'w ModelDiscoveryReconciler \<Rightarrow> string \<Rightarrow> string option \<Rightarrow> string \<Rightarrow> 'w mdstate \<Rightarrow> string resolved \<times> 'w mdstate" where
  "resolveStringKey R namespace ref key s =
     (case ref of
        None \<Rightarrow> (KeyMissing (namespace @ ''/<nil>:'' @ key @ '' not found''), s)
      | Some name \<Rightarrow>
          (let missing = KeyMissing (namespace @ ''/'' @ name @ '':'' @ key @ '' not found'') in
           if name = '''' then (KeyMissing (namespace @ ''/<nil>:'' @ key @ '' not found''), s)
           else
             case in_world (\<lambda>w. mg_getSecret R w (namespace, name)) s of
               (Inl e, s) \<Rightarrow> (if IsNotFoundK e then missing else KeyFailed e, s)
             | (Inr data, s) \<Rightarrow> (case map_of data key of None \<Rightarrow> missing | Some v \<Rightarrow> KeyFound v, s)))"

definition resolveAWSCredentials ::
  "'w ModelDiscoveryReconciler \<Rightarrow> string \<Rightarrow> string option \<Rightarrow> 'w mdstate \<Rightarrow> AWSCredentials option resolved \<times> 'w mdstate" where
  "resolveAWSCredentials R namespace ref s =
     (case ref of
        None \<Rightarrow> (KeyFound None, s)
      | Some name \<Rightarrow>
          (let missing = (\<lambda>key. KeyMissing (namespace @ ''/'' @ name @ '':'' @ key @ '' not found'')) in
           if name = '''' then (KeyFound None, s)
           else
             case in_world (\<lambda>w. mg_getSecret R w (namespace, name)) s of
               (Inl e, s) \<Rightarrow> (if IsNotFoundK e then missing ''AWS_ACCESS_KEY_ID'' else KeyFailed e, s)
             | (Inr data, s) \<Rightarrow>
                 (case map_of data ''AWS_ACCESS_KEY_ID'' of
                    None \<Rightarrow> missing ''AWS_ACCESS_KEY_ID''
                  | Some a \<Rightarrow>
                      (case map_of data ''AWS_SECRET_ACCESS_KEY'' of
                         None \<Rightarrow> missing ''AWS_SECRET_ACCESS_KEY''
                       | Some k \<Rightarrow> KeyFound (Some \<lparr>aws_AccessKeyID = a, aws_SecretAccessKey = k,
                           aws_SessionToken = get_or '''' data ''AWS_SESSION_TOKEN''\<rparr>)), s)))"

definition credential_keys :: "string gomap" where
  "credential_keys = [(''anthropic'', ''ANTHROPIC_API_KEY''), (''gemini'', ''GEMINI_API_KEY''), (''openai'', ''OPENAI_API_KEY''),
     (''elevenlabs'', ''ELEVENLABS_API_KEY''), (''vertex'', ''VERTEX_CREDENTIALS'')]"

definition base_config :: "'w ModelDiscoveryReconciler \<Rightarrow> ModelDiscoverySpec \<Rightarrow> ProviderConfig" where
  "base_config R sp = \<lparr>cf_Type = dp_Type sp, cf_BaseURL = dp_BaseURL sp, cf_Region = dp_Region sp, cf_Regions = dp_Regions sp,
     cf_InferenceProfiles = dp_InferenceProfiles sp, cf_APIKey = '''', cf_AWSCreds = None, cf_VertexCredentials = '''',
     cf_HTTPClient = mg_HTTPClient R, cf_Reader = False, cf_Namespace = ''''\<rparr>"

definition need_secret ::
  "'w ModelDiscoveryReconciler \<Rightarrow> ModelDiscoveryObject \<Rightarrow> ('a \<Rightarrow> 'b) \<Rightarrow> 'a resolved \<times> 'w mdstate \<Rightarrow> 'b flow \<times> 'w mdstate" where
  "need_secret R md use rs =
     (case rs of
        (KeyFailed e, s) \<Rightarrow> (Return (Inl (KubeErr e)), s)
      | (KeyMissing msg, s) \<Rightarrow>
          (Return (Inr (requeue_after DefaultRequeueOnRejectedAfter)), writeReadyAndSource R md reasonSecretNotFound msg s)
      | (KeyFound v, s) \<Rightarrow> (Next (use v), s))"

definition resolve_credentials ::
  "'w ModelDiscoveryReconciler \<Rightarrow> ModelDiscoveryObject \<Rightarrow> 'w mdstate \<Rightarrow> ProviderConfig flow \<times> 'w mdstate" where
  "resolve_credentials R md s =
     (let sp = d_Spec md; cfg = base_config R sp; ns = Namespace (d_Meta md) in
      case map_of credential_keys (dp_Type sp) of
        Some key \<Rightarrow>
          need_secret R md
            (\<lambda>v. if dp_Type sp = ''vertex'' then cfg\<lparr>cf_VertexCredentials := v\<rparr> else cfg\<lparr>cf_APIKey := v\<rparr>)
            (resolveStringKey R ns (dp_CredentialsSecretRef sp) key s)
      | None \<Rightarrow>
          (if dp_Type sp = ''bedrock'' then
             (if dp_CredentialsSecretRef sp \<noteq> None \<and> dp_CredentialsSecretRef sp \<noteq> Some '''' then
                need_secret R md (\<lambda>c. cfg\<lparr>cf_AWSCreds := c\<rparr>) (resolveAWSCredentials R ns (dp_CredentialsSecretRef sp) s)
              else (Next cfg, s))
           else if dp_Type sp = ''kubeai'' then (Next cfg, s)
           else if dp_Type sp = ''a2a'' then (Next (cfg\<lparr>cf_Reader := True, cf_Namespace := ns\<rparr>), s)
           else (done_ok, snd (writeReady R md ConditionFalse ''InvalidConfig'' (''unknown provider type '' @ quote (dp_Type sp)) s))))"

subsection \<open>Listing and filtering\<close>

definition build_provider ::
  "'w ModelDiscoveryReconciler \<Rightarrow> ModelDiscoveryObject \<Rightarrow> ProviderConfig \<Rightarrow> 'w mdstate \<Rightarrow> 'w provider flow \<times> 'w mdstate" where
  "build_provider R md cfg s =
     (let invalid = (\<lambda>msg. (done_ok, snd (writeReady R md ConditionFalse ''InvalidConfig'' msg s))) in
      case Lookup (mg_prov R) (dp_Type (d_Spec md)) of
        None \<Rightarrow> invalid (''no provider constructor registered for type '' @ quote (dp_Type (d_Spec md)))
      | Some constructor \<Rightarrow>
          (case constructor cfg of Inl e \<Rightarrow> invalid e | Inr list \<Rightarrow> (Next list, s)))"

text \<open>The requests of the listing are not part of the state of this controller.\<close>

definition list_models :: "'w provider \<Rightarrow> 'w \<Rightarrow> (provider_error + Candidate list) \<times> 'w" where
  "list_models list w = (let (r, st) = list (w, []) in (r, fst st))"

definition list_candidates ::
  "'w ModelDiscoveryReconciler \<Rightarrow> ModelDiscoveryObject \<Rightarrow> 'w provider \<Rightarrow> 'w mdstate \<Rightarrow> Candidate list flow \<times> 'w mdstate" where
  "list_candidates R md list s =
     (case in_world (list_models list) s of
        (Inr candidates, s) \<Rightarrow> (Next candidates, s)
      | (Inl e, s) \<Rightarrow>
          (Return (Inl (TextErr (provider_text e))),
           refresh_metric md ''error''
             (writeBothConditions (mg_api R) md ConditionFalse ''SourceUnreachable'' (provider_text e)
                ConditionFalse (if is_auth e then ''AuthFailed'' else ''Unreachable'') (provider_text e) s)))"

definition childNameOf :: "ModelDiscoverySpec \<Rightarrow> string \<Rightarrow> string" where
  "childNameOf sp rawID =
     (let prefix = (if dp_Prefix sp = '''' then ToLower (dp_Type sp) else dp_Prefix sp) in
      if dp_DisablePrefix sp then Normalize rawID else prefix @ ''.'' @ Normalize rawID)"

text \<open>The first candidate of each child name, in provider order.\<close>

fun dedup_candidates :: "ModelDiscoverySpec \<Rightarrow> string list \<Rightarrow> string list \<Rightarrow> Candidate list \<Rightarrow> Candidate list" where
  "dedup_candidates sp keptSet seenNames [] = []"
| "dedup_candidates sp keptSet seenNames (c # cs) =
     (if cd_ID c \<notin> set keptSet then dedup_candidates sp keptSet seenNames cs
      else
        let name = childNameOf sp (cd_ID c) in
        if name \<in> set seenNames then dedup_candidates sp keptSet seenNames cs
        else c # dedup_candidates sp keptSet (name # seenNames) cs)"

definition keep_candidates ::
  "'w ModelDiscoveryReconciler \<Rightarrow> ModelDiscoveryObject \<Rightarrow> Candidate list \<Rightarrow> 'w mdstate \<Rightarrow> Candidate list flow \<times> 'w mdstate" where
  "keep_candidates R md candidates s =
     (let sp = d_Spec md in
      case ApplyWithAliases (mg_compile R) (map cd_ID candidates)
             (Some (\<lambda>rawID. [Normalize rawID, childNameOf sp rawID])) (dp_Filters sp) of
        Inr kept \<Rightarrow> (Next (dedup_candidates sp kept [] candidates), s)
      | Inl (UpstreamInvalidError ps) \<Rightarrow>
          (done_ok, snd (writeReady R md ConditionFalse ''UpstreamInvalid'' (Error (UpstreamInvalidError ps)) s))
      | Inl e \<Rightarrow> (done_ok, writeReadyAndSource R md ''InvalidConfig'' (Error e) s))"

text \<open>Steps 4 to 7: from the spec to the candidates to keep.\<close>

definition check_base_url ::
  "'w ModelDiscoveryReconciler \<Rightarrow> ModelDiscoveryObject \<Rightarrow> 'w mdstate \<Rightarrow> unit flow \<times> 'w mdstate" where
  "check_base_url R md s =
     (if dp_BaseURL (d_Spec md) = '''' then (Next (), s)
      else
        case ValidateBaseURL (mg_net R) (mg_ParseIP R) (dp_BaseURL (d_Spec md)) of
          None \<Rightarrow> (Next (), s)
        | Some e \<Rightarrow> (done_ok, writeReadyAndSource R md ''InvalidConfig'' e (refresh_metric md ''error'' s)))"

definition discover ::
  "'w ModelDiscoveryReconciler \<Rightarrow> ModelDiscoveryObject \<Rightarrow> 'w mdstate \<Rightarrow> Candidate list flow \<times> 'w mdstate" where
  "discover R md =
     andThen (check_base_url R md) (\<lambda>_.
     andThen (resolve_credentials R md) (\<lambda>cfg.
     andThen (build_provider R md cfg) (\<lambda>list.
     andThen (list_candidates R md list) (\<lambda>candidates. keep_candidates R md candidates))))"

subsection \<open>Children\<close>

function trim_start :: "string \<Rightarrow> string" where
  "trim_start s = (if space_len (map byte s) = 0 then s else trim_start (drop (space_len (map byte s)) s))"
  by pat_completeness auto
termination
  by (relation "measure length") (auto simp: space_len_def split: list.splits)

declare trim_start.simps [simp del]

fun trim_end :: "string \<Rightarrow> string" where
  "trim_end [] = []"
| "trim_end (c # cs) = (if only_spaces (map byte (c # cs)) then [] else c # trim_end cs)"

definition a2aModelProvider :: "string \<Rightarrow> string" where
  "a2aModelProvider env = (let v = trim_end (trim_start env) in if v \<noteq> '''' then v else ''a2a1'')"

definition litellmProvider :: "'w ModelDiscoveryReconciler \<Rightarrow> ModelDiscoverySpec \<Rightarrow> string" where
  "litellmProvider R sp =
     (let p = dp_Type sp;
          p = (if p = ''kubeai'' then ''hosted_vllm'' else p);
          p = (if p = ''vertex'' then ''vertex_ai'' else p);
          p = (if p = ''a2a'' then a2aModelProvider (mg_env R) else p)
      in if dp_LitellmProvider sp \<noteq> '''' then dp_LitellmProvider sp else p)"

definition put_absent :: "string \<Rightarrow> json \<Rightarrow> json gomap \<Rightarrow> json gomap" where
  "put_absent key v m = (if map_of m key = None then map_put key v m else m)"

definition child_params :: "ModelDiscoverySpec \<Rightarrow> Candidate \<Rightarrow> string \<Rightarrow> json gomap \<Rightarrow> json gomap" where
  "child_params sp cand provider m =
     (let modelID = (if cd_ModelID cand \<noteq> '''' then cd_ModelID cand else cd_ID cand);
          m = map_put ''model'' (JStr (provider @ ''/'' @ modelID)) m;
          m = fold (\<lambda>(key, v). put_absent key (JStr v)) (cd_Params cand) m
      in if dp_BaseURL sp \<noteq> '''' then put_absent ''api_base'' (JStr (dp_BaseURL sp)) m else m)"

text \<open>
  A \<^verbatim>\<open>null\<close> parameter field decodes to the nil map, and the assignment to it panics.  The encoder writes
  the keys in order; the value here keeps them as the map holds them.
\<close>

definition buildChildModel ::
  "ModelDiscoveryObject \<Rightarrow> string \<Rightarrow> Candidate \<Rightarrow> string \<Rightarrow> string \<Rightarrow> rerror + model_child" where
  "buildChildModel md childName cand provider namespace =
     (case decode_bag (dp_Params (d_Spec md)) of
        Inl e \<Rightarrow> Inl (TextErr (''decode spec.params: '' @ e))
      | Inr None \<Rightarrow> Inl (GoPanic ''assignment to entry in nil map'')
      | Inr (Some m) \<Rightarrow>
          Inr \<lparr>ch_Namespace = namespace, ch_Name = childName, ch_UID = '''', ch_ResourceVersion = '''',
            ch_DeletionTimestamp = False, ch_GeneratedBy = Name (d_Meta md),
            ch_OwnerReferences = [\<lparr>ow_Kind = modelDiscoveryKind, ow_Name = Name (d_Meta md), ow_UID = d_UID md,
              ow_Controller = Some True\<rparr>],
            ch_Finalizers = [modelFinalizer],
            ch_Spec = \<lparr>sp_Params = RawValue (JObj (child_params (d_Spec md) cand provider m)),
              sp_Info = (if dp_Info (d_Spec md) = RawEmpty then RawValue (JObj []) else dp_Info (d_Spec md)),
              sp_Secrets = dp_Secrets (d_Spec md), sp_DeletionPolicy = ''''\<rparr>\<rparr>)"

definition one_candidate ::
  "'w ModelDiscoveryReconciler \<Rightarrow> ModelDiscoveryObject \<Rightarrow> string list \<Rightarrow> Candidate \<Rightarrow> ('w, ModelSpec) cycle
   \<Rightarrow> rerror option \<times> ('w, ModelSpec) cycle" where
  "one_candidate R md adoptedNames cand ts =
     (let name = childNameOf (d_Spec md) (cd_ID cand);
          action = (if name \<in> set (ds_GeneratedChildren (d_Status md)) then ''update'' else ''create'') in
      if name \<in> set adoptedNames then (None, ts)
      else if DNS1123Subdomain (mg_dns R) name \<noteq> None then
        (None, (fst ts)\<lparr>ty_skipped := ty_skipped (fst ts) @ [\<lparr>sk_Name = name, sk_Reason = ''InvalidDiscoveredName'',
           sk_OwnedBy = '''', sk_Message = cd_ID cand @ '' -> '' @ name\<rparr>]\<rparr>, snd ts)
      else
        case buildChildModel md name cand (litellmProvider R (d_Spec md)) (da_Namespace (mg_api R)) of
          Inl (TextErr e) \<Rightarrow> (None, fail_candidate model_dkit ''create'' name e ts)
        | Inl p \<Rightarrow> (Some p, ts)
        | Inr child \<Rightarrow> (None, try_child model_dkit (mg_api R) md action name child ts))"

fun candidate_loop ::
  "'w ModelDiscoveryReconciler \<Rightarrow> ModelDiscoveryObject \<Rightarrow> string list \<Rightarrow> Candidate list \<Rightarrow> ('w, ModelSpec) cycle
   \<Rightarrow> rerror option \<times> ('w, ModelSpec) cycle" where
  "candidate_loop R md adoptedNames [] ts = (None, ts)"
| "candidate_loop R md adoptedNames (c # cs) ts =
     (case one_candidate R md adoptedNames c ts of
        (Some p, ts) \<Rightarrow> (Some p, ts)
      | (None, ts) \<Rightarrow> candidate_loop R md adoptedNames cs ts)"

subsection \<open>The refresh\<close>

fun alias_text :: "(kube_error \<Rightarrow> string) \<Rightarrow> alias_error \<Rightarrow> string" where
  "alias_text errtext (AliasBuildFailed e) = e"
| "alias_text errtext (ForeignAlias name) = ''LiteLLMModelAlias '' @ name @ '' exists and is not owned by this discovery''"
| "alias_text errtext (ApiFailed what e) = what @ '': '' @ errtext e"

definition sync_aliases ::
  "'w ModelDiscoveryReconciler \<Rightarrow> ModelDiscoveryObject \<Rightarrow> string list \<Rightarrow> 'w mdstate \<Rightarrow> alias_error option \<times> 'w mdstate" where
  "sync_aliases R md generated s =
     (let (err, w, calls) = syncDiscoveryAliases (mg_compile R) (mg_aliases R) (da_Namespace (mg_api R))
            \<lparr>md_Name = Name (d_Meta md), md_UID = d_UID md, md_Aliases = dp_Aliases (d_Spec md)\<rparr> generated (d_world s)
      in (err, s\<lparr>d_world := w, d_log := d_log s @ map AliasCall calls\<rparr>))"

definition success_metrics :: "ModelDiscoveryObject \<Rightarrow> nat \<Rightarrow> 'w mdstate \<Rightarrow> 'w mdstate" where
  "success_metrics md n s =
     demit (DMetric ''CRStatusAge.RecordSuccess'' [modelDiscoveryKind, Name (d_Meta md)])
       (demit (DMetric ''ReconcileTotal'' [modelDiscoveryKind, ''success''])
         (refresh_metric md ''success''
           (demit (DMetric ''DiscoveryGeneratedCount'' [modelDiscoveryKind, dp_Type (d_Spec md), show_nat n]) s)))"

definition model_finish ::
  "'w ModelDiscoveryReconciler \<Rightarrow> ModelDiscoveryObject \<Rightarrow> nat \<Rightarrow> tally \<Rightarrow> 'w mdstate \<Rightarrow> verdict \<times> 'w mdstate" where
  "model_finish R md kept t s =
     (let (now, s) = in_world (da_now (mg_api R)) s;
          md = set_counts t kept now md;
          (aerr, s) = sync_aliases R md (ty_generated t) s;
          (status, reason, msg) = (case aerr of
              Some e \<Rightarrow> (ConditionFalse, ''AliasWriteFailed'', alias_text (da_errtext (mg_api R)) e)
            | None \<Rightarrow> ready_verdict t kept);
          (err, md, s) = writeBothConditionsObj (mg_api R) md status reason msg ConditionTrue ''Ok'' '''' s
      in case err of
           Some e \<Rightarrow> (if IsConflict e then Inr no_requeue else Inl (KubeErr e), s)
         | None \<Rightarrow>
             (Inr (requeue_after (if ty_deleting t \<or> ty_stale t then childDeletingRequeue else dp_Interval (d_Spec md))),
              success_metrics md (length (ty_generated t)) s))"

definition refresh ::
  "'w ModelDiscoveryReconciler \<Rightarrow> ModelDiscoveryObject \<Rightarrow> Candidate list \<Rightarrow> 'w mdstate \<Rightarrow> verdict \<times> 'w mdstate" where
  "refresh R md kept s =
     (case in_world (\<lambda>w. da_children (mg_api R) w (da_Namespace (mg_api R)) (Name (d_Meta md))) s of
        (Inl e, s) \<Rightarrow> (Inl (WrapErr ''list label-matched children for adoption + vanish'' (KubeErr e)), s)
      | (Inr children, s) \<Rightarrow>
          (case candidate_loop R md (map ch_Name (adopted model_dkit md children)) kept (start_tally model_dkit md children, s) of
             (Some p, _, s) \<Rightarrow> (Inl p, s)
           | (None, t, s) \<Rightarrow>
               (let (t, s) = vanish model_dkit (mg_api R) (ownedByDiscovery (d_UID md)) md children (sort_tally t) s
                in model_finish R md (length kept) t s)))"

text \<open>The object the rest of the live path works with: as fetched, or as the entry write returned it.\<close>

definition entered :: "'w ModelDiscoveryReconciler \<Rightarrow> ModelDiscoveryObject \<Rightarrow> 'w mdstate \<Rightarrow> ModelDiscoveryObject \<times> 'w mdstate" where
  "entered R md s = (if sync_due (da_lib (mg_api R)) md
     then writeReady R md ConditionFalse reasonSyncing ''discovering upstream models'' s else (md, s))"

definition model_live ::
  "'w ModelDiscoveryReconciler \<Rightarrow> ModelDiscoveryObject \<Rightarrow> 'w mdstate \<Rightarrow> verdict \<times> 'w mdstate" where
  "model_live R md s =
     (let (md, s) = entered R md s in
      case discover R md s of (Return v, s) \<Rightarrow> (v, s) | (Next kept, s) \<Rightarrow> refresh R md kept s)"

definition model_discovery_Reconcile ::
  "'w ModelDiscoveryReconciler \<Rightarrow> NamespacedName \<Rightarrow> 'w mdstate \<Rightarrow> verdict \<times> 'w mdstate" where
  "model_discovery_Reconcile R = discovery_Reconcile model_dkit (mg_api R) (model_note_drain R) (model_live R)"

subsection \<open>Watches\<close>

definition IndexModelDiscoveryCredentialsSecretRef :: "ModelDiscoveryObject \<Rightarrow> string list" where
  "IndexModelDiscoveryCredentialsSecretRef md =
     (case dp_CredentialsSecretRef (d_Spec md) of None \<Rightarrow> [] | Some name \<Rightarrow> if name = '''' then [] else [name])"

text \<open>\<open>list\<close> is the query of the field index.\<close>

definition secretToModelDiscoveries ::
  "(string \<Rightarrow> string \<Rightarrow> kube_error + NamespacedName list) \<Rightarrow> NamespacedName \<Rightarrow> NamespacedName list" where
  "secretToModelDiscoveries list key = secretToRequests list (fst key) (snd key)"

definition agentToA2ADiscoveries ::
  "(string \<Rightarrow> kube_error + ModelDiscoveryObject list) \<Rightarrow> NamespacedName \<Rightarrow> NamespacedName list" where
  "agentToA2ADiscoveries list key =
     (case list (fst key) of
        Inl _ \<Rightarrow> []
      | Inr mds \<Rightarrow> map (\<lambda>md. (Namespace (d_Meta md), Name (d_Meta md))) (filter (\<lambda>md. dp_Type (d_Spec md) = ''a2a'') mds))"

subsection \<open>What each step may do\<close>

lemma demit_note: "d_emits is_note s s' \<Longrightarrow> d_emits is_note s (demit (DMetric a b) s')"
  by (erule d_emits_then) simp

lemma metrics_note:
  "d_emits is_note s s' \<Longrightarrow> d_emits is_note s (reconcile_metric md reason s')"
  "d_emits is_note s s' \<Longrightarrow> d_emits is_note s (refresh_metric md result s')"
  by (simp_all add: reconcile_metric_def refresh_metric_def demit_note)

lemma writeReady_notes: "d_emits is_note s (snd (writeReady R md status reason msg s))"
  by (simp add: writeReady_def case_prod_beta Let_def metrics_note status_update_notes)

lemma writeReadyAndSource_notes: "d_emits is_note s (writeReadyAndSource R md reason msg s)"
  by (simp add: writeReadyAndSource_def case_prod_beta Let_def metrics_note writeBoth_notes)

lemma need_secret_notes: "d_emits is_note s (snd rs) \<Longrightarrow> d_emits is_note s (snd (need_secret R md use rs))"
  by (cases rs) (auto simp: need_secret_def split: resolved.split intro: d_emits_trans [OF _ writeReadyAndSource_notes])

lemma resolveStringKey_notes: "d_emits is_note s (snd (resolveStringKey R ns ref key s))"
  by (auto simp: resolveStringKey_def in_world_def d_emits_def Let_def case_prod_beta split: option.split sum.split)

lemma resolveAWSCredentials_notes: "d_emits is_note s (snd (resolveAWSCredentials R ns ref s))"
  by (auto simp: resolveAWSCredentials_def in_world_def d_emits_def Let_def case_prod_beta split: option.split sum.split)

lemma resolve_credentials_notes: "d_emits is_note s (snd (resolve_credentials R md s))"
  by (auto simp: resolve_credentials_def Let_def writeReady_notes split: option.split
      intro!: need_secret_notes resolveStringKey_notes resolveAWSCredentials_notes)

lemma list_candidates_notes: "d_emits is_note s (snd (list_candidates R md list s))"
proof -
  obtain r s1 where w: "in_world (list_models list) s = (r, s1)" by fastforce
  have "d_emits is_note s s1" by (rule in_world_emits [OF w])
  then show ?thesis
    by (auto simp: list_candidates_def w split: sum.split intro!: metrics_note intro: d_emits_trans [OF _ writeBoth_notes(2)])
qed

lemma discover_notes: "d_emits is_note s (snd (discover R md s))"
  unfolding discover_def
proof (intro andThen_emits)
  show "d_emits is_note s' (snd (check_base_url R md s'))" for s'
    by (auto simp: check_base_url_def split: option.split intro!: d_emits_trans [OF _ writeReadyAndSource_notes] metrics_note)
  show "d_emits is_note s' (snd (build_provider R md cfg s'))" for cfg s'
    by (auto simp: build_provider_def Let_def writeReady_notes split: option.split sum.split)
  show "d_emits is_note s' (snd (keep_candidates R md cands s'))" for cands s'
    by (auto simp: keep_candidates_def Let_def writeReady_notes writeReadyAndSource_notes split: sum.split filter_error.split)
qed (simp_all add: resolve_credentials_notes list_candidates_notes)

text \<open>What a child written for a discovery looks like, field by field.\<close>

definition own_child :: "'w ModelDiscoveryReconciler \<Rightarrow> ModelDiscoveryObject \<Rightarrow> model_child \<Rightarrow> bool" where
  "own_child R md c \<longleftrightarrow>
     (\<exists>(cand :: Candidate) params. ch_Name c = childNameOf (d_Spec md) (cd_ID cand) \<and> DNS1123Subdomain (mg_dns R) (ch_Name c) = None \<and>
        ch_Namespace c = da_Namespace (mg_api R) \<and> ch_GeneratedBy c = Name (d_Meta md) \<and>
        ch_OwnerReferences c = [\<lparr>ow_Kind = modelDiscoveryKind, ow_Name = Name (d_Meta md), ow_UID = d_UID md, ow_Controller = Some True\<rparr>] \<and>
        ch_Finalizers c = [modelFinalizer] \<and> sp_Secrets (ch_Spec c) = dp_Secrets (d_Spec md) \<and>
        sp_Params (ch_Spec c) = RawValue (JObj params) \<and>
        map_of params ''model'' = Some (JStr (litellmProvider R (d_Spec md) @ ''/'' @
          (if cd_ModelID cand \<noteq> '''' then cd_ModelID cand else cd_ID cand))))"

lemma map_of_put_absent: "map_of (put_absent key v m) x = (if x = key \<and> map_of m key = None then Some v else map_of m x)"
  by (simp add: put_absent_def map_of_put)

lemma fold_put_absent:
  "map_of (fold (\<lambda>(key, v). put_absent key (JStr v)) ps m) x =
     (case map_of m x of Some v \<Rightarrow> Some v | None \<Rightarrow> map_option JStr (map_of ps x))"
proof (induction ps arbitrary: m)
  case (Cons p ps)
  then show ?case by (cases p) (auto simp: map_of_put_absent split: option.splits)
qed (simp split: option.split)

lemma child_params_lookup:
  "map_of (child_params sp cand provider m) key =
    (if key = ''model'' then Some (JStr (provider @ ''/'' @ (if cd_ModelID cand \<noteq> '''' then cd_ModelID cand else cd_ID cand)))
     else case map_of m key of
       Some v \<Rightarrow> Some v
     | None \<Rightarrow>
         (case map_of (cd_Params cand) key of
            Some v \<Rightarrow> Some (JStr v)
          | None \<Rightarrow> if key = ''api_base'' \<and> dp_BaseURL sp \<noteq> '''' then Some (JStr (dp_BaseURL sp)) else None))"
  by (simp add: child_params_def Let_def map_of_put_absent fold_put_absent map_of_put split: option.split)

lemma buildChildModel_own:
  assumes "buildChildModel md (childNameOf (d_Spec md) (cd_ID cand)) cand (litellmProvider R (d_Spec md)) (da_Namespace (mg_api R)) = Inr child"
    and "DNS1123Subdomain (mg_dns R) (childNameOf (d_Spec md) (cd_ID cand)) = None"
  shows "own_child R md (child\<lparr>ch_ResourceVersion := rv\<rparr>)" and "ch_Name child = childNameOf (d_Spec md) (cd_ID cand)"
  unfolding own_child_def using assms
  by (auto simp: buildChildModel_def child_params_lookup split: sum.splits option.splits intro!: exI [of _ cand])

definition own_write :: "'w ModelDiscoveryReconciler \<Rightarrow> ModelDiscoveryObject \<Rightarrow> ModelSpec deffect \<Rightarrow> bool" where
  "own_write R md = writes_own model_dkit (mg_api R) md (own_child R md)"

definition own_delete :: "'w ModelDiscoveryReconciler \<Rightarrow> ModelDiscoveryObject \<Rightarrow> ModelSpec deffect \<Rightarrow> bool" where
  "own_delete R md = deletes_own model_dkit (mg_api R) md"

lemma one_candidate_emits: "d_emits (own_write R md) (snd ts) (snd (snd (one_candidate R md ad cand ts)))"
proof -
  let ?name = "childNameOf (d_Spec md) (cd_ID cand)"
  have f: "d_emits (own_write R md) (snd ts) (snd (fail_candidate model_dkit a n m ts))" for a n m
    by (rule d_emits_mono [OF fail_candidate_notes]) (simp add: own_write_def writes_own_def)
  have "d_emits (own_write R md) (snd ts) (snd (try_child model_dkit (mg_api R) md a ?name child ts))"
    if "buildChildModel md ?name cand (litellmProvider R (d_Spec md)) (da_Namespace (mg_api R)) = Inr child"
      "DNS1123Subdomain (mg_dns R) ?name = None" for a child
    unfolding own_write_def using buildChildModel_own [OF that] by (intro try_child_writes_own)
  then show ?thesis using f by (auto simp: one_candidate_def Let_def split: sum.split rerror.split)
qed

lemma candidate_loop_emits: "d_emits (own_write R md) (snd ts) (snd (snd (candidate_loop R md ad cands ts)))"
proof (induction cands arbitrary: ts)
  case (Cons c cs)
  obtain r ts1 where o: "one_candidate R md ad c ts = (r, ts1)" by (metis surj_pair)
  then have "d_emits (own_write R md) (snd ts) (snd ts1)" using one_candidate_emits [of R md ts ad c] by simp
  then show ?case using Cons.IH [of ts1] by (auto simp: o split: option.split intro: d_emits_trans)
qed simp

fun is_alias :: "'c deffect \<Rightarrow> bool" where
  "is_alias (AliasCall _) = True"
| "is_alias _ = False"

lemma model_finish_emits: "d_emits (\<lambda>e. is_note e \<or> is_alias e) s (snd (model_finish R md kept t s))"
proof -
  obtain now s1 where n: "in_world (da_now (mg_api R)) s = (now, s1)" by fastforce
  obtain aerr s2 where a: "sync_aliases R (set_counts t kept now md) (ty_generated t) s1 = (aerr, s2)" by fastforce
  have e: "d_emits (\<lambda>e. is_note e \<or> is_alias e) s s2"
    using a in_world_log [OF n] by (auto simp: sync_aliases_def case_prod_beta Let_def d_emits_def list_all_iff)
  have w: "d_emits is_note s2 (snd (snd (writeBothConditionsObj (mg_api R) md' x y z ConditionTrue ''Ok'' '''' s2)))" for md' x y z
    by (rule writeBoth_notes)
  have m: "d_emits is_note s2 (success_metrics md' k s')" if "d_emits is_note s2 s'" for md' k s'
    using that by (simp add: success_metrics_def metrics_note demit_note)
  have "d_emits is_note s2 (snd (model_finish R md kept t s))"
    using w m by (auto simp: model_finish_def n a Let_def case_prod_beta split: option.split)
  then show ?thesis using e by (auto intro: d_emits_trans d_emits_mono)
qed

lemma writeReady_same:
  assumes "status_stable (mg_api R)"
  shows "same_discovery md (fst (writeReady R md status reason msg s))"
  using status_update_same [OF assms, of "observe (set_condition (da_lib (mg_api R)) conditionTypeReady status reason msg md)" s]
  by (simp add: writeReady_def case_prod_beta Let_def same_discovery_def observe_def set_condition_def)

lemma same_discovery_own:
  assumes "same_discovery md md'"
  shows "own_write R md' e = own_write R md e" and "own_delete R md' e = own_delete R md e"
proof -
  have "own_child R md' = own_child R md" using assms by (simp add: own_child_def same_discovery_def fun_eq_iff)
  then show "own_write R md' e = own_write R md e" by (simp add: own_write_def same_discovery_writes [OF assms])
qed (simp add: own_delete_def same_discovery_deletes [OF assms])

definition own_effect :: "'w ModelDiscoveryReconciler \<Rightarrow> ModelDiscoveryObject \<Rightarrow> ModelSpec deffect \<Rightarrow> bool" where
  "own_effect R md e \<longleftrightarrow> own_write R md e \<or> is_alias e \<or> own_delete R md e"

lemma refresh_emits: "d_emits (own_effect R md) s (snd (refresh R md kept s))"
proof -
  obtain r s1 where w: "in_world (\<lambda>w. da_children (mg_api R) w (da_Namespace (mg_api R)) (Name (d_Meta md))) s = (r, s1)" by fastforce
  have e1: "d_emits (own_effect R md) s s1" by (rule in_world_emits [OF w])
  show ?thesis
  proof (cases r)
    case (Inr children)
    have ch: "da_children (mg_api R) (d_world s) (da_Namespace (mg_api R)) (Name (d_Meta md)) = (Inr children, d_world s1)"
      using in_world_log [OF w] Inr by (metis prod.collapse)
    obtain p t s2 where l: "candidate_loop R md (map ch_Name (adopted model_dkit md children)) kept
        (start_tally model_dkit md children, s1) = (p, t, s2)" by (metis surj_pair)
    have e2: "d_emits (own_effect R md) s1 s2"
      using d_emits_mono [OF candidate_loop_emits [of R md "(start_tally model_dkit md children, s1)"
          "map ch_Name (adopted model_dkit md children)" kept], of "own_effect R md"] l
      by (simp add: own_effect_def)
    obtain t' s3 where v: "vanish model_dkit (mg_api R) (ownedByDiscovery (d_UID md)) md children (sort_tally t) s2 = (t', s3)" by fastforce
    have e3: "d_emits (own_effect R md) s2 s3"
      using d_emits_mono [OF vanish_deletes_own [OF ch, of model_dkit s2 "ownedByDiscovery (d_UID md)" "sort_tally t"], of "own_effect R md"] v
      by (auto simp: own_effect_def own_write_def writes_own_def own_delete_def)
    have e4: "d_emits (own_effect R md) s3 (snd (model_finish R md (length kept) t' s3))"
      by (rule d_emits_mono [OF model_finish_emits]) (auto simp: own_effect_def own_write_def writes_own_def)
    show ?thesis
      using e1 e2 e3 e4 by (auto simp: refresh_def w Inr l v split: option.split intro: d_emits_trans)
  qed (use e1 in \<open>simp add: refresh_def w\<close>)
qed


lemma entered_notes: "d_emits is_note s (snd (entered R md s))"
  by (simp add: entered_def writeReady_notes)

lemma entered_same: "status_stable (mg_api R) \<Longrightarrow> same_discovery md (fst (entered R md s))"
  by (simp add: entered_def writeReady_same) (simp add: same_discovery_def)

lemma model_live_entered:
  "model_live R md s = (case discover R (fst (entered R md s)) (snd (entered R md s)) of
     (Return v, s') \<Rightarrow> (v, s') | (Next kept, s') \<Rightarrow> refresh R (fst (entered R md s)) kept s')"
  unfolding model_live_def by (simp only: Let_def case_prod_beta' split_beta)

lemma model_live_emits: "d_emits (own_effect R (fst (entered R md s))) s (snd (model_live R md s))"
proof -
  let ?md = "fst (entered R md s)" and ?s = "snd (entered R md s)"
  obtain r s1 where d: "discover R ?md ?s = (r, s1)" by fastforce
  have "d_emits is_note s s1" using d_emits_trans [OF entered_notes discover_notes [of ?s R ?md]] d by simp
  then have "d_emits (own_effect R ?md) s s1" by (rule d_emits_mono) (simp add: own_effect_def own_write_def writes_own_def)
  then show ?thesis
    using d_emits_trans [of "own_effect R ?md" s s1] refresh_emits [of R ?md s1]
    by (simp add: model_live_entered d split: flow.split)
qed

lemma same_discovery_effect: "same_discovery md md' \<Longrightarrow> own_effect R md' e = own_effect R md e"
  by (simp add: same_discovery_own own_effect_def)

interpretation mdd: discovery_handler model_dkit "mg_api R" "model_note_drain R" "model_live R" for R :: "'w ModelDiscoveryReconciler"
proof
  show "d_emits is_note s (model_note_drain R md m s)" for md m and s :: "'w mdstate"
    by (simp add: model_note_drain_def writeReady_notes)
  show "d_emits (\<lambda>e. (\<forall>fs. e \<noteq> DObjectUpdate fs) \<and> (\<forall>c. e \<noteq> ChildDelete c False)) s (snd (model_live R md s))"
    for md and s :: "'w mdstate"
    by (rule d_emits_mono [OF model_live_emits]) (auto simp: own_effect_def own_write_def writes_own_def own_delete_def deletes_own_def)
qed

lemma reconcile_own_effect:
  assumes "status_stable (mg_api R)"
    and "e \<in> set (drop (length (d_log s)) (d_log (snd (model_discovery_Reconcile R key s))))"
    and "e = ChildApply c \<or> e = ChildDelete c True"
  shows "\<exists>md w. kc_get (da_kube (mg_api R)) (d_world s) key = (Inr md, w) \<and> \<not> DeletionTimestamp (d_Meta md) \<and> own_effect R md e"
proof -
  define Q where "Q e' \<longleftrightarrow> (e' = e \<longrightarrow> (\<exists>md w. kc_get (da_kube (mg_api R)) (d_world s) key = (Inr md, w) \<and>
    \<not> DeletionTimestamp (d_Meta md) \<and> own_effect R md e))" for e'
  have "d_emits Q s (snd (discovery_Reconcile model_dkit (mg_api R) (model_note_drain R) (model_live R) key s))"
  proof (rule mdd.Reconcile_emits)
    fix md w and s' :: "'a mdstate"
    assume "kc_get (da_kube (mg_api R)) (d_world s) key = (Inr md, w)" "\<not> DeletionTimestamp (d_Meta md)"
    then show "d_emits Q s' (snd (model_live R md s'))"
      by (intro d_emits_mono [OF model_live_emits]) (auto simp: Q_def same_discovery_effect [OF entered_same [OF assms(1)]])
  qed (use assms(3) in \<open>auto simp: Q_def\<close>)
  then have "Q e" using d_emits_mem assms(2) unfolding model_discovery_Reconcile_def by blast
  then show ?thesis by (simp add: Q_def)
qed

subsection \<open>Properties\<close>


text \<open>
  The parameters of a generated model, key by key: the model reference is always the operator's, a key the user set is
  kept, then come the routing parameters of the candidate, and the base URL of the discovery is the API base where
  neither set one.
\<close>

theorem child_model_overlay:
  assumes "buildChildModel md name cand provider ns = Inr child" and "decode_bag (dp_Params (d_Spec md)) = Inr (Some m)"
  shows "\<exists>ps. sp_Params (ch_Spec child) = RawValue (JObj ps) \<and>
    map_of ps ''model'' = Some (JStr (provider @ ''/'' @ (if cd_ModelID cand \<noteq> '''' then cd_ModelID cand else cd_ID cand))) \<and>
    (\<forall>key. key \<noteq> ''model'' \<longrightarrow> map_of ps key =
      (case map_of m key of
         Some v \<Rightarrow> Some v
       | None \<Rightarrow>
           (case map_of (cd_Params cand) key of
              Some v \<Rightarrow> Some (JStr v)
            | None \<Rightarrow> if key = ''api_base'' \<and> dp_BaseURL (d_Spec md) \<noteq> '''' then Some (JStr (dp_BaseURL (d_Spec md))) else None)))"
  using assms by (auto simp: buildChildModel_def child_params_lookup)

subsubsection \<open>A failed listing\<close>

definition provider_down :: "'w ModelDiscoveryReconciler \<Rightarrow> string \<Rightarrow> bool" where
  "provider_down R ty \<longleftrightarrow> (\<forall>new cfg list w. Lookup (mg_prov R) ty = Some new \<longrightarrow> new cfg = Inr list \<longrightarrow> isl (fst (list (w, []))))"

lemma listing_fails:
  assumes "provider_down R (dp_Type (d_Spec md))"
  shows "\<exists>v. fst (discover R md s) = Return v"
proof -
  have ret: "\<exists>v. fst (andThen m f s) = Return v"
    if "\<And>a s1. m s = (Next a, s1) \<Longrightarrow> \<exists>v. fst (f a s1) = Return v"
    for m :: "'a mdstate \<Rightarrow> 'x flow \<times> 'a mdstate" and f :: "'x \<Rightarrow> 'a mdstate \<Rightarrow> 'y flow \<times> 'a mdstate" and s
    using that by (cases "m s") (auto simp: andThen_def split: flow.split)
  have "\<exists>v. fst (list_candidates R md list s') = Return v" if b: "build_provider R md cfg s0 = (Next list, s')" for list cfg s0 s'
  proof -
    obtain new where "Lookup (mg_prov R) (dp_Type (d_Spec md)) = Some new" "new cfg = Inr list"
      using b by (auto simp: build_provider_def Let_def split: option.splits sum.splits)
    then have "isl (fst (list (d_world s', [])))" using assms unfolding provider_down_def by blast
    then show ?thesis
      by (cases "list (d_world s', [])") (auto simp: list_candidates_def in_world_def list_models_def isl_def)
  qed
  then show ?thesis unfolding discover_def by (intro ret) (metis flow.distinct(1) fst_conv)
qed

text \<open>
  C14.  While the provider cannot be listed, a refresh only writes status: no model is written or deleted, and no
  alias is touched, whatever the cluster holds.
\<close>

theorem failed_listing_keeps_children:
  assumes "status_stable (mg_api R)" and "kc_get (da_kube (mg_api R)) (d_world s) key = (Inr md, w)"
    and "\<not> DeletionTimestamp (d_Meta md)" and "provider_down R (dp_Type (d_Spec md))"
    and "e \<in> set (drop (length (d_log s)) (d_log (snd (model_discovery_Reconcile R key s))))"
  shows "is_note e \<or> (\<exists>fs. e = DObjectUpdate fs)"
proof -
  have live: "d_emits is_note s' (snd (model_live R md s'))" for s'
  proof -
    let ?md = "fst (entered R md s')" and ?s = "snd (entered R md s')"
    have "d_Spec ?md = d_Spec md" using entered_same [OF assms(1)] by (simp add: same_discovery_def)
    then obtain v where v: "fst (discover R ?md ?s) = Return v" using listing_fails assms(4) by metis
    then have "snd (model_live R md s') = snd (discover R ?md ?s)"
      by (simp add: model_live_entered case_prod_beta)
    then show ?thesis using d_emits_trans [OF entered_notes discover_notes] by simp
  qed
  have "d_emits (\<lambda>e. is_note e \<or> (\<exists>fs. e = DObjectUpdate fs)) s
      (snd (discovery_Reconcile model_dkit (mg_api R) (model_note_drain R) (model_live R) key s))"
    by (rule mdd.Reconcile_emits) (use assms(2,3) live in \<open>auto intro: d_emits_mono\<close>)
  then show ?thesis using d_emits_mem assms(5) unfolding model_discovery_Reconcile_def by blast
qed

subsubsection \<open>Refused writes\<close>

lemma refused_one:
  assumes "refuses_writes (mg_api R)" and "reads_own model_dkit (mg_api R) md n" and "DNS1123Subdomain (mg_dns R) n = None"
    and "n \<notin> set (desired_names (fst ts))"
  shows "n \<notin> set (desired_names (fst (snd (one_candidate R md ad cand ts))))"
proof -
  let ?name = "childNameOf (d_Spec md) (cd_ID cand)"
  have "n \<notin> set (desired_names (fst (try_child model_dkit (mg_api R) md a ?name child ts)))" for a child
    using refused_try(1) [OF assms(1), of model_dkit md a ?name child ts] refused_try(2) [OF assms(1), of model_dkit md ?name a child ts]
      assms(2,4) by (cases "?name = n") auto
  moreover have "n \<notin> set (desired_names (fst (fail_candidate model_dkit a x m ts)))" for a x m
    using assms(4) by (cases ts) (simp add: fail_candidate_def desired_names_def Let_def)
  ultimately show ?thesis
    using assms(3,4) by (auto simp: one_candidate_def Let_def desired_names_def split: sum.split rerror.split)
qed

lemma refused_loop:
  assumes "refuses_writes (mg_api R)" and "reads_own model_dkit (mg_api R) md n" and "DNS1123Subdomain (mg_dns R) n = None"
    and "n \<notin> set (desired_names (fst ts))"
  shows "n \<notin> set (desired_names (fst (snd (candidate_loop R md ad cands ts))))"
  using assms(4)
proof (induction cands arbitrary: ts)
  case (Cons c cs)
  obtain r ts1 where o: "one_candidate R md ad c ts = (r, ts1)" by (metis surj_pair)
  then show ?case using Cons.IH [of ts1] refused_one [OF assms(1-3) Cons.prems, of ad c] by (auto simp: o split: option.split)
qed simp

lemma loop_no_panic:
  assumes "dp_Params (d_Spec md) \<noteq> RawValue JNull"
  shows "fst (candidate_loop R md ad cands ts) = None"
proof -
  have "decode_bag (dp_Params (d_Spec md)) \<noteq> Inr None" using assms by (cases "dp_Params (d_Spec md)" rule: decode_bag.cases) auto
  then have one: "fst (one_candidate R md ad c ts) = None" for c ts
    by (auto simp: one_candidate_def buildChildModel_def Let_def split: sum.split option.split)
  show ?thesis
  proof (induction cands arbitrary: ts)
    case (Cons c cs)
    then show ?case using one [of c ts] by (cases "one_candidate R md ad c ts") simp
  qed simp
qed

text \<open>
  C16.  A model that the upstream still lists and that the discovery still controls is deleted when the API server
  refuses the write of its refreshed form: only written, skipped and stale names are protected from the vanish
  step, not failed ones.
\<close>

theorem refused_write_deletes_child:
  assumes "refuses_writes (mg_api R)"
    and "da_children (mg_api R) (d_world s) (da_Namespace (mg_api R)) (Name (d_Meta md)) = (Inr children, w)"
    and "list_all (ownedByThisDiscovery modelDiscoveryKind md) children" and "c \<in> set children"
    and "cand \<in> set kept" and "ch_Name c = childNameOf (d_Spec md) (cd_ID cand)"
    and "DNS1123Subdomain (mg_dns R) (ch_Name c) = None" and "reads_own model_dkit (mg_api R) md (ch_Name c)"
    and "dp_Params (d_Spec md) \<noteq> RawValue JNull"
  shows "ChildDelete c True \<in> set (drop (length (d_log s)) (d_log (snd (refresh R md kept s))))"
proof -
  have ad: "adopted model_dkit md children = []" using assms(3) by (simp add: adopted_def list_all_iff filter_empty_conv)
  have w: "in_world (\<lambda>w. da_children (mg_api R) w (da_Namespace (mg_api R)) (Name (d_Meta md))) s = (Inr children, s\<lparr>d_world := w\<rparr>)"
    using assms(2) by (simp add: in_world_def)
  obtain t s2 where l: "candidate_loop R md [] kept (start_tally model_dkit md children, s\<lparr>d_world := w\<rparr>) = (None, t, s2)"
    using loop_no_panic [OF assms(9), of R "[]" kept "(start_tally model_dkit md children, s\<lparr>d_world := w\<rparr>)"] by (metis prod.collapse)
  have "ch_Name c \<notin> set (desired_names t)"
    using refused_loop [OF assms(1,8,7), of "(start_tally model_dkit md children, s\<lparr>d_world := w\<rparr>)" "[]" kept] l
    by (simp add: start_tally_def ad desired_names_def)
  then have van: "vanished model_dkit (ownedByDiscovery (d_UID md)) md children (sort_tally t) c"
    using assms(3,4) by (auto simp: vanished_def ad desired_names_def sort_tally_def ownedByDiscovery_def ownedByThisDiscovery_def
        list_all_iff list_ex_iff)
  obtain t' s3 where v: "vanish model_dkit (mg_api R) (ownedByDiscovery (d_UID md)) md children (sort_tally t) s2 = (t', s3)" by fastforce
  obtain xs where xs: "d_log s3 = d_log s2 @ xs" "ChildDelete c True \<in> set xs"
    using vanish_log [of model_dkit "mg_api R" "ownedByDiscovery (d_UID md)" md children "sort_tally t" s2] v van assms(4) by auto
  obtain ys where ys: "d_log s2 = d_log s @ ys"
    using candidate_loop_emits [of R md "(start_tally model_dkit md children, s\<lparr>d_world := w\<rparr>)" "[]" kept] l by (auto simp: d_emits_def)
  obtain zs where zs: "d_log (snd (model_finish R md (length kept) t' s3)) = d_log s3 @ zs"
    using model_finish_emits [of s3 R md "length kept" t'] by (auto simp: d_emits_def)
  show ?thesis using xs ys zs by (simp add: refresh_def w ad l v)
qed

subsubsection \<open>Deletion of a discovery\<close>


subsubsection \<open>Concrete runs\<close>

definition example_md :: "string list \<Rightarrow> bool \<Rightarrow> ModelDiscoveryObject" where
  "example_md fs deleting = \<lparr>d_Meta = disco_meta ''d'' fs deleting, d_UID = ''u'',
     d_Spec = \<lparr>dp_Type = ''openai'', dp_LitellmProvider = '''', dp_Prefix = '''', dp_DisablePrefix = False, dp_Aliases = [],
       dp_CredentialsSecretRef = Some ''cred'', dp_Region = '''', dp_Regions = [], dp_InferenceProfiles = [], dp_BaseURL = '''',
       dp_Params = RawEmpty, dp_Info = RawEmpty, dp_Secrets = [], dp_Filters = None, dp_Interval = 60\<rparr>,
     d_Status = example_dstatus\<rparr>"

abbreviation live_discovery :: ModelDiscoveryObject where
  "live_discovery \<equiv> example_md [modelDiscoveryFinalizer] False"

definition example_child_model :: "OwnerRef list \<Rightarrow> model_child" where
  "example_child_model owners = \<lparr>ch_Namespace = ''ns'', ch_Name = ''openai.g'', ch_UID = '''', ch_ResourceVersion = '''',
     ch_DeletionTimestamp = False, ch_GeneratedBy = ''d'', ch_OwnerReferences = owners, ch_Finalizers = [modelFinalizer],
     ch_Spec = \<lparr>sp_Params = RawValue (JObj [(''model'', JStr ''openai/g'')]), sp_Info = RawValue (JObj []), sp_Secrets = [],
       sp_DeletionPolicy = ''''\<rparr>\<rparr>"

definition example_owner :: OwnerRef where
  "example_owner = \<lparr>ow_Kind = modelDiscoveryKind, ow_Name = ''d'', ow_UID = ''u'', ow_Controller = Some True\<rparr>"

definition example_model_R ::
  "ModelDiscoveryObject \<Rightarrow> model_child list \<Rightarrow> kube_error option \<Rightarrow> reply \<Rightarrow> unit ModelDiscoveryReconciler" where
  "example_model_R md children applied reply = \<lparr>mg_api = example_dapi md children applied,
     mg_prov = example_provlib\<lparr>pl_http := (\<lambda>w rq. (reply, w))\<rparr>,
     mg_getSecret = (\<lambda>w k. (Inr [(''OPENAI_API_KEY'', ''k'')], w)),
     mg_aliases = \<lparr>aa_get = (\<lambda>w k. (Inl KNotFound, w)), aa_apply = (\<lambda>w a. (None, w)), aa_list = (\<lambda>w ns n. (Inr [], w)),
       aa_delete = (\<lambda>w a. (None, w))\<rparr>,
     mg_compile = (\<lambda>pat. Inr (\<lambda>t. True)),
     mg_net = \<lparr>url_Parse = (\<lambda>t. Inl ''no url''), parse_ip = (\<lambda>t. None), idna_ToASCII = (\<lambda>t. None)\<rparr>, mg_ParseIP = (\<lambda>t. None),
     mg_dns = (\<lambda>n. []), mg_env = '''', mg_HTTPClient = True\<rparr>"

lemma example_model_R_sel [simp]:
  "mg_api (example_model_R md cs a r) = example_dapi md cs a" "mg_dns (example_model_R md cs a r) n = []"
  "mg_prov (example_model_R md cs a r) = example_provlib\<lparr>pl_http := (\<lambda>w rq. (r, w))\<rparr>"
  "mg_getSecret (example_model_R md cs a r) w k = (Inr [(''OPENAI_API_KEY'', ''k'')], w)"
  "mg_HTTPClient (example_model_R md cs a r)"
  by (simp_all add: example_model_R_def)

lemma live_discovery_sel [simp]:
  "\<not> DeletionTimestamp (d_Meta live_discovery)"
  "ContainsFinalizer klib_std (Finalizers (d_Meta live_discovery)) modelDiscoveryFinalizer"
  "in_world (\<lambda>w. (x, w)) (empty_dstate :: unit mdstate) = (x, empty_dstate)"
  by (simp_all add: example_md_def disco_meta_def klib_std_def in_world_def empty_dstate_def)

definition one_model :: reply where
  "one_model = Reply 200 (BodyJson (JObj [(''data'', JArr [JObj [(''id'', JStr ''g'')]])]))"

lemma example_discover:
  assumes "d_Spec md = d_Spec live_discovery"
  shows "discover (example_model_R live_discovery cs a one_model) md s = (Next [plain_candidate ''g'' ''''], s)"
proof -
  let ?R = "example_model_R live_discovery cs a one_model"
  have "decode_openai (JObj [(''data'', JArr [JObj [(''id'', JStr ''g'')]])]) = Some [plain_candidate ''g'' '''']" by code_simp
  then have list: "list_candidates ?R md (openai_List (mg_prov ?R) ''openai'' ''k'' '''') s = (Next [plain_candidate ''g'' ''''], s)"
    by (simp add: list_candidates_def in_world_def list_models_def openai_List_def fetch_json_def send_def classify_reply_def
        one_model_def example_provlib_def)
  have cred: "resolve_credentials ?R md s = (Next ((base_config ?R (d_Spec live_discovery))\<lparr>cf_APIKey := ''k''\<rparr>), s)"
    using assms by (simp add: resolve_credentials_def example_md_def credential_keys_def need_secret_def resolveStringKey_def
        in_world_def Let_def)
  have build: "build_provider ?R md ((base_config ?R (d_Spec live_discovery))\<lparr>cf_APIKey := ''k''\<rparr>) s
      = (Next (openai_List (mg_prov ?R) ''openai'' ''k'' ''''), s)"
    using assms by (simp add: build_provider_def example_md_def Lookup_def Registry_def needs_key_def base_config_def)
  have "keep_candidates ?R md [plain_candidate ''g'' ''''] s = (Next [plain_candidate ''g'' ''''], s)" "check_base_url ?R md s = (Next (), s)"
    using assms by (simp_all add: keep_candidates_def example_md_def ApplyWithAliases_def check_base_url_def)
  then show ?thesis by (simp add: discover_def andThen_def cred build list del: example_model_R_sel(3))
qed

lemma example_run_writes:
  "ChildApply (example_child_model [example_owner]) \<in> set (drop (length (d_log (empty_dstate :: unit mdstate)))
      (d_log (snd (model_discovery_Reconcile (example_model_R live_discovery [] None one_model) (''ns'', ''d'') empty_dstate))))"
proof -
  let ?R = "example_model_R live_discovery [] None one_model"
  have e: "entered ?R live_discovery empty_dstate = writeReady ?R live_discovery ConditionFalse reasonSyncing ''discovering upstream models'' empty_dstate"
    by (simp add: entered_def sync_due_def example_md_def example_dstatus_def klib_std_def)
  have "d_Spec (fst (entered ?R live_discovery empty_dstate)) = d_Spec live_discovery"
    using entered_same [of ?R live_discovery empty_dstate] by (simp add: same_discovery_def)
  from example_discover [OF this, of "[]" None] have live: "snd (model_live ?R live_discovery empty_dstate) =
      snd (refresh ?R (fst (entered ?R live_discovery empty_dstate)) [plain_candidate ''g'' ''''] (snd (entered ?R live_discovery empty_dstate)))"
    by (simp add: model_live_entered)
  have "ChildApply (example_child_model [example_owner]) \<in> set (d_log (snd (refresh ?R (fst (entered ?R live_discovery empty_dstate))
      [plain_candidate ''g'' ''''] (snd (entered ?R live_discovery empty_dstate)))))"
    unfolding e by code_simp
  then show ?thesis
    unfolding live [symmetric] by (simp add: model_discovery_Reconcile_def discovery_Reconcile_def)
qed


theorem child_model_overlay_witness:
  "\<exists>ps. sp_Params (ch_Spec (example_child_model [example_owner])) = RawValue (JObj ps) \<and> map_of ps ''model'' = Some (JStr ''openai/g'')"
proof -
  have "buildChildModel live_discovery ''openai.g'' (plain_candidate ''g'' '''') ''openai'' ''ns'' = Inr (example_child_model [example_owner])"
    by code_simp
  moreover have "decode_bag (dp_Params (d_Spec live_discovery)) = Inr (Some [])" by (simp add: example_md_def)
  ultimately show ?thesis using child_model_overlay [of live_discovery "''openai.g''" "plain_candidate ''g'' ''''" "''openai''" "''ns''"
      "example_child_model [example_owner]" "[]"] by (auto simp: plain_candidate_def)
qed

theorem failed_listing_keeps_children_witness:
  "list_all (\<lambda>e. is_note e \<or> (\<exists>fs. e = DObjectUpdate fs))
     (d_log (snd (model_discovery_Reconcile (example_model_R live_discovery [example_child_model [example_owner]] None (Reply 503 (BodyFailed '''')))
       (''ns'', ''d'') empty_dstate)))"
proof -
  let ?R = "example_model_R live_discovery [example_child_model [example_owner]] None (Reply 503 (BodyFailed ''''))"
  have "isl (fst (openai_List (mg_prov ?R) l k b st))" for l k b st
    by (cases st) (simp add: openai_List_def fetch_json_def send_def classify_reply_def example_provlib_def Let_def)
  then have down: "provider_down ?R (dp_Type (d_Spec live_discovery))"
    by (auto simp: provider_down_def example_md_def Lookup_def Registry_def needs_key_def split: if_splits)
  show ?thesis
    unfolding list_all_iff using failed_listing_keeps_children [of ?R empty_dstate "(''ns'', ''d'')" live_discovery "()"] down by simp
qed

theorem refused_write_deletes_child_witness:
  "ChildDelete (example_child_model [example_owner]) True \<in> set (d_log (snd (refresh
     (example_model_R live_discovery [example_child_model [example_owner]] (Some (KOther ''refused'')) one_model) live_discovery
     [plain_candidate ''g'' ''g''] empty_dstate)))"
proof -
  let ?R = "example_model_R live_discovery [example_child_model [example_owner]] (Some (KOther ''refused'')) one_model"
  have own: "find (\<lambda>r. ow_Controller r = Some True) (ch_OwnerReferences (example_child_model [example_owner])) = Some example_owner"
    "ow_Kind example_owner = dk_kind model_dkit" "ow_UID example_owner = d_UID live_discovery"
    by (simp_all add: example_child_model_def example_owner_def example_md_def)
  have "refuses_writes (mg_api ?R)" by (simp add: refuses_writes_def)
  moreover have "reads_own model_dkit (mg_api ?R) live_discovery (ch_Name (example_child_model [example_owner]))"
    using own by (simp add: reads_own_def)
  moreover have "list_all (ownedByThisDiscovery modelDiscoveryKind live_discovery) [example_child_model [example_owner]]"
    by (simp add: ownedByThisDiscovery_def example_child_model_def example_owner_def example_md_def)
  moreover have "ch_Name (example_child_model [example_owner]) = childNameOf (d_Spec live_discovery) (cd_ID (plain_candidate ''g'' ''g''))"
    by code_simp
  moreover have "DNS1123Subdomain (mg_dns ?R) n = None" for n by (simp add: DNS1123Subdomain_def)
  moreover have "dp_Params (d_Spec live_discovery) \<noteq> RawValue JNull" by (simp add: example_md_def)
  ultimately show ?thesis
    using refused_write_deletes_child [of ?R empty_dstate live_discovery "[example_child_model [example_owner]]" "()"
        "example_child_model [example_owner]" "plain_candidate ''g'' ''g''" "[plain_candidate ''g'' ''g'']"] by simp
qed


end
