(* ===== verification/Toolhive.thy ===== *)
theory Toolhive
  imports Kube
begin

text \<open>
  Package \<^verbatim>\<open>internal/toolhive\<close>: the informer of the ToolHive kinds.  It registers one informer per kind and
  retries the missing ones on a ticker; \<^verbatim>\<open>IsReady\<close> gates every list.

  The manager's cache is a parameter: whether it has an informer for a kind at the moment of an attempt.  The
  goroutine of \<^verbatim>\<open>retryLoop\<close> is the only writer after \<^verbatim>\<open>Start\<close>, so its run is a sequence of ticks.
\<close>

subsection \<open>The informer\<close>

definition discoverableGVKs :: "string list" where
  "discoverableGVKs = [''MCPServer'', ''VirtualMCPServer'', ''MCPRemoteProxy'']"

record Informer =
  if_ready :: bool
  if_kindReady :: "string list"  \<comment> \<open>the kinds mapped to true\<close>
  if_registered :: "string list"

text \<open>One attempt: a kind that is registered is not tried again.\<close>

fun register_kinds :: "(string \<Rightarrow> bool) \<Rightarrow> string list \<Rightarrow> Informer \<Rightarrow> Informer" where
  "register_kinds available [] i = i"
| "register_kinds available (gvk # gvks) i =
     (if gvk \<in> set (if_kindReady i) then register_kinds available gvks i
      else if \<not> available gvk then register_kinds available gvks i
      else register_kinds available gvks
        (i\<lparr>if_kindReady := gvk # if_kindReady i, if_registered := if_registered i @ [gvk]\<rparr>))"

definition tryRegister :: "(string \<Rightarrow> bool) \<Rightarrow> Informer \<Rightarrow> bool \<times> Informer" where
  "tryRegister available i =
     (let i = register_kinds available discoverableGVKs i
      in (''MCPServer'' \<in> set (if_kindReady i) \<and> ''VirtualMCPServer'' \<in> set (if_kindReady i)
            \<and> ''MCPRemoteProxy'' \<in> set (if_kindReady i), i))"

definition attempt :: "(string \<Rightarrow> bool) \<Rightarrow> Informer \<Rightarrow> Informer" where
  "attempt available i = (let (ok, i) = tryRegister available i in if ok then i\<lparr>if_ready := True\<rparr> else i)"

definition informer_Start :: "(string \<Rightarrow> bool) \<Rightarrow> Informer \<Rightarrow> Informer" where
  "informer_Start available i = attempt available (i\<lparr>if_kindReady := [], if_registered := []\<rparr>)"

text \<open>The ticks of the loop, each with what the cache can serve then; the loop ends once ready.\<close>

fun retryLoop :: "(string \<Rightarrow> bool) list \<Rightarrow> Informer \<Rightarrow> Informer" where
  "retryLoop [] i = i"
| "retryLoop (available # ticks) i = (if if_ready i then i else retryLoop ticks (attempt available i))"

definition IsReady :: "Informer \<Rightarrow> bool" where
  "IsReady i = if_ready i"

definition RegisteredGVKs :: "Informer \<Rightarrow> string list" where
  "RegisteredGVKs i = if_registered i"

definition ErrNotReady :: string where
  "ErrNotReady = ''toolhive: no informer registered for toolhive.stacklok.dev/v1beta1 (CRDs absent, or installed at v1alpha1 only ''
     @ [CHR 0xE2, CHR 0x80, CHR 0x94] @ '' requires toolhive-operator-crds >= 0.41.0)''"

definition informer_List :: "('w \<Rightarrow> string \<Rightarrow> (string + 'o list) \<times> 'w) \<Rightarrow> Informer \<Rightarrow> 'w \<Rightarrow> string \<Rightarrow> (string + 'o list) \<times> 'w" where
  "informer_List client i w gvk = (if \<not> IsReady i then (Inl ErrNotReady, w) else client w (gvk @ ''List''))"

subsection \<open>The invariant\<close>

definition informer_inv :: "Informer \<Rightarrow> bool" where
  "informer_inv i \<longleftrightarrow> distinct (if_registered i) \<and> set (if_registered i) = set (if_kindReady i) \<and>
     set (if_registered i) \<subseteq> set discoverableGVKs \<and> (if_ready i \<longrightarrow> set discoverableGVKs \<subseteq> set (if_registered i))"

lemma register_kinds_inv:
  assumes "informer_inv i" and "set gvks \<subseteq> set discoverableGVKs"
  shows "informer_inv (register_kinds available gvks i) \<and> if_ready (register_kinds available gvks i) = if_ready i"
  using assms
proof (induction gvks arbitrary: i)
  case (Cons gvk gvks)
  let ?i = "i\<lparr>if_kindReady := gvk # if_kindReady i, if_registered := if_registered i @ [gvk]\<rparr>"
  have "informer_inv ?i" if "gvk \<notin> set (if_kindReady i)"
    using Cons.prems that unfolding informer_inv_def by simp blast
  then show ?case using Cons.IH [of i] Cons.IH [of ?i] Cons.prems by simp
qed simp

lemma attempt_inv: "informer_inv i \<Longrightarrow> informer_inv (attempt available i)"
proof -
  assume "informer_inv i"
  let ?i = "register_kinds available discoverableGVKs i"
  have i: "informer_inv ?i" using register_kinds_inv \<open>informer_inv i\<close> by blast
  have "set discoverableGVKs \<subseteq> set (if_kindReady ?i)" if "fst (tryRegister available i)"
    using that unfolding tryRegister_def Let_def by (simp add: discoverableGVKs_def)
  then have "informer_inv (?i\<lparr>if_ready := True\<rparr>)" if "fst (tryRegister available i)"
    using that i unfolding informer_inv_def by simp (metis subset_antisym)
  then show ?thesis using i by (auto simp: attempt_def tryRegister_def Let_def)
qed

lemma register_kinds_all:
  "set gvks \<subseteq> set (if_kindReady (register_kinds (\<lambda>_. True) gvks i)) \<and> set (if_kindReady i) \<subseteq> set (if_kindReady (register_kinds (\<lambda>_. True) gvks i))"
  by (induction "\<lambda>_ :: string. True" gvks i rule: register_kinds.induct) auto

lemma attempt_all: "if_ready (attempt (\<lambda>_. True) i)"
  using register_kinds_all [of discoverableGVKs i] by (auto simp: attempt_def tryRegister_def Let_def discoverableGVKs_def)

lemma retryLoop_inv: "informer_inv i \<Longrightarrow> informer_inv (retryLoop ticks i)"
  by (induction ticks i rule: retryLoop.induct) (simp_all add: attempt_inv)

lemma retryLoop_ready: "if_ready i \<Longrightarrow> retryLoop ticks i = i"
  by (cases ticks) simp_all

lemma retryLoop_append: "retryLoop (ticks @ ticks') i = retryLoop ticks' (retryLoop ticks i)"
  by (induction ticks i rule: retryLoop.induct) (auto simp: retryLoop_ready)

text \<open>
  C26.  Whatever the cluster serves over time, an informer started once reports ready only with each of the
  three kinds registered exactly once; and after a tick at which the cluster serves them all, it is ready.
\<close>

theorem informer_ready_complete:
  fixes i0 :: Informer and ticks :: "(string \<Rightarrow> bool) list"
  assumes "\<not> if_ready i0"
  shows "(IsReady (retryLoop ticks (informer_Start available i0)) \<longrightarrow>
      distinct (RegisteredGVKs (retryLoop ticks (informer_Start available i0))) \<and>
      set (RegisteredGVKs (retryLoop ticks (informer_Start available i0))) = set discoverableGVKs) \<and>
    IsReady (retryLoop (ticks @ [\<lambda>_. True]) (informer_Start available i0))"
proof -
  have "informer_inv (i0\<lparr>if_kindReady := [], if_registered := []\<rparr>)" using assms by (simp add: informer_inv_def)
  then have "informer_inv (retryLoop ticks (informer_Start available i0))"
    unfolding informer_Start_def by (intro retryLoop_inv attempt_inv)
  moreover have "if_ready (retryLoop [\<lambda>_. True] i)" for i by (simp add: attempt_all)
  ultimately show ?thesis by (auto simp: informer_inv_def IsReady_def RegisteredGVKs_def retryLoop_append simp del: retryLoop.simps)
qed

theorem informer_ready_complete_witness:
  "set (RegisteredGVKs (retryLoop [\<lambda>k. k = ''MCPServer'', \<lambda>_. True]
     (informer_Start (\<lambda>_. False) \<lparr>if_ready = False, if_kindReady = [], if_registered = []\<rparr>))) = set discoverableGVKs"
proof -
  let ?i = "\<lparr>if_ready = False, if_kindReady = [], if_registered = []\<rparr> :: Informer"
  have "IsReady (retryLoop ([\<lambda>k. k = ''MCPServer''] @ [\<lambda>_. True]) (informer_Start (\<lambda>_. False) ?i))"
    using informer_ready_complete [of ?i "[\<lambda>k. k = ''MCPServer'']" "\<lambda>_. False"] by simp
  then show ?thesis
    using informer_ready_complete [of ?i "[\<lambda>k. k = ''MCPServer'', \<lambda>_. True]" "\<lambda>_. False"] by simp
qed

end
