(* ===== verification/Mcp_Discovery.thy ===== *)
theory Mcp_Discovery
  imports Discovery_Base Toolhive Mcp_Server Filters
begin

text \<open>
  The controller of LiteLLMMCPServerDiscovery objects, \<^verbatim>\<open>internal/controller/mcpserverdiscovery_controller.go\<close>:
  it keeps one LiteLLMMCPServer object for each ToolHive object of the wanted kinds and namespaces that has an
  address.  The write cycle is that of \<open>Discovery_Base\<close>.

  The informer is used through the interface the source declares (\<^verbatim>\<open>ToolHiveInformerReader\<close>); \<open>thv_reader\<close> is
  that interface over the model of the real one.
\<close>

subsection \<open>Types\<close>

text \<open>What the controller reads of a ToolHive object; an absent field reads as the empty string.\<close>

record toolhive_object =
  to_Namespace :: string
  to_Name :: string
  to_url :: string
  to_transport :: string

record 'w ToolHiveInformerReader =
  ir_IsReady :: "'w \<Rightarrow> bool"
  ir_List :: "'w \<Rightarrow> string \<Rightarrow> (string + toolhive_object list) \<times> 'w"

definition thv_reader :: "('w \<Rightarrow> Informer) \<Rightarrow> ('w \<Rightarrow> string \<Rightarrow> (string + toolhive_object list) \<times> 'w) \<Rightarrow> 'w ToolHiveInformerReader" where
  "thv_reader informer client = \<lparr>ir_IsReady = (\<lambda>w. IsReady (informer w)), ir_List = (\<lambda>w gvk. informer_List client (informer w) w gvk)\<rparr>"

record MCPServerDiscoverySpec =
  qp_Prefix :: string
  qp_Type :: string
  qp_Namespaces :: "string list"
  qp_Kinds :: "string list"
  qp_Params :: raw_json
  qp_Secrets :: "SecretSubstitution list"
  qp_Filters :: "ModelDiscoveryFilters option"  \<comment> \<open>the same two lists as for models\<close>
  qp_Interval :: int

type_synonym MCPServerDiscoveryObject = "MCPServerDiscoverySpec discovery"
type_synonym server_child = "MCPServerSpec child"
type_synonym 'w msstate = "('w, MCPServerSpec) dstate"

record 'w MCPServerDiscoveryReconciler =
  qr_api :: "('w, MCPServerDiscoverySpec, MCPServerSpec) dapi"
  qr_informer :: "'w ToolHiveInformerReader option"
  qr_compile :: compiler

record source_candidate =
  sc_childName :: string
  sc_url :: string
  sc_transport :: string
  sc_sourceNamespace :: string
  sc_sourceName :: string

definition mcpServerDiscoveryFinalizer :: string where
  "mcpServerDiscoveryFinalizer = ''mcpserverdiscoveries.litellm.ackstorm.ai/finalizer''"

definition mcpServerDiscoveryKind :: string where "mcpServerDiscoveryKind = ''LiteLLMMCPServerDiscovery''"

definition server_dkit :: "MCPServerSpec dkit" where
  "server_dkit = \<lparr>dk_kind = mcpServerDiscoveryKind, dk_finalizer = mcpServerDiscoveryFinalizer, dk_child = ''MCPServer'',
     dk_explicit = ''ExplicitMCPServerExists'', dk_waits = False, dk_protects = True, dk_counts_failed = False\<rparr>"

lemma server_dkit_sel [simp]:
  "dk_kind server_dkit = mcpServerDiscoveryKind" "dk_finalizer server_dkit = mcpServerDiscoveryFinalizer"
  "dk_child server_dkit = ''MCPServer''" "dk_explicit server_dkit = ''ExplicitMCPServerExists''"
  "\<not> dk_waits server_dkit" "dk_protects server_dkit" "\<not> dk_counts_failed server_dkit"
  by (simp_all add: server_dkit_def)

definition emdash :: string where "emdash = [CHR 0xE2, CHR 0x80, CHR 0x94]"
definition arrow :: string where "arrow = [CHR 0xE2, CHR 0x86, CHR 0x92]"

subsection \<open>Status\<close>

definition server_note_drain ::
  "'w MCPServerDiscoveryReconciler \<Rightarrow> MCPServerDiscoveryObject \<Rightarrow> string \<Rightarrow> 'w msstate \<Rightarrow> 'w msstate" where
  "server_note_drain R md msg s =
     snd (snd (status_update (qr_api R)
       (set_condition (da_lib (qr_api R)) conditionTypeReady ConditionFalse reasonDeleting msg md) s))"

definition server_entered ::
  "'w MCPServerDiscoveryReconciler \<Rightarrow> MCPServerDiscoveryObject \<Rightarrow> 'w msstate \<Rightarrow> MCPServerDiscoveryObject \<times> 'w msstate" where
  "server_entered R md s =
     (if sync_due (da_lib (qr_api R)) md
      then snd (status_update (qr_api R)
        (observe (set_condition (da_lib (qr_api R)) conditionTypeReady ConditionFalse reasonSyncing
           ''discovering upstream MCP servers'' md)) s)
      else (md, s))"

definition server_reconciled :: "'w msstate \<Rightarrow> 'w msstate" where
  "server_reconciled = demit (DMetric ''ReconcileTotal'' [mcpServerDiscoveryKind, ''success''])"

subsection \<open>Sources\<close>

definition unreachableMsg :: string where
  "unreachableMsg = ''ToolHive CRDs not installed, or installed without toolhive.stacklok.dev/v1beta1 '' @ emdash
     @ '' the operator reads v1beta1 only and requires toolhive-operator-crds >= 0.41.0 (a v1alpha1-only install reports the CRDs as Established)''"

definition wanted_kinds :: "MCPServerDiscoverySpec \<Rightarrow> string list" where
  "wanted_kinds sp =
     (let kinds = (if length (qp_Kinds sp) = 0 then [''MCPServer'', ''VirtualMCPServer'', ''MCPRemoteProxy''] else qp_Kinds sp)
      in filter (\<lambda>k. k \<in> set kinds) [''MCPServer'', ''VirtualMCPServer'', ''MCPRemoteProxy''])"

fun gather ::
  "'w MCPServerDiscoveryReconciler \<Rightarrow> MCPServerDiscoveryObject \<Rightarrow> 'w ToolHiveInformerReader \<Rightarrow> string list \<Rightarrow> toolhive_object list
   \<Rightarrow> 'w msstate \<Rightarrow> toolhive_object list flow \<times> 'w msstate" where
  "gather R md informer [] raw s = (Next raw, s)"
| "gather R md informer (gvk # gvks) raw s =
     (case in_world (\<lambda>w. ir_List informer w gvk) s of
        (Inl e, s) \<Rightarrow>
          (Return (Inl (TextErr e)),
           writeBothConditions (qr_api R) md ConditionFalse ''SourceUnreachable'' e ConditionFalse ''Unreachable'' e s)
      | (Inr items, s) \<Rightarrow> gather R md informer gvks (raw @ items) s)"

definition list_sources ::
  "'w MCPServerDiscoveryReconciler \<Rightarrow> MCPServerDiscoveryObject \<Rightarrow> 'w msstate \<Rightarrow> toolhive_object list flow \<times> 'w msstate" where
  "list_sources R md s =
     (let unreachable = (Return (Inr (requeue_after minute)),
            server_reconciled (writeBothConditions (qr_api R) md ConditionFalse ''SourceUnreachable'' unreachableMsg
              ConditionFalse ''Unreachable'' unreachableMsg s)) in
      case qr_informer R of
        None \<Rightarrow> unreachable
      | Some informer \<Rightarrow>
          (if \<not> ir_IsReady informer (d_world s) then unreachable
           else gather R md informer (wanted_kinds (d_Spec md)) [] s))"

subsection \<open>Candidates\<close>

definition normalizeTransport :: "string \<Rightarrow> string option" where
  "normalizeTransport raw =
     (if raw = ''streamable-http'' then Some ''http''
      else if raw = ''sse'' then Some ''sse''
      else if raw = '''' \<or> raw = ''http'' then Some ''http''
      else None)"

text \<open>Descending by namespace, then name; \<^verbatim>\<open>sort.Slice\<close> leaves the order of equal pairs open.\<close>

definition sort_desc :: "toolhive_object list \<Rightarrow> toolhive_object list" where
  "sort_desc raw = rev (sort_key to_Namespace (sort_key to_Name raw))"

record derivation =
  dv_candidates :: "source_candidate list"
  dv_skipped :: "SkippedCandidate list"
  dv_seen :: "string gomap"
  dv_collisions :: "string list"

definition server_child_name :: "MCPServerDiscoverySpec \<Rightarrow> string \<Rightarrow> string" where
  "server_child_name sp sourceName = qp_Prefix sp @ ''-'' @ sourceName"

definition derive_one :: "MCPServerDiscoverySpec \<Rightarrow> toolhive_object \<Rightarrow> derivation \<Rightarrow> derivation" where
  "derive_one sp obj d =
     (let sourceName = to_Name obj; childName = server_child_name sp sourceName;
          skip = (\<lambda>reason msg. \<lparr>sk_Name = childName, sk_Reason = reason, sk_OwnedBy = to_Namespace obj @ ''/'' @ sourceName, sk_Message = msg\<rparr>) in
      if to_Namespace obj \<notin> set (qp_Namespaces sp) then d
      else if length childName > 63 then
        d\<lparr>dv_skipped := dv_skipped d @ [skip ''InvalidDiscoveredName''
            (''child name is '' @ show_nat (length childName) @ '' chars, exceeds the 63-char DNS-1123 label limit (prefix ''
             @ quote (qp_Prefix sp) @ '' + source '' @ quote sourceName @ '')'')]\<rparr>
      else
        case map_of (dv_seen d) sourceName of
          Some winnerNs \<Rightarrow>
            d\<lparr>dv_skipped := dv_skipped d @ [skip ''NameCollision''
                (''source name '' @ quote sourceName @ '' superseded by namespace '' @ quote winnerNs
                 @ '' within this discovery (alpha-last-wins; FIX4 H-2)'')],
              dv_collisions := dv_collisions d @ [quote sourceName @ '' (ns '' @ quote (to_Namespace obj) @ '' superseded by ns ''
                 @ quote winnerNs @ '')'']\<rparr>
        | None \<Rightarrow>
            (let d = d\<lparr>dv_seen := map_put sourceName (to_Namespace obj) (dv_seen d)\<rparr> in
             if to_url obj = '''' then d\<lparr>dv_skipped := dv_skipped d @ [skip ''EndpointUnknown'' ''status.url empty'']\<rparr>
             else
               case normalizeTransport (to_transport obj) of
                 None \<Rightarrow> d\<lparr>dv_skipped := dv_skipped d @ [skip ''InvalidTransport''
                     (''transport='' @ quote (to_transport obj) @ '' not in {http, sse, streamable-http'' @ arrow @ ''http}'')]\<rparr>
               | Some transport \<Rightarrow>
                   d\<lparr>dv_candidates := dv_candidates d @ [\<lparr>sc_childName = childName, sc_url = to_url obj, sc_transport = transport,
                       sc_sourceNamespace = to_Namespace obj, sc_sourceName = sourceName\<rparr>]\<rparr>))"

definition derive :: "MCPServerDiscoverySpec \<Rightarrow> toolhive_object list \<Rightarrow> derivation" where
  "derive sp raw = fold (derive_one sp) (sort_desc raw) \<lparr>dv_candidates = [], dv_skipped = [], dv_seen = [], dv_collisions = []\<rparr>"

definition setNameCollisionCondition :: "klib \<Rightarrow> string list \<Rightarrow> MCPServerDiscoveryObject \<Rightarrow> MCPServerDiscoveryObject" where
  "setNameCollisionCondition K collisions md =
     (if length collisions = 0 then set_condition K ''NameCollision'' ConditionFalse ''NoCollisions'' '''' md
      else set_condition K ''NameCollision'' ConditionTrue ''NameCollision''
        (''intra-discovery source-name collision(s) detected: '' @ join ''; '' collisions @ '' '' @ emdash
         @ '' rename one upstream or split the discovery (FIX4 H-2)'') md)"

definition filter_sources ::
  "'w MCPServerDiscoveryReconciler \<Rightarrow> MCPServerDiscoveryObject \<Rightarrow> source_candidate list \<Rightarrow> 'w msstate
   \<Rightarrow> source_candidate list flow \<times> 'w msstate" where
  "filter_sources R md cands s =
     (case qp_Filters (d_Spec md) of
        None \<Rightarrow> (Next cands, s)
      | Some f \<Rightarrow>
          (case Apply (qr_compile R) (map sc_childName cands) (Some f) of
             Inr kept \<Rightarrow> (Next (filter (\<lambda>c. sc_childName c \<in> set kept) cands), s)
           | Inl e \<Rightarrow>
               (let reason = (case e of InvalidConfigError _ _ _ _ \<Rightarrow> ''InvalidConfig'' | UpstreamInvalidError _ \<Rightarrow> ''UpstreamInvalid'');
                    (_, md, s) = writeBothConditionsObj (qr_api R) md ConditionFalse reason (Error e) ConditionTrue ''Ok'' '''' s
                in (Return (Inr (requeue_after (qp_Interval (d_Spec md)))), server_reconciled s))))"

subsection \<open>Children\<close>

definition buildChildMCPServer :: "MCPServerDiscoveryObject \<Rightarrow> source_candidate \<Rightarrow> string \<Rightarrow> server_child" where
  "buildChildMCPServer md c namespace =
     \<lparr>ch_Namespace = namespace, ch_Name = sc_childName c, ch_UID = '''', ch_ResourceVersion = '''', ch_DeletionTimestamp = False,
      ch_GeneratedBy = Name (d_Meta md),
      ch_OwnerReferences = [\<lparr>ow_Kind = mcpServerDiscoveryKind, ow_Name = Name (d_Meta md), ow_UID = d_UID md, ow_Controller = Some True\<rparr>],
      ch_Finalizers = [mcpServerFinalizer],
      ch_Spec = \<lparr>ms_Endpoint = sc_url c, ms_Transport = sc_transport c,
        ms_Params = (if qp_Params (d_Spec md) = RawEmpty then RawValue (JObj []) else qp_Params (d_Spec md)),
        ms_Secrets = qp_Secrets (d_Spec md), ms_DeletionPolicy = ''''\<rparr>\<rparr>"

definition write_source ::
  "'w MCPServerDiscoveryReconciler \<Rightarrow> MCPServerDiscoveryObject \<Rightarrow> string list \<Rightarrow> source_candidate \<Rightarrow> ('w, MCPServerSpec) cycle
   \<Rightarrow> ('w, MCPServerSpec) cycle" where
  "write_source R md adoptedNames c ts =
     (if sc_childName c \<in> set adoptedNames then ts
      else try_child server_dkit (qr_api R) md ''create_or_update'' (sc_childName c)
        (buildChildMCPServer md c (da_Namespace (qr_api R))) ts)"

definition server_finish ::
  "'w MCPServerDiscoveryReconciler \<Rightarrow> MCPServerDiscoveryObject \<Rightarrow> nat \<Rightarrow> tally \<Rightarrow> 'w msstate \<Rightarrow> verdict \<times> 'w msstate" where
  "server_finish R md kept t s =
     (let (now, s) = in_world (da_now (qr_api R)) s;
          (status, reason, msg) = ready_verdict t kept;
          (err, md, s) = writeBothConditionsObj (qr_api R) (set_counts t kept now md) status reason msg ConditionTrue ''Ok'' '''' s
      in case err of
           Some e \<Rightarrow> (if IsConflict e then Inr no_requeue else Inl (KubeErr e), s)
         | None \<Rightarrow>
             (Inr (requeue_after (if ty_stale t then childDeletingRequeue else qp_Interval (d_Spec md))),
              demit (DMetric ''CRStatusAge.RecordSuccess'' [mcpServerDiscoveryKind, Name (d_Meta md)]) (server_reconciled s)))"

definition server_refresh ::
  "'w MCPServerDiscoveryReconciler \<Rightarrow> MCPServerDiscoveryObject \<Rightarrow> SkippedCandidate list \<Rightarrow> source_candidate list \<Rightarrow> 'w msstate
   \<Rightarrow> verdict \<times> 'w msstate" where
  "server_refresh R md skipped cands s =
     (case in_world (\<lambda>w. da_children (qr_api R) w (da_Namespace (qr_api R)) (Name (d_Meta md))) s of
        (Inl e, s) \<Rightarrow> (Inl (WrapErr ''list label-matched children for adoption + vanish'' (KubeErr e)), s)
      | (Inr children, s) \<Rightarrow>
          (let t = start_tally server_dkit md children;
               t = t\<lparr>ty_skipped := skipped @ ty_skipped t\<rparr>;
               (t, s) = fold (write_source R md (map ch_Name (adopted server_dkit md children))) cands (t, s);
               (t, s) = vanish server_dkit (qr_api R) (ownedByThisDiscovery mcpServerDiscoveryKind md) md children (sort_tally t) s
           in server_finish R md (length cands) t s))"

definition sources_live ::
  "'w MCPServerDiscoveryReconciler \<Rightarrow> MCPServerDiscoveryObject \<Rightarrow> 'w msstate \<Rightarrow> verdict \<times> 'w msstate" where
  "sources_live R md s =
     (let (md, s) = server_entered R md s in
      case list_sources R md s of
        (Return v, s) \<Rightarrow> (v, s)
      | (Next raw, s) \<Rightarrow>
          (let d = derive (d_Spec md) raw; md = setNameCollisionCondition (da_lib (qr_api R)) (dv_collisions d) md in
           case filter_sources R md (dv_candidates d) s of
             (Return v, s) \<Rightarrow> (v, s)
           | (Next cands, s) \<Rightarrow> server_refresh R md (dv_skipped d) cands s))"

definition server_discovery_Reconcile ::
  "'w MCPServerDiscoveryReconciler \<Rightarrow> NamespacedName \<Rightarrow> 'w msstate \<Rightarrow> verdict \<times> 'w msstate" where
  "server_discovery_Reconcile R = discovery_Reconcile server_dkit (qr_api R) (server_note_drain R) (sources_live R)"

subsection \<open>What each step may do\<close>

lemma list_sources_notes: "d_emits is_note s (snd (list_sources R md s))"
proof -
  have g: "d_emits is_note s (snd (gather R md informer gvks raw s))" for informer gvks raw s
  proof (induction gvks arbitrary: raw s)
    case (Cons gvk gvks)
    obtain r s1 where w: "in_world (\<lambda>w. ir_List informer w gvk) s = (r, s1)" by fastforce
    have "d_emits is_note s s1" by (rule in_world_emits [OF w])
    then show ?case
      using Cons.IH [where s = s1] by (auto simp: w split: sum.split intro: d_emits_trans [OF _ writeBoth_notes(2)] d_emits_trans)
  qed simp
  show ?thesis
    using g by (auto simp: list_sources_def Let_def server_reconciled_def writeBoth_notes split: option.split intro!: d_emits_then)
qed

lemma filter_sources_notes: "d_emits is_note s (snd (filter_sources R md cs s))"
  by (auto simp: filter_sources_def Let_def case_prod_beta server_reconciled_def writeBoth_notes split: option.split sum.split intro!: d_emits_then)

lemma server_finish_notes: "d_emits is_note s (snd (server_finish R md kept t s))"
proof -
  obtain now s1 where n: "in_world (da_now (qr_api R)) s = (now, s1)" by fastforce
  have w: "d_emits is_note s (snd (snd (writeBothConditionsObj (qr_api R) md' x y z ConditionTrue ''Ok'' '''' s1)))" for md' x y z
    using d_emits_trans [OF in_world_emits [OF n] writeBoth_notes(1)] .
  then show ?thesis
    by (auto simp: server_finish_def n Let_def case_prod_beta server_reconciled_def split: option.split intro!: d_emits_then)
qed

text \<open>What a child written for a discovery looks like, field by field.\<close>

definition own_server :: "'w MCPServerDiscoveryReconciler \<Rightarrow> MCPServerDiscoveryObject \<Rightarrow> server_child \<Rightarrow> bool" where
  "own_server R md c \<longleftrightarrow>
     ch_Namespace c = da_Namespace (qr_api R) \<and> ch_GeneratedBy c = Name (d_Meta md) \<and>
     ch_OwnerReferences c = [\<lparr>ow_Kind = mcpServerDiscoveryKind, ow_Name = Name (d_Meta md), ow_UID = d_UID md, ow_Controller = Some True\<rparr>] \<and>
     ch_Finalizers c = [mcpServerFinalizer] \<and> ms_Secrets (ch_Spec c) = qp_Secrets (d_Spec md) \<and>
     ms_Endpoint (ch_Spec c) \<noteq> '''' \<and> ms_Transport (ch_Spec c) \<in> {''http'', ''sse''} \<and>
     length (ch_Name c) \<le> 63 \<and> (\<exists>sourceName. ch_Name c = server_child_name (d_Spec md) sourceName)"

definition source_ok :: "MCPServerDiscoverySpec \<Rightarrow> source_candidate \<Rightarrow> bool" where
  "source_ok sp c \<longleftrightarrow> sc_childName c = server_child_name sp (sc_sourceName c) \<and> length (sc_childName c) \<le> 63 \<and>
     sc_sourceNamespace c \<in> set (qp_Namespaces sp) \<and> sc_url c \<noteq> '''' \<and> sc_transport c \<in> {''http'', ''sse''}"

definition server_effect :: "'w MCPServerDiscoveryReconciler \<Rightarrow> MCPServerDiscoveryObject \<Rightarrow> MCPServerSpec deffect \<Rightarrow> bool" where
  "server_effect R md e \<longleftrightarrow> writes_own server_dkit (qr_api R) md (own_server R md) e \<or> deletes_own server_dkit (qr_api R) md e"

lemma server_effect_note: "is_note e \<Longrightarrow> server_effect R md e"
  by (simp add: server_effect_def writes_own_def)

lemma same_discovery_server: "same_discovery md md' \<Longrightarrow> server_effect R md' e = server_effect R md e"
proof -
  assume same: "same_discovery md md'"
  then have "own_server R md' = own_server R md" by (simp add: own_server_def same_discovery_def fun_eq_iff)
  then show ?thesis by (simp add: server_effect_def same_discovery_writes [OF same] same_discovery_deletes [OF same])
qed

lemma write_source_emits:
  assumes "source_ok (d_Spec md) c"
  shows "d_emits (server_effect R md) (snd ts) (snd (write_source R md ad c ts))"
proof -
  have "d_emits (writes_own server_dkit (qr_api R) md (own_server R md)) (snd ts)
      (snd (try_child server_dkit (qr_api R) md a (sc_childName c) (buildChildMCPServer md c (da_Namespace (qr_api R))) ts))" for a
    by (rule try_child_writes_own) (use assms in \<open>auto simp: own_server_def buildChildMCPServer_def source_ok_def\<close>)
  then have "d_emits (server_effect R md) (snd ts)
      (snd (try_child server_dkit (qr_api R) md a (sc_childName c) (buildChildMCPServer md c (da_Namespace (qr_api R))) ts))" for a
    by (rule d_emits_mono) (simp add: server_effect_def)
  then show ?thesis by (simp add: write_source_def)
qed

lemma write_sources_emits:
  assumes "list_all (source_ok (d_Spec md)) cs"
  shows "d_emits (server_effect R md) (snd ts) (snd (fold (write_source R md ad) cs ts))"
  using assms
proof (induction cs arbitrary: ts)
  case (Cons c cs)
  then show ?case using d_emits_trans [OF write_source_emits [of md c R ts ad] Cons.IH [of "write_source R md ad c ts"]] by simp
qed simp

lemma server_refresh_emits:
  assumes "list_all (source_ok (d_Spec md)) cs"
  shows "d_emits (server_effect R md) s (snd (server_refresh R md skipped cs s))"
proof -
  obtain r s1 where w: "in_world (\<lambda>w. da_children (qr_api R) w (da_Namespace (qr_api R)) (Name (d_Meta md))) s = (r, s1)" by fastforce
  have e1: "d_emits (server_effect R md) s s1" by (rule in_world_emits [OF w])
  show ?thesis
  proof (cases r)
    case (Inr children)
    have ch: "da_children (qr_api R) (d_world s) (da_Namespace (qr_api R)) (Name (d_Meta md)) = (Inr children, d_world s1)"
      using in_world_log [OF w] Inr by (metis prod.collapse)
    let ?t = "start_tally server_dkit md children"
    obtain t s2 where l: "fold (write_source R md (map ch_Name (adopted server_dkit md children))) cs
        (?t\<lparr>ty_skipped := skipped @ ty_skipped ?t\<rparr>, s1) = (t, s2)" by fastforce
    have e2: "d_emits (server_effect R md) s1 s2"
      using write_sources_emits [OF assms, of R "(?t\<lparr>ty_skipped := skipped @ ty_skipped ?t\<rparr>, s1)"
          "map ch_Name (adopted server_dkit md children)"] l by simp
    obtain t' s3 where v: "vanish server_dkit (qr_api R) (ownedByThisDiscovery mcpServerDiscoveryKind md) md children (sort_tally t) s2 = (t', s3)"
      by fastforce
    have e3: "d_emits (server_effect R md) s2 s3"
      using d_emits_mono [OF vanish_deletes_own [OF ch, of server_dkit s2 "ownedByThisDiscovery mcpServerDiscoveryKind md" "sort_tally t"],
          of "server_effect R md"] v by (auto simp: server_effect_def writes_own_def)
    have e4: "d_emits (server_effect R md) s3 (snd (server_finish R md (length cs) t' s3))"
      by (rule d_emits_mono [OF server_finish_notes]) (rule server_effect_note)
    have "snd (server_refresh R md skipped cs s) = snd (server_finish R md (length cs) t' s3)"
      by (simp add: server_refresh_def w Inr l v Let_def)
    then show ?thesis using d_emits_trans [OF e1 d_emits_trans [OF e2 d_emits_trans [OF e3 e4]]] by simp
  qed (use e1 in \<open>simp add: server_refresh_def w\<close>)
qed

subsection \<open>The derivation\<close>

text \<open>What the loop knows after the objects \<open>xs\<close>, which come in descending order of their namespaces.\<close>

definition from_source :: "toolhive_object list \<Rightarrow> source_candidate \<Rightarrow> bool" where
  "from_source xs c \<longleftrightarrow> (\<exists>x \<in> set xs. to_Namespace x = sc_sourceNamespace c \<and> to_Name x = sc_sourceName c \<and>
     to_url x = sc_url c \<and> normalizeTransport (to_transport x) = Some (sc_transport c))"

definition derive_inv :: "MCPServerDiscoverySpec \<Rightarrow> toolhive_object list \<Rightarrow> derivation \<Rightarrow> bool" where
  "derive_inv sp xs d \<longleftrightarrow>
     (\<forall>n ns. map_of (dv_seen d) n = Some ns \<longrightarrow>
        length (server_child_name sp n) \<le> 63 \<and> (\<exists>x \<in> set xs. to_Namespace x = ns) \<and>
        (\<forall>x \<in> set xs. to_Name x = n \<and> to_Namespace x \<in> set (qp_Namespaces sp) \<longrightarrow> to_Namespace x \<le> ns)) \<and>
     (\<forall>x \<in> set xs. to_Namespace x \<in> set (qp_Namespaces sp) \<and> length (server_child_name sp (to_Name x)) \<le> 63 \<longrightarrow>
        map_of (dv_seen d) (to_Name x) \<noteq> None) \<and>
     distinct (map sc_sourceName (dv_candidates d)) \<and>
     (\<forall>c \<in> set (dv_candidates d). source_ok sp c \<and> from_source xs c \<and> map_of (dv_seen d) (sc_sourceName c) = Some (sc_sourceNamespace c)) \<and>
     length (dv_candidates d) + length (dv_skipped d) = length (filter (\<lambda>x. to_Namespace x \<in> set (qp_Namespaces sp)) xs)"

lemma normalizeTransport_range: "normalizeTransport raw = Some t \<Longrightarrow> t \<in> {''http'', ''sse''}"
  by (auto simp: normalizeTransport_def split: if_splits)

lemma from_source_snoc: "from_source (xs @ [x]) c \<longleftrightarrow> from_source xs c \<or>
   (to_Namespace x = sc_sourceNamespace c \<and> to_Name x = sc_sourceName c \<and> to_url x = sc_url c \<and>
    normalizeTransport (to_transport x) = Some (sc_transport c))"
  by (auto simp: from_source_def)

lemma derive_one_inv:
  assumes "derive_inv sp xs d" and "\<forall>x \<in> set xs. to_Namespace obj \<le> to_Namespace x"
  shows "derive_inv sp (xs @ [obj]) (derive_one sp obj d)"
proof -
  let ?N = "set (qp_Namespaces sp)" and ?n = "to_Name obj"
  consider (out) "to_Namespace obj \<notin> ?N" | (long) "to_Namespace obj \<in> ?N" "63 < length (server_child_name sp ?n)"
    | (dup) ns where "to_Namespace obj \<in> ?N" "length (server_child_name sp ?n) \<le> 63" "map_of (dv_seen d) ?n = Some ns"
    | (new) "to_Namespace obj \<in> ?N" "length (server_child_name sp ?n) \<le> 63" "map_of (dv_seen d) ?n = None"
    by (metis not_le option.exhaust)
  then show ?thesis
  proof cases
    case out
    then show ?thesis using assms(1) by (auto simp: derive_one_def Let_def derive_inv_def from_source_snoc)
  next
    case long
    have "map_of (dv_seen d) ?n \<noteq> Some ns" for ns
      using assms(1) long(2) unfolding derive_inv_def by fastforce
    then show ?thesis
      using assms(1) long by (auto simp: derive_one_def Let_def derive_inv_def from_source_snoc)
  next
    case dup
    have "\<exists>x \<in> set xs. to_Namespace x = ns" using assms(1) dup(3) unfolding derive_inv_def by blast
    then have "to_Namespace obj \<le> ns" using assms(2) by blast
    then show ?thesis
      using assms(1) dup by (auto simp: derive_one_def Let_def derive_inv_def from_source_snoc)
  next
    case new
    have fresh: "to_Namespace x \<notin> ?N" if "x \<in> set xs" "to_Name x = ?n" for x
      using assms(1) new(2,3) that unfolding derive_inv_def by metis
    have none: "?n \<notin> sc_sourceName ` set (dv_candidates d)"
      using assms(1) new(3) unfolding derive_inv_def by force
    show ?thesis
      using assms(1) new fresh none
      by (auto simp: derive_one_def Let_def derive_inv_def from_source_snoc map_of_put source_ok_def
          dest: normalizeTransport_range split: option.splits)
  qed
qed

lemma derive_fold_inv:
  assumes "derive_inv sp xs d" and "sorted_wrt (\<lambda>a b. to_Namespace b \<le> to_Namespace a) (xs @ ys)"
  shows "derive_inv sp (xs @ ys) (fold (derive_one sp) ys d)"
  using assms
proof (induction ys arbitrary: xs d)
  case (Cons y ys)
  have "derive_inv sp (xs @ [y]) (derive_one sp y d)"
    by (rule derive_one_inv [OF Cons.prems(1)]) (use Cons.prems(2) in \<open>simp add: sorted_wrt_append\<close>)
  then show ?case using Cons.IH [of "xs @ [y]"] Cons.prems(2) by simp
qed simp

lemma sort_desc_sorted: "sorted_wrt (\<lambda>a b. to_Namespace b \<le> to_Namespace a) (sort_desc raw)"
  using sorted_sort_key [of to_Namespace "sort_key to_Name raw"] unfolding sort_desc_def sorted_wrt_rev sorted_map by simp

lemma derive_invariant: "derive_inv sp (sort_desc raw) (derive sp raw)"
  using derive_fold_inv [of sp "[]" "\<lparr>dv_candidates = [], dv_skipped = [], dv_seen = [], dv_collisions = []\<rparr>" "sort_desc raw"]
  by (simp add: derive_def sort_desc_sorted) (simp add: derive_inv_def)

lemma mset_sort_desc: "mset (sort_desc raw) = mset raw"
  by (simp add: sort_desc_def)

lemma derive_sources_ok: "list_all (source_ok sp) (dv_candidates (derive sp raw))"
  using derive_invariant [of sp raw] by (auto simp: derive_inv_def list_all_iff)

subsection \<open>The live path\<close>

lemma server_entered_notes: "d_emits is_note s (snd (server_entered R md s))"
  by (simp add: server_entered_def status_update_notes)

lemma server_entered_same: "status_stable (qr_api R) \<Longrightarrow> same_discovery md (fst (server_entered R md s))"
  using status_update_same [of "qr_api R" "observe (set_condition (da_lib (qr_api R)) conditionTypeReady ConditionFalse reasonSyncing
           ''discovering upstream MCP servers'' md)" s]
  by (simp add: server_entered_def same_discovery_def observe_def set_condition_def)

lemma collision_same: "same_discovery md (setNameCollisionCondition K collisions md)"
  by (simp add: setNameCollisionCondition_def same_discovery_def set_condition_def)

lemma filter_sources_ok:
  "filter_sources R md cs s = (Next kept, s') \<Longrightarrow> list_all P cs \<Longrightarrow> list_all P kept"
  by (auto simp: filter_sources_def Let_def case_prod_beta list_all_iff split: option.splits sum.splits)

lemma sources_live_emits: "d_emits (server_effect R (fst (server_entered R md s))) s (snd (sources_live R md s))"
proof -
  obtain md1 s1 where en: "server_entered R md s = (md1, s1)" by fastforce
  have nt: "d_emits (server_effect R md1) a b" if "d_emits is_note a b" for a b
    by (rule d_emits_mono [OF that]) (rule server_effect_note)
  have e1: "d_emits (server_effect R md1) s s1" using nt [OF server_entered_notes [of s R md]] en by simp
  obtain r s2 where ls: "list_sources R md1 s1 = (r, s2)" by fastforce
  have e2: "d_emits (server_effect R md1) s s2" using d_emits_trans [OF e1 nt [OF list_sources_notes [of s1 R md1]]] ls by simp
  show ?thesis
  proof (cases r)
    case (Next raw)
    define d where "d = derive (d_Spec md1) raw"
    define md2 where "md2 = setNameCollisionCondition (da_lib (qr_api R)) (dv_collisions d) md1"
    obtain f s3 where fs: "filter_sources R md2 (dv_candidates d) s2 = (f, s3)" by fastforce
    have e3: "d_emits (server_effect R md1) s s3"
      using d_emits_trans [OF e2 nt [OF filter_sources_notes [of s2 R md2 "dv_candidates d"]]] fs by simp
    have same: "same_discovery md1 md2" by (simp add: md2_def collision_same)
    have ok: "list_all (source_ok (d_Spec md2)) kept" if "f = Next kept" for kept
      using filter_sources_ok [of R md2 "dv_candidates d" s2 kept s3 "source_ok (d_Spec md2)"] fs that same derive_sources_ok [of "d_Spec md1" raw]
      by (simp add: d_def same_discovery_def)
    have e4: "d_emits (server_effect R md1) s3 (snd (server_refresh R md2 sk kept s3))" if "f = Next kept" for sk kept
      by (rule d_emits_mono [OF server_refresh_emits [OF ok [OF that]]]) (simp add: same_discovery_server [OF same])
    have "snd (sources_live R md s) = (case f of Return v \<Rightarrow> s3 | Next kept \<Rightarrow> snd (server_refresh R md2 (dv_skipped d) kept s3))"
      by (simp add: sources_live_def en ls Next d_def [symmetric] md2_def [symmetric] fs Let_def split: flow.split)
    then show ?thesis using e3 d_emits_trans [OF e3 e4] by (simp add: en split: flow.split)
  next
    case (Return v)
    then show ?thesis using e2 by (simp add: sources_live_def en ls)
  qed
qed

interpretation msd: discovery_handler server_dkit "qr_api R" "server_note_drain R" "sources_live R" for R :: "'w MCPServerDiscoveryReconciler"
proof
  show "d_emits is_note s (server_note_drain R md m s)" for md m and s :: "'w msstate"
    by (simp add: server_note_drain_def status_update_notes)
  show "d_emits (\<lambda>e. (\<forall>fs. e \<noteq> DObjectUpdate fs) \<and> (\<forall>c. e \<noteq> ChildDelete c False)) s (snd (sources_live R md s))"
    for md and s :: "'w msstate"
    by (rule d_emits_mono [OF sources_live_emits]) (auto simp: server_effect_def writes_own_def deletes_own_def)
qed

lemma sources_own_effect:
  assumes "status_stable (qr_api R)"
    and "e \<in> set (drop (length (d_log s)) (d_log (snd (server_discovery_Reconcile R key s))))"
    and "e = ChildApply c \<or> e = ChildDelete c True"
  shows "\<exists>md w. kc_get (da_kube (qr_api R)) (d_world s) key = (Inr md, w) \<and> \<not> DeletionTimestamp (d_Meta md) \<and> server_effect R md e"
proof -
  define Q where "Q e' \<longleftrightarrow> (e' = e \<longrightarrow> (\<exists>md w. kc_get (da_kube (qr_api R)) (d_world s) key = (Inr md, w) \<and>
    \<not> DeletionTimestamp (d_Meta md) \<and> server_effect R md e))" for e'
  have "d_emits Q s (snd (discovery_Reconcile server_dkit (qr_api R) (server_note_drain R) (sources_live R) key s))"
  proof (rule msd.Reconcile_emits)
    fix md w and s' :: "'a msstate"
    assume "kc_get (da_kube (qr_api R)) (d_world s) key = (Inr md, w)" "\<not> DeletionTimestamp (d_Meta md)"
    then show "d_emits Q s' (snd (sources_live R md s'))"
      by (intro d_emits_mono [OF sources_live_emits]) (auto simp: Q_def same_discovery_server [OF server_entered_same [OF assms(1)]])
  qed (use assms(3) in \<open>auto simp: Q_def\<close>)
  then have "Q e" using d_emits_mem assms(2) unfolding server_discovery_Reconcile_def by blast
  then show ?thesis by (simp add: Q_def)
qed

subsection \<open>Properties\<close>

text \<open>
  C24.  Every source in a wanted namespace is accounted for, as a candidate or as a skipped one; the candidates have
  distinct child names of at most 63 characters, an address and a transport of the two the servers take; and where
  several namespaces have a source of one name, only the alphabetically last namespace's can be the candidate.
\<close>

theorem derive_alpha_last:
  "length (dv_candidates (derive sp raw)) + length (dv_skipped (derive sp raw)) =
     length (filter (\<lambda>x. to_Namespace x \<in> set (qp_Namespaces sp)) raw) \<and>
   distinct (map sc_childName (dv_candidates (derive sp raw))) \<and>
   (\<forall>c \<in> set (dv_candidates (derive sp raw)). source_ok sp c \<and> from_source raw c \<and>
      (\<forall>x \<in> set raw. to_Name x = sc_sourceName c \<and> to_Namespace x \<in> set (qp_Namespaces sp) \<longrightarrow> to_Namespace x \<le> sc_sourceNamespace c))"
proof -
  let ?d = "derive sp raw"
  have inv: "derive_inv sp (sort_desc raw) ?d" by (rule derive_invariant)
  have s: "set (sort_desc raw) = set raw" by (metis mset_sort_desc set_mset_mset)
  have l: "length (filter P (sort_desc raw)) = length (filter P raw)" for P
    by (metis mset_sort_desc mset_filter size_mset)
  have "distinct (map (server_child_name sp) (map sc_sourceName (dv_candidates ?d)))"
    using inv by (simp only: distinct_map derive_inv_def) (simp add: inj_on_def server_child_name_def)
  moreover have "map (server_child_name sp) (map sc_sourceName (dv_candidates ?d)) = map sc_childName (dv_candidates ?d)"
    using inv by (auto simp: derive_inv_def source_ok_def)
  ultimately have "distinct (map sc_childName (dv_candidates ?d))" by metis
  moreover have "source_ok sp c \<and> from_source raw c \<and>
      (\<forall>x \<in> set raw. to_Name x = sc_sourceName c \<and> to_Namespace x \<in> set (qp_Namespaces sp) \<longrightarrow> to_Namespace x \<le> sc_sourceNamespace c)"
    if "c \<in> set (dv_candidates ?d)" for c
    using inv that unfolding derive_inv_def s from_source_def by metis
  moreover have "length (dv_candidates ?d) + length (dv_skipped ?d) = length (filter (\<lambda>x. to_Namespace x \<in> set (qp_Namespaces sp)) raw)"
    using inv l unfolding derive_inv_def by simp
  ultimately show ?thesis by blast
qed


text \<open>
  The finalizer of an MCP server discovery goes only when the discovery is being deleted and no server with its label
  is left.
\<close>

theorem server_discovery_releases_drained:
  assumes "klib_laws (da_lib (qr_api R))"
    and "DObjectUpdate fs \<in> set (drop (length (d_log s)) (d_log (snd (server_discovery_Reconcile R key s))))"
    and "mcpServerDiscoveryFinalizer \<notin> set fs"
  shows "\<exists>md w w'. kc_get (da_kube (qr_api R)) (d_world s) key = (Inr md, w) \<and> DeletionTimestamp (d_Meta md) \<and>
    da_children (qr_api R) w (da_Namespace (qr_api R)) (Name (d_Meta md)) = (Inr [], w')"
  using msd.releases_only_drained [OF assms(1), of fs s key] assms(2,3) unfolding server_discovery_Reconcile_def by simp

subsubsection \<open>Concrete runs\<close>

definition example_source :: "string \<Rightarrow> toolhive_object" where
  "example_source ns = \<lparr>to_Namespace = ns, to_Name = ''x'', to_url = ''u'', to_transport = ''sse''\<rparr>"

definition example_sources_spec :: MCPServerDiscoverySpec where
  "example_sources_spec = \<lparr>qp_Prefix = ''p'', qp_Type = ''toolhive'', qp_Namespaces = [''a'', ''b''], qp_Kinds = [''MCPServer''],
     qp_Params = RawEmpty, qp_Secrets = [], qp_Filters = None, qp_Interval = 60\<rparr>"

definition example_sources :: "bool \<Rightarrow> MCPServerDiscoveryObject" where
  "example_sources deleting = \<lparr>d_Meta = disco_meta ''d'' [mcpServerDiscoveryFinalizer] deleting, d_UID = ''u'',
     d_Spec = example_sources_spec, d_Status = example_dstatus\<rparr>"

definition example_informer :: Informer where
  "example_informer = informer_Start (\<lambda>_. True) \<lparr>if_ready = False, if_kindReady = [], if_registered = []\<rparr>"

definition example_sources_R :: "MCPServerDiscoveryObject \<Rightarrow> unit MCPServerDiscoveryReconciler" where
  "example_sources_R md = \<lparr>qr_api = example_dapi md [] None,
     qr_informer = Some (thv_reader (\<lambda>w. example_informer) (\<lambda>w k. (Inr [example_source ''a'', example_source ''b''], w))),
     qr_compile = (\<lambda>pat. Inr (\<lambda>t. True))\<rparr>"

definition example_child_server :: server_child where
  "example_child_server = \<lparr>ch_Namespace = ''ns'', ch_Name = ''p-x'', ch_UID = '''', ch_ResourceVersion = '''',
     ch_DeletionTimestamp = False, ch_GeneratedBy = ''d'',
     ch_OwnerReferences = [\<lparr>ow_Kind = mcpServerDiscoveryKind, ow_Name = ''d'', ow_UID = ''u'', ow_Controller = Some True\<rparr>],
     ch_Finalizers = [mcpServerFinalizer],
     ch_Spec = \<lparr>ms_Endpoint = ''u'', ms_Transport = ''sse'', ms_Params = RawValue (JObj []), ms_Secrets = [], ms_DeletionPolicy = ''''\<rparr>\<rparr>"

theorem derive_alpha_last_witness:
  "map sc_sourceNamespace (dv_candidates (derive example_sources_spec [example_source ''a'', example_source ''b''])) = [''b'']"
proof -
  let ?d = "derive example_sources_spec [example_source ''a'', example_source ''b'']"
  have "length (dv_candidates ?d) = 1" by code_simp
  then obtain c where c: "dv_candidates ?d = [c]" by (cases "dv_candidates ?d") auto
  then have "''b'' \<le> sc_sourceNamespace c" "sc_sourceNamespace c = ''a'' \<or> sc_sourceNamespace c = ''b''"
    using derive_alpha_last [of example_sources_spec "[example_source ''a'', example_source ''b'']"]
    by (auto simp: example_source_def example_sources_spec_def from_source_def)
  moreover have "\<not> ''b'' \<le> ''a''" by code_simp
  ultimately have "sc_sourceNamespace c = ''b''" by metis
  then show ?thesis by (simp add: c)
qed

lemma example_sources_writes:
  "ChildApply example_child_server \<in> set (drop (length (d_log (empty_dstate :: unit msstate)))
      (d_log (snd (server_discovery_Reconcile (example_sources_R (example_sources False)) (''ns'', ''d'') empty_dstate))))"
  by code_simp

lemma example_sources_stable: "status_stable (qr_api (example_sources_R md))"
  by (simp add: example_sources_R_def)


theorem server_discovery_releases_drained_witness:
  "DeletionTimestamp (d_Meta (example_sources True))"
proof -
  let ?R = "example_sources_R (example_sources True)"
  have "DObjectUpdate [] \<in> set (drop (length (d_log (empty_dstate :: unit msstate)))
      (d_log (snd (server_discovery_Reconcile ?R (''ns'', ''d'') empty_dstate))))"
    by code_simp
  from server_discovery_releases_drained [OF _ this] show ?thesis by (simp add: example_sources_R_def klib_std_laws)
qed

end
