(* ===== verification/Spec2Isabelle.thy ===== *)
theory Spec2Isabelle
  imports Model_Group_Budget Normalize Filters Conflict Cache_Race List_Cache Model_Properties Model_Alias Litellm_Endpoints
    Alias_Controller Mcp_Toolset Watches Team Mcp_Server A2a_Agent Guardrail
    Model_Discovery Mcp_Discovery
begin

text \<open>
  A verification development for the alitellm operator, a Kubernetes operator in Go that keeps a LiteLLM proxy in
  the state that custom resources describe.  Paths below are under \<^verbatim>\<open>src/\<close>.

  \<^bold>\<open>The program.\<close>  One controller watches the connection object, probes LiteLLM and publishes a snapshot (client and
  readiness) in a cache.  Every other controller reads that snapshot, renders its object, and creates, updates or
  deletes the matching entry in LiteLLM: models, model aliases, model-group budgets, access groups, teams, MCP servers,
  MCP toolsets, agents, guardrails.  Two discovery controllers never call LiteLLM: they list an upstream catalogue
  or the ToolHive objects of the cluster and keep one child object per entry, which the controllers above then
  project.  Deletion goes through finalizers: an object stays until its LiteLLM entry is gone, unless its policy
  lets it go.

  \<^bold>\<open>Libraries.\<close>
  \<^item> \<open>Prelude\<close>, \<open>Json_Value\<close>, \<open>Params\<close>, \<open>Kube\<close>: strings, maps, JSON values, free-form parameters, the Kubernetes vocabulary.
  \<^item> \<open>Normalize\<close>, \<open>Filters\<close>, \<open>Substitution\<close>, \<open>Conflict\<close>, \<open>Deletion_Policy\<close>: the packages \<^verbatim>\<open>internal/normalize\<close>,
    \<^verbatim>\<open>internal/filters\<close>, \<^verbatim>\<open>internal/substitution\<close>, \<^verbatim>\<open>internal/controller/conflict\<close>, \<^verbatim>\<open>internal/controller/deletionpolicy\<close>.
  \<^item> \<open>Churn_Guard\<close>, \<open>Rejected_Message\<close>, \<open>Watches\<close>: the recreate breaker, the text of a rejection, what wakes a controller
    (\<^verbatim>\<open>churn_guard.go\<close>, \<^verbatim>\<open>rejected_message.go\<close>, \<^verbatim>\<open>predicates.go\<close>, \<^verbatim>\<open>connection_fanin.go\<close>, \<^verbatim>\<open>bootsweep.go\<close>).

  \<^bold>\<open>The LiteLLM client\<close> (\<^verbatim>\<open>internal/litellm\<close>).  \<open>Litellm_Client\<close> has the one request path all calls take and its error
  classes; \<open>Litellm_Model\<close>, \<open>Litellm_Endpoints\<close> and the theories of the kinds have the endpoints; \<open>Endpoint\<close> the address
  checks; \<open>List_Cache\<close> the memo of two LIST calls, as a step relation over any number of goroutines.

  \<^bold>\<open>The connection\<close> (\<^verbatim>\<open>internal/connection\<close>).  \<open>Connection\<close> is the cache with sequential operations and its invariant,
  \<open>Cache_Race\<close> the same cache with each atomic operation a step, \<open>Connection_Controller\<close> the controller that feeds it.

  \<^bold>\<open>The controllers\<close> (\<^verbatim>\<open>internal/controller\<close>).  A reconcile is a function from a state (world, log of effects, cache,
  breaker) to a verdict and a new state; each numbered step of the Go function is one definition.  \<open>Shared_Helpers\<close>
  has the state and the shared helpers, \<open>Controller_Kit\<close> and \<open>Secret_Steps\<close> the steps five controllers repeat.
  \<open>Model_Controller\<close> with \<open>Model_Properties\<close>, \<open>Alias_Controller\<close> on \<open>Model_Alias\<close>, \<open>Model_Group_Budget\<close>, \<open>Access_Group\<close>,
  \<open>Mcp_Toolset\<close>, \<open>Team\<close>, \<open>Mcp_Server\<close>, \<open>A2a_Agent\<close>, \<open>Guardrail\<close> are the controllers, one theory per Go file.

  \<^bold>\<open>Discovery.\<close>  \<open>Providers\<close> is \<^verbatim>\<open>internal/providers\<close>, \<open>Toolhive\<close> is \<^verbatim>\<open>internal/toolhive\<close>; \<open>Discovery_Base\<close> has what the two
  discovery controllers have in common, \<open>Model_Discovery\<close> and \<open>Mcp_Discovery\<close> the two controllers.

  \<^bold>\<open>What is shown.\<close>
  \<^item> Deletion: exactly when a finalizer may go, for models and access groups; what a delete may hit, for access groups,
    teams, MCP servers, guardrails; discoveries delete on the live path only children they control.
  \<^item> Writes: a steady model causes no mutation, at most one model is created per reconcile, the breaker bounds the rate of
    recreation, a team is never open, only the winner of a contested server name writes, a child is written only
    after its name was read as free or own.
  \<^item> Refinement: repeated budget reconciles reach the state the abstract specification names.
  \<^item> Concurrency: a cached read sees the caller's own writes; the connection cache keeps its invariant in every
    reachable state; a reachable interleaving that loses a wake-up.
  \<^item> Data: round trips, filters, overlays, classification of replies, termination and completeness of paged
    listings, no secret value in a cluster-visible text.
  \<^item> Deviations of the code from what it means to do are theorems as well, named in the manifest's findings.

  \<^bold>\<open>Interfaces.\<close>  The locales \<open>canonical_form\<close>, \<open>tie_break\<close>, \<open>connection_cache\<close>, \<open>request_path\<close>, \<open>sliding_window\<close>,
  \<open>handler\<close> and \<open>discovery_handler\<close> state what a client may rely on; each is interpreted on the definitions of the model,
  \<open>handler\<close> for five controllers and \<open>discovery_handler\<close> for two.

  \<^bold>\<open>Parameters.\<close>  Code outside the repository is an argument: the HTTP transport and LiteLLM, the Kubernetes client
  and its informer caches, the condition and finalizer helpers (\<open>klib\<close>, with \<open>klib_laws\<close> as the documented
  behaviour), regular expressions given by users, URL, IP and IDNA parsers, SHA-256, the AWS SDK, the OAuth exchange
  and the clock.  Hypotheses on them are named definitions, and each theorem with a hypothesis has a witness
  that instantiates them.

  \<^bold>\<open>Bounds.\<close>  Paged listings stop at a thousand pages, as in the code: the recursion is on the pages left, so it
  needs no fuel.  The number of conflict retries of a status write is a parameter.  The epoch of the LIST cache is a
  64-bit word, and freshness is claimed until it wraps; counts in a discovery status are reduced to 32 bits.  Durations
  are integers in nanoseconds.

  \<^bold>\<open>Not modelled.\<close>  The registration of watches (\<^verbatim>\<open>SetupWithManager\<close>) and the wiring in \<^verbatim>\<open>cmd/main.go\<close>, which only call
  controller-runtime; the generated deep-copy methods; log lines; the mock server used by tests; the seams for tests;
  the goroutines that copy channels into work queues.
\<close>

subsection \<open>Generated objects meet their own controllers\<close>

text \<open>
  The metadata the child's own controller reads: what the discovery wrote, and whatever generation,
  deletion mark and annotations the API server and the user added since.
\<close>

definition child_meta :: "'c child \<Rightarrow> int \<Rightarrow> bool \<Rightarrow> string gomap \<Rightarrow> ObjectMeta" where
  "child_meta c gen deleting annotations =
     \<lparr>Namespace = ch_Namespace c, Name = ch_Name c, Generation = gen, DeletionTimestamp = deleting, Finalizers = ch_Finalizers c,
      Annotations = annotations,
      OwnerReferences = map (\<lambda>r. \<lparr>or_Kind = ow_Kind r, or_Name = ow_Name r, or_Controller = ow_Controller r\<rparr>) (ch_OwnerReferences c)\<rparr>"

lemma own_child_orphan: "own_child R md c \<Longrightarrow> Resolve (child_meta c gen deleting as) p = Orphan \<and> modelFinalizer \<in> set (ch_Finalizers c)"
  by (auto simp: own_child_def child_meta_def Resolve_def isDiscoveryOwned_iff discoveryOwnerKinds_def modelDiscoveryKind_def)

lemma own_server_orphan: "own_server R md c \<Longrightarrow> Resolve (child_meta c gen deleting as) p = Orphan \<and> mcpServerFinalizer \<in> set (ch_Finalizers c)"
  by (auto simp: own_server_def child_meta_def Resolve_def isDiscoveryOwned_iff discoveryOwnerKinds_def mcpServerDiscoveryKind_def)



end
